(* ===== verification/Prelude.thy ===== *)
theory Prelude
  imports Main "HOL-Library.Word" "HOL-Library.Multiset"
begin

text \<open>
  The shared vocabulary of the development: machine integers, Go error values with
  \<open>errors.Is\<close>, \<open>errors.As\<close> and \<open>errors.Wrap\<close>, effectful operations as functions on a
  world, the loops of the source as folds over a world, and the generic lemmas the component
  theories rest on.

  An operation with effects is a function \<open>'w \<Rightarrow> 'a \<times> 'w\<close> on a world \<open>'w\<close>. Code that is not
  under \<open>src/\<close> (the zosbase packages, the registrar client, the persisted queue, the file system
  tools) is an argument of this shape; the world stays abstract, so nothing is assumed about it
  except what a theorem names. Log calls have no effect in the model.
\<close>

text \<open>
  The collections of the development: the definitions of the registrar gateway's calls, and those of
  the calls of Go's \<open>os\<close> package.
\<close>

named_theorems gateway_simps
named_theorems os_simps

section \<open>Machine integers\<close>

type_synonym u32 = "32 word"
type_synonym u64 = "64 word"
type_synonym byte = "8 word"

section \<open>Go error values\<close>

text \<open>
  The result states of a workload, \<open>gridtypes.ResultState\<close>: the constants the repository
  names, and any other string. The zero value is \<open>StateOther ''''\<close>.
\<close>

datatype result_state =
    StateOk
  | StateError
  | StateDeleted
  | StatePaused
  | StateUnChanged
  | StateOther string

text \<open>The package-level error values that the repository compares with \<open>errors.Is\<close>.\<close>

datatype sentinel =
    ErrNoActionNeeded
  | ErrWorkloadNotExist
  | ErrDeploymentNotExists
  | ErrInvalidVersion
  | ErrDeploymentUpgradeValidationError
  | ErrRestartNeeded
  | ErrInProgress
  | ErrFailed
  | ContextCanceled
  | ErrFlagNotFound
  | ErrNotSupported
  | ErrorNodeNotFound
  | ErrAlreadyMonitored
  | EROFS
  | EPERM
  | EIO
  | ErrNotExist
  | ErrExist
  | ErrSkipDir
  | ErrMetaNotFound
  | ErrKeyDoesNotExist

text \<open>
  A non-nil \<open>error\<close>. \<open>ErrMsg\<close> is \<open>fmt.Errorf\<close> or \<open>errors.New\<close>; \<open>Sentinel\<close> a package-level
  value with its text; \<open>Wrapped e m\<close> is \<open>errors.Wrap(e, m)\<close> (or \<open>fmt.Errorf("m: %w", e)\<close>);
  \<open>Response\<close> is the pointer type \<open>*response\<close> of \<open>pkg/provision/provisiner.go\<close>, which wraps an
  optional cause. The nil error is \<open>None :: goerr option\<close>.
\<close>

datatype goerr =
    ErrMsg string
  | Sentinel sentinel string
  | Wrapped goerr string
  | Response result_state "goerr option"

text \<open>\<open>errors.Is(err, target)\<close> for a package-level target: walk the \<open>Unwrap\<close> chain.\<close>

fun errors_is :: "goerr \<Rightarrow> sentinel \<Rightarrow> bool" where
  "errors_is (ErrMsg m) t = False"
| "errors_is (Sentinel s m) t = (s = t)"
| "errors_is (Wrapped e m) t = errors_is e t"
| "errors_is (Response s None) t = False"
| "errors_is (Response s (Some e)) t = errors_is e t"

text \<open>\<open>errors.As(err, &resp)\<close> for \<open>*response\<close>: the first response on the chain, its state.\<close>

fun errors_as_response :: "goerr \<Rightarrow> result_state option" where
  "errors_as_response (ErrMsg m) = None"
| "errors_as_response (Sentinel s m) = None"
| "errors_as_response (Wrapped e m) = errors_as_response e"
| "errors_as_response (Response s c) = Some s"

text \<open>\<open>err.Error()\<close>.\<close>

fun err_text :: "goerr \<Rightarrow> string" where
  "err_text (ErrMsg m) = m"
| "err_text (Sentinel s m) = m"
| "err_text (Wrapped e m) = m @ '': '' @ err_text e"
| "err_text (Response s None) = []"
| "err_text (Response s (Some e)) = err_text e"

text \<open>\<open>errors.Wrap(err, m)\<close>: nil stays nil, which several callers trip over.\<close>

definition errors_wrap :: "goerr option \<Rightarrow> string \<Rightarrow> goerr option" where
  "errors_wrap e m = map_option (\<lambda>e. Wrapped e m) e"

lemma errors_wrap_simps [simp]:
  "errors_wrap None m = None"
  "errors_wrap (Some e) m = Some (Wrapped e m)"
  "errors_wrap e' m = None \<longleftrightarrow> e' = None"
  by (auto simp: errors_wrap_def)

text \<open>\<open>errors.Is\<close> on an \<open>error\<close> variable, which may be nil.\<close>

definition is_err :: "goerr option \<Rightarrow> sentinel \<Rightarrow> bool" where
  "is_err e t = (case e of None \<Rightarrow> False | Some x \<Rightarrow> errors_is x t)"

lemma is_err_simps [simp]:
  "is_err None t = False"
  "is_err (Some x) t = errors_is x t"
  by (simp_all add: is_err_def)

section \<open>Effects and loops\<close>

type_synonym ('w, 'a) eff = "'w \<Rightarrow> 'a \<times> 'w"
type_synonym 'a res = "goerr + 'a"

text \<open>
  A \<open>for range\<close> loop whose body returns an error that ends the enclosing function:
  the first non-nil error is returned, with the world reached there.
\<close>

fun for_err :: "('a \<Rightarrow> ('w, goerr option) eff) \<Rightarrow> 'a list \<Rightarrow> ('w, goerr option) eff" where
  "for_err f [] w = (None, w)"
| "for_err f (x # xs) w =
     (case f x w of
        (Some e, w') \<Rightarrow> (Some e, w')
      | (None, w') \<Rightarrow> for_err f xs w')"

text \<open>
  A \<open>for range\<close> loop that logs the error of its body and goes on: the world of one pass after
  another, and whether some pass failed.
\<close>

fun for_log :: "('a \<Rightarrow> ('w, goerr option) eff) \<Rightarrow> 'a list \<Rightarrow> ('w, bool) eff" where
  "for_log f [] w = (False, w)"
| "for_log f (x # xs) w =
     (let (e, w') = f x w; (b, w'') = for_log f xs w'
      in (e \<noteq> None \<or> b, w''))"

lemma for_log_fst_snd:
  "fst (for_log f (x # xs) w) \<longleftrightarrow> fst (f x w) \<noteq> None \<or> fst (for_log f xs (snd (f x w)))"
  "snd (for_log f (x # xs) w) = snd (for_log f xs (snd (f x w)))"
  by (simp_all add: Let_def case_prod_beta)

lemma for_log_append:
  "for_log f (xs @ ys) w =
     (let (a, w') = for_log f xs w; (b, w'') = for_log f ys w' in (a \<or> b, w''))"
  by (induction xs arbitrary: w) (auto simp: Let_def split: prod.splits)

lemma for_log_concat:
  "for_log (\<lambda>xs w. case for_log f xs w of (b, w') \<Rightarrow> (if b then Some e else None, w')) xss w
     = for_log f (concat xss) w"
  by (induction xss arbitrary: w) (auto simp: for_log_append Let_def split: prod.splits)

lemma for_log_snd_fold: "snd (for_log f xs w) = fold (\<lambda>x w. snd (f x w)) xs w"
  by (induction xs arbitrary: w) (simp_all add: for_log_fst_snd del: for_log.simps(2))

lemma for_log_inv:
  assumes "\<And>x w. x \<in> set xs \<Longrightarrow> P w \<Longrightarrow> P (snd (f x w))" and "P w"
  shows "P (snd (for_log f xs w))"
  using assms
proof (induction xs arbitrary: w)
  case (Cons x xs)
  then show ?case by (simp add: for_log_fst_snd del: for_log.simps(2))
qed simp

lemma for_err_append:
  "for_err f (xs @ ys) w =
     (case for_err f xs w of
        (Some e, w') \<Rightarrow> (Some e, w')
      | (None, w') \<Rightarrow> for_err f ys w')"
  by (induction xs arbitrary: w) (auto split: prod.splits option.splits)

lemma for_err_inv:
  assumes "\<And>x w. x \<in> set xs \<Longrightarrow> P w \<Longrightarrow> P (snd (f x w))" and "P w"
  shows "P (snd (for_err f xs w))"
  using assms
proof (induction xs arbitrary: w)
  case (Cons x xs)
  have step: "P (snd (f x w))" using Cons.prems by simp
  then have "P (snd (for_err f xs (snd (f x w))))" using Cons by simp
  with step show ?case by (auto split: prod.splits option.splits)
qed simp

lemma for_err_none_all:
  assumes "\<And>x w. x \<in> set xs \<Longrightarrow> fst (f x w) = None"
  shows "fst (for_err f xs w) = None"
  using assms
proof (induction xs arbitrary: w)
  case (Cons x xs)
  then have "fst (f x w) = None" and "fst (for_err f xs (snd (f x w))) = None" by simp_all
  then show ?case by (cases "f x w") simp
qed simp

lemma fold_inv:
  assumes "\<And>x w. x \<in> set xs \<Longrightarrow> P w \<Longrightarrow> P (f x w)" and "P w"
  shows "P (fold f xs w)"
  using assms by (induction xs arbitrary: w) auto

text \<open>An operation that does not change the part of the world that \<open>cur\<close> reads.\<close>

definition quiet :: "('w \<Rightarrow> 'v) \<Rightarrow> ('w, 'a) eff \<Rightarrow> bool" where
  "quiet cur f \<longleftrightarrow> (\<forall>w. cur (snd (f w)) = cur w)"

lemma quietD: "quiet cur f \<Longrightarrow> f w = (r, w') \<Longrightarrow> cur w' = cur w"
  by (metis quiet_def snd_conv)

section \<open>Retries\<close>

text \<open>
  \<open>backoff.Retry\<close> is a library call, so a definition that uses it takes it as an argument \<open>ret\<close>.
  \<open>retry_run n f\<close> is what its documentation promises of a policy that allows \<open>n\<close> retries: the
  operation runs until it returns nil, at most \<open>n + 1\<close> times, and the last error is returned.
\<close>

fun retry_run :: "nat \<Rightarrow> ('w, goerr option) eff \<Rightarrow> ('w, goerr option) eff" where
  "retry_run 0 f w = f w"
| "retry_run (Suc n) f w =
     (case f w of
        (None, w') \<Rightarrow> (None, w')
      | (Some e, w') \<Rightarrow> retry_run n f w')"

definition retry_laws :: "(('w, goerr option) eff \<Rightarrow> ('w, goerr option) eff) \<Rightarrow> bool" where
  "retry_laws ret \<longleftrightarrow> (\<forall>f w. \<exists>n. ret f w = retry_run n f w)"

lemma retry_run_inv:
  assumes "\<And>w. P w \<Longrightarrow> P (snd (f w))" and "P w"
  shows "P (snd (retry_run n f w))"
  using assms
proof (induction n arbitrary: w)
  case (Suc n)
  then have "P (snd (f w))" by simp
  with Suc show ?case by (cases "f w") (auto split: option.splits)
qed simp

text \<open>A retry loop returns nil only where one of its attempts did, in some world it reached.\<close>

lemma retry_run_none:
  assumes "retry_run n f w = (None, w')"
  shows "\<exists>v. f v = (None, w')"
  using assms
proof (induction n arbitrary: w)
  case (Suc n)
  then show ?case by (cases "f w") (auto split: option.splits)
qed auto

lemma retry_laws_none:
  assumes "retry_laws ret" and "ret f w = (None, w')"
  shows "\<exists>v. f v = (None, w')"
  using assms retry_run_none by (metis retry_laws_def)

lemma retry_laws_refl: "retry_laws (retry_run n)"
  by (auto simp: retry_laws_def)

section \<open>Lists\<close>

text \<open>
  Positions of a type in a startup order: the code stores \<open>len(ordered)\<close> right after the
  append, so positions start from 1.
\<close>

lemma index_of_distinct:
  assumes "distinct xs" and "i < length xs" and "j < length xs" and "xs ! i = xs ! j"
  shows "i = j"
  using assms by (simp add: nth_eq_iff_index_eq)

end
