(* ===== verification/Gridtypes.thy ===== *)
theory Gridtypes
  imports Go_Std
begin

text \<open>
  The vocabulary of \<open>zosbase/pkg/gridtypes\<close> and \<open>zosbase/pkg/provision\<close> as this repository
  uses it. The packages themselves are not part of the repository, so only the shape of their
  data (the fields that code under \<open>src/\<close> reads or writes) is fixed here; every function of
  theirs is a field of one of the parameter records below and is passed to the definitions that
  call it. What a theorem needs of them it takes as a named hypothesis:
  \<open>gridtypes_laws\<close>, \<open>storage_laws\<close>, \<open>dque_laws\<close>.
\<close>

section \<open>Workloads and deployments\<close>

type_synonym workload_type = string
type_synonym name = string

record result =
  r_Created :: int
  r_State :: result_state
  r_Error :: string
  r_Data :: string

text \<open>The zero value of \<open>gridtypes.Result\<close>.\<close>

definition zero_result :: result where
  "zero_result = \<lparr>r_Created = 0, r_State = StateOther [], r_Error = [], r_Data = []\<rparr>"

record workload =
  wl_Name :: name
  wl_Type :: workload_type
  wl_Data :: string
  wl_Result :: result

text \<open>\<open>gridtypes.WorkloadWithID\<close>: a workload and its global id, a string.\<close>

record workload_with_id =
  wid_Workload :: workload
  wid_ID :: string

record deployment =
  dl_Version :: u32
  dl_TwinID :: u32
  dl_ContractID :: u64
  dl_Metadata :: string
  dl_Description :: string
  dl_SignatureRequirement :: string
  dl_Workloads :: "workload list"

datatype upgrade_op_kind = OpRemove | OpAdd | OpUpdate

record upgrade_op =
  up_WlID :: workload_with_id
  up_Op :: upgrade_op_kind

text \<open>\<open>gridtypes.Capacity\<close>; the units are 64-bit and wrap.\<close>

record capacity =
  c_CRU :: u64
  c_SRU :: u64
  c_HRU :: u64
  c_MRU :: u64

text \<open>
  What \<open>Workload.WorkloadData\<close> returns, an interface value that callers switch on: the types
  the repository names, and any other. A machine carries its interfaces as (network, address)
  pairs.
\<close>

datatype workload_data =
    DataZMount u64
  | DataVolume u64
  | DataZMachine "(name \<times> string) list"
  | DataOther string

section \<open>The functions of gridtypes\<close>

record gridtypes =
  gt_Types :: "workload_type list"
  gt_ZMountType :: workload_type
  gt_VolumeType :: workload_type
  gt_ZMachineType :: workload_type
  gt_PublicIPv4Type :: workload_type
  gt_PublicIPType :: workload_type
  gt_Parts :: "string \<Rightarrow> (u32 \<times> u64 \<times> name) \<times> goerr option"
  gt_ByType :: "deployment \<Rightarrow> workload_type list \<Rightarrow> workload_with_id list"
  gt_Upgrade :: "deployment \<Rightarrow> deployment \<Rightarrow> upgrade_op list res"
  gt_WithResults :: "workload \<Rightarrow> result \<Rightarrow> workload"
  gt_IsOkay :: "result_state \<Rightarrow> bool"
  gt_IsAny :: "result_state \<Rightarrow> result_state list \<Rightarrow> bool"
  gt_IsActive :: "deployment \<Rightarrow> bool"
  gt_Valid :: "deployment \<Rightarrow> goerr option"
  gt_ChallengeHash :: "deployment \<Rightarrow> byte list res"
  gt_WorkloadData :: "workload \<Rightarrow> workload_data res"
  gt_Capacity :: "workload \<Rightarrow> capacity res"
  gt_UncheckedID :: "u32 \<Rightarrow> u64 \<Rightarrow> name \<Rightarrow> string"
  gt_PublicIP :: "result \<Rightarrow> string option res"
  \<comment> \<open>\<open>Result.Unmarshal\<close> into a \<open>PublicIPResult\<close>: its address, if it has one\<close>

text \<open>
  What the engine relies on: \<open>IsAny\<close> is membership, \<open>ByType\<close> returns the deployment's
  workloads of the given types with ids that parse back to it, \<open>WithResults\<close> replaces the
  result and nothing else.
\<close>

definition gridtypes_laws :: "gridtypes \<Rightarrow> bool" where
  "gridtypes_laws gt \<longleftrightarrow>
     (\<forall>s ss. gt_IsAny gt s ss = (s \<in> set ss)) \<and>
     (\<forall>d ts. map wid_Workload (gt_ByType gt d ts) = filter (\<lambda>w. wl_Type w \<in> set ts) (dl_Workloads d)) \<and>
     (\<forall>d ts. \<forall>x \<in> set (gt_ByType gt d ts).
        gt_Parts gt (wid_ID x) = ((dl_TwinID d, dl_ContractID d, wl_Name (wid_Workload x)), None)) \<and>
     (\<forall>w r. gt_WithResults gt w r = w\<lparr>wl_Result := r\<rparr>)"

lemma gridtypes_lawsD:
  assumes "gridtypes_laws gt"
  shows "gt_IsAny gt s ss = (s \<in> set ss)"
    and "map wid_Workload (gt_ByType gt d ts) = filter (\<lambda>w. wl_Type w \<in> set ts) (dl_Workloads d)"
    and "x \<in> set (gt_ByType gt d ts) \<Longrightarrow>
           gt_Parts gt (wid_ID x) = ((dl_TwinID d, dl_ContractID d, wl_Name (wid_Workload x)), None)"
    and "gt_WithResults gt w r = w\<lparr>wl_Result := r\<rparr>"
  using assms by (auto simp: gridtypes_laws_def)

section \<open>Storage\<close>

text \<open>The fields that \<open>Storage.Update\<close> can change.\<close>

datatype field =
    VersionField u32
  | SignatureRequirementField string
  | DescriptionField string
  | MetadataField string

record 'w storage =
  st_Create :: "deployment \<Rightarrow> ('w, goerr option) eff"
  st_Update :: "u32 \<Rightarrow> u64 \<Rightarrow> field list \<Rightarrow> ('w, goerr option) eff"
  st_Delete :: "u32 \<Rightarrow> u64 \<Rightarrow> ('w, goerr option) eff"
  st_Get :: "u32 \<Rightarrow> u64 \<Rightarrow> ('w, deployment res) eff"
  st_Error :: "u32 \<Rightarrow> u64 \<Rightarrow> goerr \<Rightarrow> ('w, goerr option) eff"
  st_Add :: "u32 \<Rightarrow> u64 \<Rightarrow> workload \<Rightarrow> ('w, goerr option) eff"
  st_Remove :: "u32 \<Rightarrow> u64 \<Rightarrow> name \<Rightarrow> ('w, goerr option) eff"
  st_Transaction :: "u32 \<Rightarrow> u64 \<Rightarrow> workload \<Rightarrow> ('w, goerr option) eff"
  st_Changes :: "u32 \<Rightarrow> u64 \<Rightarrow> ('w, (workload list) res) eff"
  st_Current :: "u32 \<Rightarrow> u64 \<Rightarrow> name \<Rightarrow> ('w, workload res) eff"
  st_Twins :: "('w, (u32 list) res) eff"
  st_ByTwin :: "u32 \<Rightarrow> ('w, (u64 list) res) eff"
  st_ActiveDeployments :: "('w, (deployment list) res) eff"
  \<comment> \<open>\<open>Storage.Capacity().Deployments\<close>\<close>

text \<open>
  The view of a storage that the workload operations are specified against: the last
  transaction of every workload, by twin, contract and name. \<open>storage_laws\<close> is the documented
  contract of \<open>Current\<close>, \<open>Add\<close>, \<open>Transaction\<close> and \<open>Remove\<close>: \<open>Current\<close> reads the view and
  changes nothing (an absent workload is \<open>ErrWorkloadNotExist\<close>, any other error tells nothing);
  the three writers, where they succeed, change the entry of their own workload only; an
  operation that fails leaves the view alone.
\<close>

type_synonym wl_key = "u32 \<times> u64 \<times> name"

definition storage_laws :: "'w storage \<Rightarrow> ('w \<Rightarrow> wl_key \<rightharpoonup> workload) \<Rightarrow> bool" where
  "storage_laws st cur \<longleftrightarrow>
     (\<forall>t d n w r w'. st_Current st t d n w = (r, w') \<longrightarrow> cur w' = cur w \<and>
        (case r of Inr x \<Rightarrow> cur w (t, d, n) = Some x
         | Inl e \<Rightarrow> errors_is e ErrWorkloadNotExist \<longrightarrow> cur w (t, d, n) = None)) \<and>
     (\<forall>t d x w e w'. st_Add st t d x w = (e, w') \<longrightarrow>
        cur w' = (if e = None then (cur w)((t, d, wl_Name x) \<mapsto> x) else cur w)) \<and>
     (\<forall>t d x w e w'. st_Transaction st t d x w = (e, w') \<longrightarrow>
        cur w' = (if e = None then (cur w)((t, d, wl_Name x) \<mapsto> x) else cur w)) \<and>
     (\<forall>t d n w e w'. st_Remove st t d n w = (e, w') \<longrightarrow>
        cur w' = (if e = None then (cur w)((t, d, n) := None) else cur w))"

lemma storage_lawsD:
  assumes "storage_laws st cur"
  shows "st_Current st t d n w = (r, w') \<Longrightarrow> cur w' = cur w"
    and "st_Current st t d n w = (Inr x, w') \<Longrightarrow> cur w (t, d, n) = Some x"
    and "st_Current st t d n w = (Inl e, w') \<Longrightarrow> errors_is e ErrWorkloadNotExist
           \<Longrightarrow> cur w (t, d, n) = None"
    and "st_Add st t d y w = (None, w') \<Longrightarrow> cur w' = (cur w)((t, d, wl_Name y) \<mapsto> y)"
    and "st_Add st t d y w = (Some e, w') \<Longrightarrow> cur w' = cur w"
    and "st_Transaction st t d y w = (None, w') \<Longrightarrow> cur w' = (cur w)((t, d, wl_Name y) \<mapsto> y)"
    and "st_Transaction st t d y w = (Some e, w') \<Longrightarrow> cur w' = cur w"
    and "st_Remove st t d n w = (None, w') \<Longrightarrow> cur w' = (cur w)((t, d, n) := None)"
    and "st_Remove st t d n w = (Some e, w') \<Longrightarrow> cur w' = cur w"
  using assms unfolding storage_laws_def by (fastforce)+

section \<open>Persisted queues\<close>

text \<open>
  \<open>dque.DQue\<close>, the persisted queue of the engine and of the capacity reporter, with its
  documented behaviour: \<open>Enqueue\<close> appends, \<open>PeekBlock\<close> returns the first item and leaves it,
  \<open>Dequeue\<close> removes it; a failing call leaves the queue alone. Where the queue is empty
  \<open>PeekBlock\<close> blocks, so a world in which it returned a value has an item.
\<close>

record ('w, 'a) dque =
  q_Enqueue :: "'a \<Rightarrow> ('w, goerr option) eff"
  q_Dequeue :: "('w, 'a res) eff"
  q_PeekBlock :: "('w, 'a res) eff"

definition dque_laws :: "('w, 'a) dque \<Rightarrow> ('w \<Rightarrow> 'a list) \<Rightarrow> bool" where
  "dque_laws q items \<longleftrightarrow>
     (\<forall>x w e w'. q_Enqueue q x w = (e, w') \<longrightarrow>
        items w' = (if e = None then items w @ [x] else items w)) \<and>
     (\<forall>w r w'. q_PeekBlock q w = (r, w') \<longrightarrow> items w' = items w \<and>
        (case r of Inr x \<Rightarrow> \<exists>xs. items w = x # xs | Inl e \<Rightarrow> True)) \<and>
     (\<forall>w r w'. q_Dequeue q w = (r, w') \<longrightarrow>
        (case r of Inr x \<Rightarrow> items w = x # items w' | Inl e \<Rightarrow> items w' = items w))"

lemma dque_lawsD:
  assumes "dque_laws q items"
  shows "q_Enqueue q x w = (None, w') \<Longrightarrow> items w' = items w @ [x]"
    and "q_Enqueue q x w = (Some e, w') \<Longrightarrow> items w' = items w"
    and "q_PeekBlock q w = (r, w') \<Longrightarrow> items w' = items w"
    and "q_PeekBlock q w = (Inr x, w') \<Longrightarrow> \<exists>xs. items w = x # xs"
    and "q_Dequeue q w = (Inr x, w') \<Longrightarrow> items w = x # items w'"
    and "q_Dequeue q w = (Inl e, w') \<Longrightarrow> items w' = items w"
  using assms unfolding dque_laws_def by fastforce+

section \<open>The provisioner interface\<close>

text \<open>
  The request context as the engine fills it: the deployment being processed, the contract
  and the rented flag that \<open>validate\<close> adds. A missing value is \<open>None\<close>, and so is the nil
  context.
\<close>

record node_contract =
  nc_Node :: u32
  nc_DeploymentHash :: string

record ctx_values =
  ctx_deployment :: "(u32 \<times> u64) option"
  ctx_contract :: "node_contract option"
  ctx_rent :: "bool option"

type_synonym ctx = "ctx_values option"

text \<open>\<open>provision.Provisioner\<close>. A Go pair \<open>(Result, error)\<close> stays a pair.\<close>

record 'w provisioner =
  pv_Initialize :: "('w, goerr option) eff"
  pv_Provision :: "ctx \<Rightarrow> workload_with_id \<Rightarrow> ('w, result \<times> goerr option) eff"
  pv_Deprovision :: "ctx \<Rightarrow> workload_with_id \<Rightarrow> ('w, goerr option) eff"
  pv_Pause :: "ctx \<Rightarrow> workload_with_id \<Rightarrow> ('w, result \<times> goerr option) eff"
  pv_Resume :: "ctx \<Rightarrow> workload_with_id \<Rightarrow> ('w, result \<times> goerr option) eff"
  pv_Update :: "ctx \<Rightarrow> workload_with_id \<Rightarrow> ('w, result \<times> goerr option) eff"
  pv_CanUpdate :: "workload_type \<Rightarrow> bool"

text \<open>\<open>provision.Twins\<close>: the key lookup behind request authentication.\<close>

type_synonym 'w twins = "u32 \<Rightarrow> ('w, (byte list) res) eff"

end
