(* ===== verification/Gateway.thy ===== *)
theory Gateway
  imports Gridtypes
begin

text \<open>
  \<open>pkg/registrar_gateway.go\<close> (the interface) and \<open>pkg/registrar_gateway/registrar_gateway.go\<close>
  (its implementation, the api-gateway module). Half of the methods forward to the registrar
  client, a library and hence a parameter; the methods that used to talk to the chain return
  fixed values, and every component that calls them is built on those values. The generated
  zbus stubs forward calls unchanged and are not modelled: a component that holds a stub takes
  the interface record. The mutex of the gateway only orders the writing calls, which the
  sequential model does anyway.
\<close>

section \<open>Data\<close>

record resources =
  rs_HRU :: u64
  rs_SRU :: u64
  rs_CRU :: u64
  rs_MRU :: u64

record location =
  lc_Longitude :: string
  lc_Latitude :: string
  lc_Country :: string
  lc_City :: string

text \<open>A Go slice, which may be nil; \<open>reflect.DeepEqual\<close> tells a nil slice from an empty one.\<close>

type_synonym 'a slice = "'a list option"

definition elems :: "'a slice \<Rightarrow> 'a list" where
  "elems s = (case s of None \<Rightarrow> [] | Some xs \<Rightarrow> xs)"

record net_interface =
  if_Name :: string
  if_Mac :: string
  if_IPs :: "string slice"

text \<open>
  \<open>client.Node\<close>: the fields the repository sets, and the rest of the structure as one opaque
  value, since \<open>reflect.DeepEqual\<close> compares them all. The zero value of the rest is the empty
  string.
\<close>

record client_node =
  cn_NodeID :: u64
  cn_FarmID :: u64
  cn_TwinID :: u64
  cn_Location :: location
  cn_Resources :: resources
  cn_Interfaces :: "net_interface slice"
  cn_SecureBoot :: bool
  cn_Virtualized :: bool
  cn_SerialNumber :: string
  cn_rest :: string

record account =
  ac_TwinID :: u64
  ac_PublicKey :: string

record farm =
  fm_FarmName :: string
  fm_TwinID :: u64

record zos_version =
  zv_Version :: string
  zv_SafeToUpgrade :: bool

record node_update =
  nu_FarmID :: "u64 option"
  nu_Location :: "location option"
  nu_Resources :: "resources option"
  nu_Interfaces :: "net_interface slice"
  nu_SerialNumber :: "string option"
  nu_SecureBoot :: "bool option"
  nu_Virtualized :: "bool option"

record uptime_report =
  ur_Uptime :: u64
  ur_Timestamp :: int

text \<open>
  The chain types: \<open>substrate.Contract\<close> as far as it is read, \<open>substrate.NodePower\<close>, the
  consumption and resource reports, and \<open>pkg.SubstrateError\<close> with its two predicates, which are
  parameters (\<open>substrate_lib\<close>).
\<close>

record contract =
  ct_IsNodeContract :: bool
  ct_NodeContract :: node_contract
  ct_IsGracePeriod :: bool

record node_power =
  np_StateIsUp :: bool
  np_TargetIsUp :: bool
  np_TargetIsDown :: bool

record nru_consumption =
  nru_ContractID :: u64
  nru_Timestamp :: u64
  nru_Window :: u64
  nru_NRU :: u64

record contract_resources =
  cr_ContractID :: u64
  cr_Used :: resources

record substrate_error =
  se_Err :: "goerr option"
  se_Code :: int

record substrate_lib =
  sb_IsError :: "substrate_error \<Rightarrow> bool"
  sb_IsNotFound :: "substrate_error \<Rightarrow> bool"

definition zero_contract :: contract where
  "zero_contract = \<lparr>ct_IsNodeContract = False,
     ct_NodeContract = \<lparr>nc_Node = 0, nc_DeploymentHash = []\<rparr>, ct_IsGracePeriod = False\<rparr>"

definition zero_serr :: substrate_error where
  "zero_serr = \<lparr>se_Err = None, se_Code = 0\<rparr>"

section \<open>The gateway interface\<close>

record 'w registrar_gateway =
  gw_CreateTwin :: "string list \<Rightarrow> string \<Rightarrow> ('w, account \<times> goerr option) eff"
  gw_EnsureAccount :: "string list \<Rightarrow> string \<Rightarrow> ('w, account \<times> goerr option) eff"
  gw_GetTwin :: "u64 \<Rightarrow> ('w, account \<times> goerr option) eff"
  gw_GetTwinByPubKey :: "byte list \<Rightarrow> ('w, u64 \<times> goerr option) eff"
  gw_CreateNode :: "client_node \<Rightarrow> ('w, u64 \<times> goerr option) eff"
  gw_GetNode :: "u64 \<Rightarrow> ('w, client_node \<times> goerr option) eff"
  gw_GetNodes :: "u64 \<Rightarrow> ('w, u64 list \<times> goerr option) eff"
  gw_GetNodeByTwinID :: "u64 \<Rightarrow> ('w, client_node \<times> goerr option) eff"
  gw_UpdateNode :: "client_node \<Rightarrow> ('w, goerr option) eff"
  gw_UpdateNodeUptimeV2 :: "u64 \<Rightarrow> int \<Rightarrow> ('w, goerr option) eff"
  gw_GetFarm :: "u64 \<Rightarrow> ('w, farm \<times> goerr option) eff"
  gw_GetTime :: "('w, int \<times> goerr option) eff"
  gw_GetZosVersion :: "('w, zos_version \<times> goerr option) eff"
  gw_GetNodeContracts :: "u32 \<Rightarrow> ('w, u64 list \<times> goerr option) eff"
  gw_GetContract :: "u64 \<Rightarrow> ('w, contract \<times> substrate_error) eff"
  gw_GetContractIDByNameRegistration :: "string \<Rightarrow> ('w, u64 \<times> substrate_error) eff"
  gw_GetNodeRentContract :: "u32 \<Rightarrow> ('w, u64 \<times> substrate_error) eff"
  gw_GetPowerTarget :: "('w, node_power \<times> goerr option) eff"
  gw_Report :: "nru_consumption list \<Rightarrow> ('w, string \<times> goerr option) eff"
  gw_SetContractConsumption :: "contract_resources list \<Rightarrow> ('w, goerr option) eff"
  gw_SetNodePowerState :: "bool \<Rightarrow> ('w, string \<times> goerr option) eff"

section \<open>The registrar gateway\<close>

text \<open>\<open>client.RegistrarClient\<close>, the library below the gateway.\<close>

record 'w registrar_client =
  rc_GetZosVersion :: "('w, zos_version \<times> goerr option) eff"
  rc_RegisterNode :: "client_node \<Rightarrow> ('w, u64 \<times> goerr option) eff"
  rc_CreateAccount :: "string list \<Rightarrow> string \<Rightarrow> ('w, (account \<times> string) \<times> goerr option) eff"
  rc_EnsureAccount :: "string list \<Rightarrow> string \<Rightarrow> ('w, account \<times> goerr option) eff"
  rc_GetFarm :: "u64 \<Rightarrow> ('w, farm \<times> goerr option) eff"
  rc_GetNode :: "u64 \<Rightarrow> ('w, client_node \<times> goerr option) eff"
  rc_GetNodeByTwinID :: "u64 \<Rightarrow> ('w, client_node \<times> goerr option) eff"
  rc_ListNodes :: "u64 option \<Rightarrow> ('w, client_node list \<times> goerr option) eff"
  rc_GetAccount :: "u64 \<Rightarrow> ('w, account \<times> goerr option) eff"
  rc_GetAccountByPK :: "byte list \<Rightarrow> ('w, account \<times> goerr option) eff"
  rc_UpdateNode :: "node_update \<Rightarrow> ('w, goerr option) eff"
  rc_ReportUptime :: "uptime_report \<Rightarrow> ('w, goerr option) eff"

definition GetZosVersion :: "'w registrar_client \<Rightarrow> ('w, zos_version \<times> goerr option) eff" where
  "GetZosVersion rc w = rc_GetZosVersion rc w"

definition CreateNode :: "'w registrar_client \<Rightarrow> client_node \<Rightarrow> ('w, u64 \<times> goerr option) eff" where
  "CreateNode rc node w = rc_RegisterNode rc node w"

definition CreateTwin ::
  "'w registrar_client \<Rightarrow> string list \<Rightarrow> string \<Rightarrow> ('w, account \<times> goerr option) eff" where
  "CreateTwin rc relays key w =
     (case rc_CreateAccount rc relays key w of
        (((account, mnemonic), err), w') \<Rightarrow> ((account, err), w'))"

definition EnsureAccount ::
  "'w registrar_client \<Rightarrow> string list \<Rightarrow> string \<Rightarrow> ('w, account \<times> goerr option) eff" where
  "EnsureAccount rc relays key w = rc_EnsureAccount rc relays key w"

definition GetFarm :: "'w registrar_client \<Rightarrow> u64 \<Rightarrow> ('w, farm \<times> goerr option) eff" where
  "GetFarm rc i w = rc_GetFarm rc i w"

definition GetNode :: "'w registrar_client \<Rightarrow> u64 \<Rightarrow> ('w, client_node \<times> goerr option) eff" where
  "GetNode rc i w = rc_GetNode rc i w"

definition GetNodeByTwinID ::
  "'w registrar_client \<Rightarrow> u64 \<Rightarrow> ('w, client_node \<times> goerr option) eff" where
  "GetNodeByTwinID rc i w = rc_GetNodeByTwinID rc i w"

definition GetNodes :: "'w registrar_client \<Rightarrow> u64 \<Rightarrow> ('w, u64 list \<times> goerr option) eff" where
  "GetNodes rc farmID w =
     (case rc_ListNodes rc (Some farmID) w of
        ((nodes, err), w') \<Rightarrow> ((map cn_NodeID nodes, err), w'))"

definition GetTwin :: "'w registrar_client \<Rightarrow> u64 \<Rightarrow> ('w, account \<times> goerr option) eff" where
  "GetTwin rc i w = rc_GetAccount rc i w"

definition GetTwinByPubKey ::
  "'w registrar_client \<Rightarrow> byte list \<Rightarrow> ('w, u64 \<times> goerr option) eff" where
  "GetTwinByPubKey rc pk w =
     (case rc_GetAccountByPK rc pk w of
        ((account, err), w') \<Rightarrow> ((ac_TwinID account, err), w'))"

definition UpdateNode :: "'w registrar_client \<Rightarrow> client_node \<Rightarrow> ('w, goerr option) eff" where
  "UpdateNode rc node w =
     rc_UpdateNode rc
       \<lparr>nu_FarmID = Some (cn_FarmID node), nu_Location = Some (cn_Location node),
        nu_Resources = Some (cn_Resources node), nu_Interfaces = cn_Interfaces node,
        nu_SerialNumber = Some (cn_SerialNumber node), nu_SecureBoot = Some (cn_SecureBoot node),
        nu_Virtualized = Some (cn_Virtualized node)\<rparr> w"

definition UpdateNodeUptimeV2 ::
  "'w registrar_client \<Rightarrow> u64 \<Rightarrow> int \<Rightarrow> ('w, goerr option) eff" where
  "UpdateNodeUptimeV2 rc uptime timestamp w =
     rc_ReportUptime rc \<lparr>ur_Uptime = uptime, ur_Timestamp = timestamp\<rparr> w"

definition GetTime :: "('w, int) eff \<Rightarrow> ('w, int \<times> goerr option) eff" where
  "GetTime clock w = (case clock w of (t, w') \<Rightarrow> ((t, None), w'))"

text \<open>The chain calls, which no longer call the chain.\<close>

definition GetContract :: "u64 \<Rightarrow> ('w, contract \<times> substrate_error) eff" where
  "GetContract i w = ((zero_contract, zero_serr), w)"

definition GetContractIDByNameRegistration :: "string \<Rightarrow> ('w, u64 \<times> substrate_error) eff" where
  "GetContractIDByNameRegistration nm w = ((0, zero_serr), w)"

definition GetNodeContracts :: "u32 \<Rightarrow> ('w, u64 list \<times> goerr option) eff" where
  "GetNodeContracts node w = (([], None), w)"

definition GetNodeRentContract :: "u32 \<Rightarrow> ('w, u64 \<times> substrate_error) eff" where
  "GetNodeRentContract node w = ((0, zero_serr), w)"

definition GetPowerTarget :: "('w, node_power \<times> goerr option) eff" where
  "GetPowerTarget w = ((\<lparr>np_StateIsUp = True, np_TargetIsUp = True, np_TargetIsDown = False\<rparr>, None), w)"

definition Report :: "nru_consumption list \<Rightarrow> ('w, string \<times> goerr option) eff" where
  "Report consumptions w = (([], None), w)"

definition SetContractConsumption :: "contract_resources list \<Rightarrow> ('w, goerr option) eff" where
  "SetContractConsumption rs w = (None, w)"

definition SetNodePowerState :: "bool \<Rightarrow> ('w, string \<times> goerr option) eff" where
  "SetNodePowerState up w = (([], None), w)"

text \<open>\<open>NewRegistrarGateway\<close>, once its client exists.\<close>

definition NewRegistrarGateway ::
  "('w, int) eff \<Rightarrow> 'w registrar_client \<Rightarrow> 'w registrar_gateway" where
  "NewRegistrarGateway clock rc =
     \<lparr>gw_CreateTwin = CreateTwin rc, gw_EnsureAccount = EnsureAccount rc, gw_GetTwin = GetTwin rc,
      gw_GetTwinByPubKey = GetTwinByPubKey rc, gw_CreateNode = CreateNode rc,
      gw_GetNode = GetNode rc, gw_GetNodes = GetNodes rc, gw_GetNodeByTwinID = GetNodeByTwinID rc,
      gw_UpdateNode = UpdateNode rc, gw_UpdateNodeUptimeV2 = UpdateNodeUptimeV2 rc,
      gw_GetFarm = GetFarm rc, gw_GetTime = GetTime clock, gw_GetZosVersion = GetZosVersion rc,
      gw_GetNodeContracts = GetNodeContracts, gw_GetContract = GetContract,
      gw_GetContractIDByNameRegistration = GetContractIDByNameRegistration,
      gw_GetNodeRentContract = GetNodeRentContract, gw_GetPowerTarget = GetPowerTarget,
      gw_Report = Report, gw_SetContractConsumption = SetContractConsumption,
      gw_SetNodePowerState = SetNodePowerState\<rparr>"

lemmas gateway_defs [gateway_simps] =
  NewRegistrarGateway_def GetZosVersion_def CreateNode_def CreateTwin_def EnsureAccount_def GetFarm_def
  GetNode_def GetNodeByTwinID_def GetNodes_def GetTwin_def GetTwinByPubKey_def UpdateNode_def
  UpdateNodeUptimeV2_def GetTime_def GetContract_def GetContractIDByNameRegistration_def
  GetNodeContracts_def GetNodeRentContract_def GetPowerTarget_def Report_def SetContractConsumption_def
  SetNodePowerState_def

section \<open>What the chain calls promise\<close>

text \<open>
  A gateway with no chain behind it: no contract is known, no node is rented, the power target
  is always up, and the reports are dropped. The components above it are proved against these
  laws in their own theories.
\<close>

locale detached_gateway =
  fixes g :: "'w registrar_gateway"
  assumes contract: "gw_GetContract g i w = ((zero_contract, zero_serr), w)"
    and node_contracts: "gw_GetNodeContracts g n w = (([], None), w)"
    and rent: "gw_GetNodeRentContract g n w = ((0, zero_serr), w)"
    and power_target:
      "gw_GetPowerTarget g w = ((\<lparr>np_StateIsUp = True, np_TargetIsUp = True, np_TargetIsDown = False\<rparr>, None), w)"
    and set_power: "gw_SetNodePowerState g up w = (([], None), w)"
    and report: "gw_Report g cs w = (([], None), w)"
    and consumption: "gw_SetContractConsumption g rs w = (None, w)"

interpretation rg: detached_gateway "NewRegistrarGateway clock rc" for clock rc
  by unfold_locales (simp_all add: gateway_simps)

end
