(* ===== verification/Auth.thy ===== *)
theory Auth
  imports Gateway
begin

text \<open>
  \<open>pkg/provision/auth.go\<close> and the null key getter of \<open>engine.go\<close>: the three implementations of
  \<open>provision.Twins\<close>, the lookup that request signatures are verified with. The LRU cache is a
  library; \<open>lru_laws\<close> is its documented behaviour on the entries it holds.
\<close>

section \<open>Definitions\<close>

record 'w lru =
  lru_Get :: "u32 \<Rightarrow> ('w, byte list option) eff"
  lru_Add :: "u32 \<Rightarrow> byte list \<Rightarrow> 'w \<Rightarrow> 'w"

definition nullKeyGetter_GetKey :: "'w twins" where
  "nullKeyGetter_GetKey i w = (Inl (ErrMsg ''null user key getter''), w)"

definition registrarTwins_GetKey :: "'w registrar_gateway \<Rightarrow> 'w lru \<Rightarrow> 'w twins" where
  "registrarTwins_GetKey gw mem i w =
     (case lru_Get mem i w of
        (Some value, w1) \<Rightarrow> (Inr value, w1)
      | (None, w1) \<Rightarrow>
          (case gw_GetTwin gw (ucast i) w1 of
             ((user, Some e), w2) \<Rightarrow>
               (Inl (Wrapped e (''could not get user with id '' @ squote (show_nat (unat i)))), w2)
           | ((user, None), w2) \<Rightarrow>
               (case b64_decode (ac_PublicKey user) of
                  None \<Rightarrow>
                    (Inl (Wrapped (ErrMsg ''illegal base64 data'')
                       (''could decode public key for user with id '' @ squote (show_nat (unat i)))), w2)
                | Some key \<Rightarrow> (Inr key, lru_Add mem i key w2))))"

record registrar_admins =
  ra_twin :: u32
  ra_pk :: "byte list"

definition NewRegistrarAdmins ::
  "'w registrar_gateway \<Rightarrow> u64 \<Rightarrow> ('w, registrar_admins res) eff" where
  "NewRegistrarAdmins gw farmID w =
     (case gw_GetFarm gw farmID w of
        ((farm, Some e), w1) \<Rightarrow> (Inl (Wrapped e ''failed to get farm''), w1)
      | ((farm, None), w1) \<Rightarrow>
          (case gw_GetTwin gw (fm_TwinID farm) w1 of
             ((twin, Some e), w2) \<Rightarrow> (Inl e, w2)
           | ((twin, None), w2) \<Rightarrow>
               (case b64_decode (ac_PublicKey twin) of
                  None \<Rightarrow>
                    (Inl (Wrapped (ErrMsg ''illegal base64 data'')
                       (''could decode public key for twin with farm id ''
                        @ squote (show_nat (unat farmID)))), w2)
                | Some key \<Rightarrow> (Inr \<lparr>ra_twin = ucast (fm_TwinID farm), ra_pk = key\<rparr>, w2))))"

definition registrarAdmins_GetKey :: "registrar_admins \<Rightarrow> 'w twins" where
  "registrarAdmins_GetKey s i w =
     (if i \<noteq> ra_twin s
      then (Inl (ErrMsg (''twin with id '' @ squote (show_nat (unat i)) @ '' is not an admin'')), w)
      else (Inr (ra_pk s), w))"

section \<open>Library contracts\<close>

text \<open>
  An LRU cache with room for at least one entry: \<open>Get\<close> reports the entry and keeps the
  contents, \<open>Add\<close> stores the entry and may evict others.
\<close>

definition lru_laws :: "'w lru \<Rightarrow> ('w \<Rightarrow> u32 \<rightharpoonup> byte list) \<Rightarrow> bool" where
  "lru_laws mem content \<longleftrightarrow>
     (\<forall>i w. fst (lru_Get mem i w) = content w i \<and> content (snd (lru_Get mem i w)) = content w) \<and>
     (\<forall>i k w. content (lru_Add mem i k w) i = Some k \<and>
              (\<forall>j v. j \<noteq> i \<longrightarrow> content (lru_Add mem i k w) j = Some v \<longrightarrow> content w j = Some v))"

text \<open>
  The registrar's directory: an account that \<open>GetTwin\<close> returns carries the key that the
  directory holds for the twin, and the call does not touch the node's cache.
\<close>

definition twin_directory ::
  "'w registrar_gateway \<Rightarrow> (u32 \<rightharpoonup> byte list) \<Rightarrow> ('w \<Rightarrow> u32 \<rightharpoonup> byte list) \<Rightarrow> bool" where
  "twin_directory gw dir content \<longleftrightarrow>
     (\<forall>i w a e w'. gw_GetTwin gw (ucast i) w = ((a, e), w') \<longrightarrow>
        content w' = content w \<and>
        (\<forall>k. e = None \<longrightarrow> b64_decode (ac_PublicKey a) = Some k \<longrightarrow> dir i = Some k))"

definition twins_inv ::
  "'w registrar_gateway \<Rightarrow> 'w lru \<Rightarrow> ('w \<Rightarrow> u32 \<rightharpoonup> byte list) \<Rightarrow> (u32 \<rightharpoonup> byte list) \<Rightarrow> 'w \<Rightarrow> bool" where
  "twins_inv gw mem content dir w \<longleftrightarrow>
     lru_laws mem content \<and> twin_directory gw dir content \<and> content w \<subseteq>\<^sub>m dir"

section \<open>The key lookup contract\<close>

text \<open>
  A key lookup over a directory: while its invariant holds, every key it returns is the
  directory's key for that twin. So two lookups of one twin never disagree, whatever happened in
  between, which is what makes a verified signature mean something.
\<close>

locale twins_db =
  fixes getKey :: "'w twins" and inv :: "'w \<Rightarrow> bool" and dir :: "u32 \<rightharpoonup> byte list"
  assumes key_sound: "inv w \<Longrightarrow> getKey i w = (Inr k, w') \<Longrightarrow> dir i = Some k"
    and key_inv: "inv w \<Longrightarrow> getKey i w = (r, w') \<Longrightarrow> inv w'"
begin

lemma key_unique:
  assumes "inv w" "getKey i w = (Inr k, w')" "inv v" "getKey i v = (Inr l, v')"
  shows "k = l"
  using assms key_sound by (metis option.inject)

lemma key_known: "inv w \<Longrightarrow> dir i = None \<Longrightarrow> \<exists>e w'. getKey i w = (Inl e, w')"
  using key_sound by (metis obj_sumE option.distinct(1) surj_pair)

lemma lookups_sound:
  assumes "inv w"
  shows "inv (fold (\<lambda>i w. snd (getKey i w)) is w)"
  using assms
proof (induction "is" arbitrary: w)
  case (Cons i "is")
  then have "inv (snd (getKey i w))" by (metis key_inv prod.collapse)
  with Cons show ?case by simp
qed simp

end

interpretation nullk: twins_db nullKeyGetter_GetKey "\<lambda>_. True" Map.empty
  by unfold_locales (auto simp: nullKeyGetter_GetKey_def)

interpretation admink: twins_db "registrarAdmins_GetKey s" "\<lambda>_. True" "[ra_twin s \<mapsto> ra_pk s]"
  for s
  by unfold_locales (auto simp: registrarAdmins_GetKey_def split: if_splits)

lemma lru_lawsD:
  assumes "lru_laws mem content"
  shows "lru_Get mem i w = (r, w') \<Longrightarrow> r = content w i \<and> content w' = content w"
    and "content (lru_Add mem i k w) i = Some k"
    and "content w \<subseteq>\<^sub>m dir \<Longrightarrow> dir i = Some k \<Longrightarrow> content (lru_Add mem i k w) \<subseteq>\<^sub>m dir"
proof -
  show "lru_Get mem i w = (r, w') \<Longrightarrow> r = content w i \<and> content w' = content w"
    using assms by (metis lru_laws_def fst_conv snd_conv)
  show "content (lru_Add mem i k w) i = Some k"
    using assms by (simp add: lru_laws_def)
  show "content (lru_Add mem i k w) \<subseteq>\<^sub>m dir" if "content w \<subseteq>\<^sub>m dir" "dir i = Some k"
    using assms that unfolding lru_laws_def map_le_def by (metis domIff not_None_eq)
qed

lemma registrarTwins_cases:
  assumes "twins_inv gw mem content dir w" and "registrarTwins_GetKey gw mem i w = (r, w')"
  shows "twins_inv gw mem content dir w' \<and> (\<forall>k. r = Inr k \<longrightarrow> dir i = Some k \<and> content w' i = Some k)"
proof -
  have laws: "lru_laws mem content" "twin_directory gw dir content" and sub: "content w \<subseteq>\<^sub>m dir"
    using assms(1) by (auto simp: twins_inv_def)
  obtain g w1 where get: "lru_Get mem i w = (g, w1)" by force
  have c1: "g = content w i" "content w1 = content w" using lru_lawsD(1) [OF laws(1) get] by auto
  show ?thesis
  proof (cases g)
    case (Some k)
    with c1 sub have "dir i = Some k" by (metis domI map_le_def)
    with Some assms(2) get c1 laws sub show ?thesis
      by (auto simp: registrarTwins_GetKey_def twins_inv_def)
  next
    case None
    obtain a e w2 where tw: "gw_GetTwin gw (ucast i) w1 = ((a, e), w2)" by (metis surj_pair)
    then have d: "content w2 = content w1" "\<And>k. e = None \<Longrightarrow> b64_decode (ac_PublicKey a) = Some k \<Longrightarrow> dir i = Some k"
      using laws(2) by (auto simp: twin_directory_def)
    show ?thesis
      using assms(2) None get tw d c1 laws sub
      by (auto simp: registrarTwins_GetKey_def twins_inv_def lru_lawsD split: option.splits)
  qed
qed

interpretation regk: twins_db "registrarTwins_GetKey gw mem" "twins_inv gw mem content dir" dir
  for gw mem content dir
proof unfold_locales
  fix w i k w'
  assume "twins_inv gw mem content dir w" "registrarTwins_GetKey gw mem i w = (Inr k, w')"
  from registrarTwins_cases [OF this] show "dir i = Some k" by simp
next
  fix w i r w'
  assume "twins_inv gw mem content dir w" "registrarTwins_GetKey gw mem i w = (r, w')"
  from registrarTwins_cases [OF this] show "twins_inv gw mem content dir w'" ..
qed

section \<open>Properties\<close>

text \<open>
  The twin database only ever hands out the registrar's keys: with a sound cache and a
  fixed directory, any number of lookups in between leaves the database such that a lookup that
  succeeds returns the directory's key for the requested twin.
\<close>

lemma registrarTwins_sound:
  assumes "twins_inv gw mem content dir w"
    and "registrarTwins_GetKey gw mem i
           (fold (\<lambda>j w. snd (registrarTwins_GetKey gw mem j w)) before w) = (Inr k, w')"
  shows "dir i = Some k"
  using regk.key_sound [OF regk.lookups_sound [OF assms(1)] assms(2)] .

text \<open>
  A key that was looked up is served from memory: after a successful lookup the next
  lookup of the same twin returns the same key whatever the registrar gateway would answer by
  then.
\<close>

lemma registrarTwins_memo:
  assumes "twins_inv gw mem content dir w" and "registrarTwins_GetKey gw mem i w = (Inr k, w')"
  shows "fst (registrarTwins_GetKey gw' mem i w') = Inr k"
proof -
  have "content w' i = Some k" and "lru_laws mem content"
    using registrarTwins_cases [OF assms] assms(1) by (auto simp: twins_inv_def)
  then have "fst (lru_Get mem i w') = Some k" by (simp add: lru_laws_def)
  then show ?thesis by (cases "lru_Get mem i w'") (simp add: registrarTwins_GetKey_def)
qed

text \<open>
  The admin database of a farm knows one twin: once it is created, a lookup succeeds for
  exactly the farm's twin id (truncated to 32 bits) and returns the key in that twin's account.
\<close>

lemma registrarAdmins_farm_only:
  assumes "NewRegistrarAdmins gw farmID w = (Inr s, w')"
  shows "\<exists>farm w1 twin w2 key.
     gw_GetFarm gw farmID w = ((farm, None), w1) \<and>
     gw_GetTwin gw (fm_TwinID farm) w1 = ((twin, None), w2) \<and>
     b64_decode (ac_PublicKey twin) = Some key \<and>
     (\<forall>i v. registrarAdmins_GetKey s i v =
        (if i = ucast (fm_TwinID farm) then (Inr key, v)
         else (Inl (ErrMsg (''twin with id '' @ squote (show_nat (unat i)) @ '' is not an admin'')), v)))"
  using assms
  by (auto simp: NewRegistrarAdmins_def registrarAdmins_GetKey_def split: prod.splits option.splits)

end
