(* ===== verification/Provisioner.thy ===== *)
theory Provisioner
  imports Gridtypes
begin

text \<open>
  \<open>pkg/provision/provisiner.go\<close>: the response errors, the result a manager's outcome is turned
  into (\<open>setState\<close>, \<open>buildResult\<close>) and the map provisioner with its five operations. The
  managers are code of other packages: records of functions, whose optional interfaces
  (\<open>Initializer\<close>, \<open>Updater\<close>, \<open>Pauser\<close>) are \<open>option\<close> fields, so that a Go type assertion
  \<open>mgr.(Pauser)\<close> is a case on the field. \<open>now\<close> is \<open>gridtypes.Now\<close> and \<open>marshal\<close> is
  \<open>json.Marshal\<close> at the managers' data.
\<close>

section \<open>Responses\<close>

text \<open>\<open>Ok\<close>, \<open>UnChanged\<close> and \<open>Paused\<close> build a \<open>*response\<close> error.\<close>

definition Ok_response :: goerr where
  "Ok_response = Response StateOk None"

definition UnChanged :: "goerr option \<Rightarrow> goerr" where
  "UnChanged cause = Response StateUnChanged cause"

definition Paused :: goerr where
  "Paused = Response StatePaused (Some (ErrMsg ''paused''))"

definition setState :: "('w, int) eff \<Rightarrow> result \<Rightarrow> goerr option \<Rightarrow> ('w, result) eff" where
  "setState now r err w =
     (let (t, w') = now w;
          (state, str) =
            (case err of
               None \<Rightarrow> (StateOk, [])
             | Some e \<Rightarrow> (case errors_as_response e of None \<Rightarrow> StateError | Some s \<Rightarrow> s, err_text e))
      in (r\<lparr>r_Created := t, r_State := state, r_Error := str\<rparr>, w'))"

definition buildResult ::
  "('w, int) eff \<Rightarrow> ('d \<Rightarrow> string res) \<Rightarrow> 'd \<Rightarrow> goerr option \<Rightarrow> ('w, result \<times> goerr option) eff" where
  "buildResult now marshal data err w =
     (let (r, w') = setState now zero_result err w
      in case marshal data of
           Inl e \<Rightarrow> ((r, errors_wrap (Some e) ''failed to encode result''), w')
         | Inr br \<Rightarrow> ((r\<lparr>r_Data := br\<rparr>, None), w'))"

section \<open>The map provisioner\<close>

record ('w, 'd) manager =
  m_Provision :: "ctx \<Rightarrow> workload_with_id \<Rightarrow> ('w, 'd \<times> goerr option) eff"
  m_Deprovision :: "ctx \<Rightarrow> workload_with_id \<Rightarrow> ('w, goerr option) eff"
  m_Initializer :: "('w, goerr option) eff option"
  m_Updater :: "(ctx \<Rightarrow> workload_with_id \<Rightarrow> ('w, 'd \<times> goerr option) eff) option"
  m_Pauser :: "((ctx \<Rightarrow> workload_with_id \<Rightarrow> ('w, goerr option) eff)
               \<times> (ctx \<Rightarrow> workload_with_id \<Rightarrow> ('w, goerr option) eff)) option"

type_synonym ('w, 'd) managers = "workload_type \<rightharpoonup> ('w, 'd) manager"

definition unknown_type :: "workload_with_id \<Rightarrow> goerr" where
  "unknown_type x = ErrMsg (''unknown workload type '' @ squote (wl_Type (wid_Workload x)) @
     '' for reservation id '' @ squote (wid_ID x))"

text \<open>\<open>ks\<close> is the order in which \<open>range p.managers\<close> visits the keys, which Go leaves open.\<close>

definition map_Initialize ::
  "('w, 'd) managers \<Rightarrow> workload_type list \<Rightarrow> ('w, goerr option) eff" where
  "map_Initialize managers ks =
     for_err (\<lambda>typ w.
       case managers typ of
         None \<Rightarrow> (None, w)
       | Some mgr \<Rightarrow>
           (case m_Initializer mgr of
              None \<Rightarrow> (None, w)
            | Some init \<Rightarrow>
                (case init w of (e, w') \<Rightarrow>
                   (errors_wrap e (''failed to run initializers for workload type '' @ squote typ), w')))) ks"

definition map_Provision ::
  "('w, int) eff \<Rightarrow> ('d \<Rightarrow> string res) \<Rightarrow> ('w, 'd) managers \<Rightarrow> ctx \<Rightarrow> workload_with_id \<Rightarrow>
     ('w, result \<times> goerr option) eff" where
  "map_Provision now marshal managers c x w =
     (case managers (wl_Type (wid_Workload x)) of
        None \<Rightarrow> ((zero_result, Some (unknown_type x)), w)
      | Some manager \<Rightarrow>
          (case m_Provision manager c x w of
             ((data, err), w') \<Rightarrow>
               if is_err err ErrNoActionNeeded then ((zero_result, err), w')
               else buildResult now marshal data err w'))"

definition map_Deprovision ::
  "('w, 'd) managers \<Rightarrow> ctx \<Rightarrow> workload_with_id \<Rightarrow> ('w, goerr option) eff" where
  "map_Deprovision managers c x w =
     (case managers (wl_Type (wid_Workload x)) of
        None \<Rightarrow> (Some (unknown_type x), w)
      | Some manager \<Rightarrow> m_Deprovision manager c x w)"

definition map_Pause ::
  "('w, int) eff \<Rightarrow> ('w, 'd) managers \<Rightarrow> ctx \<Rightarrow> workload_with_id \<Rightarrow>
     ('w, result \<times> goerr option) eff" where
  "map_Pause now managers c x w =
     (let r = wl_Result (wid_Workload x)
      in if r_State r \<noteq> StateOk
         then ((r, Some (ErrMsg ''can only pause workloads in ok state'')), w)
         else case managers (wl_Type (wid_Workload x)) of
                None \<Rightarrow> ((r, Some (unknown_type x)), w)
              | Some manager \<Rightarrow>
                  (let (err, w') =
                     (case m_Pauser manager of
                        None \<Rightarrow> (Some Paused, w)
                      | Some (pause, resume) \<Rightarrow> pause c x w);
                       (result, w'') = setState now r err w'
                   in ((result, None), w'')))"

definition map_Resume ::
  "('w, int) eff \<Rightarrow> ('w, 'd) managers \<Rightarrow> ctx \<Rightarrow> workload_with_id \<Rightarrow>
     ('w, result \<times> goerr option) eff" where
  "map_Resume now managers c x w =
     (let r = wl_Result (wid_Workload x)
      in if r_State r \<noteq> StatePaused
         then ((r, Some (ErrMsg ''can only resume workloads in paused state'')), w)
         else case managers (wl_Type (wid_Workload x)) of
                None \<Rightarrow> ((r, Some (unknown_type x)), w)
              | Some manager \<Rightarrow>
                  (let (err, w') =
                     (case m_Pauser manager of
                        None \<Rightarrow> (Some Ok_response, w)
                      | Some (pause, resume) \<Rightarrow> resume c x w);
                       (result, w'') = setState now r err w'
                   in ((result, None), w'')))"

definition map_Update ::
  "('w, int) eff \<Rightarrow> ('d \<Rightarrow> string res) \<Rightarrow> ('w, 'd) managers \<Rightarrow> ctx \<Rightarrow> workload_with_id \<Rightarrow>
     ('w, result \<times> goerr option) eff" where
  "map_Update now marshal managers c x w =
     (case managers (wl_Type (wid_Workload x)) of
        None \<Rightarrow> ((zero_result, Some (unknown_type x)), w)
      | Some manager \<Rightarrow>
          (case m_Updater manager of
             None \<Rightarrow> ((zero_result, Some (ErrMsg (''workload type '' @ squote (wl_Type (wid_Workload x)) @
                        '' does not support updating''))), w)
           | Some update \<Rightarrow>
               (case update c x w of
                  ((data, err), w') \<Rightarrow>
                    if is_err err ErrNoActionNeeded then ((zero_result, err), w')
                    else buildResult now marshal data err w')))"

definition map_CanUpdate :: "('w, 'd) managers \<Rightarrow> workload_type \<Rightarrow> bool" where
  "map_CanUpdate managers typ =
     (case managers typ of None \<Rightarrow> False | Some manager \<Rightarrow> m_Updater manager \<noteq> None)"

text \<open>\<open>NewMapProvisioner\<close>: the operations as a \<open>provision.Provisioner\<close>.\<close>

definition NewMapProvisioner ::
  "('w, int) eff \<Rightarrow> ('d \<Rightarrow> string res) \<Rightarrow> workload_type list \<Rightarrow> ('w, 'd) managers \<Rightarrow> 'w provisioner" where
  "NewMapProvisioner now marshal ks managers =
     \<lparr>pv_Initialize = map_Initialize managers ks,
      pv_Provision = map_Provision now marshal managers,
      pv_Deprovision = map_Deprovision managers,
      pv_Pause = map_Pause now managers,
      pv_Resume = map_Resume now managers,
      pv_Update = map_Update now marshal managers,
      pv_CanUpdate = map_CanUpdate managers\<rparr>"

lemma NewMapProvisioner_ops [simp]:
  "pv_Initialize (NewMapProvisioner now marshal ks managers) = map_Initialize managers ks"
  "pv_Provision (NewMapProvisioner now marshal ks managers) = map_Provision now marshal managers"
  "pv_Deprovision (NewMapProvisioner now marshal ks managers) = map_Deprovision managers"
  "pv_Pause (NewMapProvisioner now marshal ks managers) = map_Pause now managers"
  "pv_Resume (NewMapProvisioner now marshal ks managers) = map_Resume now managers"
  "pv_Update (NewMapProvisioner now marshal ks managers) = map_Update now marshal managers"
  "pv_CanUpdate (NewMapProvisioner now marshal ks managers) = map_CanUpdate managers"
  by (simp_all add: NewMapProvisioner_def)

section \<open>The states of a result\<close>

text \<open>The state an outcome is recorded under, as one function of the error.\<close>

definition outcome_state :: "goerr option \<Rightarrow> result_state" where
  "outcome_state err =
     (case err of
        None \<Rightarrow> StateOk
      | Some e \<Rightarrow> (case errors_as_response e of None \<Rightarrow> StateError | Some s \<Rightarrow> s))"

definition outcome_text :: "goerr option \<Rightarrow> string" where
  "outcome_text err = (case err of None \<Rightarrow> [] | Some e \<Rightarrow> err_text e)"

lemma setState_outcome:
  "setState now r err w =
     (r\<lparr>r_Created := fst (now w), r_State := outcome_state err, r_Error := outcome_text err\<rparr>,
      snd (now w))"
  by (simp add: setState_def outcome_state_def outcome_text_def case_prod_beta Let_def
      split: option.splits)

lemma outcome_state_wrap [simp]:
  "outcome_state (errors_wrap err m) = outcome_state err"
  by (cases err) (simp_all add: outcome_state_def)

lemma buildResult_outcome:
  "buildResult now marshal data err w =
     (case marshal data of
        Inl e \<Rightarrow>
          ((zero_result\<lparr>r_Created := fst (now w), r_State := outcome_state err,
              r_Error := outcome_text err\<rparr>, Some (Wrapped e ''failed to encode result'')),
           snd (now w))
      | Inr br \<Rightarrow>
          ((\<lparr>r_Created = fst (now w), r_State = outcome_state err,
              r_Error = outcome_text err, r_Data = br\<rparr>, None), snd (now w)))"
  by (simp add: buildResult_def setState_outcome zero_result_def split: sum.splits)

section \<open>The contract the engine relies on\<close>

text \<open>
  What \<open>lockWorkload\<close> and \<open>updateWorkload\<close> of the engine may rely on: pausing and resuming
  check the recorded state before they touch anything, keep the result's data, never answer
  \<open>ErrNoActionNeeded\<close>; an update of a type that cannot be updated fails without effect.
\<close>

locale provisioner_contract =
  fixes p :: "'w provisioner"
  assumes pause_guard:
      "r_State (wl_Result (wid_Workload x)) \<noteq> StateOk \<Longrightarrow>
         \<exists>m. pv_Pause p c x w = ((wl_Result (wid_Workload x), Some (ErrMsg m)), w)"
    and resume_guard:
      "r_State (wl_Result (wid_Workload x)) \<noteq> StatePaused \<Longrightarrow>
         \<exists>m. pv_Resume p c x w = ((wl_Result (wid_Workload x), Some (ErrMsg m)), w)"
    and pause_data:
      "pv_Pause p c x w = ((r, eo), w') \<Longrightarrow> r_Data r = r_Data (wl_Result (wid_Workload x))"
    and resume_data:
      "pv_Resume p c x w = ((r, eo), w') \<Longrightarrow> r_Data r = r_Data (wl_Result (wid_Workload x))"
    and pause_error:
      "pv_Pause p c x w = ((r, Some e), w') \<Longrightarrow> (\<exists>m. e = ErrMsg m) \<and> w' = w"
    and resume_error:
      "pv_Resume p c x w = ((r, Some e), w') \<Longrightarrow> (\<exists>m. e = ErrMsg m) \<and> w' = w"
    and update_guard:
      "\<not> pv_CanUpdate p (wl_Type (wid_Workload x)) \<Longrightarrow>
         \<exists>m. pv_Update p c x w = ((zero_result, Some (ErrMsg m)), w)"
begin

lemma lock_error_is:
  assumes "(if lock then pv_Pause p else pv_Resume p) c x w = ((r, Some e), w')"
  shows "\<not> errors_is e t"
  using assms pause_error resume_error by (cases lock) fastforce+

end

lemma map_Pause_cases:
  "map_Pause now managers c x w =
     (let r = wl_Result (wid_Workload x) in
      if r_State r \<noteq> StateOk then ((r, Some (ErrMsg ''can only pause workloads in ok state'')), w)
      else case managers (wl_Type (wid_Workload x)) of
        None \<Rightarrow> ((r, Some (unknown_type x)), w)
      | Some manager \<Rightarrow>
          (let (err, w') = (case m_Pauser manager of None \<Rightarrow> (Some Paused, w)
             | Some pr \<Rightarrow> fst pr c x w) in
           ((r\<lparr>r_Created := fst (now w'), r_State := outcome_state err,
               r_Error := outcome_text err\<rparr>, None), snd (now w'))))"
  by (simp add: map_Pause_def setState_outcome Let_def case_prod_beta split: option.splits)

lemma map_Resume_cases:
  "map_Resume now managers c x w =
     (let r = wl_Result (wid_Workload x) in
      if r_State r \<noteq> StatePaused then ((r, Some (ErrMsg ''can only resume workloads in paused state'')), w)
      else case managers (wl_Type (wid_Workload x)) of
        None \<Rightarrow> ((r, Some (unknown_type x)), w)
      | Some manager \<Rightarrow>
          (let (err, w') = (case m_Pauser manager of None \<Rightarrow> (Some Ok_response, w)
             | Some pr \<Rightarrow> snd pr c x w) in
           ((r\<lparr>r_Created := fst (now w'), r_State := outcome_state err,
               r_Error := outcome_text err\<rparr>, None), snd (now w'))))"
  by (simp add: map_Resume_def setState_outcome Let_def case_prod_beta split: option.splits)

interpretation mp: provisioner_contract "NewMapProvisioner now marshal ks managers"
  for now marshal ks managers
  by unfold_locales
    (auto simp: map_Pause_cases map_Resume_cases map_Update_def map_CanUpdate_def unknown_type_def
      Let_def split: if_splits option.splits prod.splits)

section \<open>Properties\<close>

text \<open>
  The default pause and resume (a manager without the \<open>Pauser\<close> interface) form a round
  trip: pausing a workload in the ok state succeeds and records the paused state with the text
  \<open>paused\<close>, resuming the paused workload records the ok state with no error text, and neither
  step touches the result's data.
\<close>

lemma pause_resume_roundtrip:
  assumes "managers (wl_Type (wid_Workload x)) = Some mgr" and "m_Pauser mgr = None"
    and "r_State (wl_Result (wid_Workload x)) = StateOk"
  shows "\<exists>r1 r2 w1 w2.
     map_Pause now managers c x w = ((r1, None), w1) \<and>
     r_State r1 = StatePaused \<and> r_Error r1 = ''paused'' \<and>
     r_Data r1 = r_Data (wl_Result (wid_Workload x)) \<and>
     map_Resume now managers c (x\<lparr>wid_Workload := (wid_Workload x)\<lparr>wl_Result := r1\<rparr>\<rparr>) w1
       = ((r2, None), w2) \<and>
     r_State r2 = StateOk \<and> r_Error r2 = [] \<and> r_Data r2 = r_Data (wl_Result (wid_Workload x))"
  using assms
  by (simp add: map_Pause_cases map_Resume_cases Let_def Paused_def Ok_response_def
      outcome_state_def outcome_text_def)

end
