(* ===== verification/Engine_Base.thy ===== *)
theory Engine_Base
  imports Auth Provisioner
begin

text \<open>
  \<open>pkg/provision/engine.go\<close>, first part: the jobs, the engine record, the options that configure
  it, its constructor and the request context.
\<close>

section \<open>Jobs\<close>

datatype job_operation =
    opProvision
  | opDeprovision
  | opUpdate
  | opProvisionNoValidation
  | opPause
  | opResume

record engine_job =
  job_Op :: job_operation
  job_Target :: deployment
  job_Source :: "deployment option"
  job_Message :: string

section \<open>The engine\<close>

type_synonym 'w callback = "u32 \<Rightarrow> u64 \<Rightarrow> bool \<Rightarrow> ('w, bool) eff"
  \<comment> \<open>the Boolean tells whether the call panicked\<close>

record 'w native_engine =
  e_storage :: "'w storage"
  e_provisioner :: "'w provisioner"
  e_queue :: "('w, engine_job) dque"
  e_twins :: "'w twins"
  e_admins :: "'w twins"
  e_order :: "workload_type list"
  e_typeIndex :: "workload_type \<Rightarrow> int"
  e_rerunAll :: bool
  e_nodeID :: u64
  e_registrarGateway :: "'w registrar_gateway option"
  e_callback :: "'w callback option"

text \<open>
  What the engine calls outside the repository: the \<open>gridtypes\<close> functions, the predicates of
  substrate errors, the clock, \<open>sort.Slice\<close> on workloads (which fixes the order of equal elements
  no further), the job directory and its queue, the text of the error values of
  \<open>zosbase/pkg/provision\<close>, \<open>Deployment.Verify\<close>, \<open>backoff.Retry\<close> and the account verification
  service.
\<close>

record 'w engine_env =
  env_gt :: gridtypes
  env_sb :: substrate_lib
  env_now :: "('w, int) eff"
  env_sort :: "(workload_with_id \<Rightarrow> workload_with_id \<Rightarrow> bool) \<Rightarrow> workload_with_id list
     \<Rightarrow> workload_with_id list"
  env_removeJobs :: "'w \<Rightarrow> 'w"
  env_openQueue :: "('w, (('w, engine_job) dque) res) eff"
  env_errtext :: "sentinel \<Rightarrow> string"
  env_Verify :: "deployment \<Rightarrow> 'w twins \<Rightarrow> ('w, goerr option) eff"
  env_Retry :: "('w, goerr option) eff \<Rightarrow> ('w, goerr option) eff"
  env_kycStatusURL :: "string res"
  env_newRequest :: "string \<Rightarrow> goerr option"
  env_httpGet :: "string \<Rightarrow> string \<Rightarrow> string \<Rightarrow> ('w, (nat \<times> string) res) eff"
  env_decodeStatus :: "string \<Rightarrow> string res"

section \<open>Options\<close>

datatype 'w engine_option =
    WithTwins "'w twins"
  | WithAdmins "'w twins"
  | WithAPIGateway u64 "'w registrar_gateway"
  | WithStartupOrder "workload_type list"
  | WithRerunAll bool
  | WithCallback "'w callback"

text \<open>
  The first loop of \<open>withStartupOrder.apply\<close>: the listed types are taken out of the registered
  ones one by one, in order, and numbered from 1. A type that is not registered, or listed twice,
  panics.
\<close>

fun startup_listed ::
  "workload_type list \<Rightarrow> workload_type list \<Rightarrow> workload_type list \<Rightarrow> (workload_type \<Rightarrow> int) \<Rightarrow>
     string + (workload_type list \<times> workload_type list \<times> (workload_type \<Rightarrow> int))" where
  "startup_listed [] all ordered idx = Inr (all, ordered, idx)"
| "startup_listed (typ # ts) all ordered idx =
     (if typ \<notin> set all then Inl (''type '' @ squote typ @ '' is not registered'')
      else startup_listed ts (removeAll typ all) (ordered @ [typ])
             (idx(typ := int (length (ordered @ [typ])))))"

text \<open>The second loop appends the types that are left.\<close>

fun startup_rest ::
  "workload_type list \<Rightarrow> workload_type list \<Rightarrow> (workload_type \<Rightarrow> int) \<Rightarrow>
     workload_type list \<times> (workload_type \<Rightarrow> int)" where
  "startup_rest [] ordered idx = (ordered, idx)"
| "startup_rest (typ # ts) ordered idx =
     startup_rest ts (ordered @ [typ]) (idx(typ := int (length (ordered @ [typ]))))"

text \<open>\<open>visit\<close> is the order in which Go ranges over the map of the types that are left.\<close>

definition withStartupOrder_apply ::
  "(workload_type list \<Rightarrow> workload_type list) \<Rightarrow> workload_type list \<Rightarrow> 'w native_engine \<Rightarrow>
     string + 'w native_engine" where
  "withStartupOrder_apply visit o' e =
     (case startup_listed o' (remdups (e_order e)) [] (e_typeIndex e) of
        Inl msg \<Rightarrow> Inl msg
      | Inr (all, ordered, idx) \<Rightarrow>
          (case startup_rest (visit all) ordered idx of
             (ordered', idx') \<Rightarrow> Inr (e\<lparr>e_order := ordered', e_typeIndex := idx'\<rparr>)))"

fun option_apply ::
  "(workload_type list \<Rightarrow> workload_type list) \<Rightarrow> 'w engine_option \<Rightarrow> 'w native_engine \<Rightarrow>
     string + 'w native_engine" where
  "option_apply visit (WithTwins g) e = Inr (e\<lparr>e_twins := g\<rparr>)"
| "option_apply visit (WithAdmins g) e = Inr (e\<lparr>e_admins := g\<rparr>)"
| "option_apply visit (WithAPIGateway node gw) e =
     Inr (e\<lparr>e_nodeID := node, e_registrarGateway := Some gw\<rparr>)"
| "option_apply visit (WithStartupOrder ts) e = withStartupOrder_apply visit ts e"
| "option_apply visit (WithRerunAll t) e = Inr (e\<lparr>e_rerunAll := t\<rparr>)"
| "option_apply visit (WithCallback cb) e = Inr (e\<lparr>e_callback := Some cb\<rparr>)"

fun options_apply ::
  "(workload_type list \<Rightarrow> workload_type list) \<Rightarrow> 'w engine_option list \<Rightarrow> 'w native_engine \<Rightarrow>
     string + 'w native_engine" where
  "options_apply visit [] e = Inr e"
| "options_apply visit (opt # opts) e =
     (case option_apply visit opt e of Inl msg \<Rightarrow> Inl msg | Inr e' \<Rightarrow> options_apply visit opts e')"

text \<open>The nil queue of an engine whose queue is not opened yet.\<close>

definition nil_queue :: "('w, engine_job) dque" where
  "nil_queue = \<lparr>q_Enqueue = (\<lambda>_ w. (Some (ErrMsg ''nil queue''), w)),
     q_Dequeue = (\<lambda>w. (Inl (ErrMsg ''nil queue''), w)),
     q_PeekBlock = (\<lambda>w. (Inl (ErrMsg ''nil queue''), w))\<rparr>"

definition initial_engine :: "gridtypes \<Rightarrow> 'w storage \<Rightarrow> 'w provisioner \<Rightarrow> 'w native_engine" where
  "initial_engine gt storage provisioner =
     \<lparr>e_storage = storage, e_provisioner = provisioner, e_queue = nil_queue,
      e_twins = nullKeyGetter_GetKey, e_admins = nullKeyGetter_GetKey,
      e_order = gt_Types gt, e_typeIndex = (\<lambda>_. 0), e_rerunAll = False, e_nodeID = 0,
      e_registrarGateway = None, e_callback = None\<rparr>"

text \<open>\<open>New\<close>. A panic of an option is \<open>Inl\<close>; otherwise the Go pair is a \<open>res\<close>.\<close>

definition New ::
  "'w engine_env \<Rightarrow> (workload_type list \<Rightarrow> workload_type list) \<Rightarrow> 'w storage \<Rightarrow> 'w provisioner \<Rightarrow>
     'w engine_option list \<Rightarrow> 'w \<Rightarrow> string + (('w native_engine) res \<times> 'w)" where
  "New en visit storage provisioner opts w =
     (case options_apply visit opts (initial_engine (env_gt en) storage provisioner) of
        Inl msg \<Rightarrow> Inl msg
      | Inr e \<Rightarrow>
          (let w1 = (if e_rerunAll e then env_removeJobs en w else w)
           in case env_openQueue en w1 of
                (Inl err, w2) \<Rightarrow>
                  Inr (Inl (Wrapped err ''failed to create job queue''), env_removeJobs en w2)
              | (Inr queue, w2) \<Rightarrow> Inr (Inr (e\<lparr>e_queue := queue\<rparr>), w2)))"

section \<open>The request context\<close>

definition background :: ctx where
  "background = Some \<lparr>ctx_deployment = None, ctx_contract = None, ctx_rent = None\<rparr>"

definition withDeployment :: "ctx \<Rightarrow> u32 \<Rightarrow> u64 \<Rightarrow> ctx" where
  "withDeployment c twin dl = map_option (\<lambda>v. v\<lparr>ctx_deployment := Some (twin, dl)\<rparr>) c"

definition withContract :: "ctx \<Rightarrow> node_contract \<Rightarrow> ctx" where
  "withContract c nc = map_option (\<lambda>v. v\<lparr>ctx_contract := Some nc\<rparr>) c"

definition withRented :: "ctx \<Rightarrow> bool \<Rightarrow> ctx" where
  "withRented c rent = map_option (\<lambda>v. v\<lparr>ctx_rent := Some rent\<rparr>) c"

text \<open>The getters panic on a nil context and on a missing value: \<open>None\<close>.\<close>

definition GetDeploymentID :: "ctx \<Rightarrow> (u32 \<times> u64) option" where
  "GetDeploymentID c = Option.bind c ctx_deployment"

definition ctx_GetContract :: "ctx \<Rightarrow> node_contract option" where
  "ctx_GetContract c = Option.bind c ctx_contract"

text \<open>\<open>IsRentedNode\<close> is false where the flag was never set.\<close>

definition IsRentedNode :: "ctx \<Rightarrow> bool option" where
  "IsRentedNode c = map_option (\<lambda>v. ctx_rent v = Some True) c"

text \<open>\<open>GetDeployment\<close> and \<open>GetWorkload\<close> read the engine's storage, never the context's copy.\<close>

definition GetDeployment :: "'w native_engine \<Rightarrow> ctx \<Rightarrow> ('w, deployment res) eff option" where
  "GetDeployment e c = map_option (\<lambda>(twin, dl). st_Get (e_storage e) twin dl) (GetDeploymentID c)"

definition GetWorkload ::
  "gridtypes \<Rightarrow> 'w native_engine \<Rightarrow> ctx \<Rightarrow> name \<Rightarrow> ('w, workload_with_id res) eff option" where
  "GetWorkload gt e c nm =
     map_option (\<lambda>(twin, dl) w.
       (case st_Current (e_storage e) twin dl nm w of
          (Inl err, w') \<Rightarrow> (Inl err, w')
        | (Inr wl, w') \<Rightarrow>
            (Inr \<lparr>wid_Workload = wl, wid_ID = gt_UncheckedID gt twin dl nm\<rparr>, w')))
     (GetDeploymentID c)"

section \<open>What an option may change\<close>

text \<open>
  Every option configures the engine and leaves its storage, its provisioner and its queue
  alone; so does a list of options, and so does \<open>New\<close> with the ones it was given.
\<close>

locale engine_configuration =
  fixes conf :: "'w native_engine \<Rightarrow> string + 'w native_engine"
  assumes keeps:
    "conf e = Inr e' \<Longrightarrow>
       e_storage e' = e_storage e \<and> e_provisioner e' = e_provisioner e \<and> e_queue e' = e_queue e"

lemma withStartupOrder_keeps:
  assumes "withStartupOrder_apply visit ts e = Inr e'"
  shows "\<exists>ord idx. e' = e\<lparr>e_order := ord, e_typeIndex := idx\<rparr>"
  using assms by (auto simp: withStartupOrder_apply_def split: sum.splits prod.splits)

interpretation opt: engine_configuration "option_apply visit op" for visit op
proof unfold_locales
  fix e e'
  assume "option_apply visit op e = Inr e'"
  then show "e_storage e' = e_storage e \<and> e_provisioner e' = e_provisioner e \<and> e_queue e' = e_queue e"
    by (cases op) (auto dest: withStartupOrder_keeps)
qed

interpretation opts: engine_configuration "options_apply visit os" for visit os
proof unfold_locales
  fix e e'
  assume "options_apply visit os e = Inr e'"
  then show "e_storage e' = e_storage e \<and> e_provisioner e' = e_provisioner e \<and> e_queue e' = e_queue e"
    by (induction os arbitrary: e) (fastforce dest: opt.keeps split: sum.splits)+
qed

section \<open>Startup order\<close>

text \<open>The index agrees with the order: the type at position \<open>i\<close> has index \<open>i + 1\<close>.\<close>

definition indexed :: "workload_type list \<Rightarrow> (workload_type \<Rightarrow> int) \<Rightarrow> bool" where
  "indexed ord idx \<longleftrightarrow> distinct ord \<and> (\<forall>i < length ord. idx (ord ! i) = int i + 1)"

lemma indexed_snoc:
  assumes "indexed ord idx" and "t \<notin> set ord"
  shows "indexed (ord @ [t]) (idx(t := int (length (ord @ [t]))))"
  using assms by (auto simp: indexed_def nth_append less_Suc_eq)

lemma startup_listed_ok:
  assumes "distinct (ord @ ts)" "set ts \<subseteq> set all" "indexed ord idx"
  shows "\<exists>idx'. startup_listed ts all ord idx = Inr (filter (\<lambda>t. t \<notin> set ts) all, ord @ ts, idx')
           \<and> indexed (ord @ ts) idx'"
  using assms
proof (induction ts arbitrary: all ord idx)
  case (Cons t ts)
  have "indexed (ord @ [t]) (idx(t := int (length (ord @ [t]))))"
    using Cons.prems by (intro indexed_snoc) auto
  moreover have "distinct ((ord @ [t]) @ ts)" and "set ts \<subseteq> set (removeAll t all)"
    using Cons.prems by auto
  ultimately obtain idx' where
    "startup_listed ts (removeAll t all) (ord @ [t]) (idx(t := int (length (ord @ [t]))))
       = Inr (filter (\<lambda>u. u \<notin> set ts) (removeAll t all), (ord @ [t]) @ ts, idx')"
    and "indexed ((ord @ [t]) @ ts) idx'"
    using Cons.IH by blast
  moreover have "filter (\<lambda>u. u \<notin> set ts) (removeAll t all) = filter (\<lambda>u. u \<notin> set (t # ts)) all"
    by (induction all) auto
  ultimately show ?case using Cons.prems by simp
qed simp

lemma startup_listed_panic:
  assumes "\<not> (distinct ts \<and> set ts \<subseteq> set all)"
  shows "\<exists>msg. startup_listed ts all ord idx = Inl msg"
  using assms
proof (induction ts arbitrary: all ord idx)
  case (Cons t ts)
  show ?case
  proof (cases "t \<in> set all")
    case True
    with Cons.prems have "\<not> (distinct ts \<and> set ts \<subseteq> set (removeAll t all))" by auto
    from Cons.IH [OF this] True show ?thesis by simp
  qed simp
qed simp

lemma startup_rest_ok:
  assumes "distinct (ord @ ts)" "indexed ord idx"
  shows "\<exists>idx'. startup_rest ts ord idx = (ord @ ts, idx') \<and> indexed (ord @ ts) idx'"
  using assms
proof (induction ts arbitrary: ord idx)
  case (Cons t ts)
  have "indexed (ord @ [t]) (idx(t := int (length (ord @ [t]))))"
    using Cons.prems by (intro indexed_snoc) auto
  with Cons.IH [of "ord @ [t]"] Cons.prems show ?case by auto
qed simp

definition visit_ok :: "(workload_type list \<Rightarrow> workload_type list) \<Rightarrow> bool" where
  "visit_ok visit \<longleftrightarrow> (\<forall>xs. distinct xs \<longrightarrow> distinct (visit xs) \<and> set (visit xs) = set xs)"

text \<open>
  The startup order option: where the listed types are registered and listed once, the
  resulting order starts with them, holds every registered type exactly once, and numbers the
  types by position from 1 (so no type has index 0, which \<open>sortOperations\<close> relies on); anything
  else panics. Whatever order Go ranges over the remaining types in.
\<close>

lemma startup_order_indexed:
  assumes "visit_ok visit"
  shows "if distinct ts \<and> set ts \<subseteq> set (e_order e)
         then \<exists>rest idx. withStartupOrder_apply visit ts e
                = Inr (e\<lparr>e_order := ts @ rest, e_typeIndex := idx\<rparr>)
              \<and> set (ts @ rest) = set (e_order e) \<and> indexed (ts @ rest) idx
         else \<exists>msg. withStartupOrder_apply visit ts e = Inl msg"
proof (cases "distinct ts \<and> set ts \<subseteq> set (e_order e)")
  case True
  let ?left = "filter (\<lambda>t. t \<notin> set ts) (remdups (e_order e))"
  obtain idx where l: "startup_listed ts (remdups (e_order e)) [] (e_typeIndex e) = Inr (?left, ts, idx)"
      "indexed ts idx"
    using True startup_listed_ok [of "[]" ts "remdups (e_order e)" "e_typeIndex e"]
    by (auto simp: indexed_def)
  have v: "distinct (visit ?left)" "set (visit ?left) = set ?left"
    using assms by (auto simp: visit_ok_def)
  then obtain idx' where "startup_rest (visit ?left) ts idx = (ts @ visit ?left, idx')"
      "indexed (ts @ visit ?left) idx'"
    using True l startup_rest_ok [of ts "visit ?left" idx] by auto
  with l v True show ?thesis
    by (auto simp: withStartupOrder_apply_def intro!: exI [of _ "visit ?left"])
next
  case False
  then obtain msg where "startup_listed ts (remdups (e_order e)) [] (e_typeIndex e) = Inl msg"
    using startup_listed_panic [of ts "remdups (e_order e)"] by auto
  with False show ?thesis by (auto simp: withStartupOrder_apply_def)
qed

end
