(* ===== verification/Engine_Work.thy ===== *)
theory Engine_Work
  imports Engine_Base
begin

text \<open>
  \<open>pkg/provision/engine.go\<close>, second part: installing, uninstalling, updating, pausing and
  resuming workloads, one at a time and for a whole deployment, and the order of an update's
  operations.
\<close>

section \<open>One workload\<close>

definition uninstallWorkload ::
  "'w engine_env \<Rightarrow> 'w native_engine \<Rightarrow> ctx \<Rightarrow> workload_with_id \<Rightarrow> string \<Rightarrow> ('w, goerr option) eff" where
  "uninstallWorkload en e c wl reason w =
     (case gt_Parts (env_gt en) (wid_ID wl) of ((twin, dl, nm), _) \<Rightarrow>
       (case st_Current (e_storage e) twin dl nm w of
          (Inl err, w1) \<Rightarrow>
            if errors_is err ErrWorkloadNotExist then (None, w1) else (Some err, w1)
        | (Inr _, w1) \<Rightarrow>
            (case pv_Deprovision (e_provisioner e) c wl w1 of (err, w2) \<Rightarrow>
               (let (state, text) =
                  (case err of None \<Rightarrow> (StateDeleted, reason) | Some x \<Rightarrow> (StateError, err_text x));
                    (t, w3) = env_now en w2;
                    result = \<lparr>r_Created = t, r_State = state, r_Error = text, r_Data = []\<rparr>
                in case st_Transaction (e_storage e) twin dl
                          (gt_WithResults (env_gt en) (wid_Workload wl) result) w3 of
                     (Some x, w4) \<Rightarrow> (Some x, w4)
                   | (None, w4) \<Rightarrow>
                       if state = StateDeleted then st_Remove (e_storage e) twin dl nm w4
                       else (None, w4)))))"

text \<open>The second half of \<open>installWorkload\<close>, from the call of the provisioner on.\<close>

definition install_provision ::
  "'w engine_env \<Rightarrow> 'w native_engine \<Rightarrow> ctx \<Rightarrow> workload_with_id \<Rightarrow> u32 \<Rightarrow> u64 \<Rightarrow>
     ('w, goerr option) eff" where
  "install_provision en e c wl twin dl w =
     (case pv_Provision (e_provisioner e) c wl w of ((result, err), w1) \<Rightarrow>
        if is_err err ErrNoActionNeeded then (None, w1)
        else let (result', w2) =
               (case err of
                  None \<Rightarrow> (result, w1)
                | Some x \<Rightarrow>
                    (case env_now en w1 of (t, w2) \<Rightarrow>
                       (result\<lparr>r_Created := t, r_State := StateError, r_Error := err_text x\<rparr>, w2)))
             in st_Transaction (e_storage e) twin dl
                  (gt_WithResults (env_gt en) (wid_Workload wl) result') w2)"

definition installWorkload ::
  "'w engine_env \<Rightarrow> 'w native_engine \<Rightarrow> ctx \<Rightarrow> workload_with_id \<Rightarrow> ('w, goerr option) eff" where
  "installWorkload en e c wl w =
     (case gt_Parts (env_gt en) (wid_ID wl) of ((twin, dl, nm), _) \<Rightarrow>
        (case st_Current (e_storage e) twin dl nm w of
           (Inl err, w1) \<Rightarrow>
             if errors_is err ErrWorkloadNotExist then
               (case st_Add (e_storage e) twin dl (wid_Workload wl) w1 of
                  (Some x, w2) \<Rightarrow> (Some (Wrapped x ''failed to add workload to storage''), w2)
                | (None, w2) \<Rightarrow> install_provision en e c wl twin dl w2)
             else (Some (Wrapped err (''failed to get last transaction for '' @ squote (wid_ID wl))), w1)
         | (Inr current, w1) \<Rightarrow>
             if gt_IsAny (env_gt en) (r_State (wl_Result current)) [StateDeleted, StateError]
             then (None, w1) else install_provision en e c wl twin dl w1))"

definition updateWorkload ::
  "'w engine_env \<Rightarrow> 'w native_engine \<Rightarrow> ctx \<Rightarrow> workload_with_id \<Rightarrow> ('w, goerr option) eff" where
  "updateWorkload en e c wl w =
     (case gt_Parts (env_gt en) (wid_ID wl) of ((twin, dl, nm), _) \<Rightarrow>
       (case (if pv_CanUpdate (e_provisioner e) (wl_Type (wid_Workload wl))
              then pv_Update (e_provisioner e) c wl w
              else ((zero_result, Some (ErrMsg ''can not update this workload type'')), w)) of
          ((result, err), w1) \<Rightarrow>
            if is_err err ErrNoActionNeeded then
              (case st_Current (e_storage e) twin dl nm w1 of
                 (Inl x, w2) \<Rightarrow> (Some x, w2)
               | (Inr currentWl, w2) \<Rightarrow>
                   st_Transaction (e_storage e) twin dl
                     (gt_WithResults (env_gt en) (wid_Workload wl) (wl_Result currentWl)) w2)
            else (case err of
                    Some x \<Rightarrow> (Some x, w1)
                  | None \<Rightarrow>
                      st_Transaction (e_storage e) twin dl
                        (gt_WithResults (env_gt en) (wid_Workload wl) result) w1)))"

definition lockWorkload ::
  "'w engine_env \<Rightarrow> 'w native_engine \<Rightarrow> ctx \<Rightarrow> bool \<Rightarrow> workload_with_id \<Rightarrow> ('w, goerr option) eff" where
  "lockWorkload en e c lock wl w =
     (case gt_Parts (env_gt en) (wid_ID wl) of ((twin, dl, nm), _) \<Rightarrow>
       (case st_Current (e_storage e) twin dl nm w of
          (Inl err, w1) \<Rightarrow>
            (Some (Wrapped err (''failed to get last transaction for '' @ squote (wid_ID wl))), w1)
        | (Inr current, w1) \<Rightarrow>
            if \<not> gt_IsOkay (env_gt en) (r_State (wl_Result current)) then (None, w1)
            else (case (if lock then pv_Pause (e_provisioner e) else pv_Resume (e_provisioner e)) c wl w1 of
                    ((result, err), w2) \<Rightarrow>
                      if is_err err ErrNoActionNeeded then (None, w2)
                      else (case err of
                              Some x \<Rightarrow> (Some x, w2)
                            | None \<Rightarrow>
                                st_Transaction (e_storage e) twin dl
                                  (gt_WithResults (env_gt en) (wid_Workload wl) result) w2))))"

section \<open>A deployment\<close>

definition uninstallDeployment ::
  "'w engine_env \<Rightarrow> 'w native_engine \<Rightarrow> ctx \<Rightarrow> deployment \<Rightarrow> string \<Rightarrow> 'w \<Rightarrow> 'w" where
  "uninstallDeployment en e c dl reason w =
     (let (errors, w1) =
        for_log (\<lambda>typ w.
          (case for_log (\<lambda>wl. uninstallWorkload en e c wl reason) (gt_ByType (env_gt en) dl [typ]) w of
             (b, w') \<Rightarrow> (if b then Some (ErrMsg ''failed to un-install workload'') else None, w')))
          (rev (e_order e)) w
      in if errors then w1
         else snd (st_Delete (e_storage e) (dl_TwinID dl) (dl_ContractID dl) w1))"

text \<open>The text of the last error leaves out the rendering of the data; both callers drop it.\<close>

definition getMountSize :: "gridtypes \<Rightarrow> workload \<Rightarrow> u64 res" where
  "getMountSize gt wl =
     (case gt_WorkloadData gt wl of
        Inl err \<Rightarrow> Inl err
      | Inr (DataZMount sz) \<Rightarrow> Inr sz
      | Inr (DataVolume sz) \<Rightarrow> Inr sz
      | Inr _ \<Rightarrow> Inl (ErrMsg ''failed to get workload as zmount or volume''))"

definition mount_less :: "gridtypes \<Rightarrow> workload_with_id \<Rightarrow> workload_with_id \<Rightarrow> bool" where
  "mount_less gt x y =
     (case getMountSize gt (wid_Workload x) of
        Inl _ \<Rightarrow> False
      | Inr sizeI \<Rightarrow>
          (case getMountSize gt (wid_Workload y) of
             Inl _ \<Rightarrow> False
           | Inr sizeJ \<Rightarrow> sizeI > sizeJ))"

definition sortMountWorkloads :: "'w engine_env \<Rightarrow> workload_with_id list \<Rightarrow> workload_with_id list" where
  "sortMountWorkloads en workloads = env_sort en (mount_less (env_gt en)) workloads"

definition install_list :: "'w engine_env \<Rightarrow> deployment \<Rightarrow> workload_type \<Rightarrow> workload_with_id list" where
  "install_list en dl typ =
     (let workloads = gt_ByType (env_gt en) dl [typ]
      in if typ = gt_ZMountType (env_gt en) \<or> typ = gt_VolumeType (env_gt en)
         then sortMountWorkloads en workloads else workloads)"

definition installDeployment ::
  "'w engine_env \<Rightarrow> 'w native_engine \<Rightarrow> ctx \<Rightarrow> deployment \<Rightarrow> 'w \<Rightarrow> 'w" where
  "installDeployment en e c dl w =
     fold (\<lambda>typ w. snd (for_log (installWorkload en e c) (install_list en dl typ) w)) (e_order e) w"

definition lockDeployment ::
  "'w engine_env \<Rightarrow> 'w native_engine \<Rightarrow> ctx \<Rightarrow> deployment \<Rightarrow> 'w \<Rightarrow> 'w" where
  "lockDeployment en e c dl w =
     fold (\<lambda>typ w. snd (for_log (lockWorkload en e c True) (gt_ByType (env_gt en) dl [typ]) w))
       (rev (e_order e)) w"

definition unlockDeployment ::
  "'w engine_env \<Rightarrow> 'w native_engine \<Rightarrow> ctx \<Rightarrow> deployment \<Rightarrow> 'w \<Rightarrow> 'w" where
  "unlockDeployment en e c dl w =
     fold (\<lambda>typ w. snd (for_log (lockWorkload en e c False) (gt_ByType (env_gt en) dl [typ]) w))
       (e_order e) w"

section \<open>The operations of an update\<close>

definition opMap :: "'w native_engine \<Rightarrow> upgrade_op \<Rightarrow> int" where
  "opMap e op =
     (let idx = e_typeIndex e (wl_Type (wid_Workload (up_WlID op)))
      in if up_Op op = OpRemove then - idx else idx)"

text \<open>\<open>sort.SliceStable\<close> by a key is the stable sort.\<close>

definition sortOperations :: "'w native_engine \<Rightarrow> upgrade_op list \<Rightarrow> upgrade_op list" where
  "sortOperations e ops = sort_key (opMap e) ops"

definition update_one ::
  "'w engine_env \<Rightarrow> 'w native_engine \<Rightarrow> ctx \<Rightarrow> upgrade_op \<Rightarrow> ('w, goerr option) eff" where
  "update_one en e c op w =
     (case up_Op op of
        OpRemove \<Rightarrow> uninstallWorkload en e c (up_WlID op) ''deleted by an update'' w
      | OpAdd \<Rightarrow> installWorkload en e c (up_WlID op) w
      | OpUpdate \<Rightarrow> updateWorkload en e c (up_WlID op) w)"

text \<open>The named result \<open>changed\<close> is never assigned, so it is false.\<close>

definition updateDeployment ::
  "'w engine_env \<Rightarrow> 'w native_engine \<Rightarrow> ctx \<Rightarrow> upgrade_op list \<Rightarrow> ('w, bool) eff" where
  "updateDeployment en e c ops w =
     (False, snd (for_log (update_one en e c) (sortOperations e ops) w))"

section \<open>The view of a workload operation\<close>

text \<open>
  The engine's parts seen through the view \<open>cur\<close> of its storage: the storage follows its
  contract, and neither the clock nor the provisioner writes to the storage. \<open>placed\<close> is what
  \<open>Parts\<close> gives back for the id of a workload.
\<close>

type_synonym view = "wl_key \<rightharpoonup> workload"

definition engine_view :: "'w engine_env \<Rightarrow> 'w native_engine \<Rightarrow> ('w \<Rightarrow> view) \<Rightarrow> bool" where
  "engine_view en e cur \<longleftrightarrow>
     gridtypes_laws (env_gt en) \<and> storage_laws (e_storage e) cur \<and>
     quiet cur (env_now en) \<and>
     (\<forall>c x. quiet cur (pv_Provision (e_provisioner e) c x)) \<and>
     (\<forall>c x. quiet cur (pv_Deprovision (e_provisioner e) c x)) \<and>
     (\<forall>c x. quiet cur (pv_Update (e_provisioner e) c x)) \<and>
     (\<forall>c x. quiet cur (pv_Pause (e_provisioner e) c x)) \<and>
     (\<forall>c x. quiet cur (pv_Resume (e_provisioner e) c x))"

lemma engine_viewD:
  assumes "engine_view en e cur"
  shows "gridtypes_laws (env_gt en)" and "storage_laws (e_storage e) cur"
    and "quiet cur (env_now en)"
    and "quiet cur (pv_Provision (e_provisioner e) c x)"
    and "quiet cur (pv_Deprovision (e_provisioner e) c x)"
    and "quiet cur (pv_Update (e_provisioner e) c x)"
    and "quiet cur ((if lock then pv_Pause (e_provisioner e) else pv_Resume (e_provisioner e)) c x)"
  using assms by (auto simp: engine_view_def)

definition placed :: "gridtypes \<Rightarrow> u32 \<Rightarrow> u64 \<Rightarrow> workload_with_id \<Rightarrow> bool" where
  "placed gt t d x \<longleftrightarrow> (\<exists>e. gt_Parts gt (wid_ID x) = ((t, d, wl_Name (wid_Workload x)), e))"

lemma ByType_placed:
  assumes "gridtypes_laws gt" and "x \<in> set (gt_ByType gt dl ts)"
  shows "placed gt (dl_TwinID dl) (dl_ContractID dl) x"
  using gridtypes_lawsD(3) [OF assms] by (simp add: placed_def)

text \<open>
  The abstract workload machine: what one operation may do to the record of one workload.
  A workload in the deleted or error state is not installed again; only a recorded workload is
  removed; pausing and resuming need a recorded workload in a good state.
\<close>

datatype wl_label = Install | Uninstall | Change | Lock

inductive wl_step :: "gridtypes \<Rightarrow> u32 \<Rightarrow> u64 \<Rightarrow> wl_label \<times> workload \<Rightarrow> view \<Rightarrow> view \<Rightarrow> bool"
  for gt t d where
  stay: "wl_step gt t d (l, x) m m"
| added: "m (t, d, wl_Name x) = None \<Longrightarrow>
    wl_step gt t d (Install, x) m (m((t, d, wl_Name x) \<mapsto> x))"
| installed: "\<forall>y. m (t, d, wl_Name x) = Some y \<longrightarrow> r_State (wl_Result y) \<notin> {StateDeleted, StateError} \<Longrightarrow>
    wl_step gt t d (Install, x) m (m((t, d, wl_Name x) \<mapsto> x\<lparr>wl_Result := r\<rparr>))"
| failed: "m (t, d, wl_Name x) \<noteq> None \<Longrightarrow> r_State r \<in> {StateDeleted, StateError} \<Longrightarrow>
    wl_step gt t d (Uninstall, x) m (m((t, d, wl_Name x) \<mapsto> x\<lparr>wl_Result := r\<rparr>))"
| removed: "m (t, d, wl_Name x) \<noteq> None \<Longrightarrow>
    wl_step gt t d (Uninstall, x) m (m((t, d, wl_Name x) := None))"
| changed: "wl_step gt t d (Change, x) m (m((t, d, wl_Name x) \<mapsto> x\<lparr>wl_Result := r\<rparr>))"
| locked: "m (t, d, wl_Name x) = Some y \<Longrightarrow> gt_IsOkay gt (r_State (wl_Result y)) \<Longrightarrow>
    wl_step gt t d (Lock, x) m (m((t, d, wl_Name x) \<mapsto> x\<lparr>wl_Result := r\<rparr>))"

inductive_cases wl_stepE: "wl_step gt t d (l, x) m m'"

lemma wl_step_local:
  assumes "wl_step gt t d (l, x) m m'" and "k \<noteq> (t, d, wl_Name x)"
  shows "m' k = m k"
  using assms by (auto elim: wl_stepE)

lemma wl_step_installed:
  assumes "\<forall>y. m (t, d, wl_Name x) = Some y \<longrightarrow> r_State (wl_Result y) \<notin> {StateDeleted, StateError}"
    and "m1 = m \<or> m1 = m((t, d, wl_Name x) \<mapsto> z)" and "m' = m1((t, d, wl_Name x) \<mapsto> x\<lparr>wl_Result := r\<rparr>)"
  shows "wl_step gt t d (Install, x) m m'"
proof -
  have "m' = m((t, d, wl_Name x) \<mapsto> x\<lparr>wl_Result := r\<rparr>)" using assms by auto
  then show ?thesis using assms(1) wl_step.installed by blast
qed

section \<open>Each operation refines the machine\<close>

lemma uninstallWorkload_step:
  assumes v: "engine_view en e cur" and p: "placed (env_gt en) t d wl"
  shows "wl_step (env_gt en) t d (Uninstall, wid_Workload wl) (cur w)
           (cur (snd (uninstallWorkload en e c wl reason w)))"
proof -
  note sl = storage_lawsD [OF engine_viewD(2) [OF v]]
  note wr = gridtypes_lawsD(4) [OF engine_viewD(1) [OF v]]
  obtain pe where parts: "gt_Parts (env_gt en) (wid_ID wl) = ((t, d, wl_Name (wid_Workload wl)), pe)"
    using p by (auto simp: placed_def)
  let ?k = "(t, d, wl_Name (wid_Workload wl))"
  obtain r1 w1 where c1: "st_Current (e_storage e) t d (wl_Name (wid_Workload wl)) w = (r1, w1)"
    by fastforce
  note k1 = sl(1) [OF c1]
  show ?thesis
  proof (cases r1)
    case (Inl err)
    then show ?thesis using parts c1 k1 by (auto simp: uninstallWorkload_def intro: wl_step.stay)
  next
    case (Inr y)
    then have some: "cur w ?k \<noteq> None" using sl(2) c1 by fastforce
    obtain de w2 where c2: "pv_Deprovision (e_provisioner e) c wl w1 = (de, w2)" by fastforce
    obtain tm w3 where c3: "env_now en w2 = (tm, w3)" by fastforce
    define st where "st = (case de of None \<Rightarrow> StateDeleted | Some x \<Rightarrow> StateError)"
    define tx where "tx = (case de of None \<Rightarrow> reason | Some x \<Rightarrow> err_text x)"
    have k3: "cur w3 = cur w"
      using k1 quietD [OF engine_viewD(3) [OF v] c3] quietD [OF engine_viewD(5) [OF v] c2] by simp
    let ?x = "(wid_Workload wl)\<lparr>wl_Result := \<lparr>r_Created = tm, r_State = st, r_Error = tx, r_Data = []\<rparr>\<rparr>"
    obtain te w4 where c4: "st_Transaction (e_storage e) t d ?x w3 = (te, w4)" by fastforce
    have eq: "uninstallWorkload en e c wl reason w =
       (case te of Some x \<Rightarrow> (Some x, w4)
        | None \<Rightarrow> if st = StateDeleted then st_Remove (e_storage e) t d (wl_Name (wid_Workload wl)) w4
                 else (None, w4))"
      using parts c1 Inr c2 c3 c4
      by (cases de; cases te) (simp_all add: uninstallWorkload_def wr st_def tx_def)
    have rec: "wl_step (env_gt en) t d (Uninstall, wid_Workload wl) (cur w) ((cur w)(?k \<mapsto> ?x))"
      by (rule wl_step.failed) (use some in \<open>auto simp: st_def split: option.splits\<close>)
    show ?thesis
    proof (cases te)
      case (Some x)
      then show ?thesis using eq sl(7) c4 k3 by (auto intro: wl_step.stay)
    next
      case None
      with sl(6) c4 k3 have k4: "cur w4 = (cur w)(?k \<mapsto> ?x)" by fastforce
      obtain re w5 where c5: "st_Remove (e_storage e) t d (wl_Name (wid_Workload wl)) w4 = (re, w5)"
        by fastforce
      have k5: "cur w5 = (cur w)(?k := None) \<or> cur w5 = cur w4"
        using sl(8,9) [of t d "wl_Name (wid_Workload wl)" w4] c5 k4 by (cases re) auto
      show ?thesis
        using eq None c5 k5 k4 rec wl_step.removed [of "cur w" t d "wid_Workload wl" "env_gt en"] some
        by (auto split: if_splits)
    qed
  qed
qed

text \<open>A transaction of a workload either records it under a new result or changes nothing.\<close>

lemma transaction_view:
  assumes v: "engine_view en e cur"
  shows "cur (snd (st_Transaction (e_storage e) t d (gt_WithResults (env_gt en) x r) w)) = cur w \<or>
         cur (snd (st_Transaction (e_storage e) t d (gt_WithResults (env_gt en) x r) w))
           = (cur w)((t, d, wl_Name x) \<mapsto> x\<lparr>wl_Result := r\<rparr>)"
proof -
  note sl = storage_lawsD(6,7) [OF engine_viewD(2) [OF v], of t d "x\<lparr>wl_Result := r\<rparr>" w]
  obtain te w' where "st_Transaction (e_storage e) t d (x\<lparr>wl_Result := r\<rparr>) w = (te, w')" by fastforce
  with sl show ?thesis
    by (cases te) (simp_all add: gridtypes_lawsD(4) [OF engine_viewD(1) [OF v]])
qed

lemma installWorkload_step:
  assumes v: "engine_view en e cur" and p: "placed (env_gt en) t d wl"
  shows "wl_step (env_gt en) t d (Install, wid_Workload wl) (cur w)
           (cur (snd (installWorkload en e c wl w)))"
proof -
  let ?x = "wid_Workload wl" and ?k = "(t, d, wl_Name (wid_Workload wl))"
  note sl = storage_lawsD [OF engine_viewD(2) [OF v]]
  obtain pe where parts: "gt_Parts (env_gt en) (wid_ID wl) = (?k, pe)"
    using p by (auto simp: placed_def)
  let ?provision = "install_provision en e c wl t d"
  have prov: "\<exists>r. cur (snd (?provision w1)) \<in> {cur w1, (cur w1)(?k \<mapsto> ?x\<lparr>wl_Result := r\<rparr>)}" for w1
  proof -
    obtain r pr w2 where c1: "pv_Provision (e_provisioner e) c wl w1 = ((r, pr), w2)"
      by (metis prod.exhaust)
    note k1 = quietD [OF engine_viewD(4) [OF v] c1]
    obtain tm w3 where c2: "env_now en w2 = (tm, w3)" by fastforce
    note k2 = quietD [OF engine_viewD(3) [OF v] c2]
    show ?thesis
      using transaction_view [OF v, of t d ?x _ w2] transaction_view [OF v, of t d ?x _ w3]
      by (cases pr) (auto simp: install_provision_def c1 c2 k1 k2)
  qed
  obtain r1 w1 where c1: "st_Current (e_storage e) t d (wl_Name ?x) w = (r1, w1)" by fastforce
  note k1 = sl(1) [OF c1]
  show ?thesis
  proof (cases r1)
    case (Inr y)
    have y: "cur w ?k = Some y" using sl(2) c1 Inr by blast
    obtain r where "cur (snd (?provision w1)) \<in> {cur w, (cur w)(?k \<mapsto> ?x\<lparr>wl_Result := r\<rparr>)}"
      using prov [of w1] k1 by auto
    moreover have "r_State (wl_Result y) \<notin> {StateDeleted, StateError} \<Longrightarrow>
        wl_step (env_gt en) t d (Install, ?x) (cur w) ((cur w)(?k \<mapsto> ?x\<lparr>wl_Result := r\<rparr>))"
      by (rule wl_step.installed) (simp add: y)
    ultimately show ?thesis
      using k1
      by (auto simp: installWorkload_def parts c1 Inr
          gridtypes_lawsD(1) [OF engine_viewD(1) [OF v]] intro: wl_step.stay)
  next
    case (Inl er)
    show ?thesis
    proof (cases "errors_is er ErrWorkloadNotExist")
      case True
      have none: "cur w ?k = None" using sl(3) c1 Inl True by blast
      obtain ae w2 where c2: "st_Add (e_storage e) t d ?x w1 = (ae, w2)" by fastforce
      have k2: "cur w2 = (if ae = None then (cur w)(?k \<mapsto> ?x) else cur w)"
        using sl(4,5) [of t d ?x w1] c2 k1 by (cases ae) auto
      obtain r where "cur (snd (?provision w2)) \<in> {cur w2, (cur w2)(?k \<mapsto> ?x\<lparr>wl_Result := r\<rparr>)}"
        using prov [of w2] by auto
      with none k2 show ?thesis
        by (cases ae) (auto simp: installWorkload_def parts c1 Inl True c2
            intro: wl_step.stay wl_step.added wl_step_installed)
    qed (use Inl c1 k1 in \<open>simp add: installWorkload_def parts wl_step.stay\<close>)
  qed
qed

lemma updateWorkload_step:
  assumes v: "engine_view en e cur" and p: "placed (env_gt en) t d wl"
  shows "wl_step (env_gt en) t d (Change, wid_Workload wl) (cur w)
           (cur (snd (updateWorkload en e c wl w)))"
proof -
  let ?x = "wid_Workload wl" and ?k = "(t, d, wl_Name (wid_Workload wl))"
  obtain pe where parts: "gt_Parts (env_gt en) (wid_ID wl) = (?k, pe)"
    using p by (auto simp: placed_def)
  define upd where "upd = (if pv_CanUpdate (e_provisioner e) (wl_Type ?x)
       then pv_Update (e_provisioner e) c wl w
       else ((zero_result, Some (ErrMsg ''can not update this workload type'')), w))"
  obtain r ue w1 where u: "upd = ((r, ue), w1)" by (metis prod.exhaust)
  have k1: "cur w1 = cur w"
    using u quietD [OF engine_viewD(6) [OF v], of c wl w] by (auto simp: upd_def split: if_splits)
  obtain r2 w2 where c2: "st_Current (e_storage e) t d (wl_Name ?x) w1 = (r2, w2)" by fastforce
  note k2 = storage_lawsD(1) [OF engine_viewD(2) [OF v] c2]
  have step: "cur v' = cur w \<Longrightarrow> wl_step (env_gt en) t d (Change, ?x) (cur w)
      (cur (snd (st_Transaction (e_storage e) t d (gt_WithResults (env_gt en) ?x q) v')))" for v' q
    using transaction_view [OF v, of t d ?x q v'] by (auto intro: wl_step.stay wl_step.changed)
  show ?thesis
    using step [of w1] step [of w2] k1 k2
    by (cases ue; cases r2)
      (auto simp: updateWorkload_def parts upd_def [symmetric] u c2 intro: wl_step.stay)
qed

lemma lockWorkload_step:
  assumes v: "engine_view en e cur" and p: "placed (env_gt en) t d wl"
  shows "wl_step (env_gt en) t d (Lock, wid_Workload wl) (cur w)
           (cur (snd (lockWorkload en e c lock wl w)))"
proof -
  let ?x = "wid_Workload wl" and ?k = "(t, d, wl_Name (wid_Workload wl))"
  obtain pe where parts: "gt_Parts (env_gt en) (wid_ID wl) = (?k, pe)"
    using p by (auto simp: placed_def)
  obtain r1 w1 where c1: "st_Current (e_storage e) t d (wl_Name ?x) w = (r1, w1)" by fastforce
  note k1 = storage_lawsD(1) [OF engine_viewD(2) [OF v] c1]
  define act where "act = (if lock then pv_Pause (e_provisioner e) else pv_Resume (e_provisioner e)) c wl w1"
  obtain r ae w2 where a: "act = ((r, ae), w2)" by (metis prod.exhaust)
  have k2: "cur w2 = cur w"
    using quietD [OF engine_viewD(7) [OF v]] a k1 unfolding act_def by metis
  show ?thesis
  proof (cases r1)
    case (Inr y)
    then have y: "cur w ?k = Some y" using storage_lawsD(2) [OF engine_viewD(2) [OF v]] c1 by blast
    show ?thesis
      using transaction_view [OF v, of t d ?x r w2] k1 k2 y
      by (cases ae) (auto simp: lockWorkload_def parts c1 Inr act_def [symmetric] a
          intro: wl_step.stay wl_step.locked)
  qed (use c1 k1 in \<open>simp add: lockWorkload_def parts wl_step.stay\<close>)
qed

section \<open>Runs of the machine\<close>

inductive wl_run ::
  "gridtypes \<Rightarrow> u32 \<Rightarrow> u64 \<Rightarrow> (wl_label \<times> workload) list \<Rightarrow> view \<Rightarrow> view \<Rightarrow> bool"
  for gt t d where
  run_nil: "wl_run gt t d [] m m"
| run_cons: "wl_step gt t d a m m1 \<Longrightarrow> wl_run gt t d as m1 m' \<Longrightarrow> wl_run gt t d (a # as) m m'"

lemma wl_run_append:
  assumes "wl_run gt t d as m m1" and "wl_run gt t d bs m1 m'"
  shows "wl_run gt t d (as @ bs) m m'"
  using assms by (induction) (auto intro: wl_run.run_cons)

lemma for_log_run:
  assumes "\<And>x w. x \<in> set xs \<Longrightarrow> wl_step gt t d (lab x) (cur w) (cur (snd (f x w)))"
  shows "wl_run gt t d (map lab xs) (cur w) (cur (snd (for_log f xs w)))"
  using assms
proof (induction xs arbitrary: w)
  case (Cons x xs)
  have "wl_step gt t d (lab x) (cur w) (cur (snd (f x w)))" by (rule Cons.prems) simp
  moreover have "wl_run gt t d (map lab xs) (cur (snd (f x w))) (cur (snd (for_log f xs (snd (f x w)))))"
    by (rule Cons.IH) (rule Cons.prems, simp)
  ultimately show ?case
    by (simp only: for_log_fst_snd list.map) (rule wl_run.run_cons)
qed (simp add: wl_run.run_nil)

text \<open>A run touches the records of its own workloads only.\<close>

lemma wl_run_local:
  assumes "wl_run gt t d as m m'" and "\<forall>a \<in> set as. k \<noteq> (t, d, wl_Name (snd a))"
  shows "m' k = m k"
  using assms
proof (induction)
  case (run_cons a m m1 as m')
  obtain l x where "a = (l, x)" by fastforce
  then have "m1 k = m k" using run_cons.hyps(1) run_cons.prems wl_step_local by auto
  with run_cons show ?case by simp
qed simp

text \<open>Installing never touches a workload in the error or deleted state.\<close>

lemma wl_run_install_keeps:
  assumes "wl_run gt t d as m m'" and "fst ` set as \<subseteq> {Install}"
    and "m k = Some y" and "r_State (wl_Result y) \<in> {StateDeleted, StateError}"
  shows "m' k = Some y"
  using assms
proof (induction)
  case (run_cons a m m1 as m')
  obtain x where a: "a = (Install, x)" using run_cons.prems by (cases a) auto
  have "m1 k = Some y"
    using run_cons.hyps(1) run_cons.prems unfolding a by (auto elim!: wl_stepE)
  with run_cons show ?case by auto
qed simp

text \<open>Uninstalling never creates a record.\<close>

section \<open>Deployments as one list of workloads\<close>

text \<open>
  The nested loops over the startup order and over the workloads of a type are one loop over the
  concatenation, in startup order for installing and resuming, in reverse for removing and
  pausing.
\<close>

lemma fold_for_log:
  "fold (\<lambda>y w. snd (for_log f (g y) w)) ys w = snd (for_log f (concat (map g ys)) w)"
  by (induction ys arbitrary: w)
    (simp_all add: for_log_append Let_def case_prod_beta)

lemma installDeployment_flat:
  "installDeployment en e c dl w =
     snd (for_log (installWorkload en e c) (concat (map (install_list en dl) (e_order e))) w)"
  by (simp add: installDeployment_def fold_for_log)

definition by_order :: "gridtypes \<Rightarrow> deployment \<Rightarrow> workload_type list \<Rightarrow> workload_with_id list" where
  "by_order gt dl ord = concat (map (\<lambda>typ. gt_ByType gt dl [typ]) ord)"

lemma lockDeployment_flat:
  "lockDeployment en e c dl w =
     snd (for_log (lockWorkload en e c True) (by_order (env_gt en) dl (rev (e_order e))) w)"
  "unlockDeployment en e c dl w =
     snd (for_log (lockWorkload en e c False) (by_order (env_gt en) dl (e_order e)) w)"
  by (simp_all add: lockDeployment_def unlockDeployment_def by_order_def fold_for_log)

lemma uninstallDeployment_flat:
  "uninstallDeployment en e c dl reason w =
     (let (errors, w1) = for_log (\<lambda>wl. uninstallWorkload en e c wl reason)
            (by_order (env_gt en) dl (rev (e_order e))) w
      in if errors then w1 else snd (st_Delete (e_storage e) (dl_TwinID dl) (dl_ContractID dl) w1))"
proof -
  let ?f = "\<lambda>wl. uninstallWorkload en e c wl reason"
  have "for_log (\<lambda>typ w. case for_log ?f (gt_ByType (env_gt en) dl [typ]) w of
           (b, w') \<Rightarrow> (if b then Some (ErrMsg ''failed to un-install workload'') else None, w')) ts w
        = for_log ?f (by_order (env_gt en) dl ts) w" for ts w
    by (induction ts arbitrary: w)
      (auto simp: by_order_def for_log_append Let_def split: prod.splits)
  then show ?thesis by (simp add: uninstallDeployment_def)
qed

lemma by_order_placed:
  assumes "gridtypes_laws gt" and "x \<in> set (by_order gt dl ord)"
  shows "placed gt (dl_TwinID dl) (dl_ContractID dl) x" and "wid_Workload x \<in> set (dl_Workloads dl)"
proof -
  obtain tp where ty: "x \<in> set (gt_ByType gt dl [tp])" using assms by (auto simp: by_order_def)
  then show "placed gt (dl_TwinID dl) (dl_ContractID dl) x" using assms ByType_placed by blast
  have "wid_Workload x \<in> set (map wid_Workload (gt_ByType gt dl [tp]))" using ty by simp
  then show "wid_Workload x \<in> set (dl_Workloads dl)"
    unfolding gridtypes_lawsD(2) [OF assms(1)] by simp
qed

lemma by_order_complete:
  assumes "gridtypes_laws gt" and "y \<in> set (dl_Workloads dl)" and "wl_Type y \<in> set ord"
  shows "\<exists>x \<in> set (by_order gt dl ord). wid_Workload x = y"
proof -
  have "y \<in> set (map wid_Workload (gt_ByType gt dl [wl_Type y]))"
    unfolding gridtypes_lawsD(2) [OF assms(1)] using assms(2) by simp
  with assms(3) show ?thesis by (auto simp: by_order_def)
qed

text \<open>\<open>sort.Slice\<close> permutes its argument, and sorts it where the comparison is a strict weak order.\<close>

definition sort_slice_laws ::
  "((workload_with_id \<Rightarrow> workload_with_id \<Rightarrow> bool) \<Rightarrow> workload_with_id list \<Rightarrow> workload_with_id list) \<Rightarrow> bool" where
  "sort_slice_laws srt \<longleftrightarrow>
     (\<forall>lt xs. mset (srt lt xs) = mset xs \<and>
        ((\<exists>key :: workload_with_id \<Rightarrow> u64. \<forall>x \<in> set xs. \<forall>y \<in> set xs. lt x y \<longleftrightarrow> key x > key y) \<longrightarrow>
           sorted_wrt (\<lambda>x y. \<not> lt y x) (srt lt xs)))"

lemma sort_slice_lawsD:
  assumes "sort_slice_laws srt"
  shows "mset (srt lt xs) = mset xs" and "set (srt lt xs) = set xs"
    and "\<forall>x \<in> set xs. \<forall>y \<in> set xs. lt x y \<longleftrightarrow> (key x :: u64) > key y \<Longrightarrow>
           sorted_wrt (\<lambda>x y. \<not> lt y x) (srt lt xs)"
proof -
  note at = assms [unfolded sort_slice_laws_def, THEN spec, THEN spec, of lt xs]
  from at show "mset (srt lt xs) = mset xs" ..
  then show "set (srt lt xs) = set xs" by (rule mset_eq_setD)
  assume "\<forall>x \<in> set xs. \<forall>y \<in> set xs. lt x y \<longleftrightarrow> key x > key y"
  then show "sorted_wrt (\<lambda>x y. \<not> lt y x) (srt lt xs)"
    by (intro at [THEN conjunct2, THEN mp]) (rule exI [of _ key])
qed

lemma install_list_members:
  assumes "sort_slice_laws (env_sort en)"
  shows "mset (install_list en dl typ) = mset (gt_ByType (env_gt en) dl [typ])"
  using sort_slice_lawsD(1) [OF assms] by (simp add: install_list_def sortMountWorkloads_def Let_def)

lemma install_all_members:
  assumes "sort_slice_laws (env_sort en)"
  shows "set (concat (map (install_list en dl) ord)) = set (by_order (env_gt en) dl ord)"
  using mset_eq_setD [OF install_list_members [OF assms]] by (auto simp: by_order_def)

section \<open>Properties\<close>

text \<open>
  C6. Installing a deployment runs the abstract machine on its workloads, type by type in startup
  order: whatever the provisioner answers and whichever storage call fails, the records of the
  workloads change only along machine steps, one install step per workload.
\<close>

theorem installDeployment_refines:
  assumes "engine_view en e cur" and "sort_slice_laws (env_sort en)"
  shows "wl_run (env_gt en) (dl_TwinID dl) (dl_ContractID dl)
           (map (\<lambda>x. (Install, wid_Workload x)) (concat (map (install_list en dl) (e_order e))))
           (cur w) (cur (installDeployment en e c dl w))"
  unfolding installDeployment_flat
proof (rule for_log_run)
  fix x w
  assume "x \<in> set (concat (map (install_list en dl) (e_order e)))"
  then have "x \<in> set (by_order (env_gt en) dl (e_order e))"
    using install_all_members [OF assms(2)] by blast
  then have "placed (env_gt en) (dl_TwinID dl) (dl_ContractID dl) x"
    using by_order_placed(1) engine_viewD(1) [OF assms(1)] by blast
  then show "wl_step (env_gt en) (dl_TwinID dl) (dl_ContractID dl) (Install, wid_Workload x) (cur w)
               (cur (snd (installWorkload en e c x w)))"
    using installWorkload_step [OF assms(1)] by blast
qed

lemma uninstall_run:
  assumes "engine_view en e cur" and "\<forall>x \<in> set xs. placed (env_gt en) t d x"
  shows "wl_run (env_gt en) t d (map (\<lambda>x. (Uninstall, wid_Workload x)) xs) (cur w)
           (cur (snd (for_log (\<lambda>wl. uninstallWorkload en e c wl reason) xs w)))"
proof (rule for_log_run)
  show "wl_step (env_gt en) t d (Uninstall, wid_Workload x) (cur w)
      (cur (snd (uninstallWorkload en e c x reason w)))" if "x \<in> set xs" for x w
    by (rule uninstallWorkload_step) (use assms that in auto)
qed

lemma lock_run:
  assumes "engine_view en e cur" and "\<forall>x \<in> set xs. placed (env_gt en) t d x"
  shows "wl_run (env_gt en) t d (map (\<lambda>x. (Lock, wid_Workload x)) xs) (cur w)
           (cur (snd (for_log (lockWorkload en e c lock) xs w)))"
proof (rule for_log_run)
  show "wl_step (env_gt en) t d (Lock, wid_Workload x) (cur w)
      (cur (snd (lockWorkload en e c lock x w)))" if "x \<in> set xs" for x w
    by (rule lockWorkload_step) (use assms that in auto)
qed

text \<open>
  A workload that failed or was deleted is never provisioned again: installing any deployment,
  after a reboot for instance, leaves a record in the error or deleted state as it is.
\<close>

lemma install_keeps_failed:
  assumes v: "engine_view en e cur" and s: "sort_slice_laws (env_sort en)"
    and "cur w k = Some y" and "r_State (wl_Result y) \<in> {StateDeleted, StateError}"
  shows "cur (installDeployment en e c dl w) k = Some y"
proof -
  let ?xs = "concat (map (install_list en dl) (e_order e))"
  have "wl_run (env_gt en) (dl_TwinID dl) (dl_ContractID dl) (map (\<lambda>x. (Install, wid_Workload x)) ?xs)
          (cur w) (cur (snd (for_log (installWorkload en e c) ?xs w)))"
    by (rule for_log_run)
      (metis installWorkload_step [OF v] by_order_placed(1) [OF engine_viewD(1) [OF v]]
        install_all_members [OF s])
  then show ?thesis
    unfolding installDeployment_flat by (rule wl_run_install_keeps) (use assms in auto)
qed

text \<open>
  What a nil return leaves of the record: nothing, or the error state that a failed deprovision writes. So
  the failure of the provisioner is not among the errors that the loop counts.
\<close>

lemma uninstallWorkload_ends:
  assumes v: "engine_view en e cur" and p: "placed (env_gt en) t d wl"
    and ret: "fst (uninstallWorkload en e c wl reason w) = None"
  shows "case cur (snd (uninstallWorkload en e c wl reason w)) (t, d, wl_Name (wid_Workload wl)) of
      None \<Rightarrow> True
    | Some z \<Rightarrow> r_State (wl_Result z) = StateError \<and> (\<exists>u. fst (pv_Deprovision (e_provisioner e) c wl u) \<noteq> None)"
proof -
  let ?n = "wl_Name (wid_Workload wl)"
  note sl = storage_lawsD [OF engine_viewD(2) [OF v]]
  note wr = gridtypes_lawsD(4) [OF engine_viewD(1) [OF v]]
  obtain pe where parts: "gt_Parts (env_gt en) (wid_ID wl) = ((t, d, ?n), pe)"
    using p by (auto simp: placed_def)
  obtain r1 w1 where c1: "st_Current (e_storage e) t d ?n w = (r1, w1)" by fastforce
  show ?thesis
  proof (cases r1)
    case (Inl err)
    with ret parts c1 have "errors_is err ErrWorkloadNotExist"
      by (auto simp: uninstallWorkload_def split: if_splits)
    with Inl parts c1 sl(1) [OF c1] sl(3) [of t d ?n w err w1] show ?thesis
      by (simp add: uninstallWorkload_def)
  next
    case (Inr y)
    obtain de w2 where c2: "pv_Deprovision (e_provisioner e) c wl w1 = (de, w2)" by fastforce
    obtain tm w3 where c3: "env_now en w2 = (tm, w3)" by fastforce
    define st where "st = (case de of None \<Rightarrow> StateDeleted | Some x \<Rightarrow> StateError)"
    define rec where "rec = (wid_Workload wl)\<lparr>wl_Result :=
       \<lparr>r_Created = tm, r_State = st, r_Error = (case de of None \<Rightarrow> reason | Some x \<Rightarrow> err_text x), r_Data = []\<rparr>\<rparr>"
    obtain te w4 where c4: "st_Transaction (e_storage e) t d rec w3 = (te, w4)" by fastforce
    have eq: "uninstallWorkload en e c wl reason w =
       (case te of Some x \<Rightarrow> (Some x, w4)
        | None \<Rightarrow> if st = StateDeleted then st_Remove (e_storage e) t d ?n w4 else (None, w4))"
      using c4 by (cases de; cases te) (simp_all add: uninstallWorkload_def parts c1 Inr c2 c3 rec_def st_def wr)
    with ret have te: "te = None" by (cases te) simp_all
    show ?thesis
    proof (cases de)
      case None
      then have same: "uninstallWorkload en e c wl reason w = st_Remove (e_storage e) t d ?n w4"
        using eq te by (simp add: st_def)
      then have "cur (snd (st_Remove (e_storage e) t d ?n w4)) = (cur w4)((t, d, ?n) := None)"
        using ret sl(8) [of t d ?n w4] by (cases "st_Remove (e_storage e) t d ?n w4") simp
      then show ?thesis unfolding same by simp
    next
      case (Some x)
      then have "cur w4 (t, d, ?n) = Some rec" using sl(6) c4 te by (fastforce simp: rec_def)
      then show ?thesis
        using eq te Some c2 by (auto simp: st_def rec_def intro!: exI [of _ w1])
    qed
  qed
qed

corollary uninstallWorkload_gone:
  assumes v: "engine_view en e cur" and p: "placed (env_gt en) t d wl"
    and dep: "\<And>w. fst (pv_Deprovision (e_provisioner e) c wl w) = None"
    and ret: "fst (uninstallWorkload en e c wl reason w) = None"
  shows "cur (snd (uninstallWorkload en e c wl reason w)) (t, d, wl_Name (wid_Workload wl)) = None"
  using uninstallWorkload_ends [OF v p ret] dep by (auto split: option.splits)

lemma uninstallWorkload_other:
  assumes "engine_view en e cur" "placed (env_gt en) t d wl" "k \<noteq> (t, d, wl_Name (wid_Workload wl))"
  shows "cur (snd (uninstallWorkload en e c wl reason w)) k = cur w k"
  using wl_step_local [OF uninstallWorkload_step [OF assms(1,2)] assms(3)] by blast

lemma uninstall_all_ends:
  assumes v: "engine_view en e cur" and p: "\<forall>x \<in> set xs. placed (env_gt en) t d x"
    and ret: "\<not> fst (for_log (\<lambda>wl. uninstallWorkload en e c wl reason) xs w)"
    and x: "x \<in> set xs"
  shows "case cur (snd (for_log (\<lambda>wl. uninstallWorkload en e c wl reason) xs w)) (t, d, wl_Name (wid_Workload x)) of
      None \<Rightarrow> True
    | Some z \<Rightarrow> r_State (wl_Result z) = StateError \<and>
        (\<exists>y \<in> set xs. wl_Name (wid_Workload y) = wl_Name (wid_Workload x) \<and>
           (\<exists>u. fst (pv_Deprovision (e_provisioner e) c y u) \<noteq> None))"
  using p ret x
proof (induction xs arbitrary: x rule: rev_induct)
  case (snoc a as)
  let ?f = "\<lambda>wl. uninstallWorkload en e c wl reason"
  let ?w = "snd (for_log ?f as w)"
  have run: "snd (for_log ?f (as @ [a]) w) = snd (?f a ?w)" "\<not> fst (for_log ?f as w)" "fst (?f a ?w) = None"
    using snoc.prems(2) by (auto simp: for_log_append for_log_fst_snd case_prod_beta)
  have pa: "placed (env_gt en) t d a" using snoc.prems(1) by simp
  show ?case
  proof (cases "wl_Name (wid_Workload x) = wl_Name (wid_Workload a)")
    case True
    then show ?thesis
      using uninstallWorkload_ends [OF v pa run(3)] by (auto simp: run(1) split: option.splits)
  next
    case False
    then have "x \<in> set as" using snoc.prems(3) by auto
    moreover have "cur (snd (?f a ?w)) (t, d, wl_Name (wid_Workload x)) = cur ?w (t, d, wl_Name (wid_Workload x))"
      using False by (intro uninstallWorkload_other [OF v pa]) simp
    ultimately show ?thesis
      using snoc.IH [OF _ run(2), of x] snoc.prems(1) by (auto simp: run(1) split: option.splits)
  qed
qed simp

text \<open>The storage calls of a deprovisioning that go through: no other call can make the loop report an error.\<close>

definition storage_answers :: "'w storage \<Rightarrow> bool" where
  "storage_answers s \<longleftrightarrow>
     (\<forall>t d n w err. fst (st_Current s t d n w) = Inl err \<longrightarrow> errors_is err ErrWorkloadNotExist) \<and>
     (\<forall>t d x w. fst (st_Transaction s t d x w) = None) \<and> (\<forall>t d n w. fst (st_Remove s t d n w) = None)"

lemma storage_answersD:
  assumes "storage_answers s"
  shows "fst (st_Current s t d n w) = Inl err \<Longrightarrow> errors_is err ErrWorkloadNotExist"
    and "fst (st_Transaction s t d x w) = None" and "fst (st_Remove s t d n w) = None"
  using assms by (simp_all add: storage_answers_def)

lemma uninstallWorkload_answers:
  assumes "storage_answers (e_storage e)"
  shows "fst (uninstallWorkload en e c wl reason w) = None"
  using storage_answersD [OF assms]
  by (simp add: uninstallWorkload_def case_prod_beta Let_def split: sum.splits option.splits)

lemma uninstall_all_answers:
  assumes "storage_answers (e_storage e)"
  shows "\<not> fst (for_log (\<lambda>wl. uninstallWorkload en e c wl reason) xs w)"
  by (induction xs arbitrary: w) (simp_all add: for_log_fst_snd uninstallWorkload_answers [OF assms] del: for_log.simps(2))


text \<open>
  A failing deprovision is swallowed: \<open>uninstallWorkload\<close> records the error state and returns
  nil, so the deployment is deleted all the same.
\<close>

lemma failed_deprovision_still_deletes:
  assumes g: "gridtypes_laws (env_gt en)" and s: "storage_laws (e_storage e) cur"
    and one: "by_order (env_gt en) dl (rev (e_order e)) = [wl]"
    and current: "st_Current (e_storage e) (dl_TwinID dl) (dl_ContractID dl)
      (wl_Name (wid_Workload wl)) w = (Inr y, w1)"
    and dep: "pv_Deprovision (e_provisioner e) c wl w1 = (Some err, w2)"
    and now: "env_now en w2 = (t, w3)"
    and tx: "st_Transaction (e_storage e) (dl_TwinID dl) (dl_ContractID dl)
      ((wid_Workload wl)\<lparr>wl_Result := \<lparr>r_Created = t, r_State = StateError, r_Error = err_text err,
         r_Data = []\<rparr>\<rparr>) w3 = (None, w4)"
  shows "cur w4 (dl_TwinID dl, dl_ContractID dl, wl_Name (wid_Workload wl)) \<noteq> None \<and>
    uninstallDeployment en e c dl reason w
      = snd (st_Delete (e_storage e) (dl_TwinID dl) (dl_ContractID dl) w4)"
proof -
  obtain pe where parts: "gt_Parts (env_gt en) (wid_ID wl)
      = ((dl_TwinID dl, dl_ContractID dl, wl_Name (wid_Workload wl)), pe)"
    using by_order_placed(1) [OF g, of wl dl "rev (e_order e)"] one by (auto simp: placed_def)
  have "cur w4 (dl_TwinID dl, dl_ContractID dl, wl_Name (wid_Workload wl)) \<noteq> None"
    using storage_lawsD(6) [OF s tx] by simp
  moreover have "uninstallDeployment en e c dl reason w
      = snd (st_Delete (e_storage e) (dl_TwinID dl) (dl_ContractID dl) w4)"
    by (simp add: uninstallDeployment_flat one uninstallWorkload_def parts current dep now tx
        gridtypes_lawsD(4) [OF g])
  ultimately show ?thesis by simp
qed

text \<open>
  Mounts and volumes are installed largest first: where every workload of the list has a size,
  the sorted list is a permutation with sizes in descending order.
\<close>

lemma sortMountWorkloads_descending:
  assumes s: "sort_slice_laws (env_sort en)"
    and sizes: "\<forall>x \<in> set xs. \<exists>n. getMountSize (env_gt en) (wid_Workload x) = Inr n"
  shows "mset (sortMountWorkloads en xs) = mset xs \<and>
    sorted_wrt (\<lambda>x y. \<exists>m n. getMountSize (env_gt en) (wid_Workload x) = Inr m \<and>
        getMountSize (env_gt en) (wid_Workload y) = Inr n \<and> n \<le> m)
      (sortMountWorkloads en xs)"
proof -
  let ?size = "\<lambda>x. projr (getMountSize (env_gt en) (wid_Workload x))"
    and ?ys = "sortMountWorkloads en xs"
  have key: "\<forall>x \<in> set xs. \<forall>y \<in> set xs. mount_less (env_gt en) x y \<longleftrightarrow> ?size x > ?size y"
  proof (intro ballI)
    fix x y
    assume "x \<in> set xs" "y \<in> set xs"
    then obtain m n where "getMountSize (env_gt en) (wid_Workload x) = Inr m"
        "getMountSize (env_gt en) (wid_Workload y) = Inr n"
      using sizes by blast
    then show "mount_less (env_gt en) x y \<longleftrightarrow> ?size x > ?size y" by (simp add: mount_less_def)
  qed
  have "sorted_wrt (\<lambda>x y. \<not> mount_less (env_gt en) y x) ?ys"
    unfolding sortMountWorkloads_def by (rule sort_slice_lawsD(3) [OF s key])
  moreover have perm: "mset ?ys = mset xs" and mem: "set ?ys = set xs"
    using sort_slice_lawsD(1,2) [OF s] by (simp_all add: sortMountWorkloads_def)
  ultimately have "sorted_wrt (\<lambda>x y. \<exists>m n. getMountSize (env_gt en) (wid_Workload x) = Inr m \<and>
        getMountSize (env_gt en) (wid_Workload y) = Inr n \<and> n \<le> m) ?ys"
  proof (elim sorted_wrt_mono_rel [rotated])
    fix x y
    assume "x \<in> set ?ys" "y \<in> set ?ys" and nl: "\<not> mount_less (env_gt en) y x"
    then obtain m n where "getMountSize (env_gt en) (wid_Workload x) = Inr m"
        "getMountSize (env_gt en) (wid_Workload y) = Inr n"
      using sizes mem by blast
    with nl show "\<exists>m n. getMountSize (env_gt en) (wid_Workload x) = Inr m \<and>
        getMountSize (env_gt en) (wid_Workload y) = Inr n \<and> n \<le> m"
      by (auto simp: mount_less_def)
  qed
  with perm show ?thesis by simp
qed

lemma indexed_pos:
  assumes "indexed ord idx" and "t \<in> set ord"
  shows "0 < idx t"
  using assms by (auto simp: indexed_def in_set_conv_nth)

text \<open>
  C7. The order of an update: with an index that numbers the types by position, sorting permutes
  the operations, keeps operations of equal key in their order, puts every removal before every
  addition or change, runs removals in reverse startup order and the others in startup order.
\<close>

theorem sortOperations_order:
  assumes "indexed ord (e_typeIndex e)"
    and "\<forall>op \<in> set ops. wl_Type (wid_Workload (up_WlID op)) \<in> set ord"
  shows "mset (sortOperations e ops) = mset ops \<and>
    (\<forall>k. filter (\<lambda>op. opMap e op = k) (sortOperations e ops) = filter (\<lambda>op. opMap e op = k) ops) \<and>
    sorted_wrt (\<lambda>a b.
      let ia = e_typeIndex e (wl_Type (wid_Workload (up_WlID a)));
          ib = e_typeIndex e (wl_Type (wid_Workload (up_WlID b)))
      in (up_Op b = OpRemove \<longrightarrow> up_Op a = OpRemove \<and> ib \<le> ia) \<and>
         (up_Op a \<noteq> OpRemove \<longrightarrow> up_Op b \<noteq> OpRemove \<and> ia \<le> ib)) (sortOperations e ops)"
proof -
  let ?ys = "sortOperations e ops" and ?i = "\<lambda>op. e_typeIndex e (wl_Type (wid_Workload (up_WlID op)))"
  have pos: "0 < ?i op" if "op \<in> set ?ys" for op
    using that assms indexed_pos by (auto simp: sortOperations_def)
  have "sorted_wrt (\<lambda>a b. opMap e a \<le> opMap e b) ?ys"
    using sorted_sort_key [of "opMap e" ops] by (simp add: sortOperations_def sorted_map)
  then have "sorted_wrt (\<lambda>a b. (up_Op b = OpRemove \<longrightarrow> up_Op a = OpRemove \<and> ?i b \<le> ?i a) \<and>
      (up_Op a \<noteq> OpRemove \<longrightarrow> up_Op b \<noteq> OpRemove \<and> ?i a \<le> ?i b)) ?ys"
  proof (rule sorted_wrt_mono_rel [rotated])
    fix a b
    assume "a \<in> set ?ys" "b \<in> set ?ys" and le: "opMap e a \<le> opMap e b"
    then have "0 < ?i a" "0 < ?i b" using pos by blast+
    with le show "(up_Op b = OpRemove \<longrightarrow> up_Op a = OpRemove \<and> ?i b \<le> ?i a) \<and>
      (up_Op a \<noteq> OpRemove \<longrightarrow> up_Op b \<noteq> OpRemove \<and> ?i a \<le> ?i b)"
      by (auto simp: opMap_def Let_def split: if_splits)
  qed
  then show ?thesis
    using sort_key_stable [of "opMap e" _ ops] by (simp add: Let_def sortOperations_def)
qed

section \<open>Isolation\<close>

text \<open>
  Records of other deployments are out of reach of every deployment operation. For an update,
  the operations that \<open>Deployment.Upgrade\<close> returns carry ids of the deployment that is updated.
\<close>

definition upgrade_laws :: "gridtypes \<Rightarrow> bool" where
  "upgrade_laws gt \<longleftrightarrow>
     (\<forall>s t ops. gt_Upgrade gt s t = Inr ops \<longrightarrow>
        (\<forall>op \<in> set ops. placed gt (dl_TwinID t) (dl_ContractID t) (up_WlID op)))"

lemma update_one_step:
  assumes v: "engine_view en e cur" and p: "placed (env_gt en) t d (up_WlID op)"
  shows "wl_step (env_gt en) t d
           (case up_Op op of OpRemove \<Rightarrow> Uninstall | OpAdd \<Rightarrow> Install | OpUpdate \<Rightarrow> Change,
            wid_Workload (up_WlID op)) (cur w) (cur (snd (update_one en e c op w)))"
  using uninstallWorkload_step [OF v p] installWorkload_step [OF v p] updateWorkload_step [OF v p]
  by (cases "up_Op op") (simp_all add: update_one_def)

lemma updateDeployment_isolated:
  assumes v: "engine_view en e cur" and p: "\<forall>op \<in> set ops. placed (env_gt en) t d (up_WlID op)"
    and k: "(fst k, fst (snd k)) \<noteq> (t, d)"
  shows "cur (snd (updateDeployment en e c ops w)) k = cur w k"
proof -
  have "wl_run (env_gt en) t d (map (\<lambda>op. (case up_Op op of OpRemove \<Rightarrow> Uninstall | OpAdd \<Rightarrow> Install
            | OpUpdate \<Rightarrow> Change, wid_Workload (up_WlID op))) (sortOperations e ops)) (cur w)
          (cur (snd (for_log (update_one en e c) (sortOperations e ops) w)))"
    by (rule for_log_run, rule update_one_step [OF v]) (use p in \<open>simp add: sortOperations_def\<close>)
  from wl_run_local [OF this, of k] k show ?thesis by (cases k) (auto simp: updateDeployment_def)
qed

lemma installDeployment_isolated:
  assumes v: "engine_view en e cur" and s: "sort_slice_laws (env_sort en)"
    and k: "(fst k, fst (snd k)) \<noteq> (dl_TwinID dl, dl_ContractID dl)"
  shows "cur (installDeployment en e c dl w) k = cur w k"
proof -
  let ?xs = "concat (map (install_list en dl) (e_order e))"
  have "wl_run (env_gt en) (dl_TwinID dl) (dl_ContractID dl) (map (\<lambda>x. (Install, wid_Workload x)) ?xs)
          (cur w) (cur (snd (for_log (installWorkload en e c) ?xs w)))"
    by (rule for_log_run)
      (metis installWorkload_step [OF v] by_order_placed(1) [OF engine_viewD(1) [OF v]]
        install_all_members [OF s])
  from wl_run_local [OF this, of k] k show ?thesis by (cases k) (auto simp: installDeployment_flat)
qed

lemma lockDeployment_isolated:
  assumes v: "engine_view en e cur"
    and k: "(fst k, fst (snd k)) \<noteq> (dl_TwinID dl, dl_ContractID dl)"
  shows "cur (lockDeployment en e c dl w) k = cur w k"
    and "cur (unlockDeployment en e c dl w) k = cur w k"
proof -
  have "cur (snd (for_log (lockWorkload en e c lock) (by_order (env_gt en) dl ord) w)) k = cur w k"
    for lock ord
    using wl_run_local [OF lock_run [OF v], of "by_order (env_gt en) dl ord" "dl_TwinID dl"
        "dl_ContractID dl" k] by_order_placed(1) [OF engine_viewD(1) [OF v]] k
    by (cases k) fastforce
  then show "cur (lockDeployment en e c dl w) k = cur w k"
    and "cur (unlockDeployment en e c dl w) k = cur w k"
    by (simp_all add: lockDeployment_flat)
qed

text \<open>\<open>Storage.Delete\<close> removes the deployment and nothing else.\<close>

definition delete_laws :: "'w storage \<Rightarrow> ('w \<Rightarrow> view) \<Rightarrow> bool" where
  "delete_laws st cur \<longleftrightarrow>
     (\<forall>t d w k. (fst k, fst (snd k)) \<noteq> (t, d) \<longrightarrow> cur (snd (st_Delete st t d w)) k = cur w k)"

lemma uninstallDeployment_isolated:
  assumes v: "engine_view en e cur" and del: "delete_laws (e_storage e) cur"
    and k: "(fst k, fst (snd k)) \<noteq> (dl_TwinID dl, dl_ContractID dl)"
  shows "cur (uninstallDeployment en e c dl reason w) k = cur w k"
proof -
  let ?xs = "by_order (env_gt en) dl (rev (e_order e))"
  have "wl_run (env_gt en) (dl_TwinID dl) (dl_ContractID dl) (map (\<lambda>x. (Uninstall, wid_Workload x)) ?xs)
      (cur w) (cur (snd (for_log (\<lambda>wl. uninstallWorkload en e c wl reason) ?xs w)))"
    using by_order_placed(1) [OF engine_viewD(1) [OF v]] by (intro uninstall_run [OF v]) blast
  from wl_run_local [OF this, of k] k
  have "cur (snd (for_log (\<lambda>wl. uninstallWorkload en e c wl reason) ?xs w)) k = cur w k"
    by (cases k) auto
  moreover have "cur (snd (st_Delete (e_storage e) (dl_TwinID dl) (dl_ContractID dl) v)) k = cur v k" for v
    using del k unfolding delete_laws_def by blast
  ultimately show ?thesis
    by (simp add: uninstallDeployment_flat Let_def case_prod_beta)
qed

end
