(* ===== verification/Engine_Run.thy ===== *)
theory Engine_Run
  imports Engine_Work
begin

text \<open>
  \<open>pkg/provision/engine.go\<close>, third part: the calls that put jobs on the queue, the validation of
  a job against its contract, the jobs of a reboot, and the loop that takes jobs from the queue.
\<close>

section \<open>Queueing jobs\<close>

definition engineJob :: "job_operation \<Rightarrow> deployment \<Rightarrow> engine_job" where
  "engineJob op dl = \<lparr>job_Op = op, job_Target = dl, job_Source = None, job_Message = []\<rparr>"

definition Provision ::
  "'w engine_env \<Rightarrow> 'w native_engine \<Rightarrow> deployment \<Rightarrow> ('w, goerr option) eff" where
  "Provision en e deployment w =
     (if dl_Version deployment \<noteq> 0
      then (Some (Wrapped (Sentinel ErrInvalidVersion (env_errtext en ErrInvalidVersion))
              ''expected version to be 0 on deployment creation''), w)
      else case st_Create (e_storage e) deployment w of
             (Some err, w1) \<Rightarrow> (Some err, w1)
           | (None, w1) \<Rightarrow> q_Enqueue (e_queue e) (engineJob opProvision deployment) w1)"

definition Pause :: "'w native_engine \<Rightarrow> u32 \<Rightarrow> u64 \<Rightarrow> ('w, goerr option) eff" where
  "Pause e twin i w =
     (case st_Get (e_storage e) twin i w of
        (Inl err, w1) \<Rightarrow> (Some err, w1)
      | (Inr deployment, w1) \<Rightarrow> q_Enqueue (e_queue e) (engineJob opPause deployment) w1)"

definition Resume :: "'w native_engine \<Rightarrow> u32 \<Rightarrow> u64 \<Rightarrow> ('w, goerr option) eff" where
  "Resume e twin i w =
     (case st_Get (e_storage e) twin i w of
        (Inl err, w1) \<Rightarrow> (Some err, w1)
      | (Inr deployment, w1) \<Rightarrow> q_Enqueue (e_queue e) (engineJob opResume deployment) w1)"

definition Deprovision :: "'w native_engine \<Rightarrow> u32 \<Rightarrow> u64 \<Rightarrow> string \<Rightarrow> ('w, goerr option) eff" where
  "Deprovision e twin i reason w =
     (case st_Get (e_storage e) twin i w of
        (Inl err, w1) \<Rightarrow> (Some err, w1)
      | (Inr deployment, w1) \<Rightarrow>
          q_Enqueue (e_queue e) ((engineJob opDeprovision deployment)\<lparr>job_Message := reason\<rparr>) w1)"

text \<open>The check of the computed operations, in order: the first that cannot be applied fails.\<close>

fun update_check :: "'w engine_env \<Rightarrow> 'w native_engine \<Rightarrow> upgrade_op list \<Rightarrow> goerr option" where
  "update_check en e [] = None"
| "update_check en e (op # ops) =
     (let typ = wl_Type (wid_Workload (up_WlID op))
      in if up_Op op = OpUpdate \<and> \<not> pv_CanUpdate (e_provisioner e) typ
         then Some (Wrapped (Sentinel ErrDeploymentUpgradeValidationError
                      (env_errtext en ErrDeploymentUpgradeValidationError))
                    (''workload '' @ squote typ @ '' does not support upgrade''))
         else update_check en e ops)"

definition update_fields :: "deployment \<Rightarrow> deployment \<Rightarrow> field list" where
  "update_fields deployment update =
     [VersionField (dl_Version update), SignatureRequirementField (dl_SignatureRequirement update)]
     @ (if dl_Description deployment \<noteq> dl_Description update
        then [DescriptionField (dl_Description update)] else [])
     @ (if dl_Metadata deployment \<noteq> dl_Metadata update
        then [MetadataField (dl_Metadata update)] else [])"

definition Update ::
  "'w engine_env \<Rightarrow> 'w native_engine \<Rightarrow> deployment \<Rightarrow> ('w, goerr option) eff" where
  "Update en e update w =
     (case st_Get (e_storage e) (dl_TwinID update) (dl_ContractID update) w of
        (Inl err, w1) \<Rightarrow> (Some err, w1)
      | (Inr deployment, w1) \<Rightarrow>
          (case gt_Upgrade (env_gt en) deployment update of
             Inl err \<Rightarrow>
               (Some (Wrapped (Sentinel ErrDeploymentUpgradeValidationError
                        (env_errtext en ErrDeploymentUpgradeValidationError)) (err_text err)), w1)
           | Inr upgrades \<Rightarrow>
               (case update_check en e upgrades of
                  Some err \<Rightarrow> (Some err, w1)
                | None \<Rightarrow>
                    (case st_Update (e_storage e) (dl_TwinID update) (dl_ContractID update)
                            (update_fields deployment update) w1 of
                       (Some err, w2) \<Rightarrow> (Some (Wrapped err ''failed to update deployment data''), w2)
                     | (None, w2) \<Rightarrow>
                         q_Enqueue (e_queue e)
                           \<lparr>job_Op = opUpdate, job_Target = update, job_Source = Some deployment,
                            job_Message = []\<rparr> w2))))"

section \<open>Validation\<close>

text \<open>
  \<open>validate\<close> returns a context and an error. The error of a failed contract lookup is
  \<open>errors.Wrap(subErr.Err, ...)\<close>, which is nil where the substrate error carries no Go error:
  the caller then goes on with a nil context.
\<close>

definition validate ::
  "'w engine_env \<Rightarrow> 'w native_engine \<Rightarrow> ctx \<Rightarrow> deployment \<Rightarrow> bool \<Rightarrow> ('w, ctx \<times> goerr option) eff" where
  "validate en e c dl noValidation w =
     (case e_registrarGateway e of
        None \<Rightarrow> ((c, Some (ErrMsg ''substrate is not configured in engine'')), w)
      | Some g \<Rightarrow>
          (case gw_GetContract g (dl_ContractID dl) w of ((contract, subErr), w1) \<Rightarrow>
             if sb_IsError (env_sb en) subErr
             then ((None, errors_wrap (se_Err subErr) ''failed to get deployment contract''), w1)
             else if \<not> ct_IsNodeContract contract
             then ((None, Some (ErrMsg ''invalid contract type, expecting node contract'')), w1)
             else let c1 = withContract c (ct_NodeContract contract) in
               (case gw_GetNodeRentContract g (ucast (e_nodeID e)) w1 of ((rent, subErr), w2) \<Rightarrow>
                  if sb_IsError (env_sb en) subErr \<and> \<not> sb_IsNotFound (env_sb en) subErr
                  then ((None, Some (ErrMsg ''failed to check node rent state'')), w2)
                  else let c2 = withRented c1 (\<not> sb_IsError (env_sb en) subErr \<and> rent \<noteq> 0) in
                    if noValidation then ((c2, None), w2)
                    else if nc_Node (ct_NodeContract contract) \<noteq> ucast (e_nodeID e)
                    then ((None, Some (ErrMsg ''invalid node address in contract'')), w2)
                    else (case gt_ChallengeHash (env_gt en) dl of
                            Inl err \<Rightarrow>
                              ((None, Some (Wrapped err ''failed to compute deployment hash'')), w2)
                          | Inr hash \<Rightarrow>
                              if nc_DeploymentHash (ct_NodeContract contract) \<noteq> hex_encode hash
                              then ((None, Some (ErrMsg ''contract hash does not match deployment hash'')), w2)
                              else ((c2, None), w2)))))"

section \<open>The loop\<close>

text \<open>A panicking callback is recovered, so its world is kept and nothing else.\<close>

definition safeCallback ::
  "'w native_engine \<Rightarrow> deployment \<Rightarrow> bool \<Rightarrow> 'w \<Rightarrow> 'w" where
  "safeCallback e d del w =
     (case e_callback e of
        None \<Rightarrow> w
      | Some cb \<Rightarrow> snd (cb (dl_TwinID d) (dl_ContractID d) del w))"

definition boot_one ::
  "'w engine_env \<Rightarrow> 'w native_engine \<Rightarrow> u32 \<Rightarrow> u64 \<Rightarrow> ('w, goerr option) eff" where
  "boot_one en e twin i w =
     (case st_Get (e_storage e) twin i w of
        (Inl err, w1) \<Rightarrow> (Some err, w1)
      | (Inr dl, w1) \<Rightarrow>
          if \<not> gt_IsActive (env_gt en) dl then (None, w1)
          else q_Enqueue (e_queue e) (engineJob opProvisionNoValidation dl) w1)"

definition boot :: "'w engine_env \<Rightarrow> 'w native_engine \<Rightarrow> ('w, goerr option) eff" where
  "boot en e w =
     (case st_Twins (e_storage e) w of
        (Inl err, w1) \<Rightarrow> (Some (Wrapped err ''failed to list twins''), w1)
      | (Inr twins, w1) \<Rightarrow>
          (None, fold (\<lambda>twin w.
             (case st_ByTwin (e_storage e) twin w of
                (Inl err, w2) \<Rightarrow> w2
              | (Inr ids, w2) \<Rightarrow> snd (for_log (boot_one en e twin) ids w2))) twins w1))"

datatype run_outcome = Continue | Panicked

definition validated :: "job_operation \<Rightarrow> bool" where
  "validated op \<longleftrightarrow> op = opProvision \<or> op = opUpdate \<or> op = opProvisionNoValidation"

text \<open>
  The switch on the operation. \<open>job.Source.Upgrade\<close> on a nil source is a nil dereference, the one
  way the loop can die.
\<close>

definition run_switch ::
  "'w engine_env \<Rightarrow> 'w native_engine \<Rightarrow> ctx \<Rightarrow> engine_job \<Rightarrow> ('w, run_outcome) eff" where
  "run_switch en e c job w =
     (case job_Op job of
        opProvisionNoValidation \<Rightarrow> (Continue, installDeployment en e c (job_Target job) w)
      | opProvision \<Rightarrow> (Continue, installDeployment en e c (job_Target job) w)
      | opDeprovision \<Rightarrow> (Continue, uninstallDeployment en e c (job_Target job) (job_Message job) w)
      | opPause \<Rightarrow> (Continue, lockDeployment en e c (job_Target job) w)
      | opResume \<Rightarrow> (Continue, unlockDeployment en e c (job_Target job) w)
      | opUpdate \<Rightarrow>
          (case job_Source job of
             None \<Rightarrow> (Panicked, w)
           | Some source \<Rightarrow>
               (case gt_Upgrade (env_gt en) source (job_Target job) of
                  Inl err \<Rightarrow> (Continue, w)
                | Inr update \<Rightarrow> (Continue, snd (updateDeployment en e c update w)))))"

definition run_rest ::
  "'w engine_env \<Rightarrow> 'w native_engine \<Rightarrow> ctx \<Rightarrow> engine_job \<Rightarrow> ('w, run_outcome) eff" where
  "run_rest en e c job w =
     (case run_switch en e c job w of
        (Panicked, w1) \<Rightarrow> (Panicked, w1)
      | (Continue, w1) \<Rightarrow>
          (case q_Dequeue (e_queue e) w1 of (_, w2) \<Rightarrow>
             (Continue, safeCallback e (job_Target job) (job_Op job = opDeprovision) w2)))"

definition run_job ::
  "'w engine_env \<Rightarrow> 'w native_engine \<Rightarrow> ctx \<Rightarrow> engine_job \<Rightarrow> ('w, run_outcome) eff" where
  "run_job en e root job w =
     (let target = job_Target job;
          c = withDeployment root (dl_TwinID target) (dl_ContractID target)
      in if validated (job_Op job)
         then (case validate en e c target (job_Op job = opProvisionNoValidation) w of
                 ((c', Some err), w1) \<Rightarrow>
                   (case st_Error (e_storage e) (dl_TwinID target) (dl_ContractID target) err w1 of
                      (_, w2) \<Rightarrow> (Continue, snd (q_Dequeue (e_queue e) w2)))
               | ((c', None), w1) \<Rightarrow> run_rest en e c' job w1)
         else run_rest en e c job w)"

text \<open>One pass of the loop; an error of \<open>PeekBlock\<close> is logged and the loop goes on.\<close>

definition run_step :: "'w engine_env \<Rightarrow> 'w native_engine \<Rightarrow> ctx \<Rightarrow> ('w, run_outcome) eff" where
  "run_step en e root w =
     (case q_PeekBlock (e_queue e) w of
        (Inl err, w1) \<Rightarrow> (Continue, w1)
      | (Inr job, w1) \<Rightarrow> run_job en e root job w1)"

text \<open>
  \<open>Run\<close> after \<open>n\<close> passes: the jobs of a reboot are queued first where \<open>rerunAll\<close> is set (an error
  is logged), then the loop runs.
\<close>

fun run_loop :: "'w engine_env \<Rightarrow> 'w native_engine \<Rightarrow> ctx \<Rightarrow> nat \<Rightarrow> ('w, run_outcome) eff" where
  "run_loop en e root 0 w = (Continue, w)"
| "run_loop en e root (Suc n) w =
     (case run_step en e root w of
        (Panicked, w1) \<Rightarrow> (Panicked, w1)
      | (Continue, w1) \<Rightarrow> run_loop en e root n w1)"

definition Run :: "'w engine_env \<Rightarrow> 'w native_engine \<Rightarrow> ctx \<Rightarrow> nat \<Rightarrow> ('w, run_outcome) eff" where
  "Run en e root n w =
     run_loop en e root n (if e_rerunAll e then snd (boot en e w) else w)"

section \<open>What the loop leaves alone\<close>

text \<open>
  \<open>engine_quiet en e v\<close>: no call of the engine other than those on its queue changes the part of
  the world that \<open>v\<close> reads. With the queue's content as \<open>v\<close> it says that the queue is the engine's
  own. Every operation of the engine then keeps \<open>v\<close>.
\<close>

definition engine_quiet :: "'w engine_env \<Rightarrow> 'w native_engine \<Rightarrow> ('w \<Rightarrow> 'v) \<Rightarrow> bool" where
  "engine_quiet en e v \<longleftrightarrow>
     quiet v (env_now en) \<and>
     (\<forall>c x. quiet v (pv_Provision (e_provisioner e) c x)) \<and>
     (\<forall>c x. quiet v (pv_Deprovision (e_provisioner e) c x)) \<and>
     (\<forall>c x. quiet v (pv_Update (e_provisioner e) c x)) \<and>
     (\<forall>c x. quiet v (pv_Pause (e_provisioner e) c x)) \<and>
     (\<forall>c x. quiet v (pv_Resume (e_provisioner e) c x)) \<and>
     (\<forall>t d n. quiet v (st_Current (e_storage e) t d n)) \<and>
     (\<forall>t d x. quiet v (st_Add (e_storage e) t d x)) \<and>
     (\<forall>t d x. quiet v (st_Transaction (e_storage e) t d x)) \<and>
     (\<forall>t d n. quiet v (st_Remove (e_storage e) t d n)) \<and>
     (\<forall>t d. quiet v (st_Delete (e_storage e) t d)) \<and>
     (\<forall>t d er. quiet v (st_Error (e_storage e) t d er)) \<and>
     (\<forall>t d. quiet v (st_Get (e_storage e) t d)) \<and>
     (\<forall>d. quiet v (st_Create (e_storage e) d)) \<and>
     (\<forall>t d fs. quiet v (st_Update (e_storage e) t d fs)) \<and>
     quiet v (st_Twins (e_storage e)) \<and>
     (\<forall>t. quiet v (st_ByTwin (e_storage e) t)) \<and>
     (\<forall>g i. e_registrarGateway e = Some g \<longrightarrow> quiet v (gw_GetContract g i)) \<and>
     (\<forall>g i. e_registrarGateway e = Some g \<longrightarrow> quiet v (gw_GetNodeRentContract g i)) \<and>
     (\<forall>cb t d b. e_callback e = Some cb \<longrightarrow> quiet v (cb t d b))"

lemma engine_quietD:
  assumes "engine_quiet en e v"
  shows "v (snd (env_now en w)) = v w"
    and "v (snd (pv_Provision (e_provisioner e) c x w)) = v w"
    and "v (snd (pv_Deprovision (e_provisioner e) c x w)) = v w"
    and "v (snd (pv_Update (e_provisioner e) c x w)) = v w"
    and "v (snd (pv_Pause (e_provisioner e) c x w)) = v w"
    and "v (snd (pv_Resume (e_provisioner e) c x w)) = v w"
    and "v (snd (st_Current (e_storage e) t d n w)) = v w"
    and "v (snd (st_Add (e_storage e) t d y w)) = v w"
    and "v (snd (st_Transaction (e_storage e) t d y w)) = v w"
    and "v (snd (st_Remove (e_storage e) t d n w)) = v w"
    and "v (snd (st_Delete (e_storage e) t d w)) = v w"
    and "v (snd (st_Error (e_storage e) t d er w)) = v w"
    and "v (snd (st_Get (e_storage e) t d w)) = v w"
    and "v (snd (st_Create (e_storage e) dl w)) = v w"
    and "v (snd (st_Update (e_storage e) t d fs w)) = v w"
    and "v (snd (st_Twins (e_storage e) w)) = v w"
    and "v (snd (st_ByTwin (e_storage e) t w)) = v w"
  using assms by (simp_all add: engine_quiet_def quiet_def)

lemma engine_quiet_optional:
  assumes "engine_quiet en e v"
  shows "e_registrarGateway e = Some g \<Longrightarrow> v (snd (gw_GetContract g i w)) = v w"
    and "e_registrarGateway e = Some g \<Longrightarrow> v (snd (gw_GetNodeRentContract g k w)) = v w"
    and "e_callback e = Some cb \<Longrightarrow> v (snd (cb t d b w)) = v w"
  using assms by (simp_all add: engine_quiet_def quiet_def)

lemma workload_ops_quiet:
  assumes "engine_quiet en e v"
  shows "v (snd (uninstallWorkload en e c wl reason w)) = v w"
    and "v (snd (installWorkload en e c wl w)) = v w"
    and "v (snd (updateWorkload en e c wl w)) = v w"
    and "v (snd (lockWorkload en e c lock wl w)) = v w"
  by (simp_all add: uninstallWorkload_def installWorkload_def install_provision_def updateWorkload_def
      lockWorkload_def case_prod_beta Let_def engine_quietD [OF assms] split: option.splits sum.splits)

lemma update_one_quiet:
  assumes "engine_quiet en e v"
  shows "v (snd (update_one en e c op w)) = v w"
  by (simp add: update_one_def workload_ops_quiet [OF assms] split: upgrade_op_kind.splits)

lemma for_log_quiet:
  assumes "\<And>x w. v (snd (f x w)) = v w"
  shows "v (snd (for_log f xs w)) = v w"
  by (rule for_log_inv [where P = "\<lambda>w'. v w' = v w"]) (simp_all add: assms)

lemma deployment_ops_quiet:
  assumes q: "engine_quiet en e v"
  shows "v (installDeployment en e c dl w) = v w"
    and "v (uninstallDeployment en e c dl reason w) = v w"
    and "v (lockDeployment en e c dl w) = v w"
    and "v (unlockDeployment en e c dl w) = v w"
    and "v (snd (updateDeployment en e c ops w)) = v w"
  by (simp_all add: installDeployment_flat uninstallDeployment_flat lockDeployment_flat
      updateDeployment_def for_log_quiet workload_ops_quiet [OF q] update_one_quiet [OF q]
      case_prod_beta Let_def engine_quietD(11) [OF q])

lemma run_switch_quiet:
  assumes q: "engine_quiet en e v"
  shows "v (snd (run_switch en e c job w)) = v w"
  by (simp add: run_switch_def deployment_ops_quiet [OF q]
      split: job_operation.splits option.splits sum.splits)

lemma validate_quiet:
  assumes q: "engine_quiet en e v"
  shows "v (snd (validate en e c dl nv w)) = v w"
  by (simp add: validate_def case_prod_beta Let_def engine_quiet_optional [OF q]
      split: option.splits sum.splits)

lemma safeCallback_quiet:
  assumes q: "engine_quiet en e v"
  shows "v (safeCallback e d del w) = v w"
  by (simp add: safeCallback_def engine_quiet_optional [OF q] split: option.splits)

section \<open>The queue\<close>

lemma dque_dequeue_tl:
  assumes "dque_laws q items"
  shows "items (snd (q_Dequeue q w)) \<in> {items w, tl (items w)}"
proof -
  obtain r w' where c: "q_Dequeue q w = (r, w')" by fastforce
  then show ?thesis
    using dque_lawsD(5,6) [OF assms, of w _ w'] by (cases r) auto
qed

text \<open>Processing a job touches the queue by one call of \<open>Dequeue\<close> and in no other way.\<close>

lemma run_job_items:
  assumes q: "engine_quiet en e items"
    and deq: "\<And>u. items u = items w \<Longrightarrow> P (items (snd (q_Dequeue (e_queue e) u)))"
    and r: "run_job en e root job w = (Continue, w')"
  shows "P (items w')"
proof -
  have rest: "P (items v')"
    if "run_rest en e c job v = (Continue, v')" and "items v = items w" for c v v'
    using that deq [of "snd (run_switch en e c job v)"] run_switch_quiet [OF q, of c job v]
    by (auto simp: run_rest_def safeCallback_quiet [OF q] split: prod.splits run_outcome.splits)
  let ?c = "withDeployment root (dl_TwinID (job_Target job)) (dl_ContractID (job_Target job))"
  obtain c' er w1 where val: "validate en e ?c (job_Target job) (job_Op job = opProvisionNoValidation) w
      = ((c', er), w1)" by (metis prod.exhaust)
  then have w1: "items w1 = items w"
    using validate_quiet [OF q, of ?c "job_Target job" "job_Op job = opProvisionNoValidation" w] by simp
  show ?thesis
  proof (cases "validated (job_Op job)")
    case True
    then show ?thesis
      using r val w1 rest
      by (cases er) (auto simp: run_job_def Let_def case_prod_beta deq engine_quietD(12) [OF q])
  next
    case False
    then show ?thesis using r rest by (auto simp: run_job_def Let_def)
  qed
qed

text \<open>The jobs that cannot make the loop panic: an update job carries its source.\<close>

definition job_wf :: "engine_job \<Rightarrow> bool" where
  "job_wf job \<longleftrightarrow> (job_Op job = opUpdate \<longrightarrow> job_Source job \<noteq> None)"

definition queue_wf :: "engine_job list \<Rightarrow> bool" where
  "queue_wf jobs \<longleftrightarrow> (\<forall>job \<in> set jobs. job_wf job)"

lemma run_job_continues:
  assumes "job_wf job"
  shows "fst (run_job en e root job w) = Continue"
proof -
  have "fst (run_switch en e c job w) = Continue" for c w
    using assms by (auto simp: run_switch_def job_wf_def split: job_operation.splits option.splits sum.splits)
  then have "fst (run_rest en e c job w) = Continue" for c w
    by (simp add: run_rest_def case_prod_beta)
  then show ?thesis
    by (simp add: run_job_def Let_def case_prod_beta split: option.splits)
qed

section \<open>Reachable worlds\<close>

datatype api_call =
    CallProvision deployment
  | CallPause u32 u64
  | CallResume u32 u64
  | CallDeprovision u32 u64 string
  | CallUpdate deployment
  | CallBoot

fun api_exec ::
  "'w engine_env \<Rightarrow> 'w native_engine \<Rightarrow> api_call \<Rightarrow> ('w, goerr option) eff" where
  "api_exec en e (CallProvision d) = Provision en e d"
| "api_exec en e (CallPause t i) = Pause e t i"
| "api_exec en e (CallResume t i) = Resume e t i"
| "api_exec en e (CallDeprovision t i r) = Deprovision e t i r"
| "api_exec en e (CallUpdate d) = Update en e d"
| "api_exec en e CallBoot = boot en e"

inductive engine_reach :: "'w engine_env \<Rightarrow> 'w native_engine \<Rightarrow> ctx \<Rightarrow> 'w \<Rightarrow> 'w \<Rightarrow> bool"
  for en e root w0 where
  start: "engine_reach en e root w0 w0"
| pass: "engine_reach en e root w0 w \<Longrightarrow> run_step en e root w = (Continue, w') \<Longrightarrow>
    engine_reach en e root w0 w'"
| call: "engine_reach en e root w0 w \<Longrightarrow> engine_reach en e root w0 (snd (api_exec en e a w))"

lemma enqueue_wf:
  assumes "dque_laws (e_queue e) items" and "queue_wf (items w)" and "job_wf job"
  shows "queue_wf (items (snd (q_Enqueue (e_queue e) job w)))"
proof -
  obtain er w' where "q_Enqueue (e_queue e) job w = (er, w')" by fastforce
  then show ?thesis using assms dque_lawsD(1,2) [OF assms(1), of job w] by (cases er) (auto simp: queue_wf_def)
qed

lemma engineJob_wf [simp]:
  "op \<noteq> opUpdate \<Longrightarrow> job_wf (engineJob op dl)"
  "op \<noteq> opUpdate \<Longrightarrow> job_wf ((engineJob op dl)\<lparr>job_Message := m\<rparr>)"
  "job_wf \<lparr>job_Op = opUpdate, job_Target = t, job_Source = Some s, job_Message = m\<rparr>"
  by (simp_all add: job_wf_def engineJob_def)

lemma boot_wf:
  assumes d: "dque_laws (e_queue e) items" and q: "engine_quiet en e items"
    and wf: "queue_wf (items w)"
  shows "queue_wf (items (snd (boot en e w)))"
proof -
  let ?P = "\<lambda>w. queue_wf (items w)"
  have one: "?P (snd (boot_one en e t i w))" if "?P w" for t i w
    using that enqueue_wf [OF d, of "snd (st_Get (e_storage e) t i w)"]
    by (auto simp: boot_one_def case_prod_beta engine_quietD [OF q] split: sum.splits)
  have ids: "?P (snd (for_log (boot_one en e t) ids w))" if "?P w" for t ids w
    by (rule for_log_inv) (use that one in auto)
  have twin: "?P (fold (\<lambda>t w. case st_ByTwin (e_storage e) t w of (Inl err, w2) \<Rightarrow> w2
       | (Inr ids, w2) \<Rightarrow> snd (for_log (boot_one en e t) ids w2)) ts w)" if "?P w" for ts w
    by (rule fold_inv)
      (use that ids in \<open>auto simp: case_prod_beta engine_quietD [OF q] split: sum.splits\<close>)
  then show ?thesis
    using wf by (simp add: boot_def case_prod_beta engine_quietD [OF q] split: sum.splits)
qed

lemma api_exec_wf:
  assumes d: "dque_laws (e_queue e) items" and q: "engine_quiet en e items"
    and wf: "queue_wf (items w)"
  shows "queue_wf (items (snd (api_exec en e a w)))"
proof (cases a)
  case CallBoot
  then show ?thesis using boot_wf [OF assms] by simp
qed (use wf in \<open>auto simp: Provision_def Pause_def Resume_def Deprovision_def Update_def case_prod_beta
      engine_quietD [OF q] intro!: enqueue_wf [OF d]
      split: sum.splits option.splits\<close>)

lemma engine_reach_wf:
  assumes d: "dque_laws (e_queue e) items" and q: "engine_quiet en e items"
    and wf: "queue_wf (items w0)" and "engine_reach en e root w0 w"
  shows "queue_wf (items w)"
  using assms(4)
proof (induction)
  case (pass w w')
  obtain r w1 where p: "q_PeekBlock (e_queue e) w = (r, w1)" by fastforce
  note same = dque_lawsD(3) [OF d p]
  show ?case
  proof (cases r)
    case (Inl er)
    with pass p same show ?thesis by (simp add: run_step_def)
  next
    case (Inr job)
    with pass p have r: "run_job en e root job w1 = (Continue, w')" by (simp add: run_step_def)
    have "items w' = items w \<or> items w' = tl (items w)"
    proof (rule run_job_items [OF q _ r])
      fix u
      assume "items u = items w1"
      then show "items (snd (q_Dequeue (e_queue e) u)) = items w
          \<or> items (snd (q_Dequeue (e_queue e) u)) = tl (items w)"
        using dque_dequeue_tl [OF d, of u] same by simp
    qed
    with pass show ?thesis by (cases "items w") (auto simp: queue_wf_def)
  qed
qed (use wf api_exec_wf [OF d q] in auto)

section \<open>Properties\<close>

text \<open>
  C2. The engine cannot be killed by its own jobs: from a queue whose update jobs carry their
  source, whatever calls and passes of the loop follow, in whatever order and with whatever
  outcome of the storage, the provisioner and the gateway, the next pass of the loop does not
  panic.
\<close>

theorem engine_never_panics:
  assumes d: "dque_laws (e_queue e) items" and q: "engine_quiet en e items"
    and wf: "queue_wf (items w0)" and r: "engine_reach en e root w0 w"
  shows "fst (run_step en e root w) = Continue"
proof -
  obtain p w1 where p: "q_PeekBlock (e_queue e) w = (p, w1)" by fastforce
  show ?thesis
  proof (cases p)
    case (Inr job)
    with p have "\<exists>js. items w = job # js" by (intro dque_lawsD(4) [OF d]) simp
    then have "job_wf job" using engine_reach_wf [OF d q wf r] by (auto simp: queue_wf_def)
    with p Inr show ?thesis using run_job_continues by (simp add: run_step_def)
  qed (simp add: run_step_def p)
qed

text \<open>
  One pass takes the oldest job: it processes the head of the queue and, where \<open>Dequeue\<close> does not
  fail, leaves exactly the younger jobs behind.
\<close>

lemma run_step_head:
  assumes d: "dque_laws (e_queue e) items" and q: "engine_quiet en e items"
    and deq: "\<And>w. items w \<noteq> [] \<Longrightarrow> \<exists>x. fst (q_Dequeue (e_queue e) w) = Inr x"
    and p: "q_PeekBlock (e_queue e) w = (Inr job, w1)"
    and r: "run_step en e root w = (Continue, w')"
  shows "items w = job # items w'"
proof -
  have it: "items w1 = items w" by (rule dque_lawsD(3) [OF d p])
  obtain js where js: "items w = job # js" using dque_lawsD(4) [OF d p] by blast
  from r p have "run_job en e root job w1 = (Continue, w')" by (simp add: run_step_def)
  then have "items w' = js"
  proof (rule run_job_items [OF q, rotated])
    fix u
    assume u: "items u = items w1"
    then obtain x u' where "q_Dequeue (e_queue e) u = (Inr x, u')"
      using deq [of u] it js by (metis list.distinct(1) prod.collapse)
    with dque_lawsD(5) [OF d this] u it js show "items (snd (q_Dequeue (e_queue e) u)) = js" by simp
  qed
  with js show ?thesis by simp
qed

text \<open>
  What processing a job is, operation by operation: the work on the deployment, under the context with which
  the job was admitted, or the error that is stored when it was not. The flag tells whether the job was
  admitted.
\<close>

definition admitted ::
  "'w engine_env \<Rightarrow> 'w native_engine \<Rightarrow> ctx \<Rightarrow> engine_job \<Rightarrow> 'w \<Rightarrow> ctx \<times> goerr option \<Rightarrow> 'w \<Rightarrow> bool" where
  "admitted en e root job w r w' \<longleftrightarrow>
     (let dl = job_Target job; c = withDeployment root (dl_TwinID dl) (dl_ContractID dl)
      in if job_Op job \<in> {opProvision, opProvisionNoValidation, opUpdate}
         then validate en e c dl (job_Op job = opProvisionNoValidation) w = (r, w')
         else r = (c, None) \<and> w' = w)"

inductive handled ::
  "'w engine_env \<Rightarrow> 'w native_engine \<Rightarrow> ctx \<Rightarrow> engine_job \<Rightarrow> 'w \<Rightarrow> bool \<Rightarrow> 'w \<Rightarrow> bool"
  for en e root job w where
  refused: "admitted en e root job w (c, Some err) w1 \<Longrightarrow>
    handled en e root job w False
      (snd (st_Error (e_storage e) (dl_TwinID (job_Target job)) (dl_ContractID (job_Target job)) err w1))"
| provisioned: "admitted en e root job w (c, None) w1 \<Longrightarrow> job_Op job \<in> {opProvision, opProvisionNoValidation} \<Longrightarrow>
    handled en e root job w True (installDeployment en e c (job_Target job) w1)"
| deprovisioned: "admitted en e root job w (c, None) w1 \<Longrightarrow> job_Op job = opDeprovision \<Longrightarrow>
    handled en e root job w True (uninstallDeployment en e c (job_Target job) (job_Message job) w1)"
| paused: "admitted en e root job w (c, None) w1 \<Longrightarrow> job_Op job = opPause \<Longrightarrow>
    handled en e root job w True (lockDeployment en e c (job_Target job) w1)"
| resumed: "admitted en e root job w (c, None) w1 \<Longrightarrow> job_Op job = opResume \<Longrightarrow>
    handled en e root job w True (unlockDeployment en e c (job_Target job) w1)"
| updated: "admitted en e root job w (c, None) w1 \<Longrightarrow> job_Op job = opUpdate \<Longrightarrow> job_Source job = Some src \<Longrightarrow>
    gt_Upgrade (env_gt en) src (job_Target job) = Inr ops \<Longrightarrow>
    handled en e root job w True (snd (updateDeployment en e c ops w1))"
| no_procedure: "admitted en e root job w (c, None) w1 \<Longrightarrow> job_Op job = opUpdate \<Longrightarrow> job_Source job = Some src \<Longrightarrow>
    gt_Upgrade (env_gt en) src (job_Target job) = Inl err \<Longrightarrow> handled en e root job w True w1"

text \<open>
  A run that processes the jobs one after the other: each is read from the queue, processed, taken from
  the queue, and announced to the callback when it was admitted.
\<close>

inductive processes :: "'w engine_env \<Rightarrow> 'w native_engine \<Rightarrow> ctx \<Rightarrow> engine_job list \<Rightarrow> 'w \<Rightarrow> 'w \<Rightarrow> bool"
  for en e root where
  none: "processes en e root [] w w"
| one: "q_PeekBlock (e_queue e) w = (Inr job, w1) \<Longrightarrow> handled en e root job w1 ok w2 \<Longrightarrow>
    q_Dequeue (e_queue e) w2 = (Inr x, w3) \<Longrightarrow>
    processes en e root jobs
      (if ok then safeCallback e (job_Target job) (job_Op job = opDeprovision) w3 else w3) w' \<Longrightarrow>
    processes en e root (job # jobs) w w'"

lemma run_switch_handled:
  assumes "admitted en e root job w (c, None) w1" "job_wf job"
  shows "\<exists>w2. run_switch en e c job w1 = (Continue, w2) \<and> handled en e root job w True w2"
  using assms
  by (cases "job_Op job")
    (auto simp: run_switch_def job_wf_def intro: handled.intros split: sum.splits)

lemma run_job_handled:
  assumes wf: "job_wf job"
  shows "\<exists>ok w2. handled en e root job w ok w2 \<and>
    run_job en e root job w = (Continue,
      if ok then safeCallback e (job_Target job) (job_Op job = opDeprovision) (snd (q_Dequeue (e_queue e) w2))
      else snd (q_Dequeue (e_queue e) w2))"
proof -
  let ?dl = "job_Target job"
  let ?c = "withDeployment root (dl_TwinID ?dl) (dl_ContractID ?dl)"
  let ?v = "validate en e ?c ?dl (job_Op job = opProvisionNoValidation) w"
  have rest: ?thesis if "admitted en e root job w (c, None) w1" "run_job en e root job w = run_rest en e c job w1" for c w1
    using run_switch_handled [OF that(1) wf] that(2)
    by (auto simp: run_rest_def case_prod_beta intro!: exI [of _ True])
  show ?thesis
  proof (cases "validated (job_Op job)")
    case True
    obtain c err w1 where v: "?v = ((c, err), w1)" by (metis prod.exhaust)
    with True have adm: "admitted en e root job w (c, err) w1"
      by (auto simp: admitted_def validated_def Let_def)
    show ?thesis
    proof (cases err)
      case None
      then show ?thesis using rest adm True v by (simp add: run_job_def Let_def)
    next
      case (Some x)
      then show ?thesis
        using handled.refused [of en e root job w c x w1] adm True v
        by (intro exI [of _ False]) (auto simp: run_job_def Let_def case_prod_beta)
    qed
  next
    case False
    then have "admitted en e root job w (?c, None) w"
      by (auto simp: admitted_def validated_def Let_def)
    then show ?thesis using rest False by (simp add: run_job_def Let_def)
  qed
qed

lemma handled_quiet:
  assumes q: "engine_quiet en e v" and "handled en e root job w ok w'"
  shows "v w' = v w"
proof -
  have adm: "v w1 = v w" if "admitted en e root job w r w1" for r w1
    using that validate_quiet [OF q, of _ "job_Target job" "job_Op job = opProvisionNoValidation" w]
    by (auto simp: admitted_def Let_def split: if_splits dest: sym [where t = "w1"]) (metis snd_conv)+
  show ?thesis
    using assms(2) by cases (auto simp: deployment_ops_quiet [OF q] engine_quietD(12) [OF q] dest: adm)
qed

text \<open>
  C1. The queue drains in order: with a queue that follows its contract, jobs that are well formed and a
  queue that answers while it has jobs, as many passes of the loop as there are jobs process every one of
  them, oldest first, each by the work its operation asks for, and leave the queue empty, whatever the
  jobs do.
\<close>

theorem engine_drains:
  assumes d: "dque_laws (e_queue e) items" and q: "engine_quiet en e items"
    and deq: "\<And>w. items w \<noteq> [] \<Longrightarrow> \<exists>x. fst (q_Dequeue (e_queue e) w) = Inr x"
    and peek: "\<And>w. items w \<noteq> [] \<Longrightarrow> \<exists>x. fst (q_PeekBlock (e_queue e) w) = Inr x"
    and wf: "queue_wf (items w)"
  shows "\<exists>w'. run_loop en e root (length (items w)) w = (Continue, w') \<and> items w' = [] \<and>
    processes en e root (items w) w w'"
  using wf
proof (induction "items w" arbitrary: w)
  case Nil
  then show ?case using processes.none [of en e root w] by (intro exI [of _ w]) simp
next
  case (Cons job js)
  obtain x w1 where p: "q_PeekBlock (e_queue e) w = (Inr x, w1)"
    using peek [of w] Cons.hyps(2) by (metis list.distinct(1) prod.collapse)
  with Cons.hyps(2) dque_lawsD(4) [OF d p] have x: "x = job" by auto
  have "job_wf job" using Cons.hyps(2) Cons.prems by (metis list.set_intros(1) queue_wf_def)
  then obtain ok w2 where h: "handled en e root job w1 ok w2"
    and run: "run_job en e root job w1 = (Continue,
      if ok then safeCallback e (job_Target job) (job_Op job = opDeprovision) (snd (q_Dequeue (e_queue e) w2))
      else snd (q_Dequeue (e_queue e) w2))" using run_job_handled [of job en e root w1] by blast
  have w2: "items w2 = job # js"
    using handled_quiet [OF q h] dque_lawsD(3) [OF d p] Cons.hyps(2) by simp
  then obtain y w3 where dq: "q_Dequeue (e_queue e) w2 = (Inr y, w3)"
    using deq [of w2] by (metis list.distinct(1) prod.collapse)
  define w4 where "w4 = (if ok then safeCallback e (job_Target job) (job_Op job = opDeprovision) w3 else w3)"
  have step: "run_step en e root w = (Continue, w4)" using p x run dq by (simp add: run_step_def w4_def)
  have w4: "items w4 = js"
    using dque_lawsD(5) [OF d dq] w2 by (simp add: w4_def safeCallback_quiet [OF q])
  moreover have "queue_wf (items w4)" using Cons.hyps(2) Cons.prems w4 by (metis list.set_intros(2) queue_wf_def)
  ultimately obtain w' where "run_loop en e root (length js) w4 = (Continue, w')" "items w' = []"
      "processes en e root js w4 w'"
    using Cons.hyps(1) [of w4] by auto
  moreover from this(3) have "processes en e root (job # js) w w'"
    unfolding w4_def using processes.one [OF p [unfolded x] h dq] by blast
  ultimately show ?case using Cons.hyps(2) [symmetric] step by auto
qed

text \<open>
  The calls of the loop besides the storage's workload records, seen through the view \<open>cur\<close>.
\<close>

definition run_frame :: "'w native_engine \<Rightarrow> ('w \<Rightarrow> view) \<Rightarrow> bool" where
  "run_frame e cur \<longleftrightarrow>
     (\<forall>t d er. quiet cur (st_Error (e_storage e) t d er)) \<and>
     quiet cur (q_Dequeue (e_queue e)) \<and> quiet cur (q_PeekBlock (e_queue e)) \<and>
     (\<forall>g i. e_registrarGateway e = Some g \<longrightarrow> quiet cur (gw_GetContract g i)) \<and>
     (\<forall>g i. e_registrarGateway e = Some g \<longrightarrow> quiet cur (gw_GetNodeRentContract g i)) \<and>
     (\<forall>cb t d b. e_callback e = Some cb \<longrightarrow> quiet cur (cb t d b))"

lemma run_frameD:
  assumes "run_frame e cur"
  shows "cur (snd (st_Error (e_storage e) t d er w)) = cur w"
    and "cur (snd (q_Dequeue (e_queue e) w)) = cur w"
    and "cur (snd (q_PeekBlock (e_queue e) w)) = cur w"
    and "cur (snd (validate en e c dl nv w)) = cur w"
    and "cur (safeCallback e dl del w) = cur w"
  using assms
  by (simp_all add: run_frame_def quiet_def validate_def safeCallback_def case_prod_beta Let_def
      split: option.splits sum.splits)

text \<open>
  C3. Isolation: processing a job, whatever its operation and its outcome, changes no workload
  record of any other deployment.
\<close>

theorem run_job_isolated:
  assumes v: "engine_view en e cur" and s: "sort_slice_laws (env_sort en)"
    and u: "upgrade_laws (env_gt en)" and del: "delete_laws (e_storage e) cur"
    and f: "run_frame e cur"
    and k: "(fst k, fst (snd k)) \<noteq> (dl_TwinID (job_Target job), dl_ContractID (job_Target job))"
  shows "cur (snd (run_job en e root job w)) k = cur w k"
proof -
  have upd: "cur (snd (updateDeployment en e c ops w)) k = cur w k"
    if "gt_Upgrade (env_gt en) src (job_Target job) = Inr ops" for c ops w src
    using updateDeployment_isolated [OF v _ k] u that by (simp add: upgrade_laws_def)
  have switch: "cur (snd (run_switch en e c job w)) k = cur w k" for c w
    by (simp add: run_switch_def installDeployment_isolated [OF v s k] lockDeployment_isolated [OF v k]
        uninstallDeployment_isolated [OF v del k] upd split: job_operation.splits option.splits sum.splits)
  have rest: "cur (snd (run_rest en e c job w)) k = cur w k" for c w
    using switch by (simp add: run_rest_def case_prod_beta run_frameD [OF f] split: run_outcome.splits)
  show ?thesis
    using rest by (simp add: run_job_def case_prod_beta Let_def run_frameD [OF f] split: option.splits)
qed

text \<open>
  C4. What a passed validation means, for every job: the gateway knows a node contract for the deployment's
  contract id, which is then in the context, and unless the job is one of a reboot (\<open>noValidation\<close>) that
  contract names this node and its hash is the hex form of the deployment's challenge hash. The only other
  way through is a contract error that carries no error value, which leaves a nil context.
\<close>

theorem validate_sound:
  assumes "validate en e c dl noValidation w = ((c', None), w')" and "c \<noteq> None"
  shows "\<exists>g ct subErr w1. e_registrarGateway e = Some g \<and>
    gw_GetContract g (dl_ContractID dl) w = ((ct, subErr), w1) \<and>
    (if sb_IsError (env_sb en) subErr then se_Err subErr = None \<and> c' = None
     else ct_IsNodeContract ct \<and> ctx_GetContract c' = Some (ct_NodeContract ct) \<and>
       (noValidation \<or>
          nc_Node (ct_NodeContract ct) = ucast (e_nodeID e) \<and>
          (\<exists>hash. gt_ChallengeHash (env_gt en) dl = Inr hash \<and>
             nc_DeploymentHash (ct_NodeContract ct) = hex_encode hash)))"
proof -
  obtain g where g: "e_registrarGateway e = Some g" using assms(1) by (cases "e_registrarGateway e") (simp_all add: validate_def)
  obtain ct subErr w1 where call: "gw_GetContract g (dl_ContractID dl) w = ((ct, subErr), w1)" by (metis prod.exhaust)
  have "if sb_IsError (env_sb en) subErr then se_Err subErr = None \<and> c' = None
     else ct_IsNodeContract ct \<and> ctx_GetContract c' = Some (ct_NodeContract ct) \<and>
       (noValidation \<or>
          nc_Node (ct_NodeContract ct) = ucast (e_nodeID e) \<and>
          (\<exists>hash. gt_ChallengeHash (env_gt en) dl = Inr hash \<and>
             nc_DeploymentHash (ct_NodeContract ct) = hex_encode hash))"
    using assms
    by (auto simp: validate_def g call case_prod_beta Let_def withContract_def withRented_def ctx_GetContract_def
        split: if_splits sum.splits option.splits)
  with g call show ?thesis by blast
qed

text \<open>
  The hole in \<open>validate\<close>: a contract error that carries a code and no error value makes it
  return a nil context and no error, although nothing was validated.
\<close>

lemma validate_nil_context:
  assumes "e_registrarGateway e = Some g"
    and "gw_GetContract g (dl_ContractID dl) w = ((contract, subErr), w1)"
    and "sb_IsError (env_sb en) subErr" and "se_Err subErr = None"
  shows "validate en e c dl noValidation w = ((None, None), w1)"
  using assms by (simp add: validate_def)

text \<open>
  Against a gateway with no chain behind it no contract is a node contract, so nothing validates.
\<close>

context detached_gateway
begin

lemma validate_rejects:
  assumes "e_registrarGateway e = Some g" and "\<not> sb_IsError (env_sb en) zero_serr"
  shows "validate en e c dl noValidation w =
    ((None, Some (ErrMsg ''invalid contract type, expecting node contract'')), w)"
  using assms by (simp add: validate_def contract zero_contract_def)

end

text \<open>
  With the registrar gateway of this repository, where a zero substrate error is no error,
  every provision, update and reboot job is rejected before any workload is looked at.
\<close>

lemma registrar_gateway_rejects_jobs:
  assumes "e_registrarGateway e = Some (NewRegistrarGateway clock rc)"
    and "\<not> sb_IsError (env_sb en) zero_serr"
    and "job_Op job \<in> {opProvision, opUpdate, opProvisionNoValidation}"
  shows "run_job en e root job w =
    (Continue, snd (q_Dequeue (e_queue e) (snd (st_Error (e_storage e)
       (dl_TwinID (job_Target job)) (dl_ContractID (job_Target job))
       (ErrMsg ''invalid contract type, expecting node contract'') w))))"
  using assms(3) rg.validate_rejects [OF assms(1,2)]
  by (auto simp: run_job_def validated_def Let_def case_prod_beta)

lemma boot_ids:
  assumes d: "dque_laws (e_queue e) items" and enq: "\<And>x w. fst (q_Enqueue (e_queue e) x w) = None"
    and q: "engine_quiet en e items" and get: "\<And>t i w. fst (st_Get (e_storage e) t i w) = Inr (dls t i)"
  shows "items (snd (for_log (boot_one en e t) ids w)) = items w @
    map (\<lambda>i. engineJob opProvisionNoValidation (dls t i)) (filter (\<lambda>i. gt_IsActive (env_gt en) (dls t i)) ids)"
proof (induction ids arbitrary: w)
  case (Cons i ids)
  let ?w = "snd (st_Get (e_storage e) t i w)"
  have "items (snd (boot_one en e t i w)) = items w @ (if gt_IsActive (env_gt en) (dls t i)
      then [engineJob opProvisionNoValidation (dls t i)] else [])"
    using dque_lawsD(1) [OF d, of "engineJob opProvisionNoValidation (dls t i)" ?w] enq [of _ ?w]
    by (simp add: boot_one_def case_prod_beta get engine_quietD [OF q])
      (metis prod.collapse engine_quietD(13) [OF q])
  then show ?case by (simp add: for_log_fst_snd Cons.IH del: for_log.simps(2))
qed simp

text \<open>
  C10. After a reboot every active deployment of every twin is queued once for installation
  without validation, in the order the storage lists them, behind what was already queued.
\<close>

theorem boot_queues_active:
  assumes d: "dque_laws (e_queue e) items" and enq: "\<And>x w. fst (q_Enqueue (e_queue e) x w) = None"
    and q: "engine_quiet en e items" and get: "\<And>t i w. fst (st_Get (e_storage e) t i w) = Inr (dls t i)"
    and twins: "\<And>w. fst (st_Twins (e_storage e) w) = Inr ts"
    and lst: "\<And>t w. fst (st_ByTwin (e_storage e) t w) = Inr (ids t)"
  shows "fst (boot en e w) = None \<and>
    items (snd (boot en e w)) = items w @ concat (map (\<lambda>t.
      map (\<lambda>i. engineJob opProvisionNoValidation (dls t i))
        (filter (\<lambda>i. gt_IsActive (env_gt en) (dls t i)) (ids t))) ts)"
proof -
  let ?body = "\<lambda>twin w. case st_ByTwin (e_storage e) twin w of (Inl err, w2) \<Rightarrow> w2
      | (Inr ids, w2) \<Rightarrow> snd (for_log (boot_one en e twin) ids w2)"
  have "items (fold ?body us v) = items v @ concat (map (\<lambda>t.
      map (\<lambda>i. engineJob opProvisionNoValidation (dls t i))
        (filter (\<lambda>i. gt_IsActive (env_gt en) (dls t i)) (ids t))) us)" for us v
    by (induction us arbitrary: v)
      (simp_all add: case_prod_beta lst boot_ids [OF d enq q get] engine_quietD [OF q])
  then show ?thesis
    by (simp add: boot_def case_prod_beta twins engine_quietD [OF q])
qed

end
