(* ===== verification/Engine_Api.thy ===== *)
theory Engine_Api
  imports Engine_Run
begin

text \<open>
  \<open>pkg/provision/engine.go\<close>, last part: the calls of the engine's message bus interface. A call
  that can panic returns \<open>None\<close> where it does.
\<close>

section \<open>Account verification\<close>

definition isTwinVerified :: "'w engine_env \<Rightarrow> u32 \<Rightarrow> ('w, bool \<times> goerr option) eff" where
  "isTwinVerified en twinID w =
     (case env_kycStatusURL en of
        Inl err \<Rightarrow> ((False, Some err), w)
      | Inr url \<Rightarrow>
          (case env_newRequest en url of
             Some err \<Rightarrow> ((False, Some err), w)
           | None \<Rightarrow>
               (case env_httpGet en url ''twin_id'' (show_nat (unat twinID)) w of
                  (Inl err, w1) \<Rightarrow> ((False, Some err), w1)
                | (Inr (status, body), w1) \<Rightarrow>
                    if status \<noteq> 200
                    then ((False, Some (ErrMsg ''failed to get twin verification status'')), w1)
                    else (case env_decodeStatus en body of
                            Inl err \<Rightarrow> ((False, Some err), w1)
                          | Inr st \<Rightarrow> ((st = ''VERIFIED'', None), w1)))))"

definition verified_check :: "'w engine_env \<Rightarrow> u32 \<Rightarrow> ('w, goerr option) eff" where
  "verified_check en twin w =
     (case isTwinVerified en twin w of
        ((ok, Some err), w1) \<Rightarrow> (Some err, w1)
      | ((ok, None), w1) \<Rightarrow>
          (if \<not> ok then Some (ErrMsg (''user with twin id '' @ show_nat (unat twin) @ '' is not verified''))
           else None, w1))"

section \<open>The calls\<close>

definition CreateOrUpdate ::
  "'w engine_env \<Rightarrow> 'w native_engine \<Rightarrow> u32 \<Rightarrow> deployment \<Rightarrow> bool \<Rightarrow> ('w, goerr option) eff" where
  "CreateOrUpdate en e twin deployment update w =
     (case gt_Valid (env_gt en) deployment of
        Some err \<Rightarrow> (Some err, w)
      | None \<Rightarrow>
          if dl_TwinID deployment \<noteq> twin
          then (Some (ErrMsg (''twin id mismatch (deployment: '' @ show_nat (unat (dl_TwinID deployment)) @
                  '', message: '' @ show_nat (unat twin) @ '')'')), w)
          else (case env_Retry en (verified_check en twin) w of
                  (Some err, w1) \<Rightarrow> (Some err, w1)
                | (None, w1) \<Rightarrow>
                    (case env_Verify en deployment (e_twins e) w1 of
                       (Some err, w2) \<Rightarrow> (Some err, w2)
                     | (None, w2) \<Rightarrow>
                         (if update then Update en e deployment w2 else Provision en e deployment w2))))"

definition decommission_text :: "string \<Rightarrow> string" where
  "decommission_text reason = ''workload decommissioned by system, reason: '' @ reason"

definition DecommissionCached ::
  "'w engine_env \<Rightarrow> 'w native_engine \<Rightarrow> string \<Rightarrow> string \<Rightarrow> ('w, goerr option) eff" where
  "DecommissionCached en e i reason w =
     (case gt_Parts (env_gt en) i of
        (_, Some err) \<Rightarrow> (Some err, w)
      | ((twin, dlID, nm), None) \<Rightarrow>
          (case st_Current (e_storage e) twin dlID nm w of
             (Inl err, w1) \<Rightarrow> (Some err, w1)
           | (Inr wl, w1) \<Rightarrow>
               if r_State (wl_Result wl) = StateDeleted \<or> r_State (wl_Result wl) = StateError
               then (None, w1)
               else uninstallWorkload en e (withDeployment background twin dlID)
                      \<lparr>wid_Workload = wl, wid_ID = i\<rparr>
                      (decommission_text reason) w1))"

definition Get :: "'w native_engine \<Rightarrow> u32 \<Rightarrow> u64 \<Rightarrow> ('w, deployment res) eff" where
  "Get e twin contractID w =
     (case st_Get (e_storage e) twin contractID w of
        (Inl err, w1) \<Rightarrow>
          (if errors_is err ErrDeploymentNotExists then Inl (ErrMsg ''deployment not found'') else Inl err, w1)
      | (Inr deployment, w1) \<Rightarrow> (Inr deployment, w1))"

fun list_loop ::
  "'w engine_env \<Rightarrow> 'w native_engine \<Rightarrow> u32 \<Rightarrow> u64 list \<Rightarrow> deployment list \<Rightarrow> ('w, (deployment list) res) eff" where
  "list_loop en e twin [] acc w = (Inr acc, w)"
| "list_loop en e twin (i # ids) acc w =
     (case st_Get (e_storage e) twin i w of
        (Inl err, w1) \<Rightarrow> (Inl err, w1)
      | (Inr deployment, w1) \<Rightarrow>
          list_loop en e twin ids
            (if gt_IsActive (env_gt en) deployment then acc @ [deployment] else acc) w1)"

definition List :: "'w engine_env \<Rightarrow> 'w native_engine \<Rightarrow> u32 \<Rightarrow> ('w, (deployment list) res) eff" where
  "List en e twin w =
     (case st_ByTwin (e_storage e) twin w of
        (Inl err, w1) \<Rightarrow> (Inl err, w1)
      | (Inr ids, w1) \<Rightarrow> list_loop en e twin ids [] w1)"

definition Changes :: "'w native_engine \<Rightarrow> u32 \<Rightarrow> u64 \<Rightarrow> ('w, (workload list) res) eff" where
  "Changes e twin contractID w =
     (case st_Changes (e_storage e) twin contractID w of
        (Inl err, w1) \<Rightarrow>
          (if errors_is err ErrDeploymentNotExists then Inl (ErrMsg ''deployment not found'') else Inl err, w1)
      | (Inr changes, w1) \<Rightarrow> (Inr changes, w1))"

text \<open>The innermost loop of \<open>ListPublicIPs\<close>, over the workloads of one deployment.\<close>

fun public_ips :: "gridtypes \<Rightarrow> workload_with_id list \<Rightarrow> string list \<Rightarrow> (string list) res" where
  "public_ips gt [] acc = Inr acc"
| "public_ips gt (x # xs) acc =
     (let r = wl_Result (wid_Workload x)
      in if r_State r \<noteq> StateOk then public_ips gt xs acc
         else case gt_PublicIP gt r of
                Inl err \<Rightarrow> Inl err
              | Inr None \<Rightarrow> public_ips gt xs acc
              | Inr (Some ip) \<Rightarrow> public_ips gt xs (acc @ [ip]))"

fun public_deployments ::
  "'w engine_env \<Rightarrow> 'w native_engine \<Rightarrow> u32 \<Rightarrow> u64 list \<Rightarrow> string list \<Rightarrow> ('w, (string list) res) eff" where
  "public_deployments en e twin [] acc w = (Inr acc, w)"
| "public_deployments en e twin (i # ids) acc w =
     (case st_Get (e_storage e) twin i w of
        (Inl err, w1) \<Rightarrow> (Inl (Wrapped err ''failed to load deployment''), w1)
      | (Inr deployment, w1) \<Rightarrow>
          (case public_ips (env_gt en)
                  (gt_ByType (env_gt en) deployment
                     [gt_PublicIPv4Type (env_gt en), gt_PublicIPType (env_gt en)]) acc of
             Inl err \<Rightarrow> (Inl err, w1)
           | Inr acc' \<Rightarrow> public_deployments en e twin ids acc' w1))"

fun public_twins ::
  "'w engine_env \<Rightarrow> 'w native_engine \<Rightarrow> u32 list \<Rightarrow> string list \<Rightarrow> ('w, (string list) res) eff" where
  "public_twins en e [] acc w = (Inr acc, w)"
| "public_twins en e (twin # twins) acc w =
     (case st_ByTwin (e_storage e) twin w of
        (Inl err, w1) \<Rightarrow> (Inl (Wrapped err ''failed to list twin deployment''), w1)
      | (Inr ids, w1) \<Rightarrow>
          (case public_deployments en e twin ids acc w1 of
             (Inl err, w2) \<Rightarrow> (Inl err, w2)
           | (Inr acc', w2) \<Rightarrow> public_twins en e twins acc' w2))"

definition ListPublicIPs :: "'w engine_env \<Rightarrow> 'w native_engine \<Rightarrow> ('w, (string list) res) eff" where
  "ListPublicIPs en e w =
     (case st_Twins (e_storage e) w of
        (Inl err, w1) \<Rightarrow> (Inl (Wrapped err ''failed to list twins''), w1)
      | (Inr twins, w1) \<Rightarrow> public_twins en e twins [] w1)"

text \<open>
  The loops of \<open>ListPrivateIPs\<close>: \<open>data.(*zos.ZMachine)\<close> panics on any other data, which is
  \<open>None\<close>.
\<close>

fun private_ips ::
  "gridtypes \<Rightarrow> name \<Rightarrow> workload_with_id list \<Rightarrow> string list \<Rightarrow> ((string list) res) option" where
  "private_ips gt network [] acc = Some (Inr acc)"
| "private_ips gt network (vm # vms) acc =
     (if gt_IsAny gt (r_State (wl_Result (wid_Workload vm))) [StateDeleted, StateError]
      then private_ips gt network vms acc
      else case gt_WorkloadData gt (wid_Workload vm) of
             Inl err \<Rightarrow> Some (Inl err)
           | Inr (DataZMachine interfaces) \<Rightarrow>
               private_ips gt network vms
                 (acc @ map snd (filter (\<lambda>inf. fst inf = network) interfaces))
           | Inr _ \<Rightarrow> None)"

fun private_deployments ::
  "gridtypes \<Rightarrow> name \<Rightarrow> deployment list \<Rightarrow> string list \<Rightarrow> ((string list) res) option" where
  "private_deployments gt network [] acc = Some (Inr acc)"
| "private_deployments gt network (d # ds) acc =
     (case private_ips gt network (gt_ByType gt d [gt_ZMachineType gt]) acc of
        None \<Rightarrow> None
      | Some (Inl err) \<Rightarrow> Some (Inl err)
      | Some (Inr acc') \<Rightarrow> private_deployments gt network ds acc')"

definition ListPrivateIPs ::
  "'w engine_env \<Rightarrow> 'w native_engine \<Rightarrow> u32 \<Rightarrow> name \<Rightarrow> ('w, ((string list) res) option) eff" where
  "ListPrivateIPs en e twin network w =
     (case List en e twin w of
        (Inl err, w1) \<Rightarrow> (Some (Inl err), w1)
      | (Inr deployments, w1) \<Rightarrow> (private_deployments (env_gt en) network deployments [], w1))"

definition isNotFoundError :: "goerr option \<Rightarrow> bool" where
  "isNotFoundError err \<longleftrightarrow> is_err err ErrWorkloadNotExist \<or> is_err err ErrDeploymentNotExists"

definition GetWorkloadStatus ::
  "'w engine_env \<Rightarrow> 'w native_engine \<Rightarrow> string \<Rightarrow> ('w, result_state \<times> bool \<times> goerr option) eff" where
  "GetWorkloadStatus en e i w =
     (case gt_Parts (env_gt en) i of
        (_, Some err) \<Rightarrow> ((StateOther [], False, Some err), w)
      | ((twin, dlID, nm), None) \<Rightarrow>
          (case st_Current (e_storage e) twin dlID nm w of
             (Inl err, w1) \<Rightarrow>
               if isNotFoundError (Some err) then ((StateOther [], False, None), w1)
               else ((StateOther [], False, Some err), w1)
           | (Inr wl, w1) \<Rightarrow> ((r_State (wl_Result wl), True, None), w1)))"

section \<open>Properties\<close>

lemma verified_check_none:
  assumes "verified_check en twin w = (None, w')"
  shows "isTwinVerified en twin w = ((True, None), w')"
  using assms by (auto simp: verified_check_def split: prod.splits option.splits if_splits)

text \<open>
  C8. The gate of a deployment request: a create or update that returns no error was checked for
  validity, came from the twin it names, from an account the verification service answered
  \<open>VERIFIED\<close> for with status 200, and with signatures that verify against the engine's twin keys.
  No job is queued otherwise, since these checks come first.
\<close>

theorem CreateOrUpdate_gate:
  assumes "retry_laws (env_Retry en)"
    and "CreateOrUpdate en e twin deployment update w = (None, w')"
  shows "gt_Valid (env_gt en) deployment = None \<and> dl_TwinID deployment = twin \<and>
    (\<exists>u v url body. isTwinVerified en twin u = ((True, None), v) \<and>
       env_kycStatusURL en = Inr url \<and>
       fst (env_httpGet en url ''twin_id'' (show_nat (unat twin)) u) = Inr (200, body) \<and>
       env_decodeStatus en body = Inr ''VERIFIED'' \<and>
       (\<exists>v2. env_Verify en deployment (e_twins e) v = (None, v2) \<and>
          (if update then Update en e deployment v2 else Provision en e deployment v2) = (None, w')))"
proof -
  from assms(2) obtain v v2 where c: "gt_Valid (env_gt en) deployment = None" "dl_TwinID deployment = twin"
      "env_Retry en (verified_check en twin) w = (None, v)"
      "env_Verify en deployment (e_twins e) v = (None, v2)"
      "(if update then Update en e deployment v2 else Provision en e deployment v2) = (None, w')"
    by (auto simp: CreateOrUpdate_def split: option.splits if_splits prod.splits)
  from retry_laws_none [OF assms(1) c(3)] obtain u where "verified_check en twin u = (None, v)" by blast
  then have u: "isTwinVerified en twin u = ((True, None), v)" by (rule verified_check_none)
  then obtain url body where "env_kycStatusURL en = Inr url" "env_decodeStatus en body = Inr ''VERIFIED''"
      "fst (env_httpGet en url ''twin_id'' (show_nat (unat twin)) u) = Inr (200, body)"
    by (auto simp: isTwinVerified_def split: sum.splits option.splits prod.splits if_splits)
  with c u show ?thesis by blast
qed

lemma update_check_none:
  assumes "update_check en e ops = None" and "op \<in> set ops" and "up_Op op = OpUpdate"
  shows "pv_CanUpdate (e_provisioner e) (wl_Type (wid_Workload (up_WlID op)))"
  using assms by (induction ops) (auto simp: Let_def split: if_splits)

text \<open>
  An update is accepted only if it can be applied: \<open>Update\<close> returns no error only where the
  stored deployment can be upgraded to the new one and every workload that changes has a type that
  can be updated; the job then carries the stored deployment as its source, so the loop computes
  the same operations again.
\<close>

lemma Update_accepts:
  assumes d: "dque_laws (e_queue e) items" and q: "engine_quiet en e items"
    and ok: "Update en e upd w = (None, w')"
  shows "\<exists>source ops w1.
     st_Get (e_storage e) (dl_TwinID upd) (dl_ContractID upd) w = (Inr source, w1) \<and>
     gt_Upgrade (env_gt en) source upd = Inr ops \<and>
     (\<forall>op \<in> set ops. up_Op op = OpUpdate \<longrightarrow>
        pv_CanUpdate (e_provisioner e) (wl_Type (wid_Workload (up_WlID op)))) \<and>
     items w' = items w @
       [\<lparr>job_Op = opUpdate, job_Target = upd, job_Source = Some source, job_Message = []\<rparr>]"
proof -
  from ok obtain source ops w1 w2 where c:
      "st_Get (e_storage e) (dl_TwinID upd) (dl_ContractID upd) w = (Inr source, w1)"
      "gt_Upgrade (env_gt en) source upd = Inr ops" "update_check en e ops = None"
      "st_Update (e_storage e) (dl_TwinID upd) (dl_ContractID upd) (update_fields source upd) w1 = (None, w2)"
      "q_Enqueue (e_queue e)
         \<lparr>job_Op = opUpdate, job_Target = upd, job_Source = Some source, job_Message = []\<rparr> w2 = (None, w')"
    by (auto simp: Update_def split: prod.splits sum.splits option.splits)
  have "items w2 = items w"
    using c(1,4) engine_quietD(13,15) [OF q] by (metis snd_conv)
  then have "items w' = items w @
       [\<lparr>job_Op = opUpdate, job_Target = upd, job_Source = Some source, job_Message = []\<rparr>]"
    using dque_lawsD(1) [OF d c(5)] by simp
  with c show ?thesis using update_check_none [OF c(3)] by blast
qed

text \<open>Listing returns the active deployments, in the order of the ids.\<close>

lemma list_loop_active:
  assumes "\<And>i w. fst (st_Get (e_storage e) twin i w) = Inr (dls i)"
  shows "fst (list_loop en e twin ids acc w) = Inr (acc @ filter (gt_IsActive (env_gt en)) (map dls ids))"
  by (induction ids arbitrary: acc w) (simp_all add: case_prod_beta assms)

text \<open>The addresses that the workloads of a list have recorded.\<close>

definition recorded_ips :: "gridtypes \<Rightarrow> workload_with_id list \<Rightarrow> string list" where
  "recorded_ips gt xs = concat (map (\<lambda>x.
     if r_State (wl_Result (wid_Workload x)) = StateOk
     then (case gt_PublicIP gt (wl_Result (wid_Workload x)) of Inr (Some ip) \<Rightarrow> [ip] | _ \<Rightarrow> [])
     else []) xs)"

lemma public_ips_recorded:
  assumes "public_ips gt xs acc = Inr ips"
  shows "ips = acc @ recorded_ips gt xs"
  using assms
proof (induction xs arbitrary: acc)
  case (Cons x xs)
  show ?case
    using Cons.prems Cons.IH [of acc] Cons.IH [of "acc @ [the (projr (gt_PublicIP gt (wl_Result (wid_Workload x))))]"]
    by (auto simp: Let_def recorded_ips_def split: if_splits sum.splits option.splits)
qed (simp add: recorded_ips_def)

definition public_workloads :: "gridtypes \<Rightarrow> deployment \<Rightarrow> workload_with_id list" where
  "public_workloads gt d = gt_ByType gt d [gt_PublicIPv4Type gt, gt_PublicIPType gt]"

lemma public_deployments_recorded:
  assumes get: "\<And>i w. fst (st_Get (e_storage e) twin i w) = Inr (dls i)"
    and "fst (public_deployments en e twin ids acc w) = Inr ips"
  shows "ips = acc @ concat (map (\<lambda>i. recorded_ips (env_gt en) (public_workloads (env_gt en) (dls i))) ids)"
  using assms(2)
proof (induction ids arbitrary: acc w)
  case (Cons i ids)
  then obtain acc' where a: "public_ips (env_gt en) (public_workloads (env_gt en) (dls i)) acc = Inr acc'"
      and r: "fst (public_deployments en e twin ids acc' (snd (st_Get (e_storage e) twin i w))) = Inr ips"
    by (auto simp: case_prod_beta get public_workloads_def split: sum.splits)
  show ?case using Cons.IH [OF r] public_ips_recorded [OF a] by simp
qed simp

lemma public_twins_recorded:
  assumes get: "\<And>t i w. fst (st_Get (e_storage e) t i w) = Inr (dls t i)"
    and lst: "\<And>t w. fst (st_ByTwin (e_storage e) t w) = Inr (ids t)"
    and "fst (public_twins en e ts acc w) = Inr ips"
  shows "ips = acc @ concat (map (\<lambda>t. concat (map (\<lambda>i.
           recorded_ips (env_gt en) (public_workloads (env_gt en) (dls t i))) (ids t))) ts)"
  using assms(3)
proof (induction ts arbitrary: acc w)
  case (Cons t ts)
  let ?w = "snd (st_ByTwin (e_storage e) t w)"
  obtain acc' where a: "fst (public_deployments en e t (ids t) acc ?w) = Inr acc'"
      and r: "fst (public_twins en e ts acc' (snd (public_deployments en e t (ids t) acc ?w))) = Inr ips"
    using Cons.prems by (auto simp: case_prod_beta lst split: sum.splits)
  show ?case using Cons.IH [OF r] public_deployments_recorded [OF get a] by simp
qed simp

text \<open>
  The public addresses a node reports: with a storage that answers, they are exactly the
  addresses recorded by the workloads of a public address type that are in the ok state, over all
  deployments of all twins, in storage order.
\<close>

lemma ListPublicIPs_exact:
  assumes get: "\<And>t i w. fst (st_Get (e_storage e) t i w) = Inr (dls t i)"
    and lst: "\<And>t w. fst (st_ByTwin (e_storage e) t w) = Inr (ids t)"
    and twins: "\<And>w. fst (st_Twins (e_storage e) w) = Inr ts"
    and ok: "ListPublicIPs en e w = (Inr ips, w')"
  shows "ips = concat (map (\<lambda>t. concat (map (\<lambda>i.
           recorded_ips (env_gt en) (public_workloads (env_gt en) (dls t i))) (ids t))) ts)"
proof -
  have "fst (public_twins en e ts [] (snd (st_Twins (e_storage e) w))) = Inr ips"
    using ok twins [of w] by (auto simp: ListPublicIPs_def split: prod.splits)
  from public_twins_recorded [OF get lst this] show ?thesis by simp
qed

text \<open>
  Decommissioning by the system: a cached workload that is already deleted or failed is left
  alone; any other is uninstalled, so that, when the deprovision succeeds and no error is
  returned, its record is gone.
\<close>

lemma DecommissionCached_outcome:
  assumes v: "engine_view en e cur"
    and parts: "gt_Parts (env_gt en) i = ((t, d, nm), None)"
    and rec: "cur w (t, d, nm) = Some y" and name: "wl_Name y = nm"
    and dep: "\<And>c x w. fst (pv_Deprovision (e_provisioner e) c x w) = None"
    and ok: "DecommissionCached en e i reason w = (None, w')"
  shows "cur w' (t, d, nm) =
    (if r_State (wl_Result y) \<in> {StateDeleted, StateError} then Some y else None)"
proof -
  note sl = storage_lawsD [OF engine_viewD(2) [OF v]]
  obtain r w1 where c: "st_Current (e_storage e) t d nm w = (r, w1)" by fastforce
  from ok parts c obtain z where r: "r = Inr z"
    by (cases r) (auto simp: DecommissionCached_def)
  have z: "z = y" using sl(2) [of t d nm w z w1] c r rec by simp
  have w1: "cur w1 = cur w" by (rule sl(1) [OF c])
  show ?thesis
  proof (cases "r_State (wl_Result y) \<in> {StateDeleted, StateError}")
    case True
    then show ?thesis using ok parts c r z w1 rec by (auto simp: DecommissionCached_def)
  next
    case False
    let ?x = "\<lparr>wid_Workload = y, wid_ID = i\<rparr>"
    have p: "placed (env_gt en) t d ?x" using parts name by (simp add: placed_def)
    have u: "uninstallWorkload en e (withDeployment background t d) ?x
        (decommission_text reason) w1 = (None, w')"
      using ok parts c r z False by (simp add: DecommissionCached_def)
    have "cur (snd (uninstallWorkload en e (withDeployment background t d) ?x
        (decommission_text reason) w1)) (t, d, wl_Name (wid_Workload ?x)) = None"
      by (rule uninstallWorkload_gone [OF v p dep]) (simp add: u)
    with u name False show ?thesis by simp
  qed
qed

end
