(* ===== verification/Concrete.thy ===== *)
theory Concrete
  imports Engine_Api
begin

text \<open>
  A concrete instance of every parameter of the engine: a world with a map of workload records and
  a list of jobs, a storage and a queue on it, a \<open>gridtypes\<close> with ids in unary, insertion sort, and
  a map provisioner with one manager for all types. Each contract that a theorem assumes is
  discharged here for it, so none of the theorems is vacuous; the theorems are then applied to
  concrete inputs.
\<close>

section \<open>The world\<close>

record cworld =
  cw_cur :: view
  cw_jobs :: "engine_job list"

definition w0 :: cworld where
  "w0 = \<lparr>cw_cur = Map.empty, cw_jobs = []\<rparr>"

section \<open>Ids\<close>

definition c_id :: "u32 \<Rightarrow> u64 \<Rightarrow> name \<Rightarrow> string" where
  "c_id t d n = replicate (unat t) (CHR ''i'') @ CHR ''-'' # replicate (unat d) (CHR ''i'') @ CHR ''-'' # n"

fun c_count :: "string \<Rightarrow> nat \<times> string" where
  "c_count [] = (0, [])"
| "c_count (ch # s) = (if ch = CHR ''i'' then (case c_count s of (n, r) \<Rightarrow> (Suc n, r)) else (0, s))"

definition c_parts :: "string \<Rightarrow> (u32 \<times> u64 \<times> name) \<times> goerr option" where
  "c_parts s = (case c_count s of (t, r) \<Rightarrow> case c_count r of (d, n) \<Rightarrow> ((of_nat t, of_nat d, n), None))"

lemma c_count_replicate: "c_count (replicate n (CHR ''i'') @ CHR ''-'' # s) = (n, s)"
  by (induction n) simp_all

lemma c_parts_id [simp]: "c_parts (c_id t d n) = ((t, d, n), None)"
  by (simp add: c_parts_def c_id_def c_count_replicate)

section \<open>The functions of gridtypes\<close>

definition c_upgrade :: "deployment \<Rightarrow> deployment \<Rightarrow> upgrade_op list res" where
  "c_upgrade s t = Inr (map (\<lambda>x. \<lparr>up_WlID = \<lparr>wid_Workload = x,
     wid_ID = c_id (dl_TwinID t) (dl_ContractID t) (wl_Name x)\<rparr>, up_Op = OpAdd\<rparr>) (dl_Workloads t))"

definition c_gt :: gridtypes where
  "c_gt = \<lparr>gt_Types = [''a'', ''b''], gt_ZMountType = ''a'', gt_VolumeType = ''v'', gt_ZMachineType = ''b'',
     gt_PublicIPv4Type = ''4'', gt_PublicIPType = ''6'', gt_Parts = c_parts,
     gt_ByType = (\<lambda>d ts. map (\<lambda>x. \<lparr>wid_Workload = x,
        wid_ID = c_id (dl_TwinID d) (dl_ContractID d) (wl_Name x)\<rparr>)
        (filter (\<lambda>x. wl_Type x \<in> set ts) (dl_Workloads d))),
     gt_Upgrade = c_upgrade, gt_WithResults = (\<lambda>x r. x\<lparr>wl_Result := r\<rparr>),
     gt_IsOkay = (\<lambda>s. s \<in> {StateOk, StatePaused}), gt_IsAny = (\<lambda>s ss. s \<in> set ss),
     gt_IsActive = (\<lambda>d. dl_Workloads d \<noteq> []), gt_Valid = (\<lambda>_. None),
     gt_ChallengeHash = (\<lambda>_. Inr [1, 2]), gt_WorkloadData = (\<lambda>x. Inr (DataZMount (of_nat (length (wl_Data x))))),
     gt_Capacity = (\<lambda>_. Inr \<lparr>c_CRU = 1, c_SRU = 1, c_HRU = 0, c_MRU = 1\<rparr>), gt_UncheckedID = c_id,
     gt_PublicIP = (\<lambda>r. Inr (Some (r_Data r)))\<rparr>"

lemma c_gt_laws [simp]: "gridtypes_laws c_gt" and c_upgrade_laws [simp]: "upgrade_laws c_gt"
  by (auto simp: gridtypes_laws_def upgrade_laws_def placed_def c_gt_def c_upgrade_def comp_def)

section \<open>Sorting\<close>

fun c_insert :: "('a \<Rightarrow> 'a \<Rightarrow> bool) \<Rightarrow> 'a \<Rightarrow> 'a list \<Rightarrow> 'a list" where
  "c_insert lt x [] = [x]"
| "c_insert lt x (y # ys) = (if lt y x then y # c_insert lt x ys else x # y # ys)"

definition c_sort :: "('a \<Rightarrow> 'a \<Rightarrow> bool) \<Rightarrow> 'a list \<Rightarrow> 'a list" where
  "c_sort lt xs = foldr (c_insert lt) xs []"

lemma c_insert_mset [simp]: "mset (c_insert lt x ys) = {#x#} + mset ys"
  by (induction ys) auto

lemma c_sort_mset [simp]: "mset (c_sort lt xs) = mset xs"
  by (induction xs) (simp_all add: c_sort_def)

lemma c_insert_set [simp]: "set (c_insert lt x ys) = insert x (set ys)"
  by (metis c_insert_mset set_mset_mset set_mset_union set_mset_single insert_is_Un)

lemma c_insert_sorted:
  assumes "\<forall>a \<in> set (x # ys). \<forall>b \<in> set (x # ys). lt a b \<longleftrightarrow> (key a :: u64) > key b"
    and "sorted_wrt (\<lambda>a b. \<not> lt b a) ys"
  shows "sorted_wrt (\<lambda>a b. \<not> lt b a) (c_insert lt x ys)"
  using assms
proof (induction ys)
  case (Cons y ys)
  have y: "\<forall>b \<in> set ys. key b \<le> key y" using Cons.prems by auto
  show ?case
  proof (cases "lt y x")
    case True
    have "sorted_wrt (\<lambda>a b. \<not> lt b a) (c_insert lt x ys)" using Cons by simp
    moreover have "\<not> lt x y" using True Cons.prems by auto
    ultimately show ?thesis using True Cons.prems(2) by simp
  next
    case False
    then have "key y \<le> key x" using Cons.prems by auto
    then have "\<forall>b \<in> set (y # ys). \<not> lt b x" using y Cons.prems by (auto dest: order_trans)
    then show ?thesis using False Cons.prems(2) by simp
  qed
qed simp

lemma c_sort_laws [simp]: "sort_slice_laws c_sort"
proof -
  have "sorted_wrt (\<lambda>a b. \<not> lt b a) (c_sort lt xs)"
    if "\<forall>x \<in> set xs. \<forall>y \<in> set xs. lt x y \<longleftrightarrow> (key x :: u64) > key y" for lt key and xs :: "workload_with_id list"
    using that
  proof (induction xs)
    case (Cons x xs)
    have "set (c_sort lt xs) = set xs" by (metis c_sort_mset set_mset_mset)
    with Cons show ?case
      using c_insert_sorted [of x "c_sort lt xs" lt key] by (simp add: c_sort_def)
  qed (simp add: c_sort_def)
  then show ?thesis unfolding sort_slice_laws_def by auto
qed

section \<open>Storage, queue and provisioner\<close>

definition c_storage ::
  "u32 list \<Rightarrow> (u32 \<Rightarrow> u64 list) \<Rightarrow> (u32 \<Rightarrow> u64 \<Rightarrow> deployment) \<Rightarrow> cworld storage" where
  "c_storage ts ids dls =
     \<lparr>st_Create = (\<lambda>_ w. (None, w)), st_Update = (\<lambda>_ _ _ w. (None, w)), st_Delete = (\<lambda>_ _ w. (None, w)),
      st_Get = (\<lambda>t i w. (Inr (dls t i), w)), st_Error = (\<lambda>_ _ _ w. (None, w)),
      st_Add = (\<lambda>t d x w. (None, w\<lparr>cw_cur := (cw_cur w)((t, d, wl_Name x) \<mapsto> x)\<rparr>)),
      st_Remove = (\<lambda>t d n w. (None, w\<lparr>cw_cur := (cw_cur w)((t, d, n) := None)\<rparr>)),
      st_Transaction = (\<lambda>t d x w. (None, w\<lparr>cw_cur := (cw_cur w)((t, d, wl_Name x) \<mapsto> x)\<rparr>)),
      st_Changes = (\<lambda>_ _ w. (Inr [], w)),
      st_Current = (\<lambda>t d n w. (case cw_cur w (t, d, n) of
         None \<Rightarrow> Inl (Sentinel ErrWorkloadNotExist ''workload does not exist'') | Some x \<Rightarrow> Inr x, w)),
      st_Twins = (\<lambda>w. (Inr ts, w)), st_ByTwin = (\<lambda>t w. (Inr (ids t), w)),
      st_ActiveDeployments = (\<lambda>w. (Inr [dls t i. t \<leftarrow> ts, i \<leftarrow> ids t], w))\<rparr>"

lemma c_storage_laws [simp]:
  "storage_laws (c_storage ts ids dls) cw_cur" "delete_laws (c_storage ts ids dls) cw_cur"
  by (auto simp: storage_laws_def delete_laws_def c_storage_def split: option.splits)

definition c_queue :: "(cworld, engine_job) dque" where
  "c_queue = \<lparr>q_Enqueue = (\<lambda>j w. (None, w\<lparr>cw_jobs := cw_jobs w @ [j]\<rparr>)),
     q_Dequeue = (\<lambda>w. case cw_jobs w of [] \<Rightarrow> (Inl (ErrMsg ''empty''), w) | j # js \<Rightarrow> (Inr j, w\<lparr>cw_jobs := js\<rparr>)),
     q_PeekBlock = (\<lambda>w. case cw_jobs w of [] \<Rightarrow> (Inl (ErrMsg ''empty''), w) | j # js \<Rightarrow> (Inr j, w))\<rparr>"

lemma c_queue_laws [simp]: "dque_laws c_queue cw_jobs"
  by (auto simp: dque_laws_def c_queue_def split: list.splits)

lemma c_queue_answers:
  "cw_jobs w \<noteq> [] \<Longrightarrow> \<exists>x. fst (q_Dequeue c_queue w) = Inr x"
  "cw_jobs w \<noteq> [] \<Longrightarrow> \<exists>x. fst (q_PeekBlock c_queue w) = Inr x"
  by (auto simp: c_queue_def split: list.splits)

definition c_manager :: "goerr option \<Rightarrow> (cworld, unit) manager" where
  "c_manager dep = \<lparr>m_Provision = (\<lambda>_ _ w. (((), None), w)), m_Deprovision = (\<lambda>_ _ w. (dep, w)),
     m_Initializer = None, m_Updater = None, m_Pauser = None\<rparr>"

definition c_provisioner :: "goerr option \<Rightarrow> cworld provisioner" where
  "c_provisioner dep = NewMapProvisioner (\<lambda>w. (7, w)) (\<lambda>_. Inr ''data'') [] (\<lambda>_. Some (c_manager dep))"

definition c_env :: "cworld engine_env" where
  "c_env = \<lparr>env_gt = c_gt, env_sb = \<lparr>sb_IsError = (\<lambda>s. se_Code s \<noteq> 0), sb_IsNotFound = (\<lambda>s. se_Code s = 404)\<rparr>,
     env_now = (\<lambda>w. (7, w)), env_sort = c_sort, env_removeJobs = (\<lambda>w. w\<lparr>cw_jobs := []\<rparr>),
     env_openQueue = (\<lambda>w. (Inr c_queue, w)), env_errtext = (\<lambda>_. ''text''),
     env_Verify = (\<lambda>_ _ w. (None, w)), env_Retry = retry_run 5, env_kycStatusURL = Inr ''https://kyc'',
     env_newRequest = (\<lambda>_. None), env_httpGet = (\<lambda>_ _ _ w. (Inr (200, ''body''), w)),
     env_decodeStatus = (\<lambda>_. Inr ''VERIFIED'')\<rparr>"

definition c_engine ::
  "goerr option \<Rightarrow> cworld registrar_gateway option \<Rightarrow> u32 list \<Rightarrow> (u32 \<Rightarrow> u64 list) \<Rightarrow>
     (u32 \<Rightarrow> u64 \<Rightarrow> deployment) \<Rightarrow> cworld native_engine" where
  "c_engine dep gw ts ids dls =
     (initial_engine c_gt (c_storage ts ids dls) (c_provisioner dep))
       \<lparr>e_queue := c_queue, e_nodeID := 1, e_registrarGateway := gw,
        e_typeIndex := (\<lambda>t. if t = ''a'' then 1 else 2)\<rparr>"

lemma c_engine_parts [simp]:
  "e_storage (c_engine dep gw ts ids dls) = c_storage ts ids dls"
  "e_provisioner (c_engine dep gw ts ids dls) = c_provisioner dep"
  "e_queue (c_engine dep gw ts ids dls) = c_queue"
  "e_order (c_engine dep gw ts ids dls) = [''a'', ''b'']"
  "e_registrarGateway (c_engine dep gw ts ids dls) = gw"
  "e_callback (c_engine dep gw ts ids dls) = None"
  "e_nodeID (c_engine dep gw ts ids dls) = 1"
  "e_typeIndex (c_engine dep gw ts ids dls) = (\<lambda>t. if t = ''a'' then 1 else 2)"
  by (simp_all add: c_engine_def initial_engine_def c_gt_def)

lemma c_env_parts [simp]:
  "env_gt c_env = c_gt" "env_sort c_env = c_sort" "env_now c_env = (\<lambda>w. (7, w))"
  "env_Retry c_env = retry_run 5" "sb_IsError (env_sb c_env) zero_serr = False"
  by (simp_all add: c_env_def zero_serr_def)

lemma c_provisioner_quiet [simp]:
  "snd (pv_Provision (c_provisioner dep) c x w) = w" "snd (pv_Deprovision (c_provisioner dep) c x w) = w"
  "snd (pv_Update (c_provisioner dep) c x w) = w" "snd (pv_Pause (c_provisioner dep) c x w) = w"
  "snd (pv_Resume (c_provisioner dep) c x w) = w"
  by (simp_all add: c_provisioner_def c_manager_def map_Provision_def map_Deprovision_def map_Update_def
      map_Pause_cases map_Resume_cases buildResult_outcome Let_def)

lemma c_deprovision [simp]: "fst (pv_Deprovision (c_provisioner dep) c x w) = dep"
  by (simp add: c_provisioner_def c_manager_def map_Deprovision_def)

lemma c_engine_view [simp]: "engine_view c_env (c_engine dep gw ts ids dls) cw_cur"
  by (simp add: engine_view_def quiet_def)

definition c_node :: client_node where
  "c_node = \<lparr>cn_NodeID = 1, cn_FarmID = 1, cn_TwinID = 1,
     cn_Location = \<lparr>lc_Longitude = [], lc_Latitude = [], lc_Country = [], lc_City = []\<rparr>,
     cn_Resources = \<lparr>rs_HRU = 0, rs_SRU = 0, rs_CRU = 1, rs_MRU = 1\<rparr>, cn_Interfaces = None,
     cn_SecureBoot = False, cn_Virtualized = False, cn_SerialNumber = [], cn_rest = []\<rparr>"

definition c_client :: "'w registrar_client" where
  "c_client = \<lparr>rc_GetZosVersion = (\<lambda>w. ((\<lparr>zv_Version = [], zv_SafeToUpgrade = True\<rparr>, None), w)),
     rc_RegisterNode = (\<lambda>_ w. ((1, None), w)),
     rc_CreateAccount = (\<lambda>_ _ w. (((\<lparr>ac_TwinID = 1, ac_PublicKey = []\<rparr>, []), None), w)),
     rc_EnsureAccount = (\<lambda>_ _ w. ((\<lparr>ac_TwinID = 1, ac_PublicKey = []\<rparr>, None), w)),
     rc_GetFarm = (\<lambda>_ w. ((\<lparr>fm_FarmName = ''farm'', fm_TwinID = 1\<rparr>, None), w)),
     rc_GetNode = (\<lambda>_ w. ((c_node, None), w)), rc_GetNodeByTwinID = (\<lambda>_ w. ((c_node, None), w)),
     rc_ListNodes = (\<lambda>_ w. (([], None), w)),
     rc_GetAccount = (\<lambda>i w. ((\<lparr>ac_TwinID = i, ac_PublicKey = b64_encode [1, 2, 3]\<rparr>, None), w)),
     rc_GetAccountByPK = (\<lambda>_ w. ((\<lparr>ac_TwinID = 1, ac_PublicKey = []\<rparr>, None), w)),
     rc_UpdateNode = (\<lambda>_ w. (None, w)), rc_ReportUptime = (\<lambda>_ w. (None, w))\<rparr>"

definition c_gateway :: "'w registrar_gateway" where
  "c_gateway = NewRegistrarGateway (\<lambda>w. (7, w)) c_client"

text \<open>A gateway that knows a node contract for every id, for node 1 and hash \<open>0102\<close>.\<close>

definition c_contract_gateway :: "'w registrar_gateway" where
  "c_contract_gateway = c_gateway\<lparr>gw_GetContract := (\<lambda>_ w. ((\<lparr>ct_IsNodeContract = True,
     ct_NodeContract = \<lparr>nc_Node = 1, nc_DeploymentHash = hex_encode [1, 2]\<rparr>, ct_IsGracePeriod = False\<rparr>,
     zero_serr), w))\<rparr>"

text \<open>A gateway whose contract lookup fails with a code and no error value.\<close>

definition c_failing_gateway :: "'w registrar_gateway" where
  "c_failing_gateway = c_gateway\<lparr>gw_GetContract := (\<lambda>_ w. ((zero_contract, \<lparr>se_Err = None, se_Code = 500\<rparr>), w))\<rparr>"

lemma c_gateway_quiet [simp]:
  "snd (gw_GetContract c_gateway i w) = w" "snd (gw_GetNodeRentContract c_gateway j w) = w"
  "snd (gw_GetContract c_contract_gateway i w) = w" "snd (gw_GetNodeRentContract c_contract_gateway j w) = w"
  by (simp_all add: c_gateway_def c_contract_gateway_def gateway_simps
)

lemma c_engine_quiet [simp]:
  "engine_quiet c_env (c_engine dep None ts ids dls) cw_jobs"
  "engine_quiet c_env (c_engine dep (Some c_gateway) ts ids dls) cw_jobs"
  "engine_quiet c_env (c_engine dep (Some c_contract_gateway) ts ids dls) cw_jobs"
  by (simp_all add: engine_quiet_def quiet_def) (simp_all add: c_storage_def)

lemma c_run_frame [simp]: "run_frame (c_engine dep None ts ids dls) cw_cur"
  by (auto simp: run_frame_def quiet_def c_queue_def c_storage_def split: list.splits)

section \<open>A deployment\<close>

definition wl1 :: workload where
  "wl1 = \<lparr>wl_Name = ''one'', wl_Type = ''a'', wl_Data = ''xy'', wl_Result = zero_result\<rparr>"

definition wl2 :: workload where
  "wl2 = \<lparr>wl_Name = ''two'', wl_Type = ''b'', wl_Data = ''z'', wl_Result = zero_result\<rparr>"

definition dl1 :: deployment where
  "dl1 = \<lparr>dl_Version = 0, dl_TwinID = 1, dl_ContractID = 2, dl_Metadata = [], dl_Description = [],
     dl_SignatureRequirement = [], dl_Workloads = [wl1, wl2]\<rparr>"

definition eng :: "cworld native_engine" where
  "eng = c_engine None None [1] (\<lambda>_. [2]) (\<lambda>_ _. dl1)"

lemma wl_fields [simp]:
  "wl_Name wl1 = ''one''" "wl_Type wl1 = ''a''" "wl_Name wl2 = ''two''" "wl_Type wl2 = ''b''"
  "dl_TwinID dl1 = 1" "dl_ContractID dl1 = 2" "dl_Workloads dl1 = [wl1, wl2]" "dl_Version dl1 = 0"
  by (simp_all add: wl1_def wl2_def dl1_def)

lemma eng_parts [simp]:
  "e_storage eng = c_storage [1] (\<lambda>_. [2]) (\<lambda>_ _. dl1)" "e_provisioner eng = c_provisioner None"
  "e_queue eng = c_queue" "e_order eng = [''a'', ''b'']" "e_registrarGateway eng = None"
  "e_typeIndex eng = (\<lambda>t. if t = ''a'' then 1 else 2)"
  "engine_view c_env eng cw_cur" "engine_quiet c_env eng cw_jobs" "run_frame eng cw_cur"
  by (simp_all add: eng_def)

section \<open>The theorems at concrete inputs\<close>

definition wid1 :: workload_with_id where
  "wid1 = \<lparr>wid_Workload = wl1\<lparr>wl_Result := zero_result\<lparr>r_State := StateOk\<rparr>\<rparr>, wid_ID = c_id 1 2 ''one''\<rparr>"

lemma pause_resume_roundtrip_witness:
  "\<exists>r1 r2 w1 w2.
     map_Pause (\<lambda>w. (7, w)) (\<lambda>_. Some (c_manager None)) background wid1 w0 = ((r1, None), w1) \<and>
     r_State r1 = StatePaused \<and> r_Error r1 = ''paused'' \<and>
     r_Data r1 = r_Data (wl_Result (wid_Workload wid1)) \<and>
     map_Resume (\<lambda>w. (7, w)) (\<lambda>_. Some (c_manager None)) background
       (wid1\<lparr>wid_Workload := (wid_Workload wid1)\<lparr>wl_Result := r1\<rparr>\<rparr>) w1 = ((r2, None), w2) \<and>
     r_State r2 = StateOk \<and> r_Error r2 = [] \<and> r_Data r2 = r_Data (wl_Result (wid_Workload wid1))"
  by (rule pause_resume_roundtrip [where mgr = "c_manager None"])
    (simp_all add: c_manager_def wid1_def)

lemma startup_order_indexed_witness:
  "\<exists>rest idx. withStartupOrder_apply rev [''b''] eng
      = Inr (eng\<lparr>e_order := [''b''] @ rest, e_typeIndex := idx\<rparr>)
    \<and> set ([''b''] @ rest) = set (e_order eng) \<and> indexed ([''b''] @ rest) idx"
  using startup_order_indexed [of rev "[''b'']" eng] by (simp add: visit_ok_def eng_def)

theorem installDeployment_refines_witness:
  "wl_run c_gt 1 2 [(Install, wl1), (Install, wl2)] Map.empty
     (cw_cur (installDeployment c_env eng background dl1 w0))"
  using installDeployment_refines [of c_env eng cw_cur dl1 w0 background]
  by (simp add: eng_def w0_def dl1_def install_list_def sortMountWorkloads_def c_sort_def c_gt_def wl1_def wl2_def)

lemma install_keeps_failed_witness:
  "cw_cur (installDeployment c_env eng background dl1
       (w0\<lparr>cw_cur := [(1, 2, ''one'') \<mapsto> wl1\<lparr>wl_Result := zero_result\<lparr>r_State := StateError\<rparr>\<rparr>]\<rparr>)) (1, 2, ''one'')
     = Some (wl1\<lparr>wl_Result := zero_result\<lparr>r_State := StateError\<rparr>\<rparr>)"
  by (rule install_keeps_failed) (simp_all add: eng_def)

definition w1 :: cworld where
  "w1 = w0\<lparr>cw_cur := [(1, 2, ''one'') \<mapsto> wl1, (1, 2, ''two'') \<mapsto> wl2]\<rparr>"

definition dl2 :: deployment where
  "dl2 = dl1\<lparr>dl_Workloads := [wl1]\<rparr>"

definition eng_fail :: "cworld native_engine" where
  "eng_fail = c_engine (Some (ErrMsg ''device busy'')) None [1] (\<lambda>_. [2]) (\<lambda>_ _. dl2)"


lemma failed_deprovision_still_deletes_witness:
  "cw_cur (w1\<lparr>cw_cur := (cw_cur w1)((1, 2, ''one'') \<mapsto> wl1\<lparr>wl_Result := \<lparr>r_Created = 7,
       r_State = StateError, r_Error = ''device busy'', r_Data = []\<rparr>\<rparr>)\<rparr>) (1, 2, ''one'') \<noteq> None \<and>
   uninstallDeployment c_env eng_fail background dl2 ''reason'' w1
     = snd (st_Delete (e_storage eng_fail) 1 2 (w1\<lparr>cw_cur := (cw_cur w1)((1, 2, ''one'') \<mapsto>
         wl1\<lparr>wl_Result := \<lparr>r_Created = 7, r_State = StateError, r_Error = ''device busy'', r_Data = []\<rparr>\<rparr>)\<rparr>))"
  using failed_deprovision_still_deletes [of c_env eng_fail cw_cur dl2
      "\<lparr>wid_Workload = wl1, wid_ID = c_id 1 2 ''one''\<rparr>" w1 wl1 w1 background "ErrMsg ''device busy''" w1 7 w1
      "w1\<lparr>cw_cur := (cw_cur w1)((1, 2, ''one'') \<mapsto> wl1\<lparr>wl_Result := \<lparr>r_Created = 7,
         r_State = StateError, r_Error = ''device busy'', r_Data = []\<rparr>\<rparr>)\<rparr>" "''reason''"]
  by (simp add: eng_fail_def dl2_def dl1_def by_order_def c_gt_laws) (simp add: c_gt_def wl1_def
      c_storage_def w1_def w0_def c_provisioner_def c_manager_def map_Deprovision_def)

lemma sortMountWorkloads_descending_witness:
  "mset (sortMountWorkloads c_env [\<lparr>wid_Workload = wl2, wid_ID = ''b''\<rparr>, \<lparr>wid_Workload = wl1, wid_ID = ''a''\<rparr>])
     = mset [\<lparr>wid_Workload = wl2, wid_ID = ''b''\<rparr>, \<lparr>wid_Workload = wl1, wid_ID = ''a''\<rparr>] \<and>
   sorted_wrt (\<lambda>x y. \<exists>m n. getMountSize c_gt (wid_Workload x) = Inr m \<and>
        getMountSize c_gt (wid_Workload y) = Inr n \<and> n \<le> m)
     (sortMountWorkloads c_env [\<lparr>wid_Workload = wl2, wid_ID = ''b''\<rparr>, \<lparr>wid_Workload = wl1, wid_ID = ''a''\<rparr>])"
  using sortMountWorkloads_descending [of c_env
      "[\<lparr>wid_Workload = wl2, wid_ID = ''b''\<rparr>, \<lparr>wid_Workload = wl1, wid_ID = ''a''\<rparr>]"]
  by (simp add: getMountSize_def c_gt_def)

definition ops1 :: "upgrade_op list" where
  "ops1 = [\<lparr>up_WlID = \<lparr>wid_Workload = wl2, wid_ID = ''b''\<rparr>, up_Op = OpAdd\<rparr>,
           \<lparr>up_WlID = \<lparr>wid_Workload = wl1, wid_ID = ''a''\<rparr>, up_Op = OpRemove\<rparr>]"

theorem sortOperations_order_witness:
  "mset (sortOperations eng ops1) = mset ops1 \<and>
   (\<forall>k. filter (\<lambda>op. opMap eng op = k) (sortOperations eng ops1) = filter (\<lambda>op. opMap eng op = k) ops1) \<and>
   sorted_wrt (\<lambda>a b.
      let ia = e_typeIndex eng (wl_Type (wid_Workload (up_WlID a)));
          ib = e_typeIndex eng (wl_Type (wid_Workload (up_WlID b)))
      in (up_Op b = OpRemove \<longrightarrow> up_Op a = OpRemove \<and> ib \<le> ia) \<and>
         (up_Op a \<noteq> OpRemove \<longrightarrow> up_Op b \<noteq> OpRemove \<and> ia \<le> ib)) (sortOperations eng ops1)"
  by (rule sortOperations_order [of "[''a'', ''b'']"])
    (auto simp: indexed_def eng_def ops1_def wl1_def wl2_def less_Suc_eq)

definition job1 :: engine_job where
  "job1 = engineJob opProvision dl1"

theorem engine_never_panics_witness:
  "fst (run_step c_env eng background (snd (Provision c_env eng dl1 w0))) = Continue"
  by (rule engine_never_panics [of _ cw_jobs _ w0])
    (use engine_reach.call [OF engine_reach.start, of c_env eng background w0 "CallProvision dl1"]
      in \<open>simp_all add: queue_wf_def w0_def\<close>)

theorem engine_drains_witness:
  "\<exists>w'. run_loop c_env eng background 2 (w0\<lparr>cw_jobs := [job1, job1]\<rparr>) = (Continue, w') \<and> cw_jobs w' = [] \<and>
     processes c_env eng background [job1, job1] (w0\<lparr>cw_jobs := [job1, job1]\<rparr>) w'"
  using engine_drains [of eng cw_jobs c_env "w0\<lparr>cw_jobs := [job1, job1]\<rparr>" background] c_queue_answers
  by (simp add: job1_def queue_wf_def numeral_2_eq_2)

theorem run_job_isolated_witness:
  "cw_cur (snd (run_job c_env eng background (engineJob opDeprovision dl1)
      (w1\<lparr>cw_cur := (cw_cur w1)((3, 2, ''one'') \<mapsto> wl1)\<rparr>))) (3, 2, ''one'') = Some wl1"
  using run_job_isolated [of c_env eng cw_cur "(3, 2, ''one'')" "engineJob opDeprovision dl1" background
      "w1\<lparr>cw_cur := (cw_cur w1)((3, 2, ''one'') \<mapsto> wl1)\<rparr>"]
  by (simp add: engineJob_def)

definition eng_gw :: "cworld registrar_gateway \<Rightarrow> cworld native_engine" where
  "eng_gw g = c_engine None (Some g) [1] (\<lambda>_. [2]) (\<lambda>_ _. dl1)"

lemma c_contract_passes:
  "validate c_env (eng_gw c_contract_gateway) background dl1 False w0
     = ((Some \<lparr>ctx_deployment = None, ctx_contract = Some \<lparr>nc_Node = 1, nc_DeploymentHash = hex_encode [1, 2]\<rparr>,
               ctx_rent = Some False\<rparr>, None), w0)"
  by (simp add: validate_def eng_gw_def c_contract_gateway_def c_gateway_def gateway_simps
      c_env_def zero_serr_def c_gt_def withContract_def withRented_def background_def)

theorem validate_sound_witness:
  "\<exists>hash. gt_ChallengeHash (env_gt c_env) dl1 = Inr hash \<and> hex_encode [1, 2] = hex_encode hash"
proof -
  have c: "background \<noteq> None" by (simp add: background_def)
  from validate_sound [OF c_contract_passes c] show ?thesis
    by (auto simp: ctx_GetContract_def split: if_splits simp del: hex_encode.simps) (metis node_contract.select_convs(2))
qed

lemma validate_nil_context_witness:
  "validate c_env (eng_gw c_failing_gateway) background dl1 True w0 = ((None, None), w0)"
  by (rule validate_nil_context [of _ c_failing_gateway _ _ zero_contract "\<lparr>se_Err = None, se_Code = 500\<rparr>"])
    (simp_all add: eng_gw_def c_failing_gateway_def c_env_def)

lemma registrar_gateway_rejects_jobs_witness:
  "run_job c_env (eng_gw c_gateway) background job1 (w0\<lparr>cw_jobs := [job1]\<rparr>) = (Continue, w0)"
  using registrar_gateway_rejects_jobs [of "eng_gw c_gateway" "\<lambda>w. (7, w)" c_client c_env job1 background
      "w0\<lparr>cw_jobs := [job1]\<rparr>"]
  by (simp add: eng_gw_def c_gateway_def job1_def engineJob_def c_storage_def c_queue_def w0_def)

theorem boot_queues_active_witness:
  "fst (boot c_env eng w0) = None \<and>
   cw_jobs (snd (boot c_env eng w0)) = [engineJob opProvisionNoValidation dl1]"
  using boot_queues_active [of eng cw_jobs c_env "\<lambda>_ _. dl1" "[1]" "\<lambda>_. [2]" w0]
  by (simp add: c_queue_def c_storage_def w0_def c_gt_def c_queue_laws [unfolded c_queue_def])

theorem CreateOrUpdate_gate_witness:
  "gt_Valid (env_gt c_env) dl1 = None \<and> dl_TwinID dl1 = 1 \<and>
    (\<exists>u v url body. isTwinVerified c_env 1 u = ((True, None), v) \<and>
       env_kycStatusURL c_env = Inr url \<and>
       fst (env_httpGet c_env url ''twin_id'' (show_nat (unat (1 :: u32))) u) = Inr (200, body) \<and>
       env_decodeStatus c_env body = Inr ''VERIFIED'' \<and>
       (\<exists>v2. env_Verify c_env dl1 (e_twins eng) v = (None, v2) \<and>
          (if False then Update c_env eng dl1 v2 else Provision c_env eng dl1 v2)
            = (None, w0\<lparr>cw_jobs := [job1]\<rparr>)))"
proof (rule CreateOrUpdate_gate)
  have "verified_check c_env 1 w0 = (None, w0)"
    by (simp add: verified_check_def isTwinVerified_def c_env_def)
  then have "retry_run 5 (verified_check c_env 1) w0 = (None, w0)" by (simp add: numeral_eq_Suc)
  moreover have "gt_Valid c_gt dl1 = None" and "\<And>tw w. env_Verify c_env dl1 tw w = (None, w)"
    by (simp_all add: c_gt_def c_env_def)
  moreover have "Provision c_env eng dl1 w0 = (None, w0\<lparr>cw_jobs := [job1]\<rparr>)"
    by (simp add: Provision_def job1_def w0_def c_storage_def c_queue_def)
  ultimately show "CreateOrUpdate c_env eng 1 dl1 False w0 = (None, w0\<lparr>cw_jobs := [job1]\<rparr>)"
    by (simp add: CreateOrUpdate_def)
qed (simp add: retry_laws_refl)

lemma Update_accepts_witness:
  "\<exists>source ops w2.
     st_Get (e_storage eng) (dl_TwinID dl1) (dl_ContractID dl1) w0 = (Inr source, w2) \<and>
     gt_Upgrade (env_gt c_env) source dl1 = Inr ops \<and>
     (\<forall>op \<in> set ops. up_Op op = OpUpdate \<longrightarrow>
        pv_CanUpdate (e_provisioner eng) (wl_Type (wid_Workload (up_WlID op)))) \<and>
     cw_jobs (w0\<lparr>cw_jobs := [\<lparr>job_Op = opUpdate, job_Target = dl1, job_Source = Some dl1, job_Message = []\<rparr>]\<rparr>)
       = cw_jobs w0 @ [\<lparr>job_Op = opUpdate, job_Target = dl1, job_Source = Some source, job_Message = []\<rparr>]"
  by (rule Update_accepts [of eng cw_jobs c_env])
    (simp_all add: Update_def w0_def c_storage_def c_queue_def c_gt_def c_upgrade_def
      c_queue_laws [unfolded c_queue_def])

definition dl_ip :: deployment where
  "dl_ip = dl1\<lparr>dl_Workloads := [\<lparr>wl_Name = ''ip'', wl_Type = ''4'', wl_Data = [],
     wl_Result = zero_result\<lparr>r_State := StateOk, r_Data := ''10.0.0.1''\<rparr>\<rparr>]\<rparr>"

lemma ListPublicIPs_exact_witness:
  "[''10.0.0.1''] = concat (map (\<lambda>t. concat (map (\<lambda>i.
     recorded_ips (env_gt c_env) (public_workloads (env_gt c_env) dl_ip)) [2 :: u64])) [1 :: u32])"
  by (rule ListPublicIPs_exact [of "c_engine None None [1] (\<lambda>_. [2]) (\<lambda>_ _. dl_ip)" "\<lambda>_ _. dl_ip" "\<lambda>_. [2]" "[1]" c_env w0
        "[''10.0.0.1'']" w0])
    (simp_all add: ListPublicIPs_def c_storage_def c_gt_def dl_ip_def dl1_def)

lemma DecommissionCached_outcome_witness:
  "cw_cur (w0\<lparr>cw_cur := ((cw_cur w1)((1, 2, ''one'') \<mapsto> wl1\<lparr>wl_Result :=
       \<lparr>r_Created = 7, r_State = StateDeleted, r_Error = decommission_text ''why'', r_Data = []\<rparr>\<rparr>))
         ((1, 2, ''one'') := None)\<rparr>) (1, 2, ''one'') =
    (if r_State (wl_Result wl1) \<in> {StateDeleted, StateError} then Some wl1 else None)"
  by (rule DecommissionCached_outcome [of c_env eng cw_cur "c_id 1 2 ''one''" _ _ _ w1 _ "''why''"])
    (simp_all add: DecommissionCached_def uninstallWorkload_def c_gt_def c_storage_def w1_def w0_def
      c_provisioner_def c_manager_def map_Deprovision_def wl1_def zero_result_def)

text \<open>The cache of keys as the whole world.\<close>

definition c_lru :: "(u32 \<rightharpoonup> byte list) lru" where
  "c_lru = \<lparr>lru_Get = (\<lambda>i w. (w i, w)), lru_Add = (\<lambda>i k w. w(i \<mapsto> k))\<rparr>"

lemma c_twins_inv: "twins_inv c_gateway c_lru (\<lambda>w. w) (\<lambda>_. Some [1, 2, 3]) Map.empty"
  by (auto simp: twins_inv_def lru_laws_def twin_directory_def c_lru_def c_gateway_def c_client_def
      gateway_simps b64_decode_encode simp del: b64_encode.simps)

lemma c_lookup: "registrarTwins_GetKey c_gateway c_lru 5 Map.empty = (Inr [1, 2, 3], [5 \<mapsto> [1, 2, 3]])"
  by (simp add: registrarTwins_GetKey_def c_lru_def c_gateway_def c_client_def gateway_simps
      b64_decode_encode del: b64_encode.simps)

lemma registrarTwins_sound_witness:
  "(\<lambda>_. Some [1, 2, 3]) (5 :: u32) = Some ([1, 2, 3] :: byte list)"
  by (rule registrarTwins_sound [OF c_twins_inv, of 5 "[]"]) (simp add: c_lookup)

lemma registrarTwins_memo_witness:
  "fst (registrarTwins_GetKey c_contract_gateway c_lru 5 [5 \<mapsto> [1, 2, 3]]) = Inr [1, 2, 3]"
  by (rule registrarTwins_memo [OF c_twins_inv c_lookup])

lemma registrarAdmins_farm_only_witness:
  "\<exists>farm w2 twin w3 key.
     gw_GetFarm c_gateway 9 w0 = ((farm, None), w2) \<and>
     gw_GetTwin c_gateway (fm_TwinID farm) w2 = ((twin, None), w3) \<and>
     b64_decode (ac_PublicKey twin) = Some key \<and>
     (\<forall>i v :: cworld. registrarAdmins_GetKey \<lparr>ra_twin = 1, ra_pk = [1, 2, 3]\<rparr> i v =
        (if i = ucast (fm_TwinID farm) then (Inr key, v)
         else (Inl (ErrMsg (''twin with id '' @ squote (show_nat (unat i)) @ '' is not an admin'')), v)))"
  by (rule registrarAdmins_farm_only [of _ _ _ _ w0])
    (simp add: NewRegistrarAdmins_def c_gateway_def c_client_def gateway_simps
      b64_decode_encode del: b64_encode.simps)

end
