(* ===== verification/Events.thy ===== *)
theory Events
  imports Engine_Api "HOL-Library.AList"
begin

text \<open>
  \<open>cmds/modules/provisiond/events.go\<close>: the contract event handler. It compares the deployments
  the node runs with the contracts on the chain and queues the jobs that make them agree: a
  deployment without a contract is deprovisioned, the others are paused or resumed to the state of
  their contract. It reaches the engine through its interface only (\<open>engine_api\<close>).

  A Go map from contract ids to deployments is an association list with distinct keys; \<open>visit\<close> is
  the order in which a \<open>range\<close> goes over it, which Go leaves open.
\<close>

section \<open>The engine as the handler sees it\<close>

record 'w engine_api =
  ea_ActiveDeployments :: "('w, (deployment list) res) eff"
  ea_Deprovision :: "u32 \<Rightarrow> u64 \<Rightarrow> string \<Rightarrow> ('w, goerr option) eff"
  ea_Pause :: "u32 \<Rightarrow> u64 \<Rightarrow> ('w, goerr option) eff"
  ea_Resume :: "u32 \<Rightarrow> u64 \<Rightarrow> ('w, goerr option) eff"

definition native_api :: "'w native_engine \<Rightarrow> 'w engine_api" where
  "native_api e = \<lparr>ea_ActiveDeployments = st_ActiveDeployments (e_storage e),
     ea_Deprovision = Deprovision e, ea_Pause = Pause e, ea_Resume = Resume e\<rparr>"

section \<open>The handler\<close>

type_synonym dl_map = "(u64 \<times> deployment) list"

record 'w contract_event_handler =
  ch_node :: u64
  ch_registrarGateway :: "'w registrar_gateway"
  ch_engine :: "'w engine_api"

definition current :: "'w contract_event_handler \<Rightarrow> ('w, dl_map res) eff" where
  "current r w =
     (case ea_ActiveDeployments (ch_engine r) w of
        (Inl err, w1) \<Rightarrow> (Inl err, w1)
      | (Inr dls, w1) \<Rightarrow> (Inr (fold (\<lambda>dl m. AList.update (dl_ContractID dl) dl m) dls []), w1))"

text \<open>The loop over the contracts on the chain: (\<open>active\<close>, \<open>running\<close>).\<close>

definition sync_move :: "u64 \<Rightarrow> dl_map \<times> dl_map \<Rightarrow> dl_map \<times> dl_map" where
  "sync_move contract s =
     (case s of (active, running) \<Rightarrow>
        (AList.delete contract active,
         (case map_of active contract of
            None \<Rightarrow> running
          | Some dl \<Rightarrow> AList.update (dl_ContractID dl) dl running)))"

definition isLocked :: "gridtypes \<Rightarrow> deployment \<Rightarrow> bool" where
  "isLocked gt dl \<longleftrightarrow> (\<exists>wl \<in> set (dl_Workloads dl). gt_IsAny gt (r_State (wl_Result wl)) [StatePaused])"

definition sync_cancel :: "'w contract_event_handler \<Rightarrow> u64 \<times> deployment \<Rightarrow> ('w, goerr option) eff" where
  "sync_cancel r entry =
     ea_Deprovision (ch_engine r) (dl_TwinID (snd entry)) (fst entry) ''contract not active on chain''"

definition sync_lock ::
  "gridtypes \<Rightarrow> substrate_lib \<Rightarrow> 'w contract_event_handler \<Rightarrow> u64 \<times> deployment \<Rightarrow> ('w, goerr option) eff" where
  "sync_lock gt sb r entry w =
     (case entry of (i, dl) \<Rightarrow>
        (case gw_GetContract (ch_registrarGateway r) i w of ((contract, err), w1) \<Rightarrow>
           if sb_IsError sb err then (None, w1)
           else let locked = ct_IsGracePeriod contract in
             if locked = isLocked gt dl then (None, w1)
             else (if locked then ea_Pause (ch_engine r) else ea_Resume (ch_engine r))
                    (dl_TwinID dl) (dl_ContractID dl) w1))"

definition sync ::
  "gridtypes \<Rightarrow> substrate_lib \<Rightarrow> (dl_map \<Rightarrow> dl_map) \<Rightarrow> 'w contract_event_handler \<Rightarrow> ('w, goerr option) eff" where
  "sync gt sb visit r w =
     (case current r w of
        (Inl err, w1) \<Rightarrow> (Some (Wrapped err ''failed to get current active contracts''), w1)
      | (Inr active0, w1) \<Rightarrow>
          (case gw_GetNodeContracts (ch_registrarGateway r) (ucast (ch_node r)) w1 of
             ((_, Some err), w2) \<Rightarrow> (Some (Wrapped err ''failed to get active node contracts''), w2)
           | ((onchain, None), w2) \<Rightarrow>
               (case fold sync_move onchain (active0, []) of (active, running) \<Rightarrow>
                  (None, snd (for_log (sync_lock gt sb r) (visit running)
                     (snd (for_log (sync_cancel r) (visit active) w2)))))))"

section \<open>The event loop\<close>

text \<open>
  The three channels of the \<open>select\<close>. A tick starts \<open>sync\<close> in a goroutine; the model runs it as
  one step, so it interleaves with the other events at the level of whole events.
\<close>

datatype contract_event =
    Tick
  | ContractCancelled u32 u64
  | ContractLocked u32 u64 bool

definition handle_event ::
  "gridtypes \<Rightarrow> substrate_lib \<Rightarrow> (dl_map \<Rightarrow> dl_map) \<Rightarrow> 'w contract_event_handler \<Rightarrow> contract_event \<Rightarrow> 'w \<Rightarrow> 'w" where
  "handle_event gt sb visit r ev w =
     (case ev of
        Tick \<Rightarrow> snd (sync gt sb visit r w)
      | ContractCancelled twin contract \<Rightarrow>
          snd (ea_Deprovision (ch_engine r) twin contract ''contract canceled event received'' w)
      | ContractLocked twin contract lock \<Rightarrow>
          snd ((if lock then ea_Pause (ch_engine r) else ea_Resume (ch_engine r)) twin contract w))"

text \<open>
  \<open>Run\<close> on the events that arrive until the context ends: the registrations first (their errors
  are parameters), then one \<open>sync\<close>, whose error ends the run, then the events.
\<close>

definition handler_Run ::
  "gridtypes \<Rightarrow> substrate_lib \<Rightarrow> (dl_map \<Rightarrow> dl_map) \<Rightarrow> 'w contract_event_handler \<Rightarrow> goerr option \<Rightarrow> goerr option \<Rightarrow>
     contract_event list \<Rightarrow> ('w, goerr option) eff" where
  "handler_Run gt sb visit r cancellation locking evs w =
     (case cancellation of
        Some err \<Rightarrow> (Some (Wrapped err ''failed to register to node events''), w)
      | None \<Rightarrow>
          (case locking of
             Some err \<Rightarrow> (Some err, w)
           | None \<Rightarrow>
               (case sync gt sb visit r w of
                  (Some err, w1) \<Rightarrow> (Some (Wrapped err ''failed to synchronize active contracts''), w1)
                | (None, w1) \<Rightarrow>
                    (Some (Sentinel ContextCanceled ''context canceled''),
                     fold (handle_event gt sb visit r) evs w1))))"

section \<open>The engine contract\<close>

text \<open>
  What the handler may rely on: with a queue that works (\<open>ok items\<close>) each of the three calls puts
  exactly one job at the end of the queue when it returns nil, and leaves the queue alone
  otherwise; the job names the operation, and carries the deployment the storage answered.
\<close>

locale job_api =
  fixes api :: "'w engine_api" and ok :: "('w \<Rightarrow> engine_job list) \<Rightarrow> bool"
    and stored :: "u32 \<Rightarrow> u64 \<Rightarrow> 'w \<Rightarrow> deployment res"
  assumes deprovision_job: "ok items \<Longrightarrow> ea_Deprovision api t i reason w = (None, w') \<Longrightarrow>
      \<exists>dl. stored t i w = Inr dl \<and>
        items w' = items w @ [(engineJob opDeprovision dl)\<lparr>job_Message := reason\<rparr>]"
    and pause_job: "ok items \<Longrightarrow> ea_Pause api t i w = (None, w') \<Longrightarrow>
      \<exists>dl. stored t i w = Inr dl \<and> items w' = items w @ [engineJob opPause dl]"
    and resume_job: "ok items \<Longrightarrow> ea_Resume api t i w = (None, w') \<Longrightarrow>
      \<exists>dl. stored t i w = Inr dl \<and> items w' = items w @ [engineJob opResume dl]"
    and deprovision_fail: "ok items \<Longrightarrow> ea_Deprovision api t i reason w = (Some e, w') \<Longrightarrow> items w' = items w"
    and pause_fail: "ok items \<Longrightarrow> ea_Pause api t i w = (Some e, w') \<Longrightarrow> items w' = items w"
    and resume_fail: "ok items \<Longrightarrow> ea_Resume api t i w = (Some e, w') \<Longrightarrow> items w' = items w"
begin

text \<open>
  The jobs of a synchronisation, on an engine whose calls succeed and whose storage answers
  \<open>dls\<close>.
\<close>

lemma cancels_exact:
  assumes o: "ok items" and r: "ch_engine r = api"
    and succ: "\<And>t i reason w. fst (ea_Deprovision api t i reason w) = None"
    and st: "\<And>t i w. stored t i w = Inr (dls t i)"
  shows "items (snd (for_log (sync_cancel r) es w)) = items w @
    map (\<lambda>(c, dl). (engineJob opDeprovision (dls (dl_TwinID dl) c))
           \<lparr>job_Message := ''contract not active on chain''\<rparr>) es"
proof (induction es arbitrary: w)
  case (Cons x es)
  obtain w1 where c: "sync_cancel r x w = (None, w1)"
    using succ r unfolding sync_cancel_def by (metis prod.collapse)
  then have "items w1 = items w @ [(engineJob opDeprovision (dls (dl_TwinID (snd x)) (fst x)))
      \<lparr>job_Message := ''contract not active on chain''\<rparr>]"
    using deprovision_job [OF o, of "dl_TwinID (snd x)" "fst x"] st r by (auto simp: sync_cancel_def)
  with c Cons.IH [of w1] show ?case
    by (simp add: for_log_fst_snd case_prod_beta del: for_log.simps(2))
qed simp

lemma locks_exact:
  assumes o: "ok items" and r: "ch_engine r = api"
    and succ: "\<And>t i w. fst (ea_Pause api t i w) = None" "\<And>t i w. fst (ea_Resume api t i w) = None"
    and st: "\<And>t i w. stored t i w = Inr (dls t i)"
    and gw: "\<And>i w. fst (gw_GetContract (ch_registrarGateway r) i w) = (chain i, zero_serr)"
    and gq: "\<And>i. quiet items (gw_GetContract (ch_registrarGateway r) i)"
    and sb: "\<not> sb_IsError sb zero_serr"
  shows "items (snd (for_log (sync_lock gt sb r) es w)) = items w @
    concat (map (\<lambda>(i, dl). if ct_IsGracePeriod (chain i) = isLocked gt dl then []
      else [engineJob (if ct_IsGracePeriod (chain i) then opPause else opResume)
              (dls (dl_TwinID dl) (dl_ContractID dl))]) es)"
proof (induction es arbitrary: w)
  case (Cons x es)
  obtain i dl where x: "x = (i, dl)" by fastforce
  obtain w1 where g: "gw_GetContract (ch_registrarGateway r) i w = ((chain i, zero_serr), w1)"
    using gw by (metis prod.collapse)
  have w1: "items w1 = items w" by (rule quietD [OF gq g])
  obtain wp wr where p: "ea_Pause api (dl_TwinID dl) (dl_ContractID dl) w1 = (None, wp)"
      "ea_Resume api (dl_TwinID dl) (dl_ContractID dl) w1 = (None, wr)"
    using succ by (metis prod.collapse)
  have "items (snd (sync_lock gt sb r x w)) = items w @
      (if ct_IsGracePeriod (chain i) = isLocked gt dl then []
       else [engineJob (if ct_IsGracePeriod (chain i) then opPause else opResume)
               (dls (dl_TwinID dl) (dl_ContractID dl))])"
    using pause_job [OF o p(1)] resume_job [OF o p(2)] w1 p r st
    by (auto simp: sync_lock_def x g sb Let_def)
  with x Cons.IH [of "snd (sync_lock gt sb r x w)"] show ?case
    by (simp add: for_log_fst_snd del: for_log.simps(2))
qed simp

end

interpretation native: job_api "native_api e"
  "\<lambda>items. dque_laws (e_queue e) items \<and> (\<forall>t i. quiet items (st_Get (e_storage e) t i))"
  "\<lambda>t i w. fst (st_Get (e_storage e) t i w)" for e
proof (unfold_locales, goal_cases)
  case (1 items t i reason w w')
  then show ?case
    using dque_lawsD(1) [of "e_queue e" items] quietD [of items "st_Get (e_storage e) t i" w]
    by (fastforce simp: native_api_def Deprovision_def split: prod.splits sum.splits)
next
  case (2 items t i w w')
  then show ?case
    using dque_lawsD(1) [of "e_queue e" items] quietD [of items "st_Get (e_storage e) t i" w]
    by (fastforce simp: native_api_def Pause_def split: prod.splits sum.splits)
next
  case (3 items t i w w')
  then show ?case
    using dque_lawsD(1) [of "e_queue e" items] quietD [of items "st_Get (e_storage e) t i" w]
    by (fastforce simp: native_api_def Resume_def split: prod.splits sum.splits)
next
  case (4 items t i reason w er w')
  then show ?case
    using dque_lawsD(2) [of "e_queue e" items] quietD [of items "st_Get (e_storage e) t i" w]
    by (fastforce simp: native_api_def Deprovision_def split: prod.splits sum.splits)
next
  case (5 items t i w er w')
  then show ?case
    using dque_lawsD(2) [of "e_queue e" items] quietD [of items "st_Get (e_storage e) t i" w]
    by (fastforce simp: native_api_def Pause_def split: prod.splits sum.splits)
next
  case (6 items t i w er w')
  then show ?case
    using dque_lawsD(2) [of "e_queue e" items] quietD [of items "st_Get (e_storage e) t i" w]
    by (fastforce simp: native_api_def Resume_def split: prod.splits sum.splits)
qed

section \<open>Properties\<close>

lemma current_keys:
  assumes "distinct (map fst m)" and "\<forall>(c, dl) \<in> set m. dl_ContractID dl = c"
  shows "distinct (map fst (fold (\<lambda>dl m. AList.update (dl_ContractID dl) dl m) dls m)) \<and>
    (\<forall>(c, dl) \<in> set (fold (\<lambda>dl m. AList.update (dl_ContractID dl) dl m) dls m). dl_ContractID dl = c)"
  using assms
proof (induction dls arbitrary: m)
  case (Cons d dls)
  have "distinct (map fst (AList.update (dl_ContractID d) d m))"
    by (rule distinct_update [OF Cons.prems(1)])
  moreover have "\<forall>(c, dl) \<in> set (AList.update (dl_ContractID d) d m). dl_ContractID dl = c"
    using Cons.prems(2) by (induction m) auto
  ultimately show ?case using Cons.IH by simp
qed simp

lemma sync_move_fold:
  assumes "\<forall>(c, dl) \<in> set active. dl_ContractID dl = c"
    and "fold sync_move onchain (active, running) = (active', running')"
  shows "active' = filter (\<lambda>(c, dl). c \<notin> set onchain) active \<and>
    (\<forall>c. map_of running' c = (if c \<in> set onchain \<and> map_of active c \<noteq> None
        then map_of active c else map_of running c))"
  using assms
proof (induction onchain arbitrary: active running)
  case Nil
  then show ?case by (auto simp: case_prod_beta)
next
  case (Cons x xs)
  let ?a = "AList.delete x active"
  let ?r = "case map_of active x of None \<Rightarrow> running | Some dl \<Rightarrow> AList.update (dl_ContractID dl) dl running"
  have a: "\<forall>(c, dl) \<in> set ?a. dl_ContractID dl = c"
    using Cons.prems(1) by (auto simp: AList.delete_eq)
  have f: "fold sync_move xs (?a, ?r) = (active', running')"
  proof -
    have "sync_move x (active, running) = (?a, ?r)" by (simp add: sync_move_def)
    then show ?thesis using Cons.prems(2) by simp
  qed
  have id: "dl_ContractID dl = x" if "map_of active x = Some dl" for dl
    using that Cons.prems(1) by (auto dest: map_of_SomeD)
  have m: "map_of ?a c = (if c = x then None else map_of active c)" for c
    by (simp add: AList.delete_conv')
  have mr: "map_of ?r c = (if c = x \<and> map_of active x \<noteq> None then map_of active x else map_of running c)" for c
    using id by (auto simp: update_conv' split: option.splits)
  have ih: "active' = filter (\<lambda>(c, dl). c \<notin> set xs) ?a"
      "map_of running' c = (if c \<in> set xs \<and> map_of ?a c \<noteq> None then map_of ?a c else map_of ?r c)" for c
    using Cons.IH [OF a f] by blast+
  have "active' = filter (\<lambda>(c, dl). c \<notin> set (x # xs)) active"
    unfolding ih(1) by (auto simp: AList.delete_eq case_prod_beta intro: filter_cong)
  moreover have "map_of running' c = (if c \<in> set (x # xs) \<and> map_of active c \<noteq> None
      then map_of active c else map_of running c)" for c
    unfolding ih(2) m mr by auto
  ultimately show ?case by blast
qed

text \<open>
  C11. Synchronising with the chain: on an engine whose calls succeed, every active deployment
  without a contract on the chain gets one deprovision job, every other active deployment gets a
  pause or a resume job exactly when its state differs from its contract's grace period, and no
  further job is queued, whatever order Go ranges over its maps in.
\<close>

theorem sync_exact:
  fixes e :: "'w native_engine"
  assumes q: "dque_laws (e_queue e) items" "\<And>t i. quiet items (st_Get (e_storage e) t i)"
      "quiet items (st_ActiveDeployments (e_storage e))"
      "\<And>i. quiet items (gw_GetContract (ch_registrarGateway r) i)"
      "\<And>n. quiet items (gw_GetNodeContracts (ch_registrarGateway r) n)"
    and r: "ch_engine r = native_api e"
    and enq: "\<And>j w. fst (q_Enqueue (e_queue e) j w) = None"
    and get: "\<And>t i w. fst (st_Get (e_storage e) t i w) = Inr (dls t i)"
    and act: "fst (st_ActiveDeployments (e_storage e) w) = Inr active"
    and chain: "\<And>w. fst (gw_GetNodeContracts (ch_registrarGateway r) (ucast (ch_node r)) w) = (onchain, None)"
    and gw: "\<And>i w. fst (gw_GetContract (ch_registrarGateway r) i w) = (state i, zero_serr)"
    and sb: "\<not> sb_IsError sb zero_serr"
  shows "\<exists>m running. m = fold (\<lambda>dl m. AList.update (dl_ContractID dl) dl m) active [] \<and>
    map_of running = map_of m |` set onchain \<and>
    fst (sync gt sb visit r w) = None \<and>
    items (snd (sync gt sb visit r w)) = items w @
      map (\<lambda>(c, dl). (engineJob opDeprovision (dls (dl_TwinID dl) c))
             \<lparr>job_Message := ''contract not active on chain''\<rparr>)
        (visit (filter (\<lambda>(c, dl). c \<notin> set onchain) m)) @
      concat (map (\<lambda>(i, dl). if ct_IsGracePeriod (state i) = isLocked gt dl then []
        else [engineJob (if ct_IsGracePeriod (state i) then opPause else opResume)
                (dls (dl_TwinID dl) (dl_ContractID dl))]) (visit running))"
proof -
  define m where "m = fold (\<lambda>dl m. AList.update (dl_ContractID dl) dl m) active []"
  have keys: "\<forall>(c, dl) \<in> set m. dl_ContractID dl = c" using current_keys [of "[]" active] by (simp add: m_def)
  obtain active' running where f: "fold sync_move onchain (m, []) = (active', running)" by fastforce
  note split = sync_move_fold [OF keys f]
  obtain w1 where c: "current r w = (Inr m, w1)"
    using act by (cases "st_ActiveDeployments (e_storage e) w") (simp add: current_def r native_api_def m_def)
  have w1: "items w1 = items w"
    using c q(3) act by (auto simp: current_def r native_api_def quiet_def split: prod.splits sum.splits)
      (metis snd_conv)
  obtain w2 where n: "gw_GetNodeContracts (ch_registrarGateway r) (ucast (ch_node r)) w1 = ((onchain, None), w2)"
    using chain by (metis prod.collapse)
  have w2: "items w2 = items w" using quietD [OF q(5) n] w1 by simp
  have ok: "dque_laws (e_queue e) items \<and> (\<forall>t i. quiet items (st_Get (e_storage e) t i))" using q by blast
  have succ: "fst (ea_Deprovision (native_api e) t i reason w) = None" "fst (ea_Pause (native_api e) t i w) = None"
      "fst (ea_Resume (native_api e) t i w) = None" for t i reason w
    using enq get [of t i w] by (simp_all add: native_api_def Deprovision_def Pause_def Resume_def case_prod_beta)
  have "map_of running = map_of m |` set onchain"
    using split by (auto simp: restrict_map_def fun_eq_iff)
  moreover have "sync gt sb visit r w = (None, snd (for_log (sync_lock gt sb r) (visit running)
      (snd (for_log (sync_cancel r) (visit active') w2))))"
    by (simp add: sync_def c n f)
  moreover have "active' = filter (\<lambda>(c, dl). c \<notin> set onchain) m" using split by blast
  ultimately show ?thesis
    using native.cancels_exact [OF ok r succ(1) get, of "visit active'" w2]
      native.locks_exact [OF ok r succ(2,3) get gw q(4) sb, of gt "visit running"] w2
    by (intro exI [of _ m] exI [of _ running]) (simp add: m_def)
qed

text \<open>
  Against a gateway with no chain behind it nothing is on the chain, so nothing is kept.
\<close>

context detached_gateway
begin

lemma sync_cancels_all:
  assumes "ch_registrarGateway r = g" and "current r w = (Inr m, w1)"
  shows "sync gt sb visit r w =
    (None, snd (for_log (sync_lock gt sb r) (visit []) (snd (for_log (sync_cancel r) (visit m) w1))))"
  using assms by (simp add: sync_def node_contracts)

end

text \<open>
  With the registrar gateway of this repository the hourly synchronisation deprovisions every
  active deployment of the node: it reports no contracts, so one cancel call follows for every
  active deployment and nothing else happens.
\<close>

lemma registrar_gateway_sync_cancels_all:
  assumes "ch_registrarGateway r = NewRegistrarGateway clock rc"
    and "current r w = (Inr m, w1)" and "visit [] = []" and "mset (visit m) = mset m"
  shows "\<exists>es. mset es = mset m \<and>
    sync gt sb visit r w = (None, snd (for_log (sync_cancel r) es w1)) \<and>
    snd (for_log (sync_cancel r) es w1) = fold (\<lambda>x w. snd (ea_Deprovision (ch_engine r)
      (dl_TwinID (snd x)) (fst x) ''contract not active on chain'' w)) es w1"
  using rg.sync_cancels_all [OF assms(1,2), of gt sb visit] assms(3,4)
  by (intro exI [of _ "visit m"])
    (simp add: for_log_snd_fold sync_cancel_def case_prod_beta)

end
