(* ===== verification/Capacity.thy ===== *)
theory Capacity
  imports Gateway
begin

text \<open>
  \<open>cmds/modules/provisiond/cap.go\<close> and \<open>migration.go\<close>: the capacity setter, which reports what the
  workloads of a deployment use, and the two migrations that run when the daemon starts.
\<close>

section \<open>The capacity setter\<close>

text \<open>\<open>chan DeploymentID\<close> with room for 215 ids, oldest first.\<close>

type_synonym deployment_id = "u32 \<times> u64"

definition cap_channel :: nat where
  "cap_channel = 215"

text \<open>\<open>Callback\<close> on the channel's content; \<open>None\<close> where the send blocks.\<close>

definition Callback :: "deployment_id list \<Rightarrow> u32 \<Rightarrow> u64 \<Rightarrow> bool \<Rightarrow> deployment_id list option" where
  "Callback ch twin contract del =
     (if del then Some ch
      else if length ch < cap_channel then Some (ch @ [(twin, contract)]) else None)"

definition zero_capacity :: capacity where
  "zero_capacity = \<lparr>c_CRU = 0, c_SRU = 0, c_HRU = 0, c_MRU = 0\<rparr>"

text \<open>
  The total of a deployment; \<open>add\<close> is \<open>Capacity.Add\<close> of \<open>gridtypes\<close>. A workload whose capacity
  cannot be computed is logged and left out.
\<close>

definition cap_total :: "gridtypes \<Rightarrow> (capacity \<Rightarrow> capacity \<Rightarrow> capacity) \<Rightarrow> deployment \<Rightarrow> capacity" where
  "cap_total gt add deployment =
     fold (\<lambda>wl total.
       if gt_IsOkay gt (r_State (wl_Result wl))
       then (case gt_Capacity gt wl of Inl err \<Rightarrow> total | Inr c \<Rightarrow> add total c)
       else total) (dl_Workloads deployment) zero_capacity"

definition cap_resources :: "gridtypes \<Rightarrow> (capacity \<Rightarrow> capacity \<Rightarrow> capacity) \<Rightarrow> deployment \<Rightarrow> contract_resources" where
  "cap_resources gt add deployment =
     (let total = cap_total gt add deployment
      in \<lparr>cr_ContractID = dl_ContractID deployment,
          cr_Used = \<lparr>rs_HRU = c_HRU total, rs_SRU = c_SRU total, rs_CRU = c_CRU total, rs_MRU = c_MRU total\<rparr>\<rparr>)"

text \<open>\<open>ret\<close> is \<open>backoff.RetryNotify\<close> with its policy of four retries.\<close>

definition setWithClient ::
  "gridtypes \<Rightarrow> (capacity \<Rightarrow> capacity \<Rightarrow> capacity) \<Rightarrow> (('w, goerr option) eff \<Rightarrow> ('w, goerr option) eff) \<Rightarrow>
     'w registrar_gateway \<Rightarrow> deployment list \<Rightarrow> ('w, goerr option) eff" where
  "setWithClient gt add ret gw deployments =
     ret (gw_SetContractConsumption gw (map (cap_resources gt add) deployments))"

definition cap_Set ::
  "gridtypes \<Rightarrow> (capacity \<Rightarrow> capacity \<Rightarrow> capacity) \<Rightarrow> (('w, goerr option) eff \<Rightarrow> ('w, goerr option) eff) \<Rightarrow>
     'w registrar_gateway \<Rightarrow> deployment list \<Rightarrow> ('w, goerr option) eff" where
  "cap_Set gt add ret gw deployments w =
     (if deployments = [] then (None, w) else setWithClient gt add ret gw deployments w)"

text \<open>One pass of \<open>Run\<close> on the id at the head of the channel; errors are logged.\<close>

definition cap_Run_step ::
  "gridtypes \<Rightarrow> (capacity \<Rightarrow> capacity \<Rightarrow> capacity) \<Rightarrow> (('w, goerr option) eff \<Rightarrow> ('w, goerr option) eff) \<Rightarrow>
     'w registrar_gateway \<Rightarrow> 'w storage \<Rightarrow> deployment_id list \<times> 'w \<Rightarrow> (deployment_id list \<times> 'w) option" where
  "cap_Run_step gt add ret gw st s =
     (case s of (ch, w) \<Rightarrow>
        (case ch of
           [] \<Rightarrow> None
         | (twin, contract) # ch' \<Rightarrow>
             (case st_Get st twin contract w of
                (Inl err, w1) \<Rightarrow> Some (ch', w1)
              | (Inr deployment, w1) \<Rightarrow> Some (ch', snd (cap_Set gt add ret gw [deployment] w1)))))"

text \<open>\<open>Capacity.Add\<close> adds the units, modulo 64 bits.\<close>

definition capacity_add_laws :: "(capacity \<Rightarrow> capacity \<Rightarrow> capacity) \<Rightarrow> bool" where
  "capacity_add_laws add \<longleftrightarrow>
     (\<forall>a b. c_CRU (add a b) = c_CRU a + c_CRU b \<and> c_SRU (add a b) = c_SRU a + c_SRU b \<and>
            c_HRU (add a b) = c_HRU a + c_HRU b \<and> c_MRU (add a b) = c_MRU a + c_MRU b)"

definition counted :: "gridtypes \<Rightarrow> deployment \<Rightarrow> capacity list" where
  "counted gt d = concat (map (\<lambda>wl. if gt_IsOkay gt (r_State (wl_Result wl))
     then (case gt_Capacity gt wl of Inl err \<Rightarrow> [] | Inr c \<Rightarrow> [c]) else []) (dl_Workloads d))"

lemma cap_fold_counted:
  "fold (\<lambda>wl total.
       if gt_IsOkay gt (r_State (wl_Result wl))
       then (case gt_Capacity gt wl of Inl err \<Rightarrow> total | Inr c \<Rightarrow> add total c)
       else total) wls t =
   fold (\<lambda>c total. add total c) (concat (map (\<lambda>wl. if gt_IsOkay gt (r_State (wl_Result wl))
     then (case gt_Capacity gt wl of Inl err \<Rightarrow> [] | Inr c \<Rightarrow> [c]) else []) wls)) t"
  by (induction wls arbitrary: t) (simp_all split: sum.splits)

lemma fold_add_fields:
  assumes "capacity_add_laws add"
  shows "c_CRU (fold (\<lambda>c t. add t c) cs t) = c_CRU t + sum_list (map c_CRU cs)"
    and "c_SRU (fold (\<lambda>c t. add t c) cs t) = c_SRU t + sum_list (map c_SRU cs)"
    and "c_HRU (fold (\<lambda>c t. add t c) cs t) = c_HRU t + sum_list (map c_HRU cs)"
    and "c_MRU (fold (\<lambda>c t. add t c) cs t) = c_MRU t + sum_list (map c_MRU cs)"
  using assms by (induction cs arbitrary: t) (simp_all add: capacity_add_laws_def add.assoc)

text \<open>
  The reported usage: one entry per deployment, in order, whose units are the sums (modulo 64
  bits) over the deployment's workloads that are in a good state and have a capacity; the entry
  carries the deployment's contract id.
\<close>

lemma cap_resources_sum:
  assumes "capacity_add_laws add"
  shows "cap_resources gt add d =
    \<lparr>cr_ContractID = dl_ContractID d,
     cr_Used = \<lparr>rs_HRU = sum_list (map c_HRU (counted gt d)), rs_SRU = sum_list (map c_SRU (counted gt d)),
       rs_CRU = sum_list (map c_CRU (counted gt d)), rs_MRU = sum_list (map c_MRU (counted gt d))\<rparr>\<rparr>"
  using fold_add_fields [OF assms, of "counted gt d" zero_capacity]
  by (simp add: cap_resources_def cap_total_def cap_fold_counted counted_def zero_capacity_def Let_def)

section \<open>Storage migration\<close>

text \<open>The old file storage and the migration of the new database.\<close>

record 'w fs_storage =
  fs_Twins :: "('w, (u32 list) res) eff"
  fs_ByTwin :: "u32 \<Rightarrow> ('w, (u64 list) res) eff"
  fs_Get :: "u32 \<Rightarrow> u64 \<Rightarrow> ('w, deployment res) eff"
  fs_Delete :: "deployment \<Rightarrow> ('w, goerr option) eff"

text \<open>
  One deployment: the Boolean is whether \<open>errorred\<close> is set. Ids are unsigned, so \<open>sort.Slice\<close> on
  them is \<open>sort\<close>.
\<close>

definition migrate_one ::
  "'w fs_storage \<Rightarrow> (deployment \<Rightarrow> ('w, goerr option) eff) \<Rightarrow> u32 \<Rightarrow> u64 \<Rightarrow> ('w, bool) eff" where
  "migrate_one fs migrate twin dl w =
     (case fs_Get fs twin dl w of
        (Inl err, w1) \<Rightarrow> (True, w1)
      | (Inr deployment, w1) \<Rightarrow>
          (case migrate deployment w1 of
             (Some err, w2) \<Rightarrow> (True, w2)
           | (None, w2) \<Rightarrow> (False, snd (fs_Delete fs deployment w2))))"

fun migrate_ids ::
  "'w fs_storage \<Rightarrow> (deployment \<Rightarrow> ('w, goerr option) eff) \<Rightarrow> u32 \<Rightarrow> u64 list \<Rightarrow> bool \<Rightarrow> ('w, bool) eff" where
  "migrate_ids fs migrate twin [] errorred w = (errorred, w)"
| "migrate_ids fs migrate twin (dl # dls) errorred w =
     (case migrate_one fs migrate twin dl w of
        (b, w1) \<Rightarrow> migrate_ids fs migrate twin dls (errorred \<or> b) w1)"

fun migrate_twins ::
  "'w fs_storage \<Rightarrow> (deployment \<Rightarrow> ('w, goerr option) eff) \<Rightarrow> u32 list \<Rightarrow> bool \<Rightarrow> ('w, bool) eff" where
  "migrate_twins fs migrate [] errorred w = (errorred, w)"
| "migrate_twins fs migrate (twin # twins) errorred w =
     (case fs_ByTwin fs twin w of
        (Inl err, w1) \<Rightarrow> migrate_twins fs migrate twins errorred w1
      | (Inr dls, w1) \<Rightarrow>
          (case migrate_ids fs migrate twin (sort dls) errorred w1 of
             (b, w2) \<Rightarrow> migrate_twins fs migrate twins b w2))"

definition storageMigration ::
  "(deployment \<Rightarrow> ('w, goerr option) eff) \<Rightarrow> 'w fs_storage \<Rightarrow> ('w, goerr option) eff" where
  "storageMigration migrate fs w =
     (case fs_Twins fs w of
        (Inl err, w1) \<Rightarrow> (Some err, w1)
      | (Inr twins, w1) \<Rightarrow>
          (case migrate_twins fs migrate twins False w1 of
             (errorred, w2) \<Rightarrow>
               (if errorred then Some (ErrMsg ''not all deployments where migrated'') else None, w2)))"

text \<open>
  The two stores as sets: what the old one holds and what the new one holds. Reading changes
  neither; a migration that succeeds adds, one that fails changes nothing; a delete removes at
  most its deployment from the old store.
\<close>

definition migration_laws ::
  "(deployment \<Rightarrow> ('w, goerr option) eff) \<Rightarrow> 'w fs_storage \<Rightarrow> ('w \<Rightarrow> deployment set) \<Rightarrow> ('w \<Rightarrow> deployment set) \<Rightarrow> bool" where
  "migration_laws migrate fs old new \<longleftrightarrow>
     quiet (\<lambda>w. (old w, new w)) (fs_Twins fs) \<and>
     (\<forall>t. quiet (\<lambda>w. (old w, new w)) (fs_ByTwin fs t)) \<and>
     (\<forall>t i. quiet (\<lambda>w. (old w, new w)) (fs_Get fs t i)) \<and>
     (\<forall>d w. old (snd (migrate d w)) = old w \<and>
        new (snd (migrate d w)) = (if fst (migrate d w) = None then insert d (new w) else new w)) \<and>
     (\<forall>d w. new (snd (fs_Delete fs d w)) = new w \<and> old w - {d} \<subseteq> old (snd (fs_Delete fs d w)))"

lemma migration_lawsD:
  assumes "migration_laws migrate fs old new"
  shows "old (snd (fs_Twins fs w)) = old w" "new (snd (fs_Twins fs w)) = new w"
    and "old (snd (fs_ByTwin fs t w)) = old w" "new (snd (fs_ByTwin fs t w)) = new w"
    and "old (snd (fs_Get fs t i w)) = old w" "new (snd (fs_Get fs t i w)) = new w"
    and "old (snd (migrate d w)) = old w"
    and "new (snd (migrate d w)) = (if fst (migrate d w) = None then insert d (new w) else new w)"
    and "new (snd (fs_Delete fs d w)) = new w" "old w - {d} \<subseteq> old (snd (fs_Delete fs d w))"
  using assms by (auto simp: migration_laws_def quiet_def)

lemma migrate_one_keeps:
  assumes "migration_laws migrate fs old new"
  shows "old w \<union> new w \<subseteq> old (snd (migrate_one fs migrate t i w)) \<union> new (snd (migrate_one fs migrate t i w))"
proof (cases "fst (fs_Get fs t i w)")
  case (Inr d)
  let ?w1 = "snd (fs_Get fs t i w)" and ?w2 = "snd (migrate d (snd (fs_Get fs t i w)))"
  have "old ?w2 - {d} \<subseteq> old (snd (fs_Delete fs d ?w2))" by (rule migration_lawsD(10) [OF assms])
  with Inr show ?thesis
    using migration_lawsD(5-9) [OF assms]
    by (cases "fst (migrate d ?w1)") (auto simp: migrate_one_def case_prod_beta)
qed (simp add: migrate_one_def case_prod_beta migration_lawsD [OF assms])

lemma migrate_ids_keeps:
  assumes "migration_laws migrate fs old new"
  shows "old w \<union> new w \<subseteq> old (snd (migrate_ids fs migrate t ids b w)) \<union> new (snd (migrate_ids fs migrate t ids b w))"
proof (induction ids arbitrary: b w)
  case (Cons i ids)
  obtain b' w' where "migrate_one fs migrate t i w = (b', w')" by fastforce
  with migrate_one_keeps [OF assms, of w t i] Cons [of w' "b \<or> b'"] show ?case by auto
qed simp

lemma migrate_twins_keeps:
  assumes "migration_laws migrate fs old new"
  shows "old w \<union> new w \<subseteq> old (snd (migrate_twins fs migrate ts b w)) \<union> new (snd (migrate_twins fs migrate ts b w))"
proof (induction ts arbitrary: b w)
  case (Cons t ts)
  obtain r w1 where f: "fs_ByTwin fs t w = (r, w1)" by fastforce
  have w1: "old w1 = old w" "new w1 = new w"
    using migration_lawsD(3,4) [OF assms, of t w] f by simp_all
  show ?case
  proof (cases r)
    case (Inr dls)
    obtain b' w2 where m: "migrate_ids fs migrate t (sort dls) b w1 = (b', w2)" by fastforce
    then show ?thesis
      using migrate_ids_keeps [OF assms, of w1 t "sort dls" b] Cons [of w2 b'] f Inr w1 by auto
  qed (use f w1 Cons [of w1 b] in auto)
qed simp

text \<open>
  The storage migration loses nothing: whatever fails on the way, every deployment that one
  of the two stores held before is still held by one of them afterwards.
\<close>

lemma storageMigration_keeps:
  assumes "migration_laws migrate fs old new"
  shows "old w \<union> new w \<subseteq> old (snd (storageMigration migrate fs w)) \<union> new (snd (storageMigration migrate fs w))"
proof (cases "fst (fs_Twins fs w)")
  case (Inr ts)
  then show ?thesis
    using migrate_twins_keeps [OF assms, of "snd (fs_Twins fs w)" ts False]
    by (simp add: storageMigration_def case_prod_beta migration_lawsD [OF assms])
qed (simp add: storageMigration_def case_prod_beta migration_lawsD [OF assms])

section \<open>Network migration\<close>

text \<open>
  The file system calls of \<open>netResourceMigration\<close>. \<open>os.IsNotExist\<close> and \<open>os.IsExist\<close> are tests of
  the error.
\<close>

record 'w net_os =
  no_Stat :: "string \<Rightarrow> ('w, goerr option) eff"
  no_MkdirAll :: "string \<Rightarrow> ('w, goerr option) eff"
  no_Symlink :: "string \<Rightarrow> string \<Rightarrow> ('w, goerr option) eff"

definition volatile :: string where
  "volatile = ''/var/run/cache/networkd/networks''"

definition link_dir :: string where
  "link_dir = volatile @ ''/link''"

text \<open>\<open>networkType\<close>, \<open>newID\<close> and \<open>networkID\<close> are \<open>zos.NetworkType\<close>, \<open>gridtypes.NewWorkloadID\<close> and \<open>zos.NetworkID\<close>.\<close>

definition migrate_network ::
  "gridtypes \<Rightarrow> workload_type \<Rightarrow> (u32 \<Rightarrow> u64 \<Rightarrow> name \<Rightarrow> string res) \<Rightarrow> (u32 \<Rightarrow> name \<Rightarrow> string) \<Rightarrow>
     'w net_os \<Rightarrow> deployment \<Rightarrow> workload \<Rightarrow> 'w \<Rightarrow> 'w" where
  "migrate_network gt networkType newID networkID os dl wl w =
     (if wl_Type wl \<noteq> networkType \<or> \<not> gt_IsOkay gt (r_State (wl_Result wl)) then w
      else case newID (dl_TwinID dl) (dl_ContractID dl) (wl_Name wl) of
             Inl err \<Rightarrow> w
           | Inr i \<Rightarrow>
               (let netId = networkID (dl_TwinID dl) (wl_Name wl)
                in case no_Stat os (volatile @ ''/'' @ netId) w of
                     (err, w1) \<Rightarrow>
                       if is_err err ErrNotExist then w1
                       else snd (no_Symlink os (''../'' @ netId) (link_dir @ ''/'' @ i) w1)))"

definition netResourceMigration ::
  "gridtypes \<Rightarrow> workload_type \<Rightarrow> (u32 \<Rightarrow> u64 \<Rightarrow> name \<Rightarrow> string res) \<Rightarrow> (u32 \<Rightarrow> name \<Rightarrow> string) \<Rightarrow>
     'w net_os \<Rightarrow> deployment list \<Rightarrow> ('w, goerr option) eff" where
  "netResourceMigration gt networkType newID networkID os active w =
     (case no_Stat os volatile w of
        (err, w1) \<Rightarrow>
          if is_err err ErrNotExist then (None, w1)
          else case err of
                 Some e \<Rightarrow> (Some (Wrapped e ''failed to check networkd volatile cache''), w1)
               | None \<Rightarrow>
                   (case no_MkdirAll os link_dir w1 of
                      (Some e, w2) \<Rightarrow> (Some (Wrapped e ''failed to create network link directory''), w2)
                    | (None, w2) \<Rightarrow>
                        (None, fold (\<lambda>dl. fold (migrate_network gt networkType newID networkID os dl)
                                 (dl_Workloads dl)) active w2)))"

end
