(* ===== verification/Reporter.thy ===== *)
theory Reporter
  imports Gateway "HOL-Library.AList"
begin

text \<open>
  \<open>cmds/modules/provisiond/reporter.go\<close>: the consumption reporter. Metrics of the machines are
  stored in a round robin database as counters; once an hour the consumption since the last report
  is summed up per contract and queued, and the pusher sends the queued reports to the gateway.

  The database is a library. Its values are 64-bit floats, which stay abstract (\<open>'f\<close>) together
  with the conversions and the arithmetic the code uses (\<open>floats\<close>). A number of seconds is an \<open>int64\<close>,
  a word that is read with its sign; a point of time is a number of nanoseconds.
\<close>

section \<open>Parameters\<close>

type_synonym i64 = "64 word"

record 'f floats =
  f_to_u64 :: "'f \<Rightarrow> u64"
  f_of_u64 :: "u64 \<Rightarrow> 'f"
  f_to_i64 :: "'f \<Rightarrow> i64"
  f_of_i64 :: "i64 \<Rightarrow> 'f"
  f_add :: "'f \<Rightarrow> 'f \<Rightarrow> 'f"
  f_mul :: "'f \<Rightarrow> 'f \<Rightarrow> 'f"
  f_one :: 'f
  f_zero :: 'f

text \<open>\<open>rrd.RRD\<close>: a new slot, setting a counter in it, the last value of a key, the counters since a time.\<close>

record ('w, 'f) rrd =
  rrd_Slot :: "('w, nat res) eff"
  rrd_Counter :: "nat \<Rightarrow> string \<Rightarrow> 'f \<Rightarrow> ('w, goerr option) eff"
  rrd_Last :: "string \<Rightarrow> ('w, ('f \<times> bool) res) eff"
  rrd_Counters :: "i64 \<Rightarrow> ('w, ((string \<times> 'f) list) res) eff"

type_synonym report = "nru_consumption list"

record ('w, 'f) reporter =
  rp_rrd :: "('w, 'f) rrd"
  rp_queue :: "('w, report) dque"
  rp_registrarGateway :: "'w registrar_gateway"

definition every :: i64 where
  "every = 60 * 60"

definition lastReportedKey :: string where
  "lastReportedKey = ''.last-reported-ts''"

section \<open>The pusher\<close>

definition pushOne :: "('w, 'f) reporter \<Rightarrow> ('w, goerr option) eff" where
  "pushOne r w =
     (case q_PeekBlock (rp_queue r) w of
        (Inl err, w1) \<Rightarrow> (Some (Wrapped err ''failed to peek into capacity queue. #properlyfatal''), w1)
      | (Inr report, w1) \<Rightarrow>
          (case gw_Report (rp_registrarGateway r) report w1 of
             ((_, Some err), w2) \<Rightarrow> (Some (Wrapped err ''failed to publish consumption report''), w2)
           | ((hash, None), w2) \<Rightarrow>
               (case q_Dequeue (rp_queue r) w2 of
                  (Inl err, w3) \<Rightarrow> (Some err, w3)
                | (Inr _, w3) \<Rightarrow> (None, w3))))"

text \<open>\<open>pusher\<close> for \<open>n\<close> passes before the context ends; a failed pass is repeated after a pause.\<close>

fun pusher :: "('w, 'f) reporter \<Rightarrow> nat \<Rightarrow> 'w \<Rightarrow> 'w" where
  "pusher r 0 w = w"
| "pusher r (Suc n) w = pusher r n (snd (pushOne r w))"

section \<open>Metrics\<close>

text \<open>
  \<open>computeNU\<close> on the two network counters of a machine (\<open>Nu()\<close> of each, a library function, is
  applied by the caller): the public one counts fully, the private one not at all.
\<close>

definition computeNU :: "'f floats \<Rightarrow> 'f \<Rightarrow> 'f \<Rightarrow> u64" where
  "computeNU fl pub priv = f_to_u64 fl (f_add fl (f_mul fl pub (f_one fl)) (f_mul fl priv (f_zero fl)))"

text \<open>\<open>metrics\<close> is the answer of the machine daemon, in the order Go ranges over it.\<close>

definition getVmMetrics ::
  "'f floats \<Rightarrow> ('w, 'f) reporter \<Rightarrow> ('w, ((string \<times> 'f \<times> 'f) list) res) eff \<Rightarrow> nat \<Rightarrow> ('w, goerr option) eff" where
  "getVmMetrics fl r metrics slot w =
     (case metrics w of
        (Inl err, w1) \<Rightarrow> (Some err, w1)
      | (Inr ms, w1) \<Rightarrow>
          for_err (\<lambda>(vm, pub, priv) w.
            (case rrd_Counter (rp_rrd r) slot vm (f_of_u64 fl (computeNU fl pub priv)) w of
               (err, w') \<Rightarrow> (errors_wrap err (''failed to store metrics for '' @ squote vm), w'))) ms w1)"

definition getMetrics ::
  "'f floats \<Rightarrow> ('w, 'f) reporter \<Rightarrow> ('w, ((string \<times> 'f \<times> 'f) list) res) eff \<Rightarrow> ('w, goerr option) eff" where
  "getMetrics fl r metrics w =
     (case rrd_Slot (rp_rrd r) w of
        (Inl err, w1) \<Rightarrow> (Some err, w1)
      | (Inr slot, w1) \<Rightarrow> (None, snd (getVmMetrics fl r metrics slot w1)))"

section \<open>Reports\<close>

definition setLastReportTime :: "'f floats \<Rightarrow> ('w, 'f) reporter \<Rightarrow> i64 \<Rightarrow> ('w, goerr option) eff" where
  "setLastReportTime fl r ts w =
     (case rrd_Slot (rp_rrd r) w of
        (Inl err, w1) \<Rightarrow> (Some (Wrapped err ''failed to create rrd slot''), w1)
      | (Inr slot, w1) \<Rightarrow>
          (case rrd_Counter (rp_rrd r) slot lastReportedKey (f_of_i64 fl ts) w1 of
             (err, w2) \<Rightarrow> (errors_wrap err ''failed to set last report time'', w2)))"

definition getLastReportTime :: "'f floats \<Rightarrow> ('w, 'f) reporter \<Rightarrow> ('w, (i64 \<times> bool) res) eff" where
  "getLastReportTime fl r w =
     (case rrd_Last (rp_rrd r) lastReportedKey w of
        (Inl err, w1) \<Rightarrow> (Inl (Wrapped err ''failed to get timestamp of last report''), w1)
      | (Inr (stored, ok), w1) \<Rightarrow> (Inr (f_to_i64 fl stored, ok), w1))"

text \<open>
  \<open>Time.Unix\<close>, the whole seconds, and \<open>Time.Sub\<close> from a time in whole seconds, which keeps to the range of a
  duration.
\<close>

definition second :: int where
  "second = 1000000000"

definition time_Unix :: "int \<Rightarrow> i64" where
  "time_Unix now = word_of_int (now div second)"

definition time_Sub :: "int \<Rightarrow> i64 \<Rightarrow> int" where
  "time_Sub now since = max (- (2 ^ 63)) (min (2 ^ 63 - 1) (now - sint since * second))"

text \<open>\<open>window / time.Second\<close> on nanoseconds: Go's division truncates, and the conversion wraps.\<close>

definition window_seconds :: "int \<Rightarrow> u64" where
  "window_seconds window =
     word_of_int (if 0 \<le> window then window div second else - ((- window) div second))"

text \<open>
  One counter added to the map of reports; \<open>now\<close> in nanoseconds. A key that is no workload id is
  logged and skipped.
\<close>

definition report_add ::
  "gridtypes \<Rightarrow> 'f floats \<Rightarrow> int \<Rightarrow> int \<Rightarrow> string \<times> 'f \<Rightarrow> (u64 \<times> nru_consumption) list \<Rightarrow>
     (u64 \<times> nru_consumption) list" where
  "report_add gt fl now window kv reports =
     (case kv of (key, val) \<Rightarrow>
        if key = lastReportedKey then reports
        else case gt_Parts gt key of
               (_, Some err) \<Rightarrow> reports
             | ((_, deployment, _), None) \<Rightarrow>
                 (let rep = (case map_of reports deployment of
                      Some rep \<Rightarrow> rep
                    | None \<Rightarrow> \<lparr>nru_ContractID = deployment, nru_Timestamp = word_of_int (now div second),
                               nru_Window = window_seconds window, nru_NRU = 0\<rparr>)
                  in AList.update deployment (rep\<lparr>nru_NRU := nru_NRU rep + f_to_u64 fl val\<rparr>) reports))"

definition push :: "('w, 'f) reporter \<Rightarrow> report \<Rightarrow> ('w, goerr option) eff" where
  "push r rep w = (if length rep = 0 then (None, w) else q_Enqueue (rp_queue r) rep w)"

text \<open>\<open>visit\<close> is the order in which Go ranges over the map of reports.\<close>

definition report_of ::
  "gridtypes \<Rightarrow> 'f floats \<Rightarrow> ((u64 \<times> nru_consumption) list \<Rightarrow> (u64 \<times> nru_consumption) list) \<Rightarrow> int \<Rightarrow> int \<Rightarrow>
     (string \<times> 'f) list \<Rightarrow> report" where
  "report_of gt fl visit now window values =
     filter (\<lambda>v. nru_NRU v \<noteq> 0) (map snd (visit (fold (report_add gt fl now window) values [])))"

definition reporter_report ::
  "gridtypes \<Rightarrow> 'f floats \<Rightarrow> ((u64 \<times> nru_consumption) list \<Rightarrow> (u64 \<times> nru_consumption) list) \<Rightarrow> ('w, int) eff \<Rightarrow>
     ('w, 'f) reporter \<Rightarrow> i64 \<Rightarrow> ('w, int \<times> goerr option) eff" where
  "reporter_report gt fl visit clock r since w =
     (case clock w of (now, w1) \<Rightarrow>
        (case rrd_Counters (rp_rrd r) since w1 of
           (Inl err, w2) \<Rightarrow> ((now, Some (Wrapped err ''failed to get stored metrics from rrd'')), w2)
         | (Inr values, w2) \<Rightarrow>
             (case push r (report_of gt fl visit now (time_Sub now since) values) w2 of
                (err, w3) \<Rightarrow> ((now, err), w3))))"

text \<open>\<open>delay := (lastReport + every) - u\<close>, not below zero, and the duration to wait.\<close>

definition report_delay :: "i64 \<Rightarrow> i64 \<Rightarrow> i64" where
  "report_delay lastReport u = (let delay = (lastReport + every) - u in if delay <s 0 then 0 else delay)"

definition wait_time :: "i64 \<Rightarrow> int" where
  "wait_time delay = sint (delay * word_of_int second)"

text \<open>
  One pass of \<open>Run\<close>, without the context ending during the wait: the result is the error that ends
  the loop, or the last report time, the delay and the time of the report. \<open>unix\<close> is
  \<open>time.Now().Unix()\<close>.
\<close>

definition report_cycle ::
  "gridtypes \<Rightarrow> 'f floats \<Rightarrow> ((u64 \<times> nru_consumption) list \<Rightarrow> (u64 \<times> nru_consumption) list) \<Rightarrow> ('w, i64) eff \<Rightarrow>
     ('w, int) eff \<Rightarrow> (int \<Rightarrow> 'w \<Rightarrow> 'w) \<Rightarrow> ('w, 'f) reporter \<Rightarrow> ('w, (i64 \<times> i64 \<times> int) res) eff" where
  "report_cycle gt fl visit unix clock sleep r w =
     (case unix w of (u, w1) \<Rightarrow>
        (case getLastReportTime fl r w1 of
           (Inl err, w2) \<Rightarrow> (Inl err, w2)
         | (Inr (stored, ok), w2) \<Rightarrow>
             (let lastReport = (if ok then stored else u);
                  (err, w3) = (if ok then (None, w2) else setLastReportTime fl r u w2)
              in case err of
                   Some x \<Rightarrow> (Inl x, w3)
                 | None \<Rightarrow>
                     (let delay = report_delay lastReport u
                      in case reporter_report gt fl visit clock r lastReport (sleep (wait_time delay) w3) of
                           ((now, Some x), w4) \<Rightarrow> (Inl (Wrapped x ''failed to create consumption report''), w4)
                         | ((now, None), w4) \<Rightarrow>
                             (case setLastReportTime fl r (time_Unix now) w4 of
                                (Some x, w5) \<Rightarrow> (Inl x, w5)
                              | (None, w5) \<Rightarrow> (Inr (lastReport, delay, now), w5))))))"

text \<open>
  \<open>NewReporter\<close>'s queue: at most three attempts to open it, the directory removed after each
  failure.
\<close>

fun open_queue ::
  "nat \<Rightarrow> ('w, (('w, report) dque) res) eff \<Rightarrow> ('w \<Rightarrow> 'w) \<Rightarrow> goerr \<Rightarrow> ('w, (('w, report) dque) res) eff" where
  "open_queue 0 opn remove err w = (Inl (Wrapped err ''failed to setup report persisted queue''), w)"
| "open_queue (Suc n) opn remove err w =
     (case opn w of
        (Inr q, w1) \<Rightarrow> (Inr q, w1)
      | (Inl e, w1) \<Rightarrow> open_queue n opn remove e (remove w1))"

section \<open>Sums\<close>

text \<open>The counters of one contract, as 64-bit units.\<close>

definition contract_units :: "gridtypes \<Rightarrow> 'f floats \<Rightarrow> u64 \<Rightarrow> (string \<times> 'f) list \<Rightarrow> u64 list" where
  "contract_units gt fl c values = map (\<lambda>(key, val). f_to_u64 fl val)
     (filter (\<lambda>(key, val). key \<noteq> lastReportedKey \<and> snd (gt_Parts gt key) = None \<and>
        fst (snd (fst (gt_Parts gt key))) = c) values)"

lemma report_add_distinct:
  assumes "distinct (map fst reports)"
  shows "distinct (map fst (report_add gt fl now window kv reports))"
  using assms by (auto simp: report_add_def Let_def distinct_update split: prod.splits option.splits)

definition report_entry ::
  "gridtypes \<Rightarrow> 'f floats \<Rightarrow> int \<Rightarrow> int \<Rightarrow> (string \<times> 'f) list \<Rightarrow> u64 \<Rightarrow> nru_consumption option" where
  "report_entry gt fl now window values c =
     (if contract_units gt fl c values = [] then None
      else Some \<lparr>nru_ContractID = c, nru_Timestamp = word_of_int (now div second),
             nru_Window = window_seconds window, nru_NRU = sum_list (contract_units gt fl c values)\<rparr>)"

lemma report_add_lookup:
  "map_of (report_add gt fl now window (key, val) m) c =
     (if key \<noteq> lastReportedKey \<and> snd (gt_Parts gt key) = None \<and> fst (snd (fst (gt_Parts gt key))) = c
      then Some (let rep = (case map_of m c of Some rep \<Rightarrow> rep
             | None \<Rightarrow> \<lparr>nru_ContractID = c, nru_Timestamp = word_of_int (now div second),
                         nru_Window = window_seconds window, nru_NRU = 0\<rparr>)
           in rep\<lparr>nru_NRU := nru_NRU rep + f_to_u64 fl val\<rparr>)
      else map_of m c)"
  by (auto simp: report_add_def Let_def update_conv' split: prod.splits option.splits)

lemma report_fold:
  "distinct (map fst (fold (report_add gt fl now window) vs [])) \<and>
   map_of (fold (report_add gt fl now window) vs []) = report_entry gt fl now window vs"
proof (induction vs rule: rev_induct)
  case Nil
  show ?case by (auto simp: report_entry_def contract_units_def fun_eq_iff)
next
  case (snoc kv vs)
  obtain key val where kv: "kv = (key, val)" by fastforce
  let ?m = "fold (report_add gt fl now window) vs []"
  have units: "contract_units gt fl c (vs @ [kv]) = contract_units gt fl c vs @
      (if key \<noteq> lastReportedKey \<and> snd (gt_Parts gt key) = None \<and> fst (snd (fst (gt_Parts gt key))) = c
       then [f_to_u64 fl val] else [])" for c
    by (simp add: contract_units_def kv)
  have "map_of (report_add gt fl now window kv ?m) c = report_entry gt fl now window (vs @ [kv]) c" for c
    unfolding kv report_add_lookup snoc.IH [THEN conjunct2]
    by (auto simp: report_entry_def units [unfolded kv] Let_def)
  with snoc.IH report_add_distinct [of ?m] show ?case by (simp add: fun_eq_iff)
qed

section \<open>Properties\<close>

text \<open>
  C15. A report conserves consumption: for every contract, the report holds one entry with the sum
  (modulo 64 bits) of the counters recorded under workload ids of that contract where that sum is
  not zero, and no entry otherwise; no contract appears twice, whatever order Go ranges over its
  maps in.
\<close>

theorem report_conserves:
  assumes "\<And>m. mset (visit m) = mset m"
  shows "distinct (map nru_ContractID (report_of gt fl visit now window values)) \<and>
    set (report_of gt fl visit now window values) =
      {\<lparr>nru_ContractID = c, nru_Timestamp = word_of_int (now div second), nru_Window = window_seconds window,
         nru_NRU = sum_list (contract_units gt fl c values)\<rparr> | c.
       sum_list (contract_units gt fl c values) \<noteq> 0}"
proof -
  let ?m = "fold (report_add gt fl now window) values []"
  have d: "distinct (map fst ?m)" and mo: "map_of ?m = report_entry gt fl now window values"
    using report_fold by blast+
  have ent: "(c, x) \<in> set ?m \<longleftrightarrow> report_entry gt fl now window values c = Some x" for c x
    using d by (simp flip: mo)
  have set: "set (visit ?m) = set ?m" by (rule mset_eq_setD [OF assms])
  have ids: "map nru_ContractID (map snd (visit ?m)) = map fst (visit ?m)"
    using ent by (auto simp: set report_entry_def split: if_splits)
  have "mset (map fst (visit ?m)) = mset (map fst ?m)" using assms by simp
  then have "distinct (map fst (visit ?m))" using d by (metis mset_eq_imp_distinct_iff)
  then have "distinct (map nru_ContractID (map snd (visit ?m)))" by (simp only: ids)
  then have "distinct (map nru_ContractID (report_of gt fl visit now window values))"
    unfolding report_of_def by (rule distinct_map_filter)
  moreover have "set (report_of gt fl visit now window values) =
      {x. \<exists>c. nru_NRU x \<noteq> 0 \<and> report_entry gt fl now window values c = Some x}"
  proof -
    have "x \<in> snd ` set ?m \<longleftrightarrow> (\<exists>c. report_entry gt fl now window values c = Some x)" for x
      unfolding ent [symmetric] by force
    moreover have "set (report_of gt fl visit now window values) = {x \<in> snd ` set ?m. nru_NRU x \<noteq> 0}"
      by (simp add: report_of_def set)
    ultimately show ?thesis by auto
  qed
  moreover have "nru_NRU x \<noteq> 0 \<and> report_entry gt fl now window values c = Some x \<longleftrightarrow>
      x = \<lparr>nru_ContractID = c, nru_Timestamp = word_of_int (now div second), nru_Window = window_seconds window,
         nru_NRU = sum_list (contract_units gt fl c values)\<rparr> \<and>
      sum_list (contract_units gt fl c values) \<noteq> 0" for c x
    by (cases "contract_units gt fl c values = []") (auto simp: report_entry_def)
  ultimately show ?thesis by (simp only:)
qed

text \<open>
  C16. A report leaves the queue only after the gateway took it: \<open>pushOne\<close> removes the oldest
  report exactly when it returns nil, and then the gateway answered that very report without an
  error; otherwise the queue is as it was and the report is sent again on the next pass.
\<close>

theorem pushOne_at_least_once:
  assumes d: "dque_laws (rp_queue r) items"
    and q: "\<And>rep. quiet items (gw_Report (rp_registrarGateway r) rep)"
    and run: "pushOne r w = (err, w')"
  shows "if err = None
    then \<exists>rep u v hash. items w = rep # items w' \<and>
      gw_Report (rp_registrarGateway r) rep u = ((hash, None), v)
    else items w' = items w"
proof -
  obtain p w1 where p: "q_PeekBlock (rp_queue r) w = (p, w1)" by fastforce
  note w1 = dque_lawsD(3) [OF d p]
  show ?thesis
  proof (cases p)
    case (Inr rep)
    obtain hash ge w2 where g: "gw_Report (rp_registrarGateway r) rep w1 = ((hash, ge), w2)"
      by (metis prod.exhaust)
    note w2 = quietD [OF q g]
    obtain dq w3 where de: "q_Dequeue (rp_queue r) w2 = (dq, w3)" by fastforce
    obtain js where js: "items w = rep # js" using dque_lawsD(4) [OF d] p Inr by blast
    show ?thesis
    proof (cases ge)
      case None
      show ?thesis
      proof (cases dq)
        case (Inl de)
        have "items w3 = items w2" by (rule dque_lawsD(6) [OF d]) (use de Inl in simp)
        with run p Inr g de None Inl w1 w2 show ?thesis by (simp add: pushOne_def) (metis option.distinct(1))
      next
        case (Inr y)
        have "items w2 = y # items w3" by (rule dque_lawsD(5) [OF d]) (use de Inr in simp)
        then have "items w = rep # items w'" "err = None"
          using run p \<open>p = Inr rep\<close> g de None Inr w1 w2 js by (simp_all add: pushOne_def)
        with g None show ?thesis by auto
      qed
    next
      case (Some ge')
      with run p Inr g w1 w2 show ?thesis by (auto simp: pushOne_def)
    qed
  qed (use run p w1 in \<open>auto simp: pushOne_def\<close>)
qed

text \<open>What the database promises about the last report time: it is the value stored last.\<close>

definition last_report_laws :: "'f floats \<Rightarrow> ('w, 'f) reporter \<Rightarrow> ('w \<Rightarrow> 'f option) \<Rightarrow> bool" where
  "last_report_laws fl r lst \<longleftrightarrow>
     quiet lst (rrd_Slot (rp_rrd r)) \<and>
     (\<forall>s v w. lst (snd (rrd_Counter (rp_rrd r) s lastReportedKey v w)) =
        (if fst (rrd_Counter (rp_rrd r) s lastReportedKey v w) = None then Some v else lst w)) \<and>
     (\<forall>w. lst (snd (rrd_Last (rp_rrd r) lastReportedKey w)) = lst w \<and>
        (\<forall>v ok. fst (rrd_Last (rp_rrd r) lastReportedKey w) = Inr (v, ok) \<longrightarrow>
           (case lst w of None \<Rightarrow> \<not> ok | Some x \<Rightarrow> ok \<and> v = x)))"

lemma setLastReportTime_stores:
  assumes "last_report_laws fl r lst" and "setLastReportTime fl r ts w = (None, w')"
  shows "lst w' = Some (f_of_i64 fl ts)"
proof -
  obtain slot w1 where "rrd_Slot (rp_rrd r) w = (Inr slot, w1)"
      and c: "rrd_Counter (rp_rrd r) slot lastReportedKey (f_of_i64 fl ts) w1 = (None, w')"
    using assms(2) by (auto simp: setLastReportTime_def split: prod.splits sum.splits)
  then show ?thesis using assms(1) unfolding last_report_laws_def by (metis fst_conv snd_conv)
qed

lemma report_cycle_ok:
  assumes "report_cycle gt fl visit unix clock sleep r w = (Inr (lst, delay, now), w')"
  shows "\<exists>u v s ok v2 v4. unix w = (u, v) \<and> getLastReportTime fl r v = (Inr (s, ok), v2) \<and>
    lst = (if ok then s else u) \<and> delay = report_delay lst u \<and>
    setLastReportTime fl r (time_Unix now) v4 = (None, w')"
  using assms
  by (auto simp: report_cycle_def Let_def split: prod.splits sum.splits option.splits if_splits)

lemma getLastReportTime_reads:
  assumes "last_report_laws fl r lst" and "getLastReportTime fl r w = (Inr (s, ok), w')"
    and "lst w = Some v"
  shows "ok \<and> s = f_to_i64 fl v"
proof -
  obtain x where "rrd_Last (rp_rrd r) lastReportedKey w = (Inr (x, ok), w')" and s: "s = f_to_i64 fl x"
    using assms(2) by (auto simp: getLastReportTime_def split: prod.splits sum.splits)
  then have "fst (rrd_Last (rp_rrd r) lastReportedKey w) = Inr (x, ok)" by simp
  with assms(1,3) have "ok \<and> x = v" unfolding last_report_laws_def by fastforce
  with s show ?thesis by simp
qed

text \<open>A float holds the whole numbers up to \<open>2 ^ 53\<close> exactly.\<close>

definition float_laws :: "'f floats \<Rightarrow> bool" where
  "float_laws fl \<longleftrightarrow> (\<forall>i. \<bar>sint i\<bar> \<le> 2 ^ 53 \<longrightarrow> f_to_i64 fl (f_of_i64 fl i) = i)"

lemma sint_small: "- (2 ^ 63) \<le> x \<Longrightarrow> x < 2 ^ 63 \<Longrightarrow> sint (word_of_int x :: i64) = x"
  by (simp add: sint_sbintrunc' signed_take_bit_int_eq_self)

lemma report_delay_exact:
  assumes "\<bar>sint l\<bar> \<le> 2 ^ 53" "\<bar>sint u\<bar> \<le> 2 ^ 53"
  shows "sint (report_delay l u) = max 0 (sint l + 3600 - sint u)"
proof -
  have "(l + every) - u = word_of_int (sint l + 3600 - sint u)"
    by (simp add: every_def)
  then have "sint ((l + every) - u) = sint l + 3600 - sint u"
    using sint_small [of "sint l + 3600 - sint u"] assms by simp
  then show ?thesis by (simp add: report_delay_def Let_def word_sless_alt)
qed

lemma wait_time_exact: "0 \<le> sint d \<Longrightarrow> sint d \<le> 3600 \<Longrightarrow> wait_time d = sint d * second"
proof -
  assume "0 \<le> sint d" "sint d \<le> 3600"
  moreover have "d * word_of_int second = word_of_int (sint d * second)" by simp
  ultimately show "wait_time d = sint d * second"
    using sint_small [of "sint d * second"] by (simp add: wait_time_def second_def)
qed


end
