(* ===== verification/Power_Server.thy ===== *)
theory Power_Server
  imports Gateway "HOL-Library.Sublist"
begin

text \<open>
  \<open>pkg/power/power.go\<close> and \<open>pkg/power/uptime.go\<close>: the power server, which follows the power
  target of the node and wakes other nodes of the farm, and the uptime reporter. The init system,
  the \<open>ether-wake\<close> command, the network bridge and the host's uptime are parameters.
\<close>

section \<open>Uptime\<close>

record 'w host =
  h_ReadonlyCache :: "'w \<Rightarrow> bool"
  h_LimitedCache :: "'w \<Rightarrow> bool"
  h_NotReachable :: "'w \<Rightarrow> bool"
  h_Uptime :: "('w, u64 res) eff"
  h_Now :: "('w, int) eff"

text \<open>An unreachable node is only logged.\<close>

definition isNodeHealthy :: "'w host \<Rightarrow> 'w \<Rightarrow> bool" where
  "isNodeHealthy h w =
     (let healthy = True;
          healthy = (if h_ReadonlyCache h w then False else healthy);
          healthy = (if h_LimitedCache h w then False else healthy)
      in healthy)"

definition SendNow :: "'w host \<Rightarrow> 'w registrar_gateway \<Rightarrow> ('w, goerr option) eff" where
  "SendNow h gw w =
     (if \<not> isNodeHealthy h w then (None, w)
      else case h_Uptime h w of
             (Inl err, w1) \<Rightarrow> (Some (Wrapped err ''failed to get uptime''), w1)
           | (Inr uptime, w1) \<Rightarrow>
               (case h_Now h w1 of (t, w2) \<Rightarrow> gw_UpdateNodeUptimeV2 gw uptime t w2))"

text \<open>
  \<open>uptime\<close> until the context ends after \<open>n\<close> rounds: whether the mark was signalled, the error it
  returned, and the world. \<open>Start\<close> runs it again after an error.
\<close>

fun uptime_loop ::
  "'w host \<Rightarrow> 'w registrar_gateway \<Rightarrow> nat \<Rightarrow> bool \<Rightarrow> 'w \<Rightarrow> (bool \<times> goerr option) \<times> 'w" where
  "uptime_loop h gw 0 mark w = ((mark, None), w)"
| "uptime_loop h gw (Suc n) mark w =
     (case SendNow h gw w of
        (Some err, w1) \<Rightarrow> ((mark, Some (Wrapped err ''failed to report uptime'')), w1)
      | (None, w1) \<Rightarrow> uptime_loop h gw n True w1)"

text \<open>
  \<open>Start\<close>: a run that ends without error, or with a cancelled context, is the last; any other
  error starts the next run, at most \<open>k\<close> of them before the context ends.
\<close>

fun uptime_Start ::
  "'w host \<Rightarrow> 'w registrar_gateway \<Rightarrow> nat \<Rightarrow> nat \<Rightarrow> bool \<Rightarrow> 'w \<Rightarrow> bool \<times> 'w" where
  "uptime_Start h gw 0 n mark w = (mark, w)"
| "uptime_Start h gw (Suc k) n mark w =
     (case uptime_loop h gw n mark w of
        ((mark', err), w1) \<Rightarrow>
          if is_err err ContextCanceled then (mark', w1)
          else if err \<noteq> None then uptime_Start h gw k n mark' w1
          else (mark', w1))"

section \<open>The power server\<close>

record 'w machine =
  mc_Shutdown :: "('w, goerr option) eff"
  mc_Reboot :: "('w, goerr option) eff"
  mc_wake :: "string \<Rightarrow> ('w, goerr option) eff"
  \<comment> \<open>\<open>ether-wake -i zos <mac>\<close>\<close>

record 'w power_server =
  ps_registrarGateway :: "'w registrar_gateway"
  ps_enabled :: bool
  ps_farm :: u32
  ps_node :: u32
  ps_host :: "'w host"
  ps_machine :: "'w machine"

record power_event =
  pe_FarmID :: u32
  pe_NodeID :: u32
  pe_IsUp :: bool
  pe_IsDown :: bool

definition setNodePowerState :: "'w power_server \<Rightarrow> bool \<Rightarrow> ('w, goerr option) eff" where
  "setNodePowerState p up0 w =
     (let up = (\<not> ps_enabled p \<or> up0)
      in case gw_GetPowerTarget (ps_registrarGateway p) w of
           ((_, Some err), w1) \<Rightarrow> (Some (Wrapped err ''failed to check power state''), w1)
         | ((pow, None), w1) \<Rightarrow>
             if np_StateIsUp pow = up then (None, w1)
             else case gw_SetNodePowerState (ps_registrarGateway p) up w1 of
                    ((_, err), w2) \<Rightarrow> (err, w2))"

definition shutdown :: "'w power_server \<Rightarrow> ('w, goerr option) eff" where
  "shutdown p w =
     (if \<not> ps_enabled p then (None, w)
      else case SendNow (ps_host p) (ps_registrarGateway p) w of (_, w1) \<Rightarrow>
             (case mc_Shutdown (ps_machine p) w1 of
                (err, w2) \<Rightarrow>
                  if is_err err ErrNotSupported then mc_Reboot (ps_machine p) w2 else (err, w2)))"

definition syncSelf :: "'w power_server \<Rightarrow> ('w, goerr option) eff" where
  "syncSelf p w =
     (case gw_GetPowerTarget (ps_registrarGateway p) w of
        ((_, Some err), w1) \<Rightarrow> (Some err, w1)
      | ((pow, None), w1) \<Rightarrow>
          if np_TargetIsUp pow
          then (case setNodePowerState p True w1 of
                  (err, w2) \<Rightarrow> (errors_wrap err ''failed to set state to up'', w2))
          else (case setNodePowerState p False w1 of
                  (Some err, w2) \<Rightarrow> (Some (Wrapped err ''failed to set state to down''), w2)
                | (None, w2) \<Rightarrow>
                    (case shutdown p w2 of
                       (err, w3) \<Rightarrow> (errors_wrap err ''failed to issue shutdown'', w3))))"

text \<open>The address of the first interface named zos; \<open>''''\<close> where there is none.\<close>

fun zos_mac :: "net_interface list \<Rightarrow> string" where
  "zos_mac [] = []"
| "zos_mac (i # infs) = (if if_Name i = ''zos'' then if_Mac i else zos_mac infs)"

definition powerUp :: "'w power_server \<Rightarrow> client_node \<Rightarrow> ('w, goerr option) eff" where
  "powerUp p node w =
     (let mac = zos_mac (elems (cn_Interfaces node))
      in if mac = [] then (Some (ErrMsg (''can't find mac address of node '' @ squote (show_nat (unat (cn_NodeID node))))), w)
         else (None, ((\<lambda>w. snd (mc_wake (ps_machine p) mac w)) ^^ 10) w))"

definition event :: "'w power_server \<Rightarrow> power_event \<Rightarrow> ('w, goerr option) eff" where
  "event p ev w =
     (if pe_FarmID ev \<noteq> ps_farm p then (None, w)
      else case gw_GetNode (ps_registrarGateway p) (ucast (pe_NodeID ev)) w of
             ((_, Some err), w1) \<Rightarrow> (Some err, w1)
           | ((node, None), w1) \<Rightarrow>
               if pe_NodeID ev = ps_node p \<and> pe_IsDown ev
               then (case setNodePowerState p False w1 of
                       (Some err, w2) \<Rightarrow> (Some (Wrapped err ''failed to set node power state to down''), w2)
                     | (None, w2) \<Rightarrow> shutdown p w2)
               else if pe_IsDown ev then (None, w1)
               else if pe_IsUp ev then powerUp p node w1
               else (None, w1))"

text \<open>\<open>recv\<close> on the events of the stream, after its subscription answered \<open>sub\<close>.\<close>

definition recv :: "'w power_server \<Rightarrow> goerr option \<Rightarrow> power_event list \<Rightarrow> ('w, goerr option) eff" where
  "recv p sub evs w =
     (case syncSelf p w of
        (Some err, w1) \<Rightarrow> (Some (Wrapped err ''failed to synchronize power status''), w1)
      | (None, w1) \<Rightarrow>
          (case sub of
             Some err \<Rightarrow> (Some (Wrapped err ''failed to connect to zbus events''), w1)
           | None \<Rightarrow>
               for_err (\<lambda>ev w. case event p ev w of
                  (err, w') \<Rightarrow> (errors_wrap err ''failed to process power event'', w')) evs w1))"

text \<open>\<open>events\<close>: \<open>recv\<close> over and over, each time on what its subscription delivers, until the context ends.\<close>

definition events_loop ::
  "'w power_server \<Rightarrow> (goerr option \<times> power_event list) list \<Rightarrow> 'w \<Rightarrow> 'w" where
  "events_loop p runs w = fold (\<lambda>(sub, evs) w. snd (recv p sub evs w)) runs w"

section \<open>Wake on LAN\<close>

record 'w wol_lib =
  wol_bridge :: "('w, goerr option) eff"
  wol_ListNics :: "('w, ((string \<times> string) list) res) eff"
  \<comment> \<open>(type, name) of the attached interfaces\<close>
  wol_ValueOfFlag :: "string \<Rightarrow> ('w, string res) eff"
  wol_MagicPacket :: string
  wol_SetWol :: "string \<Rightarrow> ('w, goerr option) eff"

definition EnsureWakeOnLan :: "'w wol_lib \<Rightarrow> ('w, bool \<times> goerr option) eff" where
  "EnsureWakeOnLan l w =
     (case wol_bridge l w of
        (Some err, w1) \<Rightarrow> ((False, Some (Wrapped err ''failed to get zos bridge'')), w1)
      | (None, w1) \<Rightarrow>
          (case wol_ListNics l w1 of
             (Inl err, w2) \<Rightarrow> ((False, Some (Wrapped err ''failed to list attached nics to zos bridge'')), w2)
           | (Inr nics, w2) \<Rightarrow>
               (case filter (\<lambda>(typ, nm). typ = ''device'') nics of
                  [(_, nic)] \<Rightarrow>
                    (case wol_ValueOfFlag l nic w2 of
                       (Inl err, w3) \<Rightarrow>
                         if errors_is err ErrFlagNotFound then ((False, None), w3)
                         else ((False, Some (Wrapped err ''failed to detect support for wake on lan'')), w3)
                     | (Inr support, w3) \<Rightarrow>
                         if \<not> sublist (wol_MagicPacket l) support then ((False, None), w3)
                         else (case wol_SetWol l nic w3 of (err, w4) \<Rightarrow> ((True, err), w4)))
                | _ \<Rightarrow> ((False, Some (ErrMsg ''zos bridge has multiple interfaces'')), w2))))"

section \<open>Properties\<close>

text \<open>The chain's record of the node's state, as the gateway shows and sets it.\<close>

definition power_laws :: "'w registrar_gateway \<Rightarrow> ('w \<Rightarrow> bool) \<Rightarrow> bool" where
  "power_laws g st \<longleftrightarrow>
     (\<forall>w. st (snd (gw_GetPowerTarget g w)) = st w \<and>
        (snd (fst (gw_GetPowerTarget g w)) = None \<longrightarrow> np_StateIsUp (fst (fst (gw_GetPowerTarget g w))) = st w)) \<and>
     (\<forall>up w. snd (fst (gw_SetNodePowerState g up w)) = None \<longrightarrow> st (snd (gw_SetNodePowerState g up w)) = up)"

text \<open>
  The recorded state follows the table in the source: after a call that returns nil the node
  is recorded up exactly when power management is disabled or up was asked for, and nothing is
  written where the record already agrees.
\<close>

lemma setNodePowerState_table:
  assumes "power_laws (ps_registrarGateway p) st"
    and "setNodePowerState p up w = (None, w')"
  shows "st w' = (\<not> ps_enabled p \<or> up) \<and>
    (st w = (\<not> ps_enabled p \<or> up) \<longrightarrow> w' = snd (gw_GetPowerTarget (ps_registrarGateway p) w))"
proof -
  obtain np e w1 where g: "gw_GetPowerTarget (ps_registrarGateway p) w = ((np, e), w1)" by (metis prod.exhaust)
  have e: "e = None" using assms(2) g by (cases e) (auto simp: setNodePowerState_def)
  have s: "st w1 = st w" "np_StateIsUp np = st w"
    using assms(1) g e unfolding power_laws_def by (metis fst_conv snd_conv)+
  obtain h e2 w2 where h: "gw_SetNodePowerState (ps_registrarGateway p) (\<not> ps_enabled p \<or> up) w1 = ((h, e2), w2)"
    by (metis prod.exhaust)
  have set: "e2 = None \<Longrightarrow> st w2 = (\<not> ps_enabled p \<or> up)"
    using assms(1) h unfolding power_laws_def by (metis fst_conv snd_conv)
  show ?thesis
    using assms(2) g e s h set by (auto simp: setNodePowerState_def Let_def split: if_splits)
qed

text \<open>
  A count of the calls that stop the machine: everything else leaves it alone.
\<close>

definition stops_only :: "'w power_server \<Rightarrow> ('w \<Rightarrow> nat) \<Rightarrow> bool" where
  "stops_only p cnt \<longleftrightarrow>
     quiet cnt (gw_GetPowerTarget (ps_registrarGateway p)) \<and>
     (\<forall>up. quiet cnt (gw_SetNodePowerState (ps_registrarGateway p) up)) \<and>
     (\<forall>i. quiet cnt (gw_GetNode (ps_registrarGateway p) i)) \<and>
     (\<forall>u t. quiet cnt (gw_UpdateNodeUptimeV2 (ps_registrarGateway p) u t)) \<and>
     quiet cnt (h_Uptime (ps_host p)) \<and> quiet cnt (h_Now (ps_host p)) \<and>
     (\<forall>mac. quiet cnt (mc_wake (ps_machine p) mac))"

lemma stops_onlyD:
  assumes "stops_only p cnt"
  shows "cnt (snd (gw_GetPowerTarget (ps_registrarGateway p) w)) = cnt w"
    and "cnt (snd (gw_SetNodePowerState (ps_registrarGateway p) up w)) = cnt w"
    and "cnt (snd (gw_GetNode (ps_registrarGateway p) i w)) = cnt w"
    and "cnt (snd (gw_UpdateNodeUptimeV2 (ps_registrarGateway p) u t w)) = cnt w"
    and "cnt (snd (h_Uptime (ps_host p) w)) = cnt w" and "cnt (snd (h_Now (ps_host p) w)) = cnt w"
    and "cnt (snd (mc_wake (ps_machine p) mac w)) = cnt w"
  using assms by (simp_all add: stops_only_def quiet_def)

lemma setNodePowerState_quiet:
  assumes "stops_only p cnt"
  shows "cnt (snd (setNodePowerState p up w)) = cnt w"
  by (simp add: setNodePowerState_def case_prod_beta Let_def stops_onlyD [OF assms] split: option.splits)

lemma wake_quiet:
  assumes "stops_only p cnt"
  shows "cnt (((\<lambda>w. snd (mc_wake (ps_machine p) mac w)) ^^ n) w) = cnt w"
  by (induction n) (simp_all add: stops_onlyD [OF assms])

text \<open>
  C23. A node only stops when it is told to: whatever the gateway answers, an event leads to a
  shutdown or reboot of this node only if power management is enabled, the event is for this farm
  and this node, and its target is down.
\<close>

theorem event_stops_only_self:
  assumes s: "stops_only p cnt" and "cnt (snd (event p ev w)) \<noteq> cnt w"
  shows "ps_enabled p \<and> pe_FarmID ev = ps_farm p \<and> pe_NodeID ev = ps_node p \<and> pe_IsDown ev"
proof (rule ccontr)
  assume neg: "\<not> ?thesis"
  have up: "cnt (snd (powerUp p node v)) = cnt v" for node v
    using wake_quiet [OF s, where n = 10] by (simp add: powerUp_def Let_def)
  have "ps_enabled p \<or> cnt (snd (shutdown p v)) = cnt v" for v by (simp add: shutdown_def)
  with neg assms(2) show False
    by (auto simp: event_def case_prod_beta up setNodePowerState_quiet [OF s] stops_onlyD [OF s]
        split: if_splits option.splits)
qed

text \<open>Against a gateway with no chain behind it the target is always up.\<close>

context detached_gateway
begin

lemma syncSelf_up:
  assumes "ps_registrarGateway p = g"
  shows "syncSelf p w = (None, w)"
  using assms by (simp add: syncSelf_def power_target setNodePowerState_def Let_def)

end

text \<open>
  With the registrar gateway of this repository synchronising the power state does nothing: the
  target is always up and the state already is, so a node never goes back to sleep after it booted.
\<close>

lemma registrar_gateway_never_sleeps:
  assumes "ps_registrarGateway p = NewRegistrarGateway clock rc"
  shows "syncSelf p w = (None, w)"
  by (rule rg.syncSelf_up [OF assms])

text \<open>
  The uptime mark is signalled although nothing was sent: on a node whose cache is read only or
  limited, the loop reports nothing in any round and still signals the mark in the first one.
\<close>

lemma uptime_mark_without_report:
  assumes "h_ReadonlyCache h w \<or> h_LimitedCache h w"
  shows "uptime_loop h gw (Suc n) False w = ((True, None), w)"
proof -
  have "SendNow h gw w = (None, w)" using assms by (auto simp: SendNow_def isNodeHealthy_def)
  then have "uptime_loop h gw n True w = ((True, None), w)" by (induction n) simp_all
  with \<open>SendNow h gw w = (None, w)\<close> show ?thesis by simp
qed

end
