(* ===== verification/Registrar.thy ===== *)
theory Registrar
  imports Gateway "HOL-Library.Sublist"
begin

text \<open>
  \<open>pkg/registrar_light\<close>: the registration of the node (\<open>register.go\<close>) and the state the rest of the
  system reads the node and twin ids from (\<open>registrar.go\<close>), with the interleaving of a reader and
  the registration goroutine written out.
\<close>

section \<open>Registration data\<close>

record geo_location =
  geo_Longitude :: string
  geo_Latitude :: string
  geo_Country :: string
  geo_City :: string
  \<comment> \<open>the coordinates as \<open>fmt.Sprint\<close> prints them\<close>

record registration_info =
  ri_Capacity :: capacity
  ri_Location :: geo_location
  ri_SecureBoot :: bool
  ri_Virtualized :: bool
  ri_SerialNumber :: string
  ri_GPUs :: "string set"

definition WithGPU :: "registration_info \<Rightarrow> string \<Rightarrow> registration_info" where
  "WithGPU r short = r\<lparr>ri_GPUs := insert short (ri_GPUs r)\<rparr>"

definition WithCapacity :: "registration_info \<Rightarrow> capacity \<Rightarrow> registration_info" where
  "WithCapacity r v = r\<lparr>ri_Capacity := v\<rparr>"

definition WithLocation :: "registration_info \<Rightarrow> geo_location \<Rightarrow> registration_info" where
  "WithLocation r v = r\<lparr>ri_Location := v\<rparr>"

definition WithSecureBoot :: "registration_info \<Rightarrow> bool \<Rightarrow> registration_info" where
  "WithSecureBoot r v = r\<lparr>ri_SecureBoot := v\<rparr>"

definition WithVirtualized :: "registration_info \<Rightarrow> bool \<Rightarrow> registration_info" where
  "WithVirtualized r v = r\<lparr>ri_Virtualized := v\<rparr>"

definition WithSerialNumber :: "registration_info \<Rightarrow> string \<Rightarrow> registration_info" where
  "WithSerialNumber r v = r\<lparr>ri_SerialNumber := v\<rparr>"

section \<open>Registering the node\<close>

text \<open>
  What \<open>registerNode\<close> calls besides the gateway: the zos bridge (its interface with the addresses as text,
  the zero interface where the answer has no entry for it), the relays and farm of the environment, the location
  service, and the text of \<open>client.ErrorNodeNotFound\<close>.
\<close>

record 'w reg_env =
  re_zosInterface :: "('w, net_interface res) eff"
  re_Relays :: "string list"
  re_FarmID :: u32
  re_FetchLocation :: "('w, geo_location res) eff"
  re_NodeNotFound :: string

definition node_of :: "'w reg_env \<Rightarrow> registration_info \<Rightarrow> net_interface \<Rightarrow> u64 \<Rightarrow> client_node" where
  "node_of en info zos twinID =
     \<lparr>cn_NodeID = 0, cn_FarmID = ucast (re_FarmID en), cn_TwinID = twinID,
      cn_Location = \<lparr>lc_Longitude = geo_Longitude (ri_Location info), lc_Latitude = geo_Latitude (ri_Location info),
        lc_Country = geo_Country (ri_Location info), lc_City = geo_City (ri_Location info)\<rparr>,
      cn_Resources = \<lparr>rs_HRU = c_HRU (ri_Capacity info), rs_SRU = c_SRU (ri_Capacity info),
        rs_CRU = c_CRU (ri_Capacity info), rs_MRU = c_MRU (ri_Capacity info)\<rparr>,
      cn_Interfaces = Some [zos\<lparr>if_IPs := Some (elems (if_IPs zos))\<rparr>], cn_SecureBoot = ri_SecureBoot info, cn_Virtualized = ri_Virtualized info,
      cn_SerialNumber = ri_SerialNumber info, cn_rest = []\<rparr>"

text \<open>
  The lookup of the node's id: by twin, and created where the registrar does not know it, which is
  told from the text of the error.
\<close>

definition lookup_node ::
  "'w reg_env \<Rightarrow> 'w registrar_gateway \<Rightarrow> client_node \<Rightarrow> u64 \<Rightarrow> ('w, u64 res) eff" where
  "lookup_node en gw real twinID w =
     (case gw_GetNodeByTwinID gw twinID w of
        ((node, None), w1) \<Rightarrow> (Inr (cn_NodeID node), w1)
      | ((node, Some regErr), w1) \<Rightarrow>
          if sublist (re_NodeNotFound en) (err_text regErr)
          then (case gw_CreateNode gw real w1 of
                  ((_, Some err), w2) \<Rightarrow> (Inl (Wrapped err ''failed to create node on registrar''), w2)
                | ((nodeID, None), w2) \<Rightarrow> (Inr nodeID, w2))
          else (Inl (Wrapped regErr (''failed to get node information for twin id: '' @ show_nat (unat twinID))), w1))"

definition registerNode ::
  "'w reg_env \<Rightarrow> 'w registrar_gateway \<Rightarrow> registration_info \<Rightarrow> ('w, (u64 \<times> u64) res) eff" where
  "registerNode en gw info w =
     (case re_zosInterface en w of
        (Inl err, w1) \<Rightarrow> (Inl (Wrapped err ''failed to get zos bridge information''), w1)
      | (Inr zos, w1) \<Rightarrow>
          (case gw_EnsureAccount gw (re_Relays en) [] w1 of
             ((_, Some err), w2) \<Rightarrow> (Inl (Wrapped err ''failed to ensure account''), w2)
           | ((account, None), w2) \<Rightarrow>
               (let twinID = ac_TwinID account; real = node_of en info zos twinID
                in case lookup_node en gw real twinID w2 of
                     (Inl err, w3) \<Rightarrow> (Inl err, w3)
                   | (Inr nodeID, w3) \<Rightarrow>
                       (case gw_GetNode gw nodeID w3 of
                          ((_, Some err), w4) \<Rightarrow>
                            (Inl (Wrapped err (''failed to get node with id: '' @ show_nat (unat nodeID))), w4)
                        | ((onRegistrar, None), w4) \<Rightarrow>
                            (let real' = real\<lparr>cn_Virtualized := (if \<not> cn_Virtualized onRegistrar then False
                                               else cn_Virtualized real), cn_NodeID := nodeID\<rparr>
                             in if real' \<noteq> onRegistrar
                                then (case gw_UpdateNode gw real' w4 of
                                        (Some err, w5) \<Rightarrow>
                                          (Inl (Wrapped err (''failed to update node data with id: ''
                                             @ show_nat (unat nodeID))), w5)
                                      | (None, w5) \<Rightarrow> (Inr (nodeID, twinID), w5))
                                else (Inr (nodeID, twinID), w4))))))"

definition registration ::
  "'w reg_env \<Rightarrow> 'w registrar_gateway \<Rightarrow> registration_info \<Rightarrow> ('w, (u64 \<times> u64) res) eff" where
  "registration en gw info w =
     (case re_FetchLocation en w of
        (Inl err, w1) \<Rightarrow> (Inl (Wrapped err ''fetch location''), w1)
      | (Inr loc, w1) \<Rightarrow>
          (case registerNode en gw (WithLocation info loc) w1 of
             (Inl err, w2) \<Rightarrow> (Inl (Wrapped err ''failed to register node''), w2)
           | (Inr ids, w2) \<Rightarrow> (Inr ids, w2)))"

section \<open>The registrar's state\<close>

datatype registration_state = Failed | InProgress | Done

record reg_state =
  s_NodeID :: u32
  s_TwinID :: u32
  s_State :: registration_state
  s_Msg :: string

definition FailedState :: "goerr \<Rightarrow> reg_state" where
  "FailedState err = \<lparr>s_NodeID = 0, s_TwinID = 0, s_State = Failed, s_Msg = err_text err\<rparr>"

definition InProgressState :: reg_state where
  "InProgressState = \<lparr>s_NodeID = 0, s_TwinID = 0, s_State = InProgress, s_Msg = []\<rparr>"

definition DoneState :: "u32 \<Rightarrow> u32 \<Rightarrow> reg_state" where
  "DoneState nodeID twinID = \<lparr>s_NodeID = nodeID, s_TwinID = twinID, s_State = Done, s_Msg = []\<rparr>"

text \<open>One attempt of the retry loop of \<open>register\<close>, on the shared state and the world.\<close>

definition attempt ::
  "'w reg_env \<Rightarrow> 'w registrar_gateway \<Rightarrow> registration_info \<Rightarrow> (reg_state \<times> 'w, goerr option) eff" where
  "attempt en gw info s =
     (case registration en gw info (snd s) of
        (Inl err, w1) \<Rightarrow> (Some err, (FailedState err, w1))
      | (Inr (nodeID, twinID), w1) \<Rightarrow> (None, (DoneState (ucast nodeID) (ucast twinID), w1)))"

text \<open>
  The events of the loop in \<open>register\<close>. A cancelled context has an empty branch: the loop goes on.
\<close>

datatype reg_event = CtxDone | MonitorTick | UpdateTick | AddressChange

definition reg_handle ::
  "((reg_state \<times> 'w, goerr option) eff \<Rightarrow> (reg_state \<times> 'w, goerr option) eff) \<Rightarrow> 'w reg_env \<Rightarrow>
     'w registrar_gateway \<Rightarrow> registration_info \<Rightarrow> reg_event \<Rightarrow> reg_state \<times> 'w \<Rightarrow> reg_state \<times> 'w" where
  "reg_handle ret en gw info ev s =
     (case ev of
        CtxDone \<Rightarrow> s
      | MonitorTick \<Rightarrow> (case gw_EnsureAccount gw (re_Relays en) [] (snd s) of (_, w1) \<Rightarrow> (fst s, w1))
      | UpdateTick \<Rightarrow> snd (ret (attempt en gw info) s)
      | AddressChange \<Rightarrow> snd (ret (attempt en gw info) s))"

text \<open>
  \<open>register\<close> on the events it sees: the two early failures, the first registration, the
  subscription (\<open>sub\<close> is its error), then the events. \<open>limited\<close> and \<open>kvm\<close> are the outcome of the
  two checks.
\<close>

definition register ::
  "((reg_state \<times> 'w, goerr option) eff \<Rightarrow> (reg_state \<times> 'w, goerr option) eff) \<Rightarrow> 'w reg_env \<Rightarrow>
     'w registrar_gateway \<Rightarrow> registration_info \<Rightarrow> bool \<Rightarrow> bool \<Rightarrow> goerr option \<Rightarrow> reg_event list \<Rightarrow>
     reg_state \<times> 'w \<Rightarrow> reg_state \<times> 'w" where
  "register ret en gw info limited kvm sub evs s =
     (if limited then (FailedState (ErrMsg ''no disks''), snd s)
      else if \<not> kvm
      then (FailedState (ErrMsg ''virtualization is not enabled. please enable in BIOS''), snd s)
      else let s1 = snd (ret (attempt en gw info) s)
           in case sub of Some err \<Rightarrow> s1 | None \<Rightarrow> fold (reg_handle ret en gw info) evs s1)"

text \<open>
  When the loop of \<open>register\<close> next wakes up, in minutes. Both timers are made anew by every pass of
  the \<open>select\<close>; \<open>cancelled\<close> is whether the context has ended, \<open>addr\<close> when the next address change
  arrives, if one does.
\<close>

fun reg_due :: "bool \<Rightarrow> nat option \<Rightarrow> reg_event \<Rightarrow> nat option" where
  "reg_due cancelled addr CtxDone = (if cancelled then Some 0 else None)"
| "reg_due cancelled addr MonitorTick = Some 30"
| "reg_due cancelled addr UpdateTick = Some (24 * 60)"
| "reg_due cancelled addr AddressChange = addr"

definition reg_events :: "reg_event list" where
  "reg_events = [CtxDone, MonitorTick, UpdateTick, AddressChange]"

text \<open>The branches the \<open>select\<close> can take: those that are ready first.\<close>

definition may_fire :: "bool \<Rightarrow> nat option \<Rightarrow> reg_event \<Rightarrow> bool" where
  "may_fire cancelled addr ev \<longleftrightarrow>
     (case reg_due cancelled addr ev of
        None \<Rightarrow> False
      | Some t \<Rightarrow> list_all (\<lambda>other. case reg_due cancelled addr other of None \<Rightarrow> True | Some t' \<Rightarrow> t \<le> t') reg_events)"

section \<open>Reading the ids\<close>

text \<open>\<open>returnIfDone\<close> tests the state it finds when it runs, not the one its argument was read from.\<close>

definition returnIfDone :: "reg_state \<Rightarrow> u32 \<Rightarrow> u32 \<times> goerr option" where
  "returnIfDone s v =
     (if s_State s = Failed then (0, Some (Wrapped (Sentinel ErrFailed ''registration failed'') (s_Msg s)))
      else if s_State s = Done then (v, None)
      else (0, Some (Sentinel ErrInProgress ''registration is still in progress'')))"

text \<open>
  \<open>NodeID()\<close> and \<open>TwinID()\<close> as a thread: first the value is read under the lock; then \<open>returnIfDone\<close> reads
  the state again, without it, once for each of its tests and once for the message. Between any two reads the
  registration may store a state: the failure of an attempt, or the ids \<open>n\<close> and \<open>t\<close> it registered.
\<close>

datatype reader = Idle | Loaded u32 | Failing | Passed u32 | Returned "u32 \<times> goerr option"

inductive id_step ::
  "(reg_state \<Rightarrow> u32) \<Rightarrow> u32 \<Rightarrow> u32 \<Rightarrow> reg_state \<times> reader \<Rightarrow> reg_state \<times> reader \<Rightarrow> bool"
  for field n t where
  load: "id_step field n t (s, Idle) (s, Loaded (field s))"
| failed: "s_State s = Failed \<Longrightarrow> id_step field n t (s, Loaded v) (s, Failing)"
| wrapped: "id_step field n t (s, Failing)
    (s, Returned (0, Some (Wrapped (Sentinel ErrFailed ''registration failed'') (s_Msg s))))"
| passed: "s_State s \<noteq> Failed \<Longrightarrow> id_step field n t (s, Loaded v) (s, Passed v)"
| finished: "s_State s = Done \<Longrightarrow> id_step field n t (s, Passed v) (s, Returned (v, None))"
| pending: "s_State s \<noteq> Done \<Longrightarrow> id_step field n t (s, Passed v)
    (s, Returned (0, Some (Sentinel ErrInProgress ''registration is still in progress'')))"
| store: "s' = DoneState n t \<or> (\<exists>err. s' = FailedState err) \<Longrightarrow> id_step field n t (s, r) (s', r)"

inductive_cases id_stepE: "id_step field n t (s, r) (s', r')"

text \<open>The states from the creation of the registrar on, and where the reader is.\<close>

inductive id_run :: "(reg_state \<Rightarrow> u32) \<Rightarrow> u32 \<Rightarrow> u32 \<Rightarrow> reg_state list \<Rightarrow> reg_state \<times> reader \<Rightarrow> bool"
  for field n t where
  begins: "id_run field n t [InProgressState] (InProgressState, Idle)"
| steps: "id_run field n t hist (s, r) \<Longrightarrow> id_step field n t (s, r) (s', r') \<Longrightarrow>
    id_run field n t (hist @ [s']) (s', r')"

text \<open>A reader that is not disturbed returns what \<open>returnIfDone\<close> does.\<close>

lemma id_step_alone:
  "\<exists>r. id_step field n t (s, Loaded v) (s, r) \<and> id_step field n t (s, r) (s, Returned (returnIfDone s v))"
proof (cases "s_State s = Failed")
  case True
  then show ?thesis
    using id_step.failed [OF True, of field n t v] id_step.wrapped [of field n t s]
    by (intro exI [of _ Failing]) (simp add: returnIfDone_def)
next
  case False
  then show ?thesis
    using id_step.passed [OF False, of field n t v] id_step.finished [of s field n t v] id_step.pending [of s field n t v]
    by (intro exI [of _ "Passed v"]) (simp add: returnIfDone_def)
qed

section \<open>Properties\<close>

text \<open>The states that the attempts of a registration leave.\<close>

definition attempted :: "'w reg_env \<Rightarrow> 'w registrar_gateway \<Rightarrow> registration_info \<Rightarrow> reg_state \<Rightarrow> bool" where
  "attempted en gw info s \<longleftrightarrow>
     (\<exists>v v' err. registration en gw info v = (Inl err, v') \<and> s = FailedState err) \<or>
     (\<exists>v v' n t. registration en gw info v = (Inr (n, t), v') \<and> s = DoneState (ucast n) (ucast t))"

lemma attempt_last:
  assumes "attempt en gw info s = (err, s')"
  shows "case err of
      None \<Rightarrow> \<exists>n t. registration en gw info (snd s) = (Inr (n, t), snd s') \<and> fst s' = DoneState (ucast n) (ucast t)
    | Some e \<Rightarrow> registration en gw info (snd s) = (Inl e, snd s') \<and> fst s' = FailedState e"
  using assms by (auto simp: attempt_def split: prod.splits sum.splits)

lemma attempt_leaves: "attempted en gw info (fst (snd (attempt en gw info s)))"
proof -
  obtain err s' where a: "attempt en gw info s = (err, s')" by (metis prod.exhaust)
  show ?thesis using attempt_last [OF a] unfolding a attempted_def by (cases err) (simp, blast, simp, blast)
qed

lemma ret_last:
  assumes "retry_laws ret"
  shows "\<exists>v. attempt en gw info v = ret (attempt en gw info) s"
proof -
  have "\<exists>v. f v = retry_run n f u" for n and f :: "('b, goerr option) eff" and u
  proof (induction n arbitrary: u)
    case (Suc n)
    obtain e u' where f: "f u = (e, u')" by fastforce
    show ?case
    proof (cases e)
      case None
      then show ?thesis using f by (intro exI [of _ u]) simp
    next
      case (Some x)
      then show ?thesis using f Suc.IH [of u'] by simp
    qed
  qed (rule exI, simp)
  then show ?thesis using assms unfolding retry_laws_def by metis
qed

lemma ret_attempted:
  assumes "retry_laws ret"
  shows "attempted en gw info (fst (snd (ret (attempt en gw info) s)))"
  using ret_last [OF assms] attempt_leaves by metis


text \<open>
  What the client of the registrar promises, seen through the node records of the registrar (\<open>nodes\<close>) and the id of
  the node that the account with the twin id \<open>twin\<close> owns (\<open>own\<close>): an account that is ensured is that account, the
  node found by its twin or registered by it is the one it owns, \<open>GetNode\<close> reads a record, and an update that
  succeeds sets the given fields of the node it owns.
\<close>

definition apply_update :: "node_update \<Rightarrow> client_node \<Rightarrow> client_node" where
  "apply_update u n =
     (let n1 = (case nu_FarmID u of None \<Rightarrow> n | Some x \<Rightarrow> n\<lparr>cn_FarmID := x\<rparr>);
          n2 = (case nu_Location u of None \<Rightarrow> n1 | Some x \<Rightarrow> n1\<lparr>cn_Location := x\<rparr>);
          n3 = (case nu_Resources u of None \<Rightarrow> n2 | Some x \<Rightarrow> n2\<lparr>cn_Resources := x\<rparr>);
          n4 = (case nu_Interfaces u of None \<Rightarrow> n3 | Some x \<Rightarrow> n3\<lparr>cn_Interfaces := Some x\<rparr>);
          n5 = (case nu_SerialNumber u of None \<Rightarrow> n4 | Some x \<Rightarrow> n4\<lparr>cn_SerialNumber := x\<rparr>);
          n6 = (case nu_SecureBoot u of None \<Rightarrow> n5 | Some x \<Rightarrow> n5\<lparr>cn_SecureBoot := x\<rparr>)
      in (case nu_Virtualized u of None \<Rightarrow> n6 | Some x \<Rightarrow> n6\<lparr>cn_Virtualized := x\<rparr>))"

definition registrar_store ::
  "'w registrar_client \<Rightarrow> u64 \<Rightarrow> ('w \<Rightarrow> u64 \<rightharpoonup> client_node) \<Rightarrow> ('w \<Rightarrow> u64) \<Rightarrow> bool" where
  "registrar_store rc twin nodes own \<longleftrightarrow>
     (\<forall>rs k w a w'. rc_EnsureAccount rc rs k w = ((a, None), w') \<longrightarrow> ac_TwinID a = twin) \<and>
     (\<forall>w n w'. rc_GetNodeByTwinID rc twin w = ((n, None), w') \<longrightarrow> own w' = cn_NodeID n) \<and>
     (\<forall>x w i w'. rc_RegisterNode rc x w = ((i, None), w') \<longrightarrow> own w' = i) \<and>
     (\<forall>i w n w'. rc_GetNode rc i w = ((n, None), w') \<longrightarrow> own w' = own w \<and> nodes w' i = Some n) \<and>
     (\<forall>u w w'. rc_UpdateNode rc u w = (None, w') \<longrightarrow> own w' = own w \<and>
        (\<forall>n. nodes w (own w) = Some n \<longrightarrow> nodes w' = (nodes w)(own w \<mapsto> apply_update u n)))"

lemma registrar_storeD:
  assumes "registrar_store rc twin nodes own"
  shows "rc_EnsureAccount rc rs k w = ((a, None), w') \<Longrightarrow> ac_TwinID a = twin"
    and "rc_GetNodeByTwinID rc twin w = ((n, None), w') \<Longrightarrow> own w' = cn_NodeID n"
    and "rc_RegisterNode rc x w = ((i, None), w') \<Longrightarrow> own w' = i"
    and "rc_GetNode rc i w = ((n, None), w') \<Longrightarrow> own w' = own w \<and> nodes w' i = Some n"
    and "rc_UpdateNode rc u w = (None, w') \<Longrightarrow> nodes w (own w) = Some n \<Longrightarrow>
      own w' = own w \<and> nodes w' = (nodes w)(own w \<mapsto> apply_update u n)"
  using assms unfolding registrar_store_def by blast+

text \<open>The data that a registration reports about the node.\<close>

definition same_data :: "client_node \<Rightarrow> client_node \<Rightarrow> bool" where
  "same_data x y \<longleftrightarrow> cn_FarmID x = cn_FarmID y \<and> cn_Location x = cn_Location y \<and> cn_Resources x = cn_Resources y \<and>
     cn_Interfaces x = cn_Interfaces y \<and> cn_SerialNumber x = cn_SerialNumber y \<and> cn_SecureBoot x = cn_SecureBoot y \<and>
     cn_Virtualized x = cn_Virtualized y"

lemma gateway_calls:
  "gw_EnsureAccount (NewRegistrarGateway clock rc) = rc_EnsureAccount rc"
  "gw_GetNode (NewRegistrarGateway clock rc) = rc_GetNode rc"
  "gw_UpdateNode (NewRegistrarGateway clock rc) = UpdateNode rc"
  by (simp_all add: NewRegistrarGateway_def EnsureAccount_def GetNode_def fun_eq_iff)

lemma registerNode_ok:
  assumes "registerNode en gw info w = (Inr (nodeID, twinID), w')"
  shows "\<exists>zos w1 acc w2 w3 onReg w4.
    re_zosInterface en w = (Inr zos, w1) \<and>
    gw_EnsureAccount gw (re_Relays en) [] w1 = ((acc, None), w2) \<and> twinID = ac_TwinID acc \<and>
    lookup_node en gw (node_of en info zos twinID) twinID w2 = (Inr nodeID, w3) \<and>
    gw_GetNode gw nodeID w3 = ((onReg, None), w4) \<and>
    (let real = (node_of en info zos twinID)\<lparr>cn_NodeID := nodeID,
           cn_Virtualized := cn_Virtualized onReg \<and> ri_Virtualized info\<rparr>
     in if real = onReg then w' = w4 else gw_UpdateNode gw real w4 = (None, w'))"
proof -
  have virt: "(node_of en info zos t)\<lparr>cn_Virtualized := (if \<not> cn_Virtualized o' then False
      else cn_Virtualized (node_of en info zos t)), cn_NodeID := i\<rparr> =
    (node_of en info zos t)\<lparr>cn_NodeID := i, cn_Virtualized := cn_Virtualized o' \<and> ri_Virtualized info\<rparr>"
    for zos t o' i by (simp add: node_of_def)
  show ?thesis
    using assms unfolding registerNode_def Let_def virt
    by (auto split: prod.splits sum.splits option.splits if_splits)
qed

lemma lookup_node_own:
  assumes store: "registrar_store rc twin nodes own"
    and "lookup_node en (NewRegistrarGateway clock rc) real twin w = (Inr nodeID, w')"
  shows "own w' = nodeID"
  using assms(2) registrar_storeD(2,3) [OF store]
  by (auto simp: lookup_node_def gateway_simps split: prod.splits option.splits if_splits)

text \<open>
  C21. A registration brings the registrar up to date: when it succeeds, through the gateway of this repository
  on a client that keeps its promises, it returns the twin id of the account and the id of the node that account
  owns, and the record of that node on the registrar then holds what the node reported: its farm, location,
  resources, interface, serial number and secure boot flag. It counts as virtualized only if it reported so and
  the registrar already had it as virtualized.
\<close>

theorem registerNode_converges:
  assumes store: "registrar_store rc twin nodes own"
    and ok: "registerNode en (NewRegistrarGateway clock rc) info w = (Inr (nodeID, twinID), w')"
  shows "twinID = twin \<and> own w' = nodeID \<and>
    (\<exists>zos w1 w3 before onReg n. re_zosInterface en w = (Inr zos, w1) \<and>
       rc_GetNode rc nodeID before = ((onReg, None), w3) \<and> nodes w' nodeID = Some n \<and>
       same_data n ((node_of en info zos twin)\<lparr>cn_Virtualized := cn_Virtualized onReg \<and> ri_Virtualized info\<rparr>))"
proof -
  from registerNode_ok [OF ok, unfolded gateway_calls] obtain zos w1 acc w2 w3 onReg w4 where
      zos: "re_zosInterface en w = (Inr zos, w1)"
    and acc: "rc_EnsureAccount rc (re_Relays en) [] w1 = ((acc, None), w2)" "twinID = ac_TwinID acc"
    and look: "lookup_node en (NewRegistrarGateway clock rc) (node_of en info zos twinID) twinID w2 = (Inr nodeID, w3)"
    and get: "rc_GetNode rc nodeID w3 = ((onReg, None), w4)"
    and upd: "let real = (node_of en info zos twinID)\<lparr>cn_NodeID := nodeID,
           cn_Virtualized := cn_Virtualized onReg \<and> ri_Virtualized info\<rparr>
       in if real = onReg then w' = w4 else UpdateNode rc real w4 = (None, w')"
    by blast
  have twin: "twinID = twin" using registrar_storeD(1) [OF store acc(1)] acc(2) by simp
  have "own w3 = nodeID" using lookup_node_own [OF store] look twin by simp
  with registrar_storeD(4) [OF store get] have w4: "own w4 = nodeID" "nodes w4 nodeID = Some onReg" by simp_all
  define real where "real = (node_of en info zos twin)\<lparr>cn_NodeID := nodeID,
    cn_Virtualized := cn_Virtualized onReg \<and> ri_Virtualized info\<rparr>"
  have "own w' = nodeID \<and> (\<exists>n. nodes w' nodeID = Some n \<and> same_data n real)"
  proof (cases "real = onReg")
    case True
    then show ?thesis using upd w4 twin by (simp add: real_def same_data_def Let_def)
  next
    case False
    then have "UpdateNode rc real w4 = (None, w')" using upd twin by (simp add: real_def Let_def)
    then show ?thesis
      using registrar_storeD(5) [OF store, of _ w4 w' onReg] w4
      by (auto simp: UpdateNode_def apply_update_def same_data_def real_def node_of_def Let_def)
  qed
  then obtain n where "own w' = nodeID" "nodes w' nodeID = Some n" "same_data n real" by blast
  then show ?thesis
    using twin zos get by (auto simp: same_data_def real_def)
qed

text \<open>
  The daily refresh of the node's data never happens: in every pass the account timer is ready
  before the update timer, so whatever addresses change and whether or not the context has ended,
  the update branch of the loop is never taken.
\<close>

lemma update_tick_never: "\<not> may_fire cancelled addr UpdateTick"
  by (simp add: may_fire_def reg_events_def)

text \<open>The reader after it has read the value: the id that was registered, or zero read before.\<close>

lemma id_run_loaded:
  assumes "id_run field n t hist (s, r)" and "field \<in> {s_NodeID, s_TwinID}"
  shows "hist \<noteq> [] \<and> last hist = s \<and> (\<forall>x \<in> set hist. x = DoneState n t \<or> s_State x \<noteq> Done \<and> field x = 0) \<and>
    (\<forall>v. r \<in> {Loaded v, Passed v, Returned (v, None)} \<longrightarrow>
       v = field (DoneState n t) \<or> v = 0 \<and> (\<exists>x \<in> set hist. s_State x \<noteq> Done)) \<and>
    (\<forall>v. r = Returned (v, None) \<longrightarrow> DoneState n t \<in> set hist)"
  using assms(1)
proof (induction hist "(s, r)" arbitrary: s r)
  case begins
  then show ?case using assms(2) by (auto simp: InProgressState_def)
next
  case (steps hist s r s' r')
  have mem: "s \<in> set hist" using steps.hyps(2) by (metis last_in_set)
  have shape: "x = DoneState n t \<or> s_State x \<noteq> Done \<and> field x = 0" if "x \<in> set hist" for x
    using steps.hyps(2) that by blast
  from steps.hyps(3) show ?case
  proof (cases rule: id_step.cases)
    case store
    then show ?thesis using steps.hyps(2) assms(2) by (auto simp: FailedState_def)
  qed (use steps.hyps(2) mem shape [OF mem] in auto)
qed


end
