(* ===== verification/Files.thy ===== *)
theory Files
  imports Prelude "HOL-Library.Sublist"
begin

text \<open>
  The part of a file system that the upgrader and the update worker use: a map from paths to
  entries, and the calls of Go's \<open>os\<close> package on it. \<open>io op path\<close> is the fault of the device or of the
  permissions that a call meets, if any, so that every call can fail. \<open>resolve\<close> is the kernel's
  path resolution, which a call that follows symbolic links goes through; it leaves a path alone
  that is no symbolic link (\<open>resolve_laws\<close>).
\<close>

datatype inode = Regular "byte list" | Symlink string | Directory

type_synonym path = string
type_synonym fsys = "path \<rightharpoonup> inode"
type_synonym faults = "string \<Rightarrow> path \<Rightarrow> goerr option"

definition not_exist :: goerr where
  "not_exist = Sentinel ErrNotExist ''file does not exist''"

definition already_exists :: goerr where
  "already_exists = Sentinel ErrExist ''file already exists''"

definition resolve_laws :: "(fsys \<Rightarrow> path \<Rightarrow> path) \<Rightarrow> bool" where
  "resolve_laws resolve \<longleftrightarrow> (\<forall>fs p. (\<forall>t. fs p \<noteq> Some (Symlink t)) \<longrightarrow> resolve fs p = p)"

definition os_Stat :: "faults \<Rightarrow> (fsys \<Rightarrow> path \<Rightarrow> path) \<Rightarrow> path \<Rightarrow> fsys \<Rightarrow> goerr option" where
  "os_Stat io resolve p fs =
     (case io ''stat'' p of
        Some e \<Rightarrow> Some e
      | None \<Rightarrow> if fs (resolve fs p) = None then Some not_exist else None)"

definition os_Lstat :: "faults \<Rightarrow> path \<Rightarrow> fsys \<Rightarrow> goerr option" where
  "os_Lstat io p fs =
     (case io ''lstat'' p of Some e \<Rightarrow> Some e | None \<Rightarrow> if fs p = None then Some not_exist else None)"

text \<open>The entries below a directory, and a file system in which a directory has moved with all of them.\<close>

definition inside :: "path \<Rightarrow> path \<Rightarrow> bool" where
  "inside d q \<longleftrightarrow> prefix (d @ ''/'') q"

definition moved :: "path \<Rightarrow> path \<Rightarrow> fsys \<Rightarrow> fsys" where
  "moved old new fs q =
     (if q = new \<or> inside new q then fs (old @ drop (length new) q)
      else if q = old \<or> inside old q then None else fs q)"

text \<open>
  \<open>os.Rename\<close>: nothing replaces a directory that is there, and a directory replaces nothing and does not
  move below itself.
\<close>

definition os_Rename :: "faults \<Rightarrow> path \<Rightarrow> path \<Rightarrow> fsys \<Rightarrow> goerr option \<times> fsys" where
  "os_Rename io old new fs =
     (case io ''rename'' old of
        Some e \<Rightarrow> (Some e, fs)
      | None \<Rightarrow>
          (case fs old of
             None \<Rightarrow> (Some not_exist, fs)
           | Some n \<Rightarrow>
               if old = new then (None, fs)
               else if fs new = Some Directory then (Some already_exists, fs)
               else if n \<noteq> Directory then (None, (fs(old := None))(new \<mapsto> n))
               else if fs new \<noteq> None then (Some (ErrMsg ''not a directory''), fs)
               else if inside old new then (Some (ErrMsg ''invalid argument''), fs)
               else (None, moved old new fs)))"

text \<open>\<open>os.Remove\<close>: a directory goes only when it is empty.\<close>

definition os_Remove :: "faults \<Rightarrow> path \<Rightarrow> fsys \<Rightarrow> goerr option \<times> fsys" where
  "os_Remove io p fs =
     (case io ''remove'' p of
        Some e \<Rightarrow> (Some e, fs)
      | None \<Rightarrow>
          if fs p = None then (Some not_exist, fs)
          else if fs p = Some Directory \<and> (\<exists>q. inside p q \<and> fs q \<noteq> None)
          then (Some (ErrMsg ''directory not empty''), fs)
          else (None, fs(p := None)))"

definition os_Symlink :: "faults \<Rightarrow> string \<Rightarrow> path \<Rightarrow> fsys \<Rightarrow> goerr option \<times> fsys" where
  "os_Symlink io target p fs =
     (case io ''symlink'' p of
        Some e \<Rightarrow> (Some e, fs)
      | None \<Rightarrow> if fs p \<noteq> None then (Some already_exists, fs) else (None, fs(p \<mapsto> Symlink target)))"

definition os_Readlink :: "faults \<Rightarrow> path \<Rightarrow> fsys \<Rightarrow> string res" where
  "os_Readlink io p fs =
     (case io ''readlink'' p of
        Some e \<Rightarrow> Inl e
      | None \<Rightarrow>
          (case fs p of
             None \<Rightarrow> Inl not_exist
           | Some (Symlink t) \<Rightarrow> Inr t
           | Some _ \<Rightarrow> Inl (ErrMsg ''invalid argument'')))"

text \<open>\<open>os.OpenFile\<close> with \<open>O_CREATE|O_TRUNC|O_WRONLY\<close>: an empty file at the resolved path.\<close>

definition os_OpenTrunc :: "faults \<Rightarrow> (fsys \<Rightarrow> path \<Rightarrow> path) \<Rightarrow> path \<Rightarrow> fsys \<Rightarrow> path res \<times> fsys" where
  "os_OpenTrunc io resolve p fs =
     (case io ''open'' p of
        Some e \<Rightarrow> (Inl e, fs)
      | None \<Rightarrow>
          (let q = resolve fs p
           in if fs q = Some Directory then (Inl (ErrMsg ''is a directory''), fs)
              else (Inr q, fs(q \<mapsto> Regular []))))"

text \<open>\<open>os.MkdirAll\<close>: the directories on the way to a path, outermost first, each made if it is missing.\<close>

definition dirs_of :: "path \<Rightarrow> path list" where
  "dirs_of p = filter (\<lambda>q. q = p \<or> (q \<noteq> [] \<and> prefix (q @ ''/'') p)) (prefixes p)"

fun mkdirs :: "(fsys \<Rightarrow> path \<Rightarrow> path) \<Rightarrow> path list \<Rightarrow> fsys \<Rightarrow> goerr option \<times> fsys" where
  "mkdirs resolve [] fs = (None, fs)"
| "mkdirs resolve (q # qs) fs =
     (case fs (resolve fs q) of
        Some Directory \<Rightarrow> mkdirs resolve qs fs
      | Some _ \<Rightarrow> (Some (ErrMsg ''not a directory''), fs)
      | None \<Rightarrow>
          if fs q \<noteq> None then (Some already_exists, fs)
          else mkdirs resolve qs (fs(resolve fs q \<mapsto> Directory)))"

definition os_MkdirAll :: "faults \<Rightarrow> (fsys \<Rightarrow> path \<Rightarrow> path) \<Rightarrow> path \<Rightarrow> fsys \<Rightarrow> goerr option \<times> fsys" where
  "os_MkdirAll io resolve p fs =
     (case io ''mkdir'' p of
        Some e \<Rightarrow> (Some e, fs)
      | None \<Rightarrow> mkdirs resolve (dirs_of p) fs)"

lemmas os_defs [os_simps] =
  os_Stat_def os_Lstat_def os_Rename_def os_Remove_def os_Symlink_def os_Readlink_def os_OpenTrunc_def
  os_MkdirAll_def

text \<open>\<open>filepath.Base\<close> of a path that is not empty and does not end in a slash.\<close>

definition after_last_slash :: "string \<Rightarrow> string" where
  "after_last_slash s = rev (takeWhile (\<lambda>c. c \<noteq> CHR ''/'') (rev s))"

lemma after_last_slash_append:
  assumes "CHR ''/'' \<notin> set b"
  shows "after_last_slash (a @ CHR ''/'' # b) = b"
proof -
  have "takeWhile (\<lambda>c. c \<noteq> CHR ''/'') (rev b @ CHR ''/'' # rev a) = rev b"
    using assms by (subst takeWhile_append2) auto
  then show ?thesis by (simp add: after_last_slash_def)
qed

end
