(* ===== verification/Update_Worker.thy ===== *)
theory Update_Worker
  imports Files Gateway
begin

text \<open>
  \<open>tools/zos-update-worker/internal/update_worker.go\<close>: the worker that keeps the symbolic link of
  every network pointing at the version the registrar names.
\<close>

section \<open>Definitions\<close>

type_synonym network = string

definition MainNetwork :: network where "MainNetwork = ''production-v4''"
definition TestNetwork :: network where "TestNetwork = ''testing-v4''"
definition QANetwork :: network where "QANetwork = ''qa-v4''"

definition checkNetwork :: "network \<Rightarrow> goerr option" where
  "checkNetwork n =
     (if n \<noteq> MainNetwork \<and> n \<noteq> QANetwork \<and> n \<noteq> TestNetwork then Some (ErrMsg ''invalid network'') else None)"

definition updateLink :: "faults \<Rightarrow> path \<Rightarrow> path \<Rightarrow> string \<Rightarrow> fsys \<Rightarrow> goerr option \<times> fsys" where
  "updateLink io current latest link fs =
     (case os_Lstat io current fs of
        Some err \<Rightarrow> (Some err, fs)
      | None \<Rightarrow>
          (case os_Readlink io latest fs of
             Inl err \<Rightarrow>
               if errors_is err ErrNotExist then os_Symlink io link latest fs else (Some err, fs)
           | Inr dst \<Rightarrow>
               if after_last_slash dst = after_last_slash current then (None, fs)
               else (case os_Remove io latest fs of
                       (Some err, fs1) \<Rightarrow> (Some err, fs1)
                     | (None, fs1) \<Rightarrow> os_Symlink io link latest fs1)))"

record worker =
  wk_src :: path
  wk_dst :: path

record params =
  pm_QAUrl :: string
  pm_TestUrl :: string
  pm_MainUrl :: string

text \<open>
  \<open>NewWorker\<close>: absolute paths and a client for every network that has an address. \<open>absp\<close> is
  \<open>filepath.Abs\<close>, \<open>newClient\<close> the constructor of the registrar client.
\<close>

fun make_clients ::
  "(string \<Rightarrow> 'c res) \<Rightarrow> (network \<times> string \<times> string) list \<Rightarrow> ((network \<times> 'c) list) res" where
  "make_clients newClient [] = Inr []"
| "make_clients newClient ((n, url, label) # rest) =
     (if url = [] then make_clients newClient rest
      else case newClient url of
             Inl err \<Rightarrow> Inl (Wrapped err (''failed to create new registrar client for '' @ label))
           | Inr cli \<Rightarrow>
               (case make_clients newClient rest of Inl err \<Rightarrow> Inl err | Inr cs \<Rightarrow> Inr ((n, cli) # cs)))"

definition NewWorker ::
  "(string \<Rightarrow> string res) \<Rightarrow> (string \<Rightarrow> 'c res) \<Rightarrow> string \<Rightarrow> string \<Rightarrow> params \<Rightarrow> (worker \<times> (network \<times> 'c) list) res" where
  "NewWorker absp newClient src dst ps =
     (case absp src of
        Inl err \<Rightarrow> Inl (Wrapped err ''failed to get src as abs path'')
      | Inr asrc \<Rightarrow>
          (case absp dst of
             Inl err \<Rightarrow> Inl (Wrapped err ''failed to get dst as abs path'')
           | Inr adst \<Rightarrow>
               (case make_clients newClient [(QANetwork, pm_QAUrl ps, ''qa net''), (TestNetwork, pm_TestUrl ps, ''test net''),
                       (MainNetwork, pm_MainUrl ps, ''main net'')] of
                  Inl err \<Rightarrow> Inl err
                | Inr cs \<Rightarrow> Inr (\<lparr>wk_src = asrc, wk_dst = adst\<rparr>, cs))))"

text \<open>
  \<open>updateZosVersion\<close> once the registrar answered: \<open>ver\<close> is the answer, \<open>rel\<close> is
  \<open>filepath.Rel(w.dst, w.src)\<close>.
\<close>

definition updateZosVersion ::
  "faults \<Rightarrow> string res \<Rightarrow> worker \<Rightarrow> network \<Rightarrow> zos_version res \<Rightarrow> fsys \<Rightarrow> goerr option \<times> fsys" where
  "updateZosVersion io rel wk n ver fs =
     (case checkNetwork n of
        Some err \<Rightarrow> (Some err, fs)
      | None \<Rightarrow>
          (case ver of
             Inl err \<Rightarrow> (Some err, fs)
           | Inr v \<Rightarrow>
               (case rel of
                  Inl err \<Rightarrow> (Some (Wrapped err ''failed to get dst relative path to src''), fs)
                | Inr p \<Rightarrow>
                    updateLink io (wk_src wk @ ''/.tag-'' @ zv_Version v) (wk_dst wk @ ''/'' @ n)
                      (p @ ''/.tag-'' @ zv_Version v) fs)))"

text \<open>
  One round of \<open>UpdateWithInterval\<close> over the clients, in the order Go ranges over them; \<open>ret\<close> is
  \<open>backoff.Retry\<close>, and the registrar gives the same answer to every retry of a round. Errors are logged.
\<close>

definition update_round ::
  "((fsys, goerr option) eff \<Rightarrow> (fsys, goerr option) eff) \<Rightarrow> faults \<Rightarrow> string res \<Rightarrow> worker \<Rightarrow>
     (network \<times> zos_version res) list \<Rightarrow> fsys \<Rightarrow> fsys" where
  "update_round ret io rel wk clients fs =
     fold (\<lambda>(n, ver) fs. snd (ret (updateZosVersion io rel wk n ver) fs)) clients fs"

section \<open>Properties\<close>

lemma make_clients_networks:
  assumes "make_clients newClient xs = Inr cs"
  shows "map fst cs = map fst (filter (\<lambda>x. fst (snd x) \<noteq> []) xs)"
  using assms
  by (induction newClient xs arbitrary: cs rule: make_clients.induct) (auto split: if_splits sum.splits)

text \<open>A worker only has clients for networks that its updates accept, each at most once.\<close>

lemma NewWorker_networks:
  assumes "NewWorker absp newClient src dst ps = Inr (wk, cs)"
  shows "distinct (map fst cs) \<and> (\<forall>n \<in> set (map fst cs). checkNetwork n = None)"
proof -
  obtain xs where "make_clients newClient xs = Inr cs"
      "xs = [(QANetwork, pm_QAUrl ps, ''qa net''), (TestNetwork, pm_TestUrl ps, ''test net''),
             (MainNetwork, pm_MainUrl ps, ''main net'')]"
    using assms by (auto simp: NewWorker_def simp del: make_clients.simps split: sum.splits)
  with make_clients_networks [of newClient xs cs] show ?thesis
    by (auto simp: checkNetwork_def QANetwork_def TestNetwork_def MainNetwork_def)
qed

lemma updateLink_ok:
  assumes "updateLink io current latest link fs = (None, fs')"
  shows "fs current \<noteq> None \<and>
    (\<exists>dst. fs' latest = Some (Symlink dst) \<and>
       (dst = link \<or> fs latest = Some (Symlink dst) \<and> after_last_slash dst = after_last_slash current \<and> fs' = fs)) \<and>
    (\<forall>p. p \<noteq> latest \<longrightarrow> fs' p = fs p)"
  using assms
  by (auto simp: updateLink_def os_simps not_exist_def
      split: option.splits if_splits inode.splits sum.splits prod.splits)

text \<open>
  The network's link follows the registrar: after an update that returns no error the link of
  the network exists and its target's last component is the tag of the version the registrar
  named, the tag itself exists, no other entry changed, and a second run right away changes
  nothing.
\<close>

lemma updateZosVersion_links:
  assumes ok: "updateZosVersion io rel wk n (Inr v) fs = (None, fs')"
    and slash: "CHR ''/'' \<notin> set (zv_Version v)"
    and other: "wk_dst wk @ ''/'' @ n \<noteq> wk_src wk @ ''/.tag-'' @ zv_Version v"
    and faults: "\<And>op p. io op p = None"
  shows "checkNetwork n = None \<and>
    (\<exists>dst. fs' (wk_dst wk @ ''/'' @ n) = Some (Symlink dst) \<and> after_last_slash dst = ''.tag-'' @ zv_Version v) \<and>
    fs' (wk_src wk @ ''/.tag-'' @ zv_Version v) \<noteq> None \<and>
    (\<forall>p. p \<noteq> wk_dst wk @ ''/'' @ n \<longrightarrow> fs' p = fs p) \<and>
    updateZosVersion io rel wk n (Inr v) fs' = (None, fs')"
proof -
  let ?cur = "wk_src wk @ ''/.tag-'' @ zv_Version v" and ?lat = "wk_dst wk @ ''/'' @ n"
  obtain p where c: "checkNetwork n = None" and p: "rel = Inr p"
      and u: "updateLink io ?cur ?lat (p @ ''/.tag-'' @ zv_Version v) fs = (None, fs')"
    using ok by (auto simp: updateZosVersion_def split: option.splits sum.splits)
  note l = updateLink_ok [OF u]
  have base: "after_last_slash (a @ ''/.tag-'' @ zv_Version v) = ''.tag-'' @ zv_Version v" for a
    using after_last_slash_append [of "''.tag-'' @ zv_Version v" a] slash by simp
  obtain dst where d: "fs' ?lat = Some (Symlink dst)" "after_last_slash dst = ''.tag-'' @ zv_Version v"
    using l base [of p] base [of "wk_src wk"] by metis
  have keep: "\<forall>q. q \<noteq> ?lat \<longrightarrow> fs' q = fs q" and cur: "fs' ?cur \<noteq> None" using l other by auto
  have "updateLink io ?cur ?lat (p @ ''/.tag-'' @ zv_Version v) fs' = (None, fs')"
    using cur d base [of "wk_src wk"] faults
    by (simp add: updateLink_def os_simps)
  with c p d keep cur show ?thesis by (auto simp: updateZosVersion_def)
qed

end
