(* ===== verification/Upgrade.thy ===== *)
theory Upgrade
  imports Files Gateway "HOL-Library.Sublist"
begin

text \<open>
  \<open>pkg/upgrade/upgrade.go\<close>: the upgrader. It decides whether the node moves to the version the hub
  and the registrar name, installs the packages of the new tag that differ from the current one
  with the zos package last, copies their files over the running system with a backup of each, and
  restarts the services they carry.

  The hub, the flist database, the init system and the boot record are libraries and hence
  parameters. The state is the file system and a world \<open>'w\<close> for everything else.
\<close>

section \<open>Parameters\<close>

record tag_link =
  tl_Target :: string

record hub_pkg =
  pk_Name :: string
  pk_Target :: string

datatype meta_type = RegularType | LinkType | DirType | OtherType

record meta =
  me_Name :: string
  me_Type :: meta_type
  me_LinkTarget :: string

text \<open>
  \<open>meta.Walker\<close>: for a root, the entries below it in the order a walk visits them, each with its
  path, a directory before what is below it, and the error of the database that ends the walk
  early, if any. \<open>ue_NewStore\<close> opens the database of a downloaded flist: \<open>Inr None\<close> is a store that
  is no walker.
\<close>

type_synonym entries = "(string \<times> meta) list"
type_synonym walker = "path \<Rightarrow> entries \<times> goerr option"

record 'w up_env =
  ue_DetectBootOther :: "'w \<Rightarrow> bool"
  ue_IsFirstBoot :: "'w \<Rightarrow> bool"
  ue_MarkBooted :: "('w, goerr option) eff"
  ue_Current :: "('w, tag_link \<times> goerr option) eff"
  ue_SetBoot :: "tag_link \<Rightarrow> ('w, goerr option) eff"
  ue_RunMode :: string
  ue_IsLight :: bool
  ue_KernelVersion :: string
  ue_Find :: "string \<Rightarrow> ('w, (tag_link list) res) eff"
  ue_IsDev :: bool
  ue_FarmID :: u32
  ue_TestFarms :: "('w, (u32 list) res) eff"
  ue_LinkDestination :: "tag_link \<Rightarrow> (string \<times> string) res"
  ue_ListTag :: "string \<Rightarrow> string \<Rightarrow> ('w, (hub_pkg list) res) eff"
  ue_PkgDestination :: "hub_pkg \<Rightarrow> string \<Rightarrow> (string \<times> string) \<times> goerr option"
  ue_Download :: "string \<Rightarrow> string \<Rightarrow> string \<Rightarrow> ('w, goerr option) eff"
  ue_NewStore :: "string \<Rightarrow> string \<Rightarrow> string \<Rightarrow> ('w, (walker option) res) eff"
  ue_CheckAndGet :: "string \<Rightarrow> meta \<Rightarrow> ('w, (byte list) res) eff"
  ue_StopMultiple :: "string list \<Rightarrow> ('w, goerr option) eff"
  ue_Forget :: "string \<Rightarrow> ('w, goerr option) eff"
  ue_Monitor :: "string \<Rightarrow> ('w, goerr option) eff"
  ue_StartService :: "string \<Rightarrow> ('w, goerr option) eff"

text \<open>The machine's file system calls: faults, path resolution and \<open>io.Copy\<close>, which may stop early.\<close>

record fs_env =
  fe_io :: faults
  fe_resolve :: "fsys \<Rightarrow> path \<Rightarrow> path"
  fe_Copy :: "byte list \<Rightarrow> byte list \<times> goerr option"

text \<open>
  The upgrader's own state. Storage and init client are kept as the addresses they were opened with,
  \<open>None\<close> for nil.
\<close>

record upgrader =
  ug_root :: path
  ug_noZosUpgrade :: bool
  ug_storage :: "string option"
  ug_zinit :: "string option"
  ug_zcl :: bool

type_synonym 'w ust = "fsys \<times> 'w"

section \<open>Caches\<close>

text \<open>\<open>cache\<close>: the directories of flists and of files. \<open>filepath.Join\<close> is on clean paths here.\<close>

record cache =
  ca_flistCache :: path
  ca_fileCache :: path

definition upgrader_cache :: "upgrader \<Rightarrow> cache" where
  "upgrader_cache u = \<lparr>ca_flistCache = ug_root u @ ''/cache/flist'', ca_fileCache = ug_root u @ ''/cache/files''\<rparr>"

definition memory_cache :: cache where
  "memory_cache = \<lparr>ca_flistCache = ''/tmp/upgrader/cache/flist'', ca_fileCache = ''/tmp/upgrader/cache/file''\<rparr>"

locale file_cache =
  fixes c :: cache and root :: path
  assumes below: "prefix root (ca_flistCache c)" "prefix root (ca_fileCache c)"
    and apart: "\<not> prefix (ca_flistCache c) (ca_fileCache c)" "\<not> prefix (ca_fileCache c) (ca_flistCache c)"
begin

lemma files_apart: "ca_flistCache c @ ''/'' @ x \<noteq> ca_fileCache c @ ''/'' @ y"
  using apart by (metis append_eq_append_conv_if append_take_drop_id prefixI)

end

interpretation disk: file_cache "upgrader_cache u" "ug_root u" for u
  by unfold_locales (auto simp: upgrader_cache_def prefix_def)

interpretation memory: file_cache memory_cache "''/tmp/upgrader''"
  by unfold_locales (auto simp: memory_cache_def prefix_def)

definition newInMemoryCache :: "fs_env \<Rightarrow> fsys \<Rightarrow> goerr option \<times> fsys" where
  "newInMemoryCache fe fs =
     (case os_MkdirAll (fe_io fe) (fe_resolve fe) (ca_fileCache memory_cache) fs of
        (Some err, fs1) \<Rightarrow> (Some err, fs1)
      | (None, fs1) \<Rightarrow> os_MkdirAll (fe_io fe) (fe_resolve fe) (ca_flistCache memory_cache) fs1)"

text \<open>
  \<open>NewUpgrader\<close>: the cache directories, the options in order, then the defaults for what no option
  set. \<open>new_storage\<close> is \<open>storage.NewSimpleStorage\<close>, as its error.
\<close>

datatype upgrader_option = NoZosUpgrade bool | ZbusClient | Storage string | Zinit string

definition apply_option ::
  "(string \<Rightarrow> goerr option) \<Rightarrow> upgrader_option \<Rightarrow> (upgrader, goerr option) eff" where
  "apply_option new_storage opt u =
     (case opt of
        NoZosUpgrade b \<Rightarrow> (None, u\<lparr>ug_noZosUpgrade := b\<rparr>)
      | ZbusClient \<Rightarrow> (None, u\<lparr>ug_zcl := True\<rparr>)
      | Storage url \<Rightarrow>
          (case new_storage url of
             Some err \<Rightarrow> (Some (Wrapped err ''failed to initialize hub storage''), u)
           | None \<Rightarrow> (None, u\<lparr>ug_storage := Some url\<rparr>))
      | Zinit sock \<Rightarrow> (None, u\<lparr>ug_zinit := Some sock\<rparr>))"

definition cache_dirs :: "fs_env \<Rightarrow> upgrader \<Rightarrow> (fsys, goerr option) eff" where
  "cache_dirs fe u =
     for_err (os_MkdirAll (fe_io fe) (fe_resolve fe)) [ca_fileCache (upgrader_cache u), ca_flistCache (upgrader_cache u)]"

definition default_storage :: "bool \<Rightarrow> string" where
  "default_storage v4 = (if v4 then ''zdb://hub.grid.tf:9940'' else ''zdb://hub.grid.tf:9900'')"

definition NewUpgrader ::
  "fs_env \<Rightarrow> (string \<Rightarrow> goerr option) \<Rightarrow> bool \<Rightarrow> path \<Rightarrow> upgrader_option list \<Rightarrow> (fsys, upgrader res) eff" where
  "NewUpgrader fe new_storage v4 root opts fs =
     (let u = \<lparr>ug_root = root, ug_noZosUpgrade = False, ug_storage = None, ug_zinit = None, ug_zcl = False\<rparr>
      in case cache_dirs fe u fs of
           (Some err, fs1) \<Rightarrow> (Inl (Wrapped err ''failed to prepare cache directories''), fs1)
         | (None, fs1) \<Rightarrow>
             (case for_err (apply_option new_storage) opts u of
                (Some err, _) \<Rightarrow> (Inl err, fs1)
              | (None, u1) \<Rightarrow>
                  (case (if ug_storage u1 = None then apply_option new_storage (Storage (default_storage v4)) u1
                         else (None, u1)) of
                     (Some err, _) \<Rightarrow> (Inl err, fs1)
                   | (None, u2) \<Rightarrow>
                       (Inr (if ug_zinit u2 = None then u2\<lparr>ug_zinit := Some ''/var/run/zinit.sock''\<rparr> else u2), fs1))))"

text \<open>A new upgrader has a storage and an init client, whatever the options.\<close>

lemma NewUpgrader_complete:
  assumes "NewUpgrader fe new_storage v4 root opts fs = (Inr u, fs')"
  shows "ug_storage u \<noteq> None \<and> ug_zinit u \<noteq> None"
  using assms
  by (auto simp: NewUpgrader_def Let_def apply_option_def split: option.splits prod.splits if_splits)

text \<open>\<open>clean\<close>: everything below the root of the memory cache.\<close>

definition clean :: "fsys \<Rightarrow> fsys" where
  "clean fs = (\<lambda>p. if p = ''/tmp/upgrader'' \<or> prefix ''/tmp/upgrader/'' p then None else fs p)"

section \<open>Copying\<close>

text \<open>
  The part of \<open>copyFile\<close> after the backup: the error it returns, the value of the outer variable
  \<open>err\<close> that the deferred function looks at, and the state. The error of \<open>io.Copy\<close> is bound in the
  scope of the \<open>if\<close>, so the outer variable stays nil.
\<close>

definition copy_body ::
  "'w up_env \<Rightarrow> fs_env \<Rightarrow> path \<Rightarrow> meta \<Rightarrow> cache \<Rightarrow> 'w ust \<Rightarrow> (goerr option \<times> goerr option) \<times> 'w ust" where
  "copy_body ue fe dst src ca s =
     (case s of (fs, w) \<Rightarrow>
        (case os_OpenTrunc (fe_io fe) (fe_resolve fe) dst fs of
           (Inl err, fs1) \<Rightarrow> ((Some err, Some err), (fs1, w))
         | (Inr q, fs1) \<Rightarrow>
             (case ue_CheckAndGet ue (ca_fileCache ca) src w of
                (Inl err, w1) \<Rightarrow> ((Some err, Some err), (fs1, w1))
              | (Inr content, w1) \<Rightarrow>
                  (case fe_Copy fe content of
                     (written, err) \<Rightarrow> ((err, None), (fs1(q \<mapsto> Regular written), w1))))))"

definition copyFile ::
  "'w up_env \<Rightarrow> fs_env \<Rightarrow> path \<Rightarrow> meta \<Rightarrow> cache \<Rightarrow> ('w ust, goerr option) eff" where
  "copyFile ue fe dst src ca s =
     (let isNew = is_err (os_Stat (fe_io fe) (fe_resolve fe) dst (fst s)) ErrNotExist
      in if isNew then (case copy_body ue fe dst src ca s of ((ret, _), s1) \<Rightarrow> (ret, s1))
         else (case os_Rename (fe_io fe) dst (dst @ ''.old'') (fst s) of
                 (Some err, fs1) \<Rightarrow> (Some err, (fs1, snd s))
               | (None, fs1) \<Rightarrow>
                   (case copy_body ue fe dst src ca (fs1, snd s) of
                      ((ret, outer), (fs2, w2)) \<Rightarrow>
                        (ret, (if outer = None then snd (os_Remove (fe_io fe) (dst @ ''.old'') fs2)
                               else snd (os_Rename (fe_io fe) (dst @ ''.old'') dst fs2), w2)))))"

definition isIn :: "string \<Rightarrow> string list \<Rightarrow> bool" where
  "isIn target xs \<longleftrightarrow> target \<in> set xs"

definition skip_dir :: goerr where
  "skip_dir = Sentinel ErrSkipDir ''skip directory''"

text \<open>\<open>filepath.Join(destination, path)\<close> for paths that are clean up to leading slashes of the second.\<close>

definition join :: "path \<Rightarrow> path \<Rightarrow> path" where
  "join d p =
     (let q = dropWhile (\<lambda>c. c = CHR ''/'') p
      in if q = [] then d else if d = ''/'' then ''/'' @ q else d @ ''/'' @ q)"

definition copy_entry ::
  "'w up_env \<Rightarrow> fs_env \<Rightarrow> path \<Rightarrow> cache \<Rightarrow> string list \<Rightarrow> string \<times> meta \<Rightarrow> ('w ust, goerr option) eff" where
  "copy_entry ue fe destination ca skip entry s =
     (case entry of (p, info) \<Rightarrow>
        let dest = join destination p in
        if isIn dest skip then (if me_Type info = DirType then Some skip_dir else None, s)
        else (case me_Type info of
                DirType \<Rightarrow> (case os_MkdirAll (fe_io fe) (fe_resolve fe) dest (fst s) of (err, fs1) \<Rightarrow> (err, (fs1, snd s)))
              | RegularType \<Rightarrow> copyFile ue fe dest info ca s
              | LinkType \<Rightarrow>
                  (let target = (if prefix ''/'' (me_LinkTarget info) then join destination (me_LinkTarget info)
                                 else me_LinkTarget info)
                   in case os_Remove (fe_io fe) dest (fst s) of
                        (err, fs1) \<Rightarrow>
                          if err \<noteq> None \<and> \<not> is_err err ErrNotExist then (err, (fs1, snd s))
                          else (case os_Symlink (fe_io fe) target dest fs1 of (e2, fs2) \<Rightarrow> (e2, (fs2, snd s))))
              | OtherType \<Rightarrow> (None, s)))"

text \<open>
  \<open>Walk\<close>: the callback on every entry in order; \<open>ErrSkipDir\<close> skips what is below the entry, any
  other error ends the walk and is returned.
\<close>

fun walk_tree ::
  "nat \<Rightarrow> (string \<times> meta \<Rightarrow> ('s, goerr option) eff) \<Rightarrow> entries \<Rightarrow> goerr option \<Rightarrow> ('s, goerr option) eff" where
  "walk_tree n f [] db s = (db, s)"
| "walk_tree 0 f (e # es) db s = (db, s)"
| "walk_tree (Suc n) f (e # es) db s =
     (case f e s of
        (None, s1) \<Rightarrow> walk_tree n f es db s1
      | (Some err, s1) \<Rightarrow>
          if errors_is err ErrSkipDir
          then walk_tree n f (dropWhile (\<lambda>x. prefix (fst e @ ''/'') (fst x)) es) db s1
          else (Some err, s1))"

definition Walk ::
  "walker \<Rightarrow> path \<Rightarrow> (string \<times> meta \<Rightarrow> ('s, goerr option) eff) \<Rightarrow> ('s, goerr option) eff" where
  "Walk store root f = (case store root of (es, db) \<Rightarrow> walk_tree (length es) f es db)"

definition copyRecursive ::
  "'w up_env \<Rightarrow> fs_env \<Rightarrow> walker \<Rightarrow> path \<Rightarrow> cache \<Rightarrow> string list \<Rightarrow> ('w ust, goerr option) eff" where
  "copyRecursive ue fe store destination ca skip = Walk store [] (copy_entry ue fe destination ca skip)"

text \<open>The bound of \<open>walk_tree\<close> is enough: a walk that skips nothing is a loop over the entries.\<close>

lemma walk_tree_for_err:
  assumes "\<And>e s er. e \<in> set es \<Longrightarrow> fst (f e s) = Some er \<Longrightarrow> \<not> errors_is er ErrSkipDir" and "length es \<le> n"
  shows "walk_tree n f es db s = (case for_err f es s of (None, s1) \<Rightarrow> (db, s1) | (Some er, s1) \<Rightarrow> (Some er, s1))"
  using assms
proof (induction es arbitrary: n s)
  case (Cons e es)
  obtain m where n: "n = Suc m" and m: "length es \<le> m" using Cons.prems(2) by (cases n) auto
  obtain er s1 where f: "f e s = (er, s1)" by fastforce
  have ih: "walk_tree m f es db s1 = (case for_err f es s1 of (None, s1) \<Rightarrow> (db, s1) | (Some er, s1) \<Rightarrow> (Some er, s1))"
    by (rule Cons.IH) (use Cons.prems(1) m in auto)
  have "er = Some x \<Longrightarrow> \<not> errors_is x ErrSkipDir" for x using Cons.prems(1) [of e s x] f by simp
  with ih f n show ?case by (cases er) auto
qed simp

section \<open>Services\<close>

definition zinitPath :: string where
  "zinitPath = ''/etc/zinit''"

definition yaml :: string where
  "yaml = ''.yaml''"

text \<open>\<open>filepath.Dir\<close> of a path below a directory; \<open>strings.TrimSuffix\<close> cuts the suffix.\<close>

definition dir_of :: "path \<Rightarrow> path" where
  "dir_of p = rev (tl (dropWhile (\<lambda>c. c \<noteq> CHR ''/'') (rev p)))"

definition is_service :: "string \<times> meta \<Rightarrow> bool" where
  "is_service e \<longleftrightarrow> me_Type (snd e) \<noteq> DirType \<and> dir_of (fst e) = zinitPath \<and> suffix yaml (me_Name (snd e))"

definition service_name :: "string \<times> meta \<Rightarrow> string" where
  "service_name e = take (length (me_Name (snd e)) - length yaml) (me_Name (snd e))"

definition services_cb :: "string \<times> meta \<Rightarrow> (string list, goerr option) eff" where
  "services_cb e services = (None, if is_service e then services @ [service_name e] else services)"

definition servicesFromStore :: "walker \<Rightarrow> (string list) res" where
  "servicesFromStore store =
     (case Walk store zinitPath services_cb [] of
        (None, services) \<Rightarrow> Inr services
      | (Some err, services) \<Rightarrow>
          (case err of Sentinel ErrMetaNotFound _ \<Rightarrow> Inr [] | _ \<Rightarrow> Inl err))"

definition protected :: "string list" where
  "protected = [''identityd'', ''redis'']"

definition restart_one :: "'w up_env \<Rightarrow> string \<Rightarrow> 'w \<Rightarrow> 'w" where
  "restart_one ue nm w =
     snd (ue_StartService ue nm (snd (ue_Monitor ue nm (snd (ue_Forget ue nm w)))))"

definition ensureRestarted :: "'w up_env \<Rightarrow> string list \<Rightarrow> ('w, goerr option) eff" where
  "ensureRestarted ue service w =
     (let service = filter (\<lambda>e. e \<notin> set protected) service
      in if service = [] then (None, w)
         else (None, fold (restart_one ue) service (snd (ue_StopMultiple ue service w))))"

section \<open>Installing a package\<close>

definition getFlist ::
  "'w up_env \<Rightarrow> string \<Rightarrow> string \<Rightarrow> cache \<Rightarrow> ('w, (walker option) res) eff" where
  "getFlist ue repo nm ca w =
     (case ue_Download ue (ca_flistCache ca) repo nm w of
        (Some err, w1) \<Rightarrow> (Inl (Wrapped err ''failed to download flist''), w1)
      | (None, w1) \<Rightarrow>
          (case ue_NewStore ue (ca_flistCache ca) repo nm w1 of
             (Inl err, w2) \<Rightarrow> (Inl (Wrapped err ''failed to load flist db''), w2)
           | (Inr (Some wk), w2) \<Rightarrow> (Inr (Some wk), w2)
           | (Inr None, w2) \<Rightarrow> (Inr None, w2)))"

text \<open>
  \<open>install\<close> returns \<open>None\<close> where it panics: a store that is no walker comes back as a nil walker
  with a nil error, and closing it dereferences nil.
\<close>

definition io_broken :: "goerr \<Rightarrow> bool" where
  "io_broken err \<longleftrightarrow> errors_is err EROFS \<or> errors_is err EPERM \<or> errors_is err EIO"

definition install_store ::
  "'w up_env \<Rightarrow> fs_env \<Rightarrow> string \<Rightarrow> walker \<Rightarrow> cache \<Rightarrow> ('w ust, goerr option) eff" where
  "install_store ue fe what store ca s =
     (case copyRecursive ue fe store ''/'' ca [] s of
        (Some err, s1) \<Rightarrow> (Some (Wrapped err (''failed to install flist: '' @ what)), s1)
      | (None, (fs1, w1)) \<Rightarrow>
          (case servicesFromStore store of
             Inl err \<Rightarrow> (Some (Wrapped err ''failed to list services from flist''), (fs1, w1))
           | Inr services \<Rightarrow>
               (case ensureRestarted ue services w1 of (err, w2) \<Rightarrow> (err, (fs1, w2)))))"

definition install ::
  "'w up_env \<Rightarrow> fs_env \<Rightarrow> upgrader \<Rightarrow> string \<Rightarrow> string \<Rightarrow> 'w ust \<Rightarrow> (goerr option \<times> 'w ust) option" where
  "install ue fe u repo nm s =
     (let what = repo @ ''/'' @ nm in
      case s of (fs, w) \<Rightarrow>
        (case getFlist ue repo nm (upgrader_cache u) w of
           (Inr None, w1) \<Rightarrow> None
         | (Inr (Some store), w1) \<Rightarrow> Some (install_store ue fe what store (upgrader_cache u) (fs, w1))
         | (Inl err, w1) \<Rightarrow>
             if io_broken err then
               (case newInMemoryCache fe fs of
                  (Some e, fs1) \<Rightarrow> Some (Some (Wrapped e ''failed to create in memory cache''), (fs1, w1))
                | (None, fs1) \<Rightarrow>
                    (case getFlist ue repo nm memory_cache w1 of
                       (Inl e, w2) \<Rightarrow> Some (Some (Wrapped e (''failed to process flist: '' @ what)), (clean fs1, w2))
                     | (Inr None, w2) \<Rightarrow> None
                     | (Inr (Some store), w2) \<Rightarrow>
                         (case install_store ue fe what store memory_cache (fs1, w2) of
                            (ret, (fs3, w3)) \<Rightarrow> Some (ret, (clean fs3, w3)))))
             else Some (Some (Wrapped err (''failed to process flist: '' @ what)), (fs, w1))))"

section \<open>Updating\<close>

text \<open>
  The names of the packages of the current tag; a package whose destination does not parse is left
  out.
\<close>

definition current_names :: "'w up_env \<Rightarrow> string \<Rightarrow> hub_pkg list \<Rightarrow> string list" where
  "current_names ue repo pkgs =
     concat (map (\<lambda>p. case ue_PkgDestination ue p repo of ((_, nm), None) \<Rightarrow> [nm] | _ \<Rightarrow> []) pkgs)"

definition ZosPackage :: string where
  "ZosPackage = ''zos.flist''"

type_synonym 'w installer = "string \<Rightarrow> string \<Rightarrow> 'w ust \<Rightarrow> (goerr option \<times> 'w ust) option"

definition install_failed :: "string \<Rightarrow> string \<Rightarrow> goerr \<Rightarrow> goerr" where
  "install_failed repo nm err = Wrapped err (''failed to install package '' @ repo @ ''/'' @ nm)"

text \<open>The loop over the packages of the new tag; \<open>ins\<close> is \<open>u.install\<close>.\<close>

fun update_pkgs ::
  "'w up_env \<Rightarrow> 'w installer \<Rightarrow> string \<Rightarrow> string list \<Rightarrow> hub_pkg list \<Rightarrow> (string \<times> string) list \<Rightarrow> 'w ust \<Rightarrow>
     ((goerr + (string \<times> string) list) \<times> 'w ust) option" where
  "update_pkgs ue ins repo cur [] later s = Some (Inr later, s)"
| "update_pkgs ue ins repo cur (pkg # pkgs) later s =
     (case ue_PkgDestination ue pkg repo of ((pkgRepo, nm), err) \<Rightarrow>
        if nm \<in> set cur then update_pkgs ue ins repo cur pkgs later s
        else if pk_Name pkg = ZosPackage
        then update_pkgs ue ins repo cur pkgs (later @ [(pkgRepo, nm)]) s
        else (case err of
                Some e \<Rightarrow> Some (Inl (Wrapped e (''failed to find target for package '' @ squote (pk_Target pkg))), s)
              | None \<Rightarrow>
                  (case ins pkgRepo nm s of
                     None \<Rightarrow> None
                   | Some (Some e, s1) \<Rightarrow> Some (Inl (install_failed pkgRepo nm e), s1)
                   | Some (None, s1) \<Rightarrow> update_pkgs ue ins repo cur pkgs later s1)))"

fun install_all ::
  "'w installer \<Rightarrow> (string \<times> string) list \<Rightarrow> 'w ust \<Rightarrow> (goerr option \<times> 'w ust) option" where
  "install_all ins [] s = Some (None, s)"
| "install_all ins ((repo, nm) # ps) s =
     (case ins repo nm s of
        None \<Rightarrow> None
      | Some (Some e, s1) \<Rightarrow> Some (Some (install_failed repo nm e), s1)
      | Some (None, s1) \<Rightarrow> install_all ins ps s1)"

definition resolve_current ::
  "'w up_env \<Rightarrow> tag_link option \<Rightarrow> ('w, (string list) res) eff" where
  "resolve_current ue current w =
     (case current of
        None \<Rightarrow> (Inr [], w)
      | Some cl \<Rightarrow>
          (case ue_LinkDestination ue cl of
             Inl err \<Rightarrow> (Inl (Wrapped err ''failed to resolve current link''), w)
           | Inr (curRepo, curTag) \<Rightarrow>
               (case ue_ListTag ue curRepo curTag w of
                  (Inl err, w1) \<Rightarrow> (Inl (Wrapped err (''failed to list tag '' @ curTag)), w1)
                | (Inr curPkgs, w1) \<Rightarrow> (Inr (current_names ue curRepo curPkgs), w1))))"

definition updateTo ::
  "'w up_env \<Rightarrow> 'w installer \<Rightarrow> upgrader \<Rightarrow> tag_link \<Rightarrow> tag_link option \<Rightarrow> 'w ust \<Rightarrow> (goerr option \<times> 'w ust) option" where
  "updateTo ue ins u link current s =
     (case ue_LinkDestination ue link of
        Inl err \<Rightarrow> Some (Some (Wrapped err ''failed to get destination tag''), s)
      | Inr (repo, tag) \<Rightarrow>
          (case ue_ListTag ue repo tag (snd s) of
             (Inl err, w1) \<Rightarrow> Some (Some (Wrapped err (''failed to list tag '' @ squote tag @ '' packages'')), (fst s, w1))
           | (Inr packages, w1) \<Rightarrow>
               (case resolve_current ue current w1 of
                  (Inl err, w2) \<Rightarrow> Some (Some err, (fst s, w2))
                | (Inr curPkgsNames, w2) \<Rightarrow>
                    (case update_pkgs ue ins repo curPkgsNames packages [] (fst s, w2) of
                       None \<Rightarrow> None
                     | Some (Inl err, s1) \<Rightarrow> Some (Some err, s1)
                     | Some (Inr later, s1) \<Rightarrow>
                         if ug_noZosUpgrade u then Some (None, s1) else install_all ins later s1))))"

definition match_name :: "'w up_env \<Rightarrow> string" where
  "match_name ue = (if ue_IsLight ue then ue_RunMode ue @ ''-'' @ ue_KernelVersion ue else ue_RunMode ue)"

definition remote :: "'w up_env \<Rightarrow> ('w, tag_link res) eff" where
  "remote ue w =
     (case ue_Find ue (match_name ue) w of
        (Inl err, w1) \<Rightarrow> (Inl err, w1)
      | (Inr [m], w1) \<Rightarrow> (Inr m, w1)
      | (Inr _, w1) \<Rightarrow> (Inl (ErrMsg (''can't find taglink that matches '' @ squote (match_name ue))), w1))"

definition getRolloutConfig ::
  "'w up_env \<Rightarrow> 'w registrar_gateway \<Rightarrow> ('w, (zos_version \<times> u32 list) res) eff" where
  "getRolloutConfig ue gw w =
     (case ue_TestFarms ue w of
        (Inl err, w1) \<Rightarrow> (Inl (Wrapped err ''failed to get network config''), w1)
      | (Inr farms, w1) \<Rightarrow>
          if ue_IsDev ue then (Inr (\<lparr>zv_Version = ''v0.0.0'', zv_SafeToUpgrade = True\<rparr>, farms), w1)
          else (case gw_GetZosVersion gw w1 of
                  ((_, Some err), w2) \<Rightarrow> (Inl (Wrapped err ''failed to get zos version from registrar''), w2)
                | ((v, None), w2) \<Rightarrow> (Inr (v, farms), w2)))"

definition restart_needed :: goerr where
  "restart_needed = Sentinel ErrRestartNeeded ''restart needed''"

text \<open>The three reasons to stay on the running version.\<close>

definition held_back :: "'w up_env \<Rightarrow> tag_link \<Rightarrow> zos_version \<Rightarrow> u32 list \<Rightarrow> bool" where
  "held_back ue rem v farms \<longleftrightarrow>
     (\<not> ue_IsDev ue \<and> after_last_slash (tl_Target rem) \<noteq> zv_Version v) \<or>
     (\<not> zv_SafeToUpgrade v \<and> ue_FarmID ue \<notin> set farms)"

definition update ::
  "'w up_env \<Rightarrow> 'w installer \<Rightarrow> 'w registrar_gateway \<Rightarrow> upgrader \<Rightarrow> 'w ust \<Rightarrow> (goerr option \<times> 'w ust) option" where
  "update ue ins gw u s =
     (case ue_Current ue (snd s) of ((current, _), w1) \<Rightarrow>
        (case remote ue w1 of
           (Inl err, w2) \<Rightarrow> Some (Some (Wrapped err ''failed to get remote tag''), (fst s, w2))
         | (Inr rem, w2) \<Rightarrow>
             if tl_Target rem = tl_Target current then Some (None, (fst s, w2))
             else (case getRolloutConfig ue gw w2 of
                     (Inl err, w3) \<Rightarrow>
                       Some (Some (Wrapped err ''failed to get rollout config and version''), (fst s, w3))
                   | (Inr (v, farms), w3) \<Rightarrow>
                       if held_back ue rem v farms then Some (None, (fst s, w3))
                       else (case updateTo ue ins u rem (Some current) (fst s, w3) of
                               None \<Rightarrow> None
                             | Some (Some err, s4) \<Rightarrow>
                                 Some (Some (Wrapped err (''failed to update to new tag '' @ squote (tl_Target rem))), s4)
                             | Some (None, (fs4, w4)) \<Rightarrow>
                                 (case ue_SetBoot ue rem w4 of
                                    (Some err, w5) \<Rightarrow> Some (Some err, (fs4, w5))
                                  | (None, w5) \<Rightarrow> Some (Some restart_needed, (fs4, w5)))))))"

text \<open>\<open>nextUpdate\<close> in minutes; \<open>jitter\<close> is \<open>rand.Intn(10)\<close>.\<close>

definition nextUpdate :: "nat \<Rightarrow> nat" where
  "nextUpdate jitter = 60 + jitter"

text \<open>
  \<open>Run\<close> for at most \<open>n\<close> rounds: \<open>Inl\<close> is the error it returned, \<open>Inr\<close> that it is still running (or
  waits for the context to end). A failed round is repeated after a pause.
\<close>

fun run_updates ::
  "'w up_env \<Rightarrow> 'w installer \<Rightarrow> 'w registrar_gateway \<Rightarrow> upgrader \<Rightarrow> nat \<Rightarrow> 'w ust \<Rightarrow> ((goerr + unit) \<times> 'w ust) option" where
  "run_updates ue ins gw u 0 s = Some (Inr (), s)"
| "run_updates ue ins gw u (Suc n) s =
     (case update ue ins gw u s of
        None \<Rightarrow> None
      | Some (err, s1) \<Rightarrow>
          if is_err err ErrRestartNeeded then Some (Inl (the err), s1)
          else run_updates ue ins gw u n s1)"

definition upgrader_Run ::
  "'w up_env \<Rightarrow> 'w installer \<Rightarrow> 'w registrar_gateway \<Rightarrow> upgrader \<Rightarrow> nat \<Rightarrow> 'w ust \<Rightarrow> ((goerr + unit) \<times> 'w ust) option" where
  "upgrader_Run ue ins gw u n s =
     (if \<not> ue_DetectBootOther ue (snd s) then run_updates ue ins gw u n s
      else let booted = (\<lambda>s1. (case ue_MarkBooted ue (snd s1) of
                 (Some err, w1) \<Rightarrow> (Inl (Wrapped err ''failed to mark system as booted''), (fst s1, w1))
               | (None, w1) \<Rightarrow> (Inr (), (fst s1, w1))))
           in if \<not> ue_IsFirstBoot ue (snd s) then Some (booted s)
              else (case remote ue (snd s) of
                      (Inl err, w1) \<Rightarrow> Some (Inl (Wrapped err ''failed to get remote tag''), (fst s, w1))
                    | (Inr rem, w1) \<Rightarrow>
                        (case updateTo ue ins u rem None (fst s, w1) of
                           None \<Rightarrow> None
                         | Some (Some err, s2) \<Rightarrow> Some (Inl (Wrapped err ''failed to run update''), s2)
                         | Some (None, s2) \<Rightarrow> Some (booted s2))))"

section \<open>Properties\<close>

text \<open>
  C12. The gate of an update: the file system changes, or a restart is asked for, only if the hub's
  tag differs from the running one and, outside a development network, its version is the one the
  registrar names and is marked safe there or the node's farm is a test farm. A development network takes
  any version. A restart is asked for only after every package was installed and the new tag was handed to
  the boot record.
\<close>

theorem update_gate:
  assumes up: "update ue ins gw u s = Some (err, s')"
    and eff: "fst s' \<noteq> fst s \<or> err = Some restart_needed"
  shows "\<exists>current e0 w1 rem w2 v farms w3.
    ue_Current ue (snd s) = ((current, e0), w1) \<and> remote ue w1 = (Inr rem, w2) \<and>
    tl_Target rem \<noteq> tl_Target current \<and> getRolloutConfig ue gw w2 = (Inr (v, farms), w3) \<and>
    (ue_IsDev ue \<or> (\<exists>u. gw_GetZosVersion gw u = ((v, None), w3)) \<and> after_last_slash (tl_Target rem) = zv_Version v) \<and>
    (zv_SafeToUpgrade v \<or> ue_FarmID ue \<in> set farms) \<and>
    (err = Some restart_needed \<longrightarrow>
       (\<exists>fs4 w4 e5 w5. updateTo ue ins u rem (Some current) (fst s, w3) = Some (None, (fs4, w4)) \<and>
          ue_SetBoot ue rem w4 = (e5, w5) \<and> (e5 = None \<or> e5 = Some restart_needed)))"
proof -
  obtain current e0 w1 where c: "ue_Current ue (snd s) = ((current, e0), w1)" by (metis prod.exhaust)
  obtain r w2 where r: "remote ue w1 = (r, w2)" by fastforce
  obtain rem where rem: "r = Inr rem"
    using up eff c r by (cases r) (auto simp: update_def restart_needed_def)
  have ne: "tl_Target rem \<noteq> tl_Target current"
    using up eff c r rem by (auto simp: update_def restart_needed_def split: if_splits)
  obtain g w3 where g: "getRolloutConfig ue gw w2 = (g, w3)" by fastforce
  obtain v farms where vf: "g = Inr (v, farms)"
    using up eff c r rem ne g by (cases g) (auto simp: update_def restart_needed_def)
  have hb: "\<not> held_back ue rem v farms"
    using up eff c r rem ne g vf by (auto simp: update_def restart_needed_def split: if_splits)
  have "\<exists>fs4 w4 e5 w5. updateTo ue ins u rem (Some current) (fst s, w3) = Some (None, (fs4, w4)) \<and>
          ue_SetBoot ue rem w4 = (e5, w5) \<and> (e5 = None \<or> e5 = Some restart_needed)"
    if "err = Some restart_needed"
    using up c r rem ne g vf hb that
    by (auto simp: update_def restart_needed_def split: option.splits prod.splits)
  moreover have "\<exists>u. gw_GetZosVersion gw u = ((v, None), w3)" if "\<not> ue_IsDev ue"
    using g vf that by (auto simp: getRolloutConfig_def split: sum.splits prod.splits option.splits if_splits)
  ultimately show ?thesis using c r rem ne g vf hb by (auto simp: held_back_def)
qed

definition pkg_new :: "'w up_env \<Rightarrow> string \<Rightarrow> string list \<Rightarrow> hub_pkg list \<Rightarrow> hub_pkg list" where
  "pkg_new ue repo cur pkgs = filter (\<lambda>p. snd (fst (ue_PkgDestination ue p repo)) \<notin> set cur) pkgs"

definition pkg_dest :: "'w up_env \<Rightarrow> string \<Rightarrow> hub_pkg \<Rightarrow> string \<times> string" where
  "pkg_dest ue repo p = fst (ue_PkgDestination ue p repo)"

lemma update_pkgs_plan:
  assumes "update_pkgs ue ins repo cur pkgs later s = Some (Inr later', s')"
  shows "later' = later @ map (pkg_dest ue repo) (filter (\<lambda>p. pk_Name p = ZosPackage) (pkg_new ue repo cur pkgs)) \<and>
    install_all ins (map (pkg_dest ue repo) (filter (\<lambda>p. pk_Name p \<noteq> ZosPackage) (pkg_new ue repo cur pkgs))) s
      = Some (None, s')"
  using assms
proof (induction pkgs arbitrary: later s)
  case (Cons p pkgs)
  obtain pr nm er where d: "ue_PkgDestination ue p repo = ((pr, nm), er)" by (metis prod.exhaust)
  consider (kept) "nm \<in> set cur" | (zos) "nm \<notin> set cur" "pk_Name p = ZosPackage"
    | (other) "nm \<notin> set cur" "pk_Name p \<noteq> ZosPackage" by blast
  then show ?case
  proof cases
    case kept
    then show ?thesis using Cons.prems d Cons.IH [of later s] by (simp add: pkg_new_def)
  next
    case zos
    then show ?thesis using Cons.prems d Cons.IH [of "later @ [(pr, nm)]" s] by (simp add: pkg_new_def pkg_dest_def)
  next
    case other
    with Cons.prems d obtain s1 where i: "ins pr nm s = Some (None, s1)"
      and rest: "update_pkgs ue ins repo cur pkgs later s1 = Some (Inr later', s')"
      by (auto split: option.splits)
    from Cons.IH [OF rest] i d other show ?thesis by (simp add: pkg_new_def pkg_dest_def)
  qed
qed (simp add: pkg_new_def)

lemma install_all_append:
  "install_all ins (ps @ qs) s =
     (case install_all ins ps s of None \<Rightarrow> None | Some (Some e, s1) \<Rightarrow> Some (Some e, s1)
      | Some (None, s1) \<Rightarrow> install_all ins qs s1)"
  by (induction ins ps s rule: install_all.induct) (auto split: option.splits)

text \<open>
  C13. What an update installs, and in which order: a successful update installs exactly the packages
  of the new tag whose names are not among the current tag's, each once and in the tag's order,
  except that the zos package comes after all the others, and not at all on a node that does not
  upgrade zos.
\<close>

theorem updateTo_plan:
  assumes "updateTo ue ins u link current s = Some (None, s')"
  shows "\<exists>repo tag packages w1 cur w2.
    ue_LinkDestination ue link = Inr (repo, tag) \<and> ue_ListTag ue repo tag (snd s) = (Inr packages, w1) \<and>
    resolve_current ue current w1 = (Inr cur, w2) \<and>
    install_all ins
      (map (pkg_dest ue repo) (filter (\<lambda>p. pk_Name p \<noteq> ZosPackage) (pkg_new ue repo cur packages)) @
       (if ug_noZosUpgrade u then []
        else map (pkg_dest ue repo) (filter (\<lambda>p. pk_Name p = ZosPackage) (pkg_new ue repo cur packages))))
      (fst s, w2) = Some (None, s')"
proof -
  from assms obtain repo tag packages w1 cur w2 later s1 where p:
      "ue_LinkDestination ue link = Inr (repo, tag)" "ue_ListTag ue repo tag (snd s) = (Inr packages, w1)"
      "resolve_current ue current w1 = (Inr cur, w2)"
      "update_pkgs ue ins repo cur packages [] (fst s, w2) = Some (Inr later, s1)"
      "if ug_noZosUpgrade u then s1 = s' else install_all ins later s1 = Some (None, s')"
    by (auto simp: updateTo_def split: sum.splits prod.splits option.splits if_splits)
  from update_pkgs_plan [OF p(4)] p show ?thesis
    by (intro exI conjI) (auto simp: install_all_append split: if_splits)
qed

lemma resolve_same:
  assumes "resolve_laws resolve" and "\<forall>t. fs p \<noteq> Some (Symlink t)"
  shows "resolve fs p = p"
  using assms by (auto simp: resolve_laws_def)

lemma copy_body_ok:
  assumes r: "resolve_laws (fe_resolve fe)" and l: "\<forall>t. fs dst \<noteq> Some (Symlink t)"
    and cp: "\<And>c wr. fe_Copy fe c = (wr, None) \<Longrightarrow> wr = c"
    and ok: "copy_body ue fe dst src ca (fs, w) = ((None, outer), (fs', w'))"
  shows "outer = None \<and> (\<exists>content. ue_CheckAndGet ue (ca_fileCache ca) src w = (Inr content, w') \<and>
    fs' = fs(dst \<mapsto> Regular content))"
  using ok resolve_same [OF r, of fs dst] l cp
  by (auto simp: copy_body_def os_simps Let_def split: option.splits sum.splits prod.splits if_splits)

text \<open>
  Copying a file that succeeds: a target that is neither a symbolic link nor a directory holds exactly the content of
  the flist's file afterwards, and apart from it and its backup no entry of the file system changed.
\<close>

lemma copyFile_replaces:
  assumes r: "resolve_laws (fe_resolve fe)" and l: "\<forall>t. fs dst \<noteq> Some (Symlink t)" "fs dst \<noteq> Some Directory"
    and cp: "\<And>c wr. fe_Copy fe c = (wr, None) \<Longrightarrow> wr = c"
    and ok: "copyFile ue fe dst src ca (fs, w) = (None, (fs', w'))"
  shows "\<exists>content. ue_CheckAndGet ue (ca_fileCache ca) src w = (Inr content, w') \<and>
    fs' dst = Some (Regular content) \<and> (\<forall>p. p \<noteq> dst \<longrightarrow> p \<noteq> dst @ ''.old'' \<longrightarrow> fs' p = fs p)"
proof (cases "is_err (os_Stat (fe_io fe) (fe_resolve fe) dst fs) ErrNotExist")
  case True
  obtain ret outer s1 where b: "copy_body ue fe dst src ca (fs, w) = ((ret, outer), s1)" by (metis prod.exhaust)
  with True ok have "ret = None" "s1 = (fs', w')" by (auto simp: copyFile_def)
  with b copy_body_ok [OF r _ cp, of fs dst ue src ca w outer fs' w'] l show ?thesis by auto
next
  case False
  obtain re fs1 where rn: "os_Rename (fe_io fe) dst (dst @ ''.old'') fs = (re, fs1)" by fastforce
  have re: "re = None" using ok False rn by (cases re) (auto simp: copyFile_def)
  then have f1: "fs1 dst = None" "\<forall>p. p \<noteq> dst \<longrightarrow> p \<noteq> dst @ ''.old'' \<longrightarrow> fs1 p = fs p"
    using rn l by (auto simp: os_simps split: option.splits if_splits)
  obtain ret outer fs2 w2 where b: "copy_body ue fe dst src ca (fs1, w) = ((ret, outer), (fs2, w2))"
    by (metis prod.exhaust)
  have ret: "ret = None" "w2 = w'" using ok False rn re b by (auto simp: copyFile_def Let_def)
  from copy_body_ok [OF r _ cp, of fs1 dst ue src ca w outer fs2 w2] f1 b ret
  obtain content where o: "outer = None" and g: "ue_CheckAndGet ue (ca_fileCache ca) src w = (Inr content, w')"
      and f2: "fs2 = fs1(dst \<mapsto> Regular content)" by auto
  have "fs' = snd (os_Remove (fe_io fe) (dst @ ''.old'') fs2)"
    using ok False rn re b o by (auto simp: copyFile_def Let_def)
  then have "fs' dst = fs2 dst" "\<forall>p. p \<noteq> dst @ ''.old'' \<longrightarrow> fs' p = fs2 p"
    by (auto simp: os_simps split: option.splits if_splits)
  with g f1 f2 show ?thesis by auto
qed

text \<open>The file system after the backup was made.\<close>

definition backed_up :: "path \<Rightarrow> byte list \<Rightarrow> fsys \<Rightarrow> fsys" where
  "backed_up dst before fs = (fs(dst := None))(dst @ ''.old'' \<mapsto> Regular before)"

text \<open>On a file system without faults an existing file is backed up first, then the new one is opened.\<close>

lemma copyFile_backup:
  assumes r: "resolve_laws (fe_resolve fe)" and nofault: "\<And>op p. fe_io fe op p = None"
    and old: "fs dst = Some (Regular before)"  "fs (dst @ ''.old'') = None"
  shows "copyFile ue fe dst src ca (fs, w) =
      (case copy_body ue fe dst src ca (backed_up dst before fs, w) of
         ((ret, outer), (fs2, w2)) \<Rightarrow>
           (ret, (if outer = None then snd (os_Remove (fe_io fe) (dst @ ''.old'') fs2)
                  else snd (os_Rename (fe_io fe) (dst @ ''.old'') dst fs2), w2)))"
    and "os_OpenTrunc (fe_io fe) (fe_resolve fe) dst (backed_up dst before fs) =
      (Inr dst, (backed_up dst before fs)(dst \<mapsto> Regular []))"
proof -
  have "\<not> is_err (os_Stat (fe_io fe) (fe_resolve fe) dst fs) ErrNotExist"
    using resolve_same [OF r, of fs dst] old nofault by (simp add: os_simps)
  then show "copyFile ue fe dst src ca (fs, w) =
      (case copy_body ue fe dst src ca (backed_up dst before fs, w) of
         ((ret, outer), (fs2, w2)) \<Rightarrow>
           (ret, (if outer = None then snd (os_Remove (fe_io fe) (dst @ ''.old'') fs2)
                  else snd (os_Rename (fe_io fe) (dst @ ''.old'') dst fs2), w2)))"
    using old nofault by (simp add: copyFile_def Let_def os_Rename_def [of _ dst] backed_up_def)
  have "fe_resolve fe (backed_up dst before fs) dst = dst" by (rule resolve_same [OF r]) (simp add: backed_up_def)
  then show "os_OpenTrunc (fe_io fe) (fe_resolve fe) dst (backed_up dst before fs) =
      (Inr dst, (backed_up dst before fs)(dst \<mapsto> Regular []))"
    using nofault by (simp add: os_OpenTrunc_def backed_up_def Let_def)
qed

text \<open>
  C14. A copy that breaks off loses the file it was to replace: on a file system without faults, when
  \<open>io.Copy\<close> stops with an error after writing a part, the error is returned, the target holds the
  part, and the backup is deleted instead of restored.
\<close>

theorem copyFile_loses_backup:
  assumes r: "resolve_laws (fe_resolve fe)" and nofault: "\<And>op p. fe_io fe op p = None"
    and old: "fs dst = Some (Regular before)" "fs (dst @ ''.old'') = None"
    and get: "ue_CheckAndGet ue (ca_fileCache ca) src w = (Inr content, w')"
    and copy: "fe_Copy fe content = (part, Some err)"
  shows "\<exists>fs'. copyFile ue fe dst src ca (fs, w) = (Some err, (fs', w')) \<and>
    fs' dst = Some (Regular part) \<and> fs' (dst @ ''.old'') = None"
  unfolding copyFile_backup(1) [where fs = fs and before = before, OF r nofault old]
  using copyFile_backup(2) [where fs = fs and before = before, OF r nofault old] nofault get copy
  by (simp add: copy_body_def os_Remove_def backed_up_def)

text \<open>A failure before the copy, by contrast, restores the file.\<close>

lemma copyFile_restores:
  assumes r: "resolve_laws (fe_resolve fe)" and nofault: "\<And>op p. fe_io fe op p = None"
    and old: "fs dst = Some (Regular before)" "fs (dst @ ''.old'') = None"
    and get: "ue_CheckAndGet ue (ca_fileCache ca) src w = (Inl err, w')"
  shows "copyFile ue fe dst src ca (fs, w) = (Some err, (fs, w'))"
proof -
  have "(((backed_up dst before fs)(dst \<mapsto> Regular []))(dst @ ''.old'' := None))(dst \<mapsto> Regular before) = fs"
    using old by (auto simp: backed_up_def fun_eq_iff)
  then show ?thesis
    unfolding copyFile_backup(1) [where fs = fs and before = before, OF r nofault old]
    using copyFile_backup(2) [where fs = fs and before = before, OF r nofault old] nofault get
    by (simp add: copy_body_def os_Rename_def backed_up_def)
qed

text \<open>What the init system's calls touch, as the set of services they name.\<close>

definition zinit_laws :: "'w up_env \<Rightarrow> ('w \<Rightarrow> string set) \<Rightarrow> bool" where
  "zinit_laws ue touched \<longleftrightarrow>
     (\<forall>ss w. touched (snd (ue_StopMultiple ue ss w)) \<subseteq> touched w \<union> set ss) \<and>
     (\<forall>n w. touched (snd (ue_Forget ue n w)) \<subseteq> insert n (touched w)) \<and>
     (\<forall>n w. touched (snd (ue_Monitor ue n w)) \<subseteq> insert n (touched w)) \<and>
     (\<forall>n w. touched (snd (ue_StartService ue n w)) \<subseteq> insert n (touched w))"

lemma restart_one_touches:
  assumes "zinit_laws ue touched"
  shows "touched (restart_one ue nm w) \<subseteq> insert nm (touched w)"
  using assms unfolding zinit_laws_def restart_one_def by blast

text \<open>
  The protected services are never stopped or restarted by an update, whatever services a package
  carries; every other service of the package may be.
\<close>

lemma ensureRestarted_protects:
  assumes z: "zinit_laws ue touched" and "nm \<in> {''identityd'', ''redis''}"
    and "nm \<notin> touched w"
  shows "fst (ensureRestarted ue services w) = None \<and> nm \<notin> touched (snd (ensureRestarted ue services w))"
proof -
  let ?ss = "filter (\<lambda>e. e \<notin> set protected) services"
  have nm: "nm \<notin> set ?ss" using assms(2) by (auto simp: protected_def)
  have "nm \<notin> touched (snd (ue_StopMultiple ue ?ss w))"
    using z nm assms(3) unfolding zinit_laws_def by blast
  then have "nm \<notin> touched (fold (restart_one ue) ?ss (snd (ue_StopMultiple ue ?ss w)))"
    by (rule fold_inv [where P = "\<lambda>w. nm \<notin> touched w", rotated])
      (use restart_one_touches [OF z] nm in blast)
  then show ?thesis using assms(3) by (simp add: ensureRestarted_def Let_def)
qed

lemma nextUpdate_bounds: "jitter < 10 \<Longrightarrow> 60 \<le> nextUpdate jitter \<and> nextUpdate jitter < 70"
  by (simp add: nextUpdate_def)

end
