(* ===== verification/Identityd.thy ===== *)
theory Identityd
  imports Prelude
begin

text \<open>
  The identity of the node (\<open>pkg/identity/identityd.go\<close>): its key pair, loaded from a key store or made up
  and stored on the first start, and the calls of the identity manager. The access keys of the node
  (\<open>cmds/identityd/ssh.go\<close>): at its start the identity daemon writes the SSH
  keys of the authorized users into \<open>authorized_keys\<close>. The file is explicit, \<open>None\<close> when it does not
  exist; the key store, the cryptography, the kernel parameters, the environment, its configuration, the
  registrar's client, the HTTP client and \<open>backoff.Retry\<close> are parameters on an abstract world.
\<close>

section \<open>State and parameters\<close>

text \<open>The running modes that the code names, and any other.\<close>

datatype running_mode = RunningMain | RunningTest | OtherMode string

type_synonym 'w keys_state = "'w \<times> string option"

text \<open>
  A fault of the removal is an error other than that the file does not exist, which the code ignores.
  A response is its status, the bytes of its body that reach the file, and the error that ends the copy.
\<close>

record 'w ssh_env =
  sh_GetOne :: "string \<Rightarrow> ('w, string option) eff"
  sh_RunningMode :: running_mode
  sh_FarmID :: u32
  sh_GetConfig :: "('w, string list res) eff"
  sh_GetConfigForMode :: "running_mode \<Rightarrow> ('w, string list res) eff"
  sh_remove_fault :: "'w \<Rightarrow> goerr option"
  sh_open_fault :: "'w \<Rightarrow> goerr option"
  sh_Get :: "string \<Rightarrow> ('w, (nat \<times> string \<times> goerr option) res) eff"
  sh_Retry :: "('w keys_state, goerr option) eff \<Rightarrow> ('w keys_state, goerr option) eff"
  sh_itoa :: "nat \<Rightarrow> string"

definition mainNetFarms :: "u32 list" where
  "mainNetFarms = [1, 79, 77, 76, 3997]"

definition keys_url :: "string \<Rightarrow> string" where
  "keys_url user = ''https://github.com/'' @ user @ ''.keys''"

section \<open>The daemon's function\<close>

text \<open>
  \<open>fetchKey\<close>; the error of a user that does not exist is permanent, which ends the retries and is not
  told apart here.
\<close>

definition fetchKey :: "'w ssh_env \<Rightarrow> string \<Rightarrow> ('w keys_state, goerr option) eff" where
  "fetchKey en user s =
     (case sh_Get en (keys_url user) (fst s) of
        (Inl e, w) \<Rightarrow> (Some (Wrapped e ''failed to fetch user keys''), (w, snd s))
      | (Inr (status, bytes, err), w) \<Rightarrow>
          if status = 404
          then (Some (ErrMsg (''failed to get user keys for user ('' @ user @ ''): keys not found'')), (w, snd s))
          else if status \<noteq> 200
          then (Some (ErrMsg (''failed to get user keys for user ('' @ user @ '') with status code '' @ sh_itoa en status)),
                (w, snd s))
          else (err, (w, map_option (\<lambda>c. c @ bytes) (snd s))))"

text \<open>The users of the configuration, or of the one of the test network on a managed farm.\<close>

definition configured_users :: "'w ssh_env \<Rightarrow> ('w, string list res) eff" where
  "configured_users en w =
     (case sh_GetConfig en w of
        (Inl e, w1) \<Rightarrow> (Inl e, w1)
      | (Inr users, w1) \<Rightarrow>
          if sh_RunningMode en = RunningMain \<and> sh_FarmID en \<in> set mainNetFarms \<and> users = []
          then sh_GetConfigForMode en RunningTest w1
          else (Inr users, w1))"

definition manageSSHKeys :: "'w ssh_env \<Rightarrow> ('w keys_state, goerr option) eff" where
  "manageSSHKeys en s =
     (let (extraUser, w1) = sh_GetOne en ''ssh-user'' (fst s)
      in case sh_remove_fault en w1 of
           Some e \<Rightarrow> (Some (Wrapped e ''failed to deleted authorized_keys file''), (w1, snd s))
         | None \<Rightarrow>
             (case configured_users en w1 of
                (Inl e, w2) \<Rightarrow> (Some e, (w2, None))
              | (Inr users, w2) \<Rightarrow>
                  let authorizedUsers =
                        (if sh_RunningMode en \<noteq> RunningMain
                         then users @ (case extraUser of None \<Rightarrow> [] | Some u \<Rightarrow> [u]) else users)
                  in case sh_open_fault en w2 of
                       Some e \<Rightarrow> (Some (Wrapped e ''failed to open authorized_keys files''), (w2, None))
                     | None \<Rightarrow>
                         (None, snd (for_log (\<lambda>user. sh_Retry en (fetchKey en user)) authorizedUsers (w2, Some [])))))"

section \<open>Who gets in\<close>

text \<open>A piece of the file that the key server sent for a user.\<close>

definition keys_of :: "'w ssh_env \<Rightarrow> string \<Rightarrow> string \<Rightarrow> bool" where
  "keys_of en user bytes \<longleftrightarrow> (\<exists>v v' err. sh_Get en (keys_url user) v = (Inr (200, bytes, err), v'))"

definition holds_keys :: "'w ssh_env \<Rightarrow> string list \<Rightarrow> string option \<Rightarrow> bool" where
  "holds_keys en users file \<longleftrightarrow>
     (\<exists>pieces. file = Some (concat (map snd pieces)) \<and>
        (\<forall>(user, bytes) \<in> set pieces. user \<in> set users \<and> keys_of en user bytes))"

lemma fetchKey_holds:
  assumes "holds_keys en users (snd s)" "user \<in> set users"
  shows "holds_keys en users (snd (snd (fetchKey en user s)))"
proof (cases "sh_Get en (keys_url user) (fst s)")
  case (Pair r w)
  show ?thesis
  proof (cases r)
    case (Inl e)
    then show ?thesis using assms Pair by (simp add: fetchKey_def)
  next
    case (Inr resp)
    obtain status bytes err where resp: "resp = (status, bytes, err)" by (cases resp)
    show ?thesis
    proof (cases "status = 200")
      case False
      then show ?thesis using assms Pair Inr resp by (simp add: fetchKey_def)
    next
      case True
      obtain ps where ps: "snd s = Some (concat (map snd ps))"
          "\<forall>(user, bytes) \<in> set ps. user \<in> set users \<and> keys_of en user bytes"
        using assms(1) by (auto simp: holds_keys_def)
      have "keys_of en user bytes" using Pair Inr resp True by (auto simp: keys_of_def)
      moreover have "snd (snd (fetchKey en user s)) = Some (concat (map snd (ps @ [(user, bytes)])))"
        using Pair Inr resp True ps(1) by (simp add: fetchKey_def)
      ultimately show ?thesis using ps(2) assms(2) unfolding holds_keys_def
        by (intro exI [of _ "ps @ [(user, bytes)]"]) auto
    qed
  qed
qed

lemma fetch_all_holds:
  assumes "retry_laws (sh_Retry en)"
  shows "holds_keys en users (snd (snd (for_log (\<lambda>user. sh_Retry en (fetchKey en user)) users (w, Some []))))"
proof (rule for_log_inv [where P = "\<lambda>s. holds_keys en users (snd s)"])
  fix user and s :: "'a keys_state"
  assume u: "user \<in> set users" and s: "holds_keys en users (snd s)"
  obtain n where n: "sh_Retry en (fetchKey en user) s = retry_run n (fetchKey en user) s"
    using assms unfolding retry_laws_def by blast
  show "holds_keys en users (snd (snd (sh_Retry en (fetchKey en user) s)))"
    unfolding n by (rule retry_run_inv [where P = "\<lambda>s. holds_keys en users (snd s)"]) (simp_all add: fetchKey_holds u s)
qed (auto simp: holds_keys_def intro: exI [of _ "[]"])

text \<open>
  C26. On the main network only the users of the configuration get in: unless the file from before could not be
  removed, in which case an error is returned and the file stays, the file of authorized keys is afterwards
  missing, again with an error, or made of pieces that the key server sent for users of the configuration,
  whatever fails. A farm outside the managed ones never falls back to the test network's users, and the user of
  the kernel parameter is never added.
\<close>

theorem ssh_mainnet_users:
  assumes "retry_laws (sh_Retry en)" "sh_RunningMode en = RunningMain"
    and "manageSSHKeys en (w, file) = (r, (w', file'))"
  shows "(r \<noteq> None \<and> file' = file \<and> sh_remove_fault en (snd (sh_GetOne en ''ssh-user'' w)) \<noteq> None)
       \<or> (r \<noteq> None \<and> file' = None)
       \<or> (\<exists>users v v'. holds_keys en users file' \<and>
            (sh_GetConfig en v = (Inr users, v')
             \<or> sh_FarmID en \<in> set mainNetFarms \<and> sh_GetConfigForMode en RunningTest v = (Inr users, v')))"
proof -
  obtain x w1 where x: "sh_GetOne en ''ssh-user'' w = (x, w1)" by (cases "sh_GetOne en ''ssh-user'' w")
  show ?thesis
  proof (cases "sh_remove_fault en w1")
    case (Some e)
    then show ?thesis using assms(3) by (auto simp: manageSSHKeys_def x)
  next
    case removed: None
    obtain c w2 where c: "configured_users en w1 = (c, w2)" by (cases "configured_users en w1")
    show ?thesis
    proof (cases c)
      case (Inl e)
      then show ?thesis using assms(3) removed c by (auto simp: manageSSHKeys_def x)
    next
      case (Inr users)
      have from_config: "\<exists>v v'. sh_GetConfig en v = (Inr users, v')
          \<or> sh_FarmID en \<in> set mainNetFarms \<and> sh_GetConfigForMode en RunningTest v = (Inr users, v')"
        using c Inr by (auto simp: configured_users_def split: prod.splits sum.splits if_splits)
      show ?thesis
      proof (cases "sh_open_fault en w2")
        case (Some e)
        then show ?thesis using assms(3) removed c Inr by (auto simp: manageSSHKeys_def x Let_def)
      next
        case None
        have "file' = snd (snd (for_log (\<lambda>user. sh_Retry en (fetchKey en user)) users (w2, Some [])))"
          using assms(2,3) removed c Inr None by (auto simp: manageSSHKeys_def x Let_def)
        then show ?thesis using fetch_all_holds [OF assms(1)] from_config by metis
      qed
    qed
  qed
qed

text \<open>
  The retries do not take back what a broken copy has written: the start of the keys stays in the file in
  front of the whole of them.
\<close>

lemma broken_copy_stays:
  assumes "sh_Get en (keys_url user) w = (Inr (200, part, Some e), w1)"
    and "sh_Get en (keys_url user) w1 = (Inr (200, whole, None), w2)"
  shows "retry_run 1 (fetchKey en user) (w, Some c) = (None, (w2, Some (c @ part @ whole)))"
  using assms by (simp add: fetchKey_def)

section \<open>The identity manager\<close>

record key_pair =
  kp_PrivateKey :: "byte list"
  kp_PublicKey :: "byte list"

record 'w key_store =
  ks_Kind :: string
  ks_Get :: "('w, byte list res) eff"
  ks_Set :: "byte list \<Rightarrow> ('w, goerr option) eff"
  ks_Annihilate :: "('w, goerr option) eff"

record node_env =
  ne_FarmID :: u32
  ne_FarmSecret :: string
  ne_RegistrarURL :: string

record 'w id_env =
  id_NewStore :: "string \<Rightarrow> bool \<Rightarrow> ('w, 'w key_store res) eff"
  id_GenerateKeyPair :: "('w, key_pair res) eff"
  id_KeyPairFromKey :: "byte list \<Rightarrow> key_pair"
  id_EnvGet :: "('w, node_env res) eff"
  id_MustGet :: "('w, node_env) eff"
  id_Identity :: "key_pair \<Rightarrow> string"
  id_JoinPath :: "string \<Rightarrow> string list \<Rightarrow> string res"
  id_NewRegistrarClient :: "string \<Rightarrow> ('w, goerr option) eff"
  id_GetFarm :: "string \<Rightarrow> u64 \<Rightarrow> ('w, string \<times> goerr option) eff"
  id_Sign :: "byte list \<Rightarrow> byte list \<Rightarrow> byte list res"
  id_Verify :: "byte list \<Rightarrow> byte list \<Rightarrow> byte list \<Rightarrow> goerr option"
  id_Encrypt :: "byte list \<Rightarrow> byte list \<Rightarrow> byte list res"
  id_Decrypt :: "byte list \<Rightarrow> byte list \<Rightarrow> byte list res"

record identity_manager =
  im_kind :: string
  im_key :: key_pair
  im_env :: node_env
  im_farm :: string

definition load_pair :: "'w id_env \<Rightarrow> 'w key_store \<Rightarrow> ('w, key_pair res) eff" where
  "load_pair en st w =
     (case ks_Get st w of
        (Inr key, w1) \<Rightarrow> (Inr (id_KeyPairFromKey en key), w1)
      | (Inl err, w1) \<Rightarrow>
          if errors_is err ErrKeyDoesNotExist
          then (case id_GenerateKeyPair en w1 of
                  (Inl e, w2) \<Rightarrow> (Inl (Wrapped e ''failed to generate key pair''), w2)
                | (Inr pair, w2) \<Rightarrow>
                    (case ks_Set st (kp_PrivateKey pair) w2 of
                       (Some e, w3) \<Rightarrow> (Inl (Wrapped e ''failed to persist key seed''), w3)
                     | (None, w3) \<Rightarrow> (Inr pair, w3)))
          else (Inl (Wrapped err ''failed to load seed''), snd (ks_Annihilate st w1)))"

definition NewManager :: "'w id_env \<Rightarrow> string \<Rightarrow> bool \<Rightarrow> ('w, identity_manager res) eff" where
  "NewManager en root debug w =
     (case id_NewStore en root (\<not> debug) w of
        (Inl e, w1) \<Rightarrow> (Inl (Wrapped e ''failed to create key store''), w1)
      | (Inr st, w1) \<Rightarrow>
          (case load_pair en st w1 of
             (Inl e, w2) \<Rightarrow> (Inl e, w2)
           | (Inr pair, w2) \<Rightarrow>
               (case id_EnvGet en w2 of
                  (Inl e, w3) \<Rightarrow> (Inl e, w3)
                | (Inr env, w3) \<Rightarrow>
                    (Inr \<lparr>im_kind = ks_Kind st, im_key = pair, im_env = env, im_farm = []\<rparr>, w3))))"

definition StoreKind :: "identity_manager \<Rightarrow> string" where
  "StoreKind d = im_kind d"

definition identity_NodeID :: "'w id_env \<Rightarrow> identity_manager \<Rightarrow> string" where
  "identity_NodeID en d = id_Identity en (im_key d)"

text \<open>The farm's name is kept once it is known; the error of the registrar does not keep it from being set.\<close>

definition Farm :: "'w id_env \<Rightarrow> identity_manager \<Rightarrow> 'w \<Rightarrow> (string \<times> goerr option) \<times> identity_manager \<times> 'w" where
  "Farm en d w =
     (if length (im_farm d) \<noteq> 0 then ((im_farm d, None), d, w)
      else case id_MustGet en w of
        (env, w1) \<Rightarrow>
          (case id_JoinPath en (ne_RegistrarURL env) [''api'', ''v1''] of
             Inl e \<Rightarrow> (([], Some e), d, w1)
           | Inr url \<Rightarrow>
               (case id_NewRegistrarClient en url w1 of
                  (Some e, w2) \<Rightarrow> (([], Some e), d, w2)
                | (None, w2) \<Rightarrow>
                    (case id_GetFarm en url (ucast (ne_FarmID env)) w2 of
                       ((name, err), w3) \<Rightarrow> ((name, err), d\<lparr>im_farm := name\<rparr>, w3)))))"

definition identity_FarmID :: "identity_manager \<Rightarrow> u32" where
  "identity_FarmID d = ne_FarmID (im_env d)"

definition FarmSecret :: "identity_manager \<Rightarrow> string" where
  "FarmSecret d = ne_FarmSecret (im_env d)"

definition identity_Sign :: "'w id_env \<Rightarrow> identity_manager \<Rightarrow> byte list \<Rightarrow> byte list res" where
  "identity_Sign en d message = id_Sign en (kp_PrivateKey (im_key d)) message"

definition identity_Verify :: "'w id_env \<Rightarrow> identity_manager \<Rightarrow> byte list \<Rightarrow> byte list \<Rightarrow> goerr option" where
  "identity_Verify en d message sig = id_Verify en (kp_PublicKey (im_key d)) message sig"

definition identity_Encrypt :: "'w id_env \<Rightarrow> identity_manager \<Rightarrow> byte list \<Rightarrow> byte list res" where
  "identity_Encrypt en d message = id_Encrypt en message (kp_PublicKey (im_key d))"

definition identity_Decrypt :: "'w id_env \<Rightarrow> identity_manager \<Rightarrow> byte list \<Rightarrow> byte list res" where
  "identity_Decrypt en d message = id_Decrypt en message (kp_PrivateKey (im_key d))"

section \<open>A stable identity\<close>

text \<open>
  What the daemon relies on, for the one directory and the one mode it is started with: the store that is
  opened there keeps the key \<open>cur\<close> that was last set; a read gives that key or an
  error, and the error that there is no key only when there is none; opening the store, reading it,
  generating a pair and reading the environment leave the key alone; a generated pair is the one of its
  private key.
\<close>

definition key_store_laws :: "('w \<Rightarrow> byte list option) \<Rightarrow> 'w key_store \<Rightarrow> bool" where
  "key_store_laws cur st \<longleftrightarrow>
     quiet cur (ks_Get st)
     \<and> (\<forall>k w. fst (ks_Get st w) = Inr k \<longrightarrow> cur w = Some k)
     \<and> (\<forall>e w. fst (ks_Get st w) = Inl e \<longrightarrow> errors_is e ErrKeyDoesNotExist \<longrightarrow> cur w = None)
     \<and> (\<forall>k w w'. ks_Set st k w = (None, w') \<longrightarrow> cur w' = Some k)"

definition identity_laws :: "('w \<Rightarrow> byte list option) \<Rightarrow> 'w id_env \<Rightarrow> string \<Rightarrow> bool \<Rightarrow> bool" where
  "identity_laws cur en root debug \<longleftrightarrow>
     (\<forall>w st w'. id_NewStore en root (\<not> debug) w = (Inr st, w') \<longrightarrow> key_store_laws cur st)
     \<and> quiet cur (id_NewStore en root (\<not> debug))
     \<and> quiet cur (id_GenerateKeyPair en) \<and> quiet cur (id_EnvGet en)
     \<and> (\<forall>w pair w'. id_GenerateKeyPair en w = (Inr pair, w') \<longrightarrow> id_KeyPairFromKey en (kp_PrivateKey pair) = pair)"

lemma key_store_lawsD:
  assumes "key_store_laws cur st"
  shows "ks_Get st w = (Inr k, w') \<Longrightarrow> cur w = Some k \<and> cur w' = Some k"
    and "ks_Get st w = (Inl e, w') \<Longrightarrow> errors_is e ErrKeyDoesNotExist \<Longrightarrow> cur w = None"
    and "ks_Set st k w = (None, w') \<Longrightarrow> cur w' = Some k"
  using assms by (auto simp: key_store_laws_def quiet_def) (metis fst_conv snd_conv)+

lemma load_pair_known:
  assumes "key_store_laws cur st" "cur w = Some k" "load_pair en st w = (r, w')"
  shows "(r = Inr (id_KeyPairFromKey en k) \<and> cur w' = Some k)
       \<or> (\<exists>e v e'. ks_Get st w = (Inl e, v) \<and> r = Inl e' \<and> w' = snd (ks_Annihilate st v))"
proof (cases "ks_Get st w")
  case (Pair g v)
  show ?thesis
  proof (cases g)
    case (Inr key)
    then show ?thesis using assms(2,3) Pair key_store_lawsD(1) [OF assms(1)] by (fastforce simp: load_pair_def)
  next
    case (Inl e)
    then have "\<not> errors_is e ErrKeyDoesNotExist" using key_store_lawsD(2) [OF assms(1)] Pair assms(2) by force
    then show ?thesis using assms(3) Pair Inl by (auto simp: load_pair_def)
  qed
qed

lemma load_pair_stores:
  assumes "identity_laws cur en root debug" "key_store_laws cur st" "load_pair en st w = (Inr pair, w')"
  shows "\<exists>k. cur w' = Some k \<and> id_KeyPairFromKey en k = pair"
proof (cases "ks_Get st w")
  case (Pair g w1)
  show ?thesis
  proof (cases g)
    case (Inr key)
    then show ?thesis using assms(3) Pair key_store_lawsD(1) [OF assms(2)] by (auto simp: load_pair_def)
  next
    case (Inl e)
    then obtain w2 where gen: "id_GenerateKeyPair en w1 = (Inr pair, w2)" "ks_Set st (kp_PrivateKey pair) w2 = (None, w')"
      using assms(3) Pair by (auto simp: load_pair_def split: prod.splits sum.splits option.splits if_splits)
    have "cur w' = Some (kp_PrivateKey pair)" by (rule key_store_lawsD(3) [OF assms(2) gen(2)])
    moreover have "id_KeyPairFromKey en (kp_PrivateKey pair) = pair" using assms(1) gen(1) unfolding identity_laws_def by blast
    ultimately show ?thesis by blast
  qed
qed

text \<open>
  C25. The node keeps its identity: once a manager has been created, every later start with the same directory
  and mode that succeeds gives the same key pair and leaves the stored key as it is. A start that fails leaves it
  too, except when the key cannot be read: then the store is annihilated.
\<close>

theorem identity_stable:
  assumes "identity_laws cur en root debug"
    and "NewManager en root debug w = (Inr m, w1)" "cur w2 = cur w1"
    and "NewManager en root debug w2 = (r, w3)"
  shows "case r of
           Inr m' \<Rightarrow> im_key m' = im_key m \<and> cur w3 = cur w1
         | Inl _ \<Rightarrow> cur w3 = cur w1
             \<or> (\<exists>st v e v'. id_NewStore en root (\<not> debug) w2 = (Inr st, v) \<and> ks_Get st v = (Inl e, v')
                   \<and> w3 = snd (ks_Annihilate st v'))"
proof -
  obtain st wa wb env where first: "id_NewStore en root (\<not> debug) w = (Inr st, wa)"
      "load_pair en st wa = (Inr (im_key m), wb)" "id_EnvGet en wb = (Inr env, w1)"
    using assms(2) by (auto simp: NewManager_def split: prod.splits sum.splits)
  have laws: "key_store_laws cur st" using assms(1) first(1) unfolding identity_laws_def by blast
  obtain k where k: "cur wb = Some k" "id_KeyPairFromKey en k = im_key m"
    using load_pair_stores [OF assms(1) laws first(2)] by blast
  have q: "quiet cur (id_EnvGet en)" "quiet cur (id_NewStore en root (\<not> debug))"
    using assms(1) by (simp_all add: identity_laws_def)
  have c1: "cur w1 = Some k" using quietD [OF q(1) first(3)] k(1) by simp
  obtain s wc where s: "id_NewStore en root (\<not> debug) w2 = (s, wc)" by (cases "id_NewStore en root (\<not> debug) w2")
  have cc: "cur wc = Some k" using quietD [OF q(2) s] assms(3) c1 by simp
  show ?thesis
  proof (cases s)
    case (Inl e)
    then show ?thesis using assms(4) s cc c1 by (auto simp: NewManager_def)
  next
    case (Inr st')
    have laws': "key_store_laws cur st'" using assms(1) s Inr unfolding identity_laws_def by blast
    obtain lr wd where d: "load_pair en st' wc = (lr, wd)" by (cases "load_pair en st' wc")
    from load_pair_known [OF laws' cc d] show ?thesis
    proof (elim disjE exE conjE)
      assume lr: "lr = Inr (id_KeyPairFromKey en k)" "cur wd = Some k"
      obtain v we where v: "id_EnvGet en wd = (v, we)" by (cases "id_EnvGet en wd")
      have "cur we = Some k" using quietD [OF q(1) v] lr(2) by simp
      then show ?thesis using assms(4) s Inr d lr(1) v c1 k(2) by (cases v) (auto simp: NewManager_def)
    next
      fix e v e'
      assume "ks_Get st' wc = (Inl e, v)" "lr = Inl e'" "wd = snd (ks_Annihilate st' v)"
      then show ?thesis using assms(4) s Inr d by (auto simp: NewManager_def)
    qed
  qed
qed

end
