(* ===== verification/Applications.thy ===== *)
theory Applications
  imports Concrete Events Capacity Reporter Power_Server Registrar Update_Worker Upgrade Identityd
begin

text \<open>
  Concrete instances of the parameters of the daemons around the engine, and their theorems applied
  to concrete inputs: the contracts those theorems assume can hold.
\<close>

section \<open>Contract events\<close>

definition c_chain_gateway :: "cworld registrar_gateway" where
  "c_chain_gateway = c_contract_gateway\<lparr>gw_GetNodeContracts := (\<lambda>_ w. (([2], None), w)),
     gw_GetContract := (\<lambda>_ w. ((zero_contract\<lparr>ct_IsGracePeriod := True\<rparr>, zero_serr), w))\<rparr>"

definition dl3 :: deployment where
  "dl3 = dl1\<lparr>dl_ContractID := 3\<rparr>"

definition eng2 :: "cworld native_engine" where
  "eng2 = c_engine None None [1] (\<lambda>_. [2, 3]) (\<lambda>_ i. if i = 2 then dl1 else dl3)"

definition handler :: "cworld registrar_gateway \<Rightarrow> cworld contract_event_handler" where
  "handler g = \<lparr>ch_node = 1, ch_registrarGateway = g, ch_engine = native_api eng2\<rparr>"

definition grace :: "u64 \<Rightarrow> contract" where
  "grace i = zero_contract\<lparr>ct_IsGracePeriod := True\<rparr>"

theorem sync_exact_witness:
  "\<exists>m running. m = fold (\<lambda>dl m. AList.update (dl_ContractID dl) dl m) [dl1, dl3] [] \<and>
    map_of running = map_of m |` set [2] \<and>
    fst (sync c_gt (env_sb c_env) rev (handler c_chain_gateway) w0) = None \<and>
    cw_jobs (snd (sync c_gt (env_sb c_env) rev (handler c_chain_gateway) w0)) = cw_jobs w0 @
      map (\<lambda>(c, dl). (engineJob opDeprovision (if c = 2 then dl1 else dl3))
             \<lparr>job_Message := ''contract not active on chain''\<rparr>)
        (rev (filter (\<lambda>(c, dl). c \<notin> set [2]) m)) @
      concat (map (\<lambda>(i, dl). if ct_IsGracePeriod (grace i) = isLocked c_gt dl then []
        else [engineJob (if ct_IsGracePeriod (grace i) then opPause else opResume)
                (if dl_ContractID dl = 2 then dl1 else dl3)]) (rev running))"
  by (rule sync_exact [of eng2 cw_jobs "handler c_chain_gateway" "\<lambda>_ i. if i = 2 then dl1 else dl3" w0 "[dl1, dl3]"
        "[2]" grace "env_sb c_env" c_gt rev])
    (simp_all add: eng2_def handler_def c_chain_gateway_def grace_def quiet_def,
      simp_all add: c_storage_def c_queue_def)

lemma registrar_gateway_sync_cancels_all_witness:
  "\<exists>es. mset es = mset [(2, dl1), (3, dl3)] \<and>
    sync c_gt (env_sb c_env) rev (handler c_gateway) w0 = (None, snd (for_log (sync_cancel (handler c_gateway)) es w0)) \<and>
    snd (for_log (sync_cancel (handler c_gateway)) es w0) = fold (\<lambda>x w. snd (ea_Deprovision (ch_engine (handler c_gateway))
      (dl_TwinID (snd x)) (fst x) ''contract not active on chain'' w)) es w0"
  by (rule registrar_gateway_sync_cancels_all [of _ "\<lambda>w. (7, w)" c_client])
    (simp_all add: handler_def c_gateway_def current_def native_api_def eng2_def c_storage_def dl3_def dl1_def)

section \<open>Capacity and migration\<close>

definition c_add :: "capacity \<Rightarrow> capacity \<Rightarrow> capacity" where
  "c_add a b = \<lparr>c_CRU = c_CRU a + c_CRU b, c_SRU = c_SRU a + c_SRU b, c_HRU = c_HRU a + c_HRU b, c_MRU = c_MRU a + c_MRU b\<rparr>"

lemma cap_resources_sum_witness:
  "cap_resources c_gt c_add dl_ip =
    \<lparr>cr_ContractID = 2, cr_Used = \<lparr>rs_HRU = 0, rs_SRU = 1, rs_CRU = 1, rs_MRU = 1\<rparr>\<rparr>"
  using cap_resources_sum [of c_add c_gt dl_ip]
  by (simp add: capacity_add_laws_def c_add_def counted_def dl_ip_def dl1_def c_gt_def)

text \<open>A pair of stores as the world; the migration of a deployment without workloads fails.\<close>

type_synonym two_stores = "deployment set \<times> deployment set"

definition c_old :: "two_stores fs_storage" where
  "c_old = \<lparr>fs_Twins = (\<lambda>w. (Inr [1], w)), fs_ByTwin = (\<lambda>_ w. (Inr [3, 2], w)),
     fs_Get = (\<lambda>_ i w. (Inr (if i = 2 then dl1 else dl3), w)),
     fs_Delete = (\<lambda>d w. (None, (fst w - {d}, snd w)))\<rparr>"

definition c_migrate :: "deployment \<Rightarrow> (two_stores, goerr option) eff" where
  "c_migrate d w = (if d = dl3 then (Some (ErrMsg ''bad''), w) else (None, (fst w, insert d (snd w))))"

definition c_stores :: two_stores where
  "c_stores = ({dl1, dl3}, {})"

lemma storageMigration_keeps_witness:
  "fst c_stores \<union> snd c_stores \<subseteq>
     fst (snd (storageMigration c_migrate c_old c_stores)) \<union> snd (snd (storageMigration c_migrate c_old c_stores))"
  by (rule storageMigration_keeps [of c_migrate c_old fst snd]) (auto simp: migration_laws_def quiet_def c_old_def c_migrate_def)

section \<open>Reports\<close>

definition c_floats :: "int floats" where
  "c_floats = \<lparr>f_to_u64 = word_of_int, f_of_u64 = uint, f_to_i64 = word_of_int, f_of_i64 = sint,
     f_add = (+), f_mul = (*), f_one = 1, f_zero = 0\<rparr>"

theorem report_conserves_witness:
  "distinct (map nru_ContractID (report_of c_gt c_floats rev 5000000000 4000000000
      [(c_id 1 2 ''a'', 10), (c_id 1 2 ''b'', 5), (c_id 1 3 ''a'', 0)])) \<and>
    set (report_of c_gt c_floats rev 5000000000 4000000000
      [(c_id 1 2 ''a'', 10), (c_id 1 2 ''b'', 5), (c_id 1 3 ''a'', 0)]) =
      {\<lparr>nru_ContractID = c, nru_Timestamp = word_of_int (5000000000 div second), nru_Window = window_seconds 4000000000,
         nru_NRU = sum_list (contract_units c_gt c_floats c
           [(c_id 1 2 ''a'', 10), (c_id 1 2 ''b'', 5), (c_id 1 3 ''a'', 0)])\<rparr> | c.
       sum_list (contract_units c_gt c_floats c
         [(c_id 1 2 ''a'', 10), (c_id 1 2 ''b'', 5), (c_id 1 3 ''a'', 0)]) \<noteq> 0}"
  by (rule report_conserves) simp

text \<open>The reporter's world: the stored time of the last report and the queue of reports.\<close>

type_synonym rworld = "int option \<times> report list"

definition c_rrd :: "(rworld, int) rrd" where
  "c_rrd = \<lparr>rrd_Slot = (\<lambda>w. (Inr 0, w)),
     rrd_Counter = (\<lambda>_ k v w. (None, if k = lastReportedKey then (Some v, snd w) else w)),
     rrd_Last = (\<lambda>k w. (Inr (case fst w of None \<Rightarrow> (0, False) | Some t \<Rightarrow> (t, True)), w)),
     rrd_Counters = (\<lambda>_ w. (Inr [], w))\<rparr>"

definition c_rqueue :: "(rworld, report) dque" where
  "c_rqueue = \<lparr>q_Enqueue = (\<lambda>j w. (None, (fst w, snd w @ [j]))),
     q_Dequeue = (\<lambda>w. case snd w of [] \<Rightarrow> (Inl (ErrMsg ''empty''), w) | j # js \<Rightarrow> (Inr j, (fst w, js))),
     q_PeekBlock = (\<lambda>w. case snd w of [] \<Rightarrow> (Inl (ErrMsg ''empty''), w) | j # js \<Rightarrow> (Inr j, w))\<rparr>"

lemma c_rqueue_laws: "dque_laws c_rqueue snd"
  by (auto simp: dque_laws_def c_rqueue_def split: list.splits)

definition c_reporter :: "(rworld, int) reporter" where
  "c_reporter = \<lparr>rp_rrd = c_rrd, rp_queue = c_rqueue, rp_registrarGateway = c_gateway\<rparr>"

lemma c_gateway_Report [simp]: "gw_Report c_gateway rep w = (([], None), w)"
  by (simp add: c_gateway_def gateway_simps)

definition rep1 :: report where
  "rep1 = [\<lparr>nru_ContractID = 2, nru_Timestamp = 5, nru_Window = 4, nru_NRU = 15\<rparr>]"

theorem pushOne_at_least_once_witness:
  "\<exists>rep u v hash. snd (None :: int option, [rep1, []]) = rep # snd (None :: int option, [[]]) \<and>
      gw_Report (rp_registrarGateway c_reporter) rep u = ((hash, None), v)"
  using pushOne_at_least_once [of c_reporter snd "(None, [rep1, []])" None "(None, [[]])"]
  by (simp add: c_reporter_def c_rqueue_laws quiet_def pushOne_def c_rqueue_def c_rqueue_laws [unfolded c_rqueue_def])

lemma c_last_laws: "last_report_laws c_floats c_reporter fst"
  by (auto simp: last_report_laws_def quiet_def c_reporter_def c_rrd_def split: option.splits)

lemma c_float_laws: "float_laws c_floats"
  by (simp add: float_laws_def c_floats_def)

lemma c_cycle:
  "report_cycle c_gt c_floats rev (\<lambda>w. (200, w)) (\<lambda>w. (205 * second + 7, w)) (\<lambda>_ w. w) c_reporter (Some t, q)
     = (Inr (word_of_int t, report_delay (word_of_int t) 200, 205 * second + 7), (Some 205, q))"
  by (simp add: report_cycle_def getLastReportTime_def setLastReportTime_def reporter_report_def time_Unix_def
      report_of_def push_def c_reporter_def c_rrd_def c_floats_def second_def Let_def)


section \<open>Power\<close>

text \<open>The power world: whether the node is recorded up, and how often it was stopped.\<close>

type_synonym pworld = "bool \<times> nat"

definition c_power_gateway :: "pworld registrar_gateway" where
  "c_power_gateway = c_gateway\<lparr>gw_GetPowerTarget :=
       (\<lambda>w. ((\<lparr>np_StateIsUp = fst w, np_TargetIsUp = False, np_TargetIsDown = True\<rparr>, None), w)),
     gw_SetNodePowerState := (\<lambda>up w. ((''hash'', None), (up, snd w)))\<rparr>"

definition c_server :: "pworld power_server" where
  "c_server = \<lparr>ps_registrarGateway = c_power_gateway, ps_enabled = True, ps_farm = 1, ps_node = 1,
     ps_host = \<lparr>h_ReadonlyCache = (\<lambda>_. False), h_LimitedCache = (\<lambda>_. False), h_NotReachable = (\<lambda>_. False),
       h_Uptime = (\<lambda>w. (Inr 5, w)), h_Now = (\<lambda>w. (7, w))\<rparr>,
     ps_machine = \<lparr>mc_Shutdown = (\<lambda>w. (None, (fst w, Suc (snd w)))), mc_Reboot = (\<lambda>w. (None, (fst w, Suc (snd w)))),
       mc_wake = (\<lambda>_ w. (None, w))\<rparr>\<rparr>"

lemma setNodePowerState_table_witness:
  "fst (False, 0 :: nat) = (\<not> ps_enabled c_server \<or> False)"
  using setNodePowerState_table [of c_server fst False "(True, 0)" "(False, 0)"]
  by (simp add: power_laws_def c_server_def c_power_gateway_def setNodePowerState_def)

lemma c_stops_only: "stops_only c_server snd"
  by (simp add: stops_only_def quiet_def c_server_def c_power_gateway_def c_gateway_def gateway_simps
      c_client_def)

definition down_event :: power_event where
  "down_event = \<lparr>pe_FarmID = 1, pe_NodeID = 1, pe_IsUp = False, pe_IsDown = True\<rparr>"

theorem event_stops_only_self_witness:
  "ps_enabled c_server \<and> pe_FarmID down_event = ps_farm c_server \<and> pe_NodeID down_event = ps_node c_server \<and>
     pe_IsDown down_event"
  by (rule event_stops_only_self [OF c_stops_only, of down_event "(True, 0)"])
    (simp add: event_def down_event_def c_server_def c_power_gateway_def c_gateway_def gateway_simps
      c_client_def setNodePowerState_def shutdown_def SendNow_def isNodeHealthy_def)

section \<open>Registration\<close>

definition c_geo :: geo_location where
  "c_geo = \<lparr>geo_Longitude = ''4'', geo_Latitude = ''50'', geo_Country = ''BE'', geo_City = ''Ghent''\<rparr>"

definition c_reg_env :: "'w reg_env" where
  "c_reg_env = \<lparr>re_zosInterface = (\<lambda>w. (Inr \<lparr>if_Name = ''zos'', if_Mac = ''m'', if_IPs = None\<rparr>, w)), re_Relays = [],
     re_FarmID = 1, re_FetchLocation = (\<lambda>w. (Inr c_geo, w)), re_NodeNotFound = ''not found''\<rparr>"

definition c_info :: registration_info where
  "c_info = \<lparr>ri_Capacity = zero_capacity, ri_Location = c_geo, ri_SecureBoot = False, ri_Virtualized = False,
     ri_SerialNumber = [], ri_GPUs = {}\<rparr>"

text \<open>A registrar with the record of one node as its world.\<close>

definition r_client :: "client_node registrar_client" where
  "r_client = c_client\<lparr>
     rc_GetNode := (\<lambda>i w. if i = 1 then ((w, None), w) else ((w, Some (ErrMsg ''not found'')), w)),
     rc_GetNodeByTwinID := (\<lambda>_ w. ((w\<lparr>cn_NodeID := 1\<rparr>, None), w)),
     rc_UpdateNode := (\<lambda>u w. (None, apply_update u w))\<rparr>"

lemma r_store: "registrar_store r_client 1 (\<lambda>w. [1 \<mapsto> w]) (\<lambda>_. 1)"
  by (auto simp: registrar_store_def r_client_def c_client_def)

lemma r_registers:
  "\<exists>w'. registerNode c_reg_env (NewRegistrarGateway clock r_client) c_info c_node = (Inr (1, 1), w')"
  by (simp add: registerNode_def c_reg_env_def gateway_simps r_client_def c_client_def lookup_node_def c_node_def Let_def)

lemma c_attempt:
  "\<exists>w'. retry_run 3 (attempt c_reg_env (NewRegistrarGateway clock r_client) c_info) (InProgressState, c_node)
     = (None, (DoneState 1 1, w'))"
proof -
  have "re_FetchLocation c_reg_env c_node = (Inr c_geo, c_node)" "WithLocation c_info c_geo = c_info"
    by (simp_all add: c_reg_env_def WithLocation_def c_info_def)
  then show ?thesis
    using r_registers [of clock] by (auto simp: numeral_3_eq_3 attempt_def registration_def)
qed


theorem registerNode_converges_witness:
  "\<exists>n. registerNode c_reg_env (NewRegistrarGateway (\<lambda>w. (7, w)) r_client) c_info c_node = (Inr (1, 1), n) \<and>
     cn_FarmID n = 1 \<and> cn_SerialNumber n = [] \<and> lc_City (cn_Location n) = ''Ghent'' \<and> \<not> cn_Virtualized n"
proof -
  obtain w' where reg: "registerNode c_reg_env (NewRegistrarGateway (\<lambda>w. (7, w)) r_client) c_info c_node
      = (Inr (1, 1), w')" using r_registers by blast
  from registerNode_converges [OF r_store reg]
  have "cn_FarmID w' = 1 \<and> cn_SerialNumber w' = [] \<and> lc_City (cn_Location w') = ''Ghent'' \<and> \<not> cn_Virtualized w'"
    by (auto simp: same_data_def node_of_def c_reg_env_def c_info_def c_geo_def)
  with reg show ?thesis by blast
qed


section \<open>The update worker\<close>

definition c_rels :: fsys where
  "c_rels = [''/hub/.tag-v1'' \<mapsto> Directory, ''/hub/.tag-v2'' \<mapsto> Directory,
     ''/net/qa-v4'' \<mapsto> Symlink ''../hub/.tag-v1'']"

lemma c_links:
  "updateZosVersion (\<lambda>_ _. None) (Inr ''../hub'') \<lparr>wk_src = ''/hub'', wk_dst = ''/net''\<rparr> ''qa-v4''
     (Inr \<lparr>zv_Version = ''v2'', zv_SafeToUpgrade = True\<rparr>) c_rels
   = (None, (c_rels(''/net/qa-v4'' := None))(''/net/qa-v4'' \<mapsto> Symlink ''../hub/.tag-v2''))"
  by (simp add: updateZosVersion_def checkNetwork_def MainNetwork_def TestNetwork_def QANetwork_def updateLink_def
      os_simps c_rels_def after_last_slash_def)

lemma updateZosVersion_links_witness:
  "let fs' = (c_rels(''/net/qa-v4'' := None))(''/net/qa-v4'' \<mapsto> Symlink ''../hub/.tag-v2'') in
   checkNetwork ''qa-v4'' = None \<and>
    (\<exists>dst. fs' ''/net/qa-v4'' = Some (Symlink dst) \<and> after_last_slash dst = ''.tag-v2'') \<and>
    fs' ''/hub/.tag-v2'' \<noteq> None \<and> (\<forall>p. p \<noteq> ''/net/qa-v4'' \<longrightarrow> fs' p = c_rels p) \<and>
    updateZosVersion (\<lambda>_ _. None) (Inr ''../hub'') \<lparr>wk_src = ''/hub'', wk_dst = ''/net''\<rparr> ''qa-v4''
      (Inr \<lparr>zv_Version = ''v2'', zv_SafeToUpgrade = True\<rparr>) fs' = (None, fs')"
  unfolding Let_def using updateZosVersion_links [OF c_links] by simp

section \<open>The upgrader\<close>

text \<open>
  A hub with one tag of two packages, the zos package first in the list, of which the current tag
  has neither; the world is the list of services that were touched.
\<close>

definition c_up :: "(string list) up_env" where
  "c_up = \<lparr>ue_DetectBootOther = (\<lambda>_. False), ue_IsFirstBoot = (\<lambda>_. False), ue_MarkBooted = (\<lambda>w. (None, w)),
     ue_Current = (\<lambda>w. ((\<lparr>tl_Target = ''zos/v1''\<rparr>, None), w)), ue_SetBoot = (\<lambda>_ w. (None, w)),
     ue_RunMode = ''production'', ue_IsLight = False, ue_KernelVersion = ''v4'',
     ue_Find = (\<lambda>_ w. (Inr [\<lparr>tl_Target = ''zos/v2''\<rparr>], w)), ue_IsDev = False, ue_FarmID = 1,
     ue_TestFarms = (\<lambda>w. (Inr [], w)), ue_LinkDestination = (\<lambda>l. Inr (''zos'', tl_Target l)),
     ue_ListTag = (\<lambda>_ t w. (Inr (if t = ''zos/v2'' then [\<lparr>pk_Name = ''zos.flist'', pk_Target = ''z''\<rparr>,
        \<lparr>pk_Name = ''net.flist'', pk_Target = ''n''\<rparr>] else []), w)),
     ue_PkgDestination = (\<lambda>p r. ((r, pk_Target p), None)), ue_Download = (\<lambda>_ _ _ w. (None, w)),
     ue_NewStore = (\<lambda>_ _ _ w. (Inr (Some (\<lambda>_. ([], None))), w)), ue_CheckAndGet = (\<lambda>_ _ w. (Inr [1, 2, 3], w)),
     ue_StopMultiple = (\<lambda>ss w. (None, ss @ w)), ue_Forget = (\<lambda>n w. (None, n # w)),
     ue_Monitor = (\<lambda>n w. (None, n # w)), ue_StartService = (\<lambda>n w. (None, n # w))\<rparr>"

definition c_up_gateway :: "(string list) registrar_gateway" where
  "c_up_gateway = c_gateway\<lparr>gw_GetZosVersion := (\<lambda>w. ((\<lparr>zv_Version = ''v2'', zv_SafeToUpgrade = True\<rparr>, None), w))\<rparr>"

definition c_upgrader :: upgrader where
  "c_upgrader = \<lparr>ug_root = ''/var/cache'', ug_noZosUpgrade = False, ug_storage = Some ''zdb'', ug_zinit = Some ''sock'',
     ug_zcl = True\<rparr>"

definition c_fe :: fs_env where
  "c_fe = \<lparr>fe_io = (\<lambda>_ _. None), fe_resolve = (\<lambda>_ p. p), fe_Copy = (\<lambda>c. (c, None))\<rparr>"

text \<open>An installer that notes the packages it is asked for.\<close>

definition c_install :: "(string list) installer" where
  "c_install r n s = Some (None, (fst s, n # snd s))"

definition c_start :: "(string list) ust" where
  "c_start = (Map.empty, [])"

lemma c_updateTo:
  "updateTo c_up c_install c_upgrader \<lparr>tl_Target = ''zos/v2''\<rparr> (Some \<lparr>tl_Target = ''zos/v1''\<rparr>) c_start
     = Some (None, (Map.empty, [''z'', ''n'']))"
  by (simp add: updateTo_def c_up_def resolve_current_def current_names_def ZosPackage_def c_install_def c_upgrader_def c_start_def)

lemma c_update:
  "update c_up c_install c_up_gateway c_upgrader c_start = Some (Some restart_needed, (Map.empty, [''z'', ''n'']))"
proof -
  have u: "ue_Current c_up [] = ((\<lparr>tl_Target = ''zos/v1''\<rparr>, None), [])"
    "remote c_up [] = (Inr \<lparr>tl_Target = ''zos/v2''\<rparr>, [])"
    "getRolloutConfig c_up c_up_gateway [] = (Inr (\<lparr>zv_Version = ''v2'', zv_SafeToUpgrade = True\<rparr>, []), [])"
    "held_back c_up \<lparr>tl_Target = ''zos/v2''\<rparr> \<lparr>zv_Version = ''v2'', zv_SafeToUpgrade = True\<rparr> [] = False"
    "ue_SetBoot c_up \<lparr>tl_Target = ''zos/v2''\<rparr> w = (None, w)" for w
    by (simp_all add: c_up_def c_up_gateway_def remote_def match_name_def getRolloutConfig_def held_back_def
        after_last_slash_def)
  show ?thesis by (simp add: update_def u c_start_def c_updateTo [unfolded c_start_def])
qed

theorem update_gate_witness:
  "\<exists>current e0 w1 rem w2 v farms w3.
    ue_Current c_up (snd c_start) = ((current, e0), w1) \<and> remote c_up w1 = (Inr rem, w2) \<and>
    tl_Target rem \<noteq> tl_Target current \<and> getRolloutConfig c_up c_up_gateway w2 = (Inr (v, farms), w3) \<and>
    (ue_IsDev c_up \<or> (\<exists>u. gw_GetZosVersion c_up_gateway u = ((v, None), w3)) \<and> after_last_slash (tl_Target rem) = zv_Version v) \<and>
    (zv_SafeToUpgrade v \<or> ue_FarmID c_up \<in> set farms) \<and>
    (Some restart_needed = Some restart_needed \<longrightarrow>
       (\<exists>fs4 w4 e5 w5. updateTo c_up c_install c_upgrader rem (Some current) (fst c_start, w3)
            = Some (None, (fs4, w4)) \<and>
          ue_SetBoot c_up rem w4 = (e5, w5) \<and> (e5 = None \<or> e5 = Some restart_needed)))"
  by (rule update_gate [OF c_update]) simp

theorem updateTo_plan_witness:
  "\<exists>repo tag packages w1 cur w2.
    ue_LinkDestination c_up \<lparr>tl_Target = ''zos/v2''\<rparr> = Inr (repo, tag) \<and>
    ue_ListTag c_up repo tag (snd c_start) = (Inr packages, w1) \<and>
    resolve_current c_up (Some \<lparr>tl_Target = ''zos/v1''\<rparr>) w1 = (Inr cur, w2) \<and>
    install_all c_install
      (map (pkg_dest c_up repo) (filter (\<lambda>p. pk_Name p \<noteq> ZosPackage) (pkg_new c_up repo cur packages)) @
       (if ug_noZosUpgrade c_upgrader then []
        else map (pkg_dest c_up repo) (filter (\<lambda>p. pk_Name p = ZosPackage) (pkg_new c_up repo cur packages))))
      (fst c_start, w2) = Some (None, (Map.empty, [''z'', ''n'']))"
  by (rule updateTo_plan [OF c_updateTo])

definition c_meta :: meta where
  "c_meta = \<lparr>me_Name = ''f'', me_Type = RegularType, me_LinkTarget = []\<rparr>"

lemma c_resolve: "resolve_laws (fe_resolve c_fe)"
  by (simp add: resolve_laws_def c_fe_def)

definition c_disk :: fsys where
  "c_disk = [''/f'' \<mapsto> Regular [9]]"

lemma c_copyFile:
  "copyFile c_up c_fe ''/f'' c_meta memory_cache (c_disk, [])
     = (None, (((c_disk(''/f'' := None))(''/f.old'' \<mapsto> Regular [9], ''/f'' \<mapsto> Regular [], ''/f'' \<mapsto> Regular [1, 2, 3]))
         (''/f.old'' := None), []))"
  by (simp add: copyFile_def copy_body_def os_simps
      c_fe_def c_up_def c_disk_def Let_def)

lemma copyFile_replaces_witness:
  "let fs' = ((c_disk(''/f'' := None))(''/f.old'' \<mapsto> Regular [9], ''/f'' \<mapsto> Regular [], ''/f'' \<mapsto> Regular [1, 2, 3]))
         (''/f.old'' := None) in
   \<exists>content. ue_CheckAndGet c_up (ca_fileCache memory_cache) c_meta [] = (Inr content, []) \<and>
    fs' ''/f'' = Some (Regular content) \<and> (\<forall>p. p \<noteq> ''/f'' \<longrightarrow> p \<noteq> ''/f'' @ ''.old'' \<longrightarrow> fs' p = c_disk p)"
  unfolding Let_def
  by (rule copyFile_replaces [OF c_resolve _ _ _ c_copyFile]) (simp_all add: c_disk_def c_fe_def)

theorem copyFile_loses_backup_witness:
  "\<exists>fs'. copyFile c_up (c_fe\<lparr>fe_Copy := (\<lambda>c. (take 1 c, Some (ErrMsg ''disk full'')))\<rparr>) ''/f'' c_meta memory_cache
      (c_disk, []) = (Some (ErrMsg ''disk full''), (fs', [])) \<and>
    fs' ''/f'' = Some (Regular [1]) \<and> fs' (''/f'' @ ''.old'') = None"
  by (rule copyFile_loses_backup [of _ _ _ "[9]" _ _ _ _ "[1, 2, 3]"])
    (simp_all add: c_resolve c_fe_def resolve_laws_def c_disk_def c_up_def)

lemma ensureRestarted_protects_witness:
  "fst (ensureRestarted c_up [''noded'', ''redis''] []) = None \<and>
   ''redis'' \<notin> set (snd (ensureRestarted c_up [''noded'', ''redis''] []))"
  by (rule ensureRestarted_protects) (auto simp: zinit_laws_def c_up_def)

section \<open>Access keys\<close>

definition c_ssh :: "unit ssh_env" where
  "c_ssh = \<lparr>sh_GetOne = (\<lambda>_ w. (Some ''mallory'', w)), sh_RunningMode = RunningMain, sh_FarmID = 1,
     sh_GetConfig = (\<lambda>w. (Inr [], w)), sh_GetConfigForMode = (\<lambda>_ w. (Inr [''alice''], w)),
     sh_remove_fault = (\<lambda>_. None), sh_open_fault = (\<lambda>_. None),
     sh_Get = (\<lambda>_ w. (Inr (200, ''ssh-ed25519 AAAA'', None), w)), sh_Retry = retry_run 3, sh_itoa = show_nat\<rparr>"

theorem ssh_mainnet_users_witness:
  "retry_laws (sh_Retry c_ssh) \<and> sh_RunningMode c_ssh = RunningMain \<and>
   manageSSHKeys c_ssh ((), Some ''old'') = (None, ((), Some ''ssh-ed25519 AAAA'')) \<and>
   (\<exists>users v v'. holds_keys c_ssh users (Some ''ssh-ed25519 AAAA'') \<and>
      (sh_GetConfig c_ssh v = (Inr users, v')
       \<or> sh_FarmID c_ssh \<in> set mainNetFarms \<and> sh_GetConfigForMode c_ssh RunningTest v = (Inr users, v')))"
proof -
  have r: "retry_laws (sh_Retry c_ssh)" by (simp add: c_ssh_def retry_laws_refl)
  have m: "sh_RunningMode c_ssh = RunningMain" by (simp add: c_ssh_def)
  have run: "manageSSHKeys c_ssh ((), Some ''old'') = (None, ((), Some ''ssh-ed25519 AAAA''))"
    by (simp add: manageSSHKeys_def configured_users_def c_ssh_def mainNetFarms_def fetchKey_def eval_nat_numeral)
  show ?thesis using ssh_mainnet_users [OF r m run] r m run by simp
qed

section \<open>Identity\<close>

text \<open>A world that is the stored key.\<close>

definition c_store :: "byte list option key_store" where
  "c_store = \<lparr>ks_Kind = ''file'',
     ks_Get = (\<lambda>w. (case w of None \<Rightarrow> Inl (Sentinel ErrKeyDoesNotExist ''no key'') | Some k \<Rightarrow> Inr k, w)),
     ks_Set = (\<lambda>k _. (None, Some k)), ks_Annihilate = (\<lambda>_. (None, None))\<rparr>"

definition c_pair :: "byte list \<Rightarrow> key_pair" where
  "c_pair k = \<lparr>kp_PrivateKey = k, kp_PublicKey = rev k\<rparr>"

definition c_id :: "byte list option id_env" where
  "c_id = \<lparr>id_NewStore = (\<lambda>_ _ w. (Inr c_store, w)), id_GenerateKeyPair = (\<lambda>w. (Inr (c_pair [1, 2]), w)),
     id_KeyPairFromKey = c_pair, id_EnvGet = (\<lambda>w. (Inr \<lparr>ne_FarmID = 1, ne_FarmSecret = [], ne_RegistrarURL = []\<rparr>, w)),
     id_MustGet = (\<lambda>w. (\<lparr>ne_FarmID = 1, ne_FarmSecret = [], ne_RegistrarURL = []\<rparr>, w)),
     id_Identity = (\<lambda>_. ''node''), id_JoinPath = (\<lambda>s _. Inr s), id_NewRegistrarClient = (\<lambda>_ w. (None, w)),
     id_GetFarm = (\<lambda>_ _ w. ((''farm'', None), w)), id_Sign = (\<lambda>_ m. Inr m), id_Verify = (\<lambda>_ _ _. None),
     id_Encrypt = (\<lambda>m _. Inr m), id_Decrypt = (\<lambda>m _. Inr m)\<rparr>"

lemma c_id_laws: "identity_laws (\<lambda>w. w) c_id ''root'' False"
  by (auto simp: identity_laws_def key_store_laws_def quiet_def c_id_def c_store_def c_pair_def split: option.splits)

theorem identity_stable_witness:
  "\<exists>m m'. NewManager c_id ''root'' False None = (Inr m, Some [1, 2]) \<and>
     NewManager c_id ''root'' False (Some [1, 2]) = (Inr m', Some [1, 2]) \<and> im_key m' = im_key m"
proof -
  obtain m where m: "NewManager c_id ''root'' False None = (Inr m, Some [1, 2])"
    by (simp add: NewManager_def load_pair_def c_id_def c_store_def c_pair_def)
  obtain m' where m': "NewManager c_id ''root'' False (Some [1, 2]) = (Inr m', Some [1, 2])"
    by (simp add: NewManager_def load_pair_def c_id_def c_store_def c_pair_def)
  have "im_key m' = im_key m" using identity_stable [OF c_id_laws m refl m'] by simp
  then show ?thesis using m m' by blast
qed

end
