(* ===== verification/Console.thy ===== *)
theory Console
  imports Registrar Complex_Main "HOL-Library.List_Lexorder" "HOL-Library.Char_ord"
begin

text \<open>
  \<open>cmds/modules/zui\<close>: the console of a node. The renderers are goroutines that change the text of the
  widgets and raise a flag; the main loop draws when the flag is up. Drawing itself is a library.
\<close>

section \<open>The flag\<close>

text \<open>\<open>signalFlag\<close>: both operations are one atomic swap.\<close>

definition Signal :: "bool \<Rightarrow> bool" where
  "Signal f = True"

definition Signaled :: "bool \<Rightarrow> bool \<times> bool" where
  "Signaled f = (f, False)"

text \<open>\<open>trimFloat64\<close>: the last \<open>n\<close> values; \<open>None\<close> where the slice is out of range.\<close>

definition trimFloat64 :: "'a list \<Rightarrow> int \<Rightarrow> 'a list option" where
  "trimFloat64 a n =
     (if int (length a) > n then (if n < 0 then None else Some (drop (length a - nat n) a)) else Some a)"

section \<open>Texts\<close>

definition green :: "string \<Rightarrow> string" where
  "green s = ''['' @ s @ ''](fg:green)''"

definition red :: "string \<Rightarrow> string" where
  "red s = ''['' @ s @ ''](fg:red)''"

definition in_progress_text :: string where
  "in_progress_text = ''registration is still in progress''"

definition isInProgressError :: "goerr \<Rightarrow> bool" where
  "isInProgressError err \<longleftrightarrow> sublist in_progress_text (err_text err)"

text \<open>
  The parts of the header that depend on the node: the farm, the node id as the registrar answers it, and
  the cache. The kernel and the version are printed as they are.
\<close>

definition header_farm :: "u32 \<Rightarrow> string res \<Rightarrow> string" where
  "header_farm farmID name =
     (case name of
        Inl err \<Rightarrow> red (show_nat (unat farmID) @ '': '' @ err_text err)
      | Inr n \<Rightarrow> green (show_nat (unat farmID) @ '': '' @ n))"

text \<open>The second component is what is pushed to the errors of the console, if anything.\<close>

definition header_node :: "u32 \<times> goerr option \<Rightarrow> string \<times> string list" where
  "header_node answer =
     (case answer of
        (node, None) \<Rightarrow> (green (show_nat (unat node)), [])
      | (node, Some err) \<Rightarrow>
          if isInProgressError err then (green (err_text err), [])
          else (red (show_nat (unat node) @ '' (unregistered)''), [err_text err]))"

definition header_cache :: "bool \<Rightarrow> bool \<Rightarrow> string" where
  "header_cache limited readonly =
     (if limited then red ''no ssd disks detected, running on hdd-only mode''
      else if readonly then red ''cache is read-only'' else green ''OK'')"

section \<open>The services\<close>

datatype service = Networkd | Statistics | Containerd | Storaged | Noded | Powerd

definition activeStatus :: string where
  "activeStatus = ''Active''"

definition InProgressStatus :: string where
  "InProgressStatus = ''In progress''"

definition FailedStatus :: string where
  "FailedStatus = ''Failed''"

definition InactiveStatus :: string where
  "InactiveStatus = ''Inactive''"

text \<open>The column of states, below its title: the network, the registrar, then the others.\<close>

definition services_rows :: "string list" where
  "services_rows =
     [''Status'', InProgressStatus, InactiveStatus, InactiveStatus, InactiveStatus, InactiveStatus,
      InactiveStatus, InactiveStatus]"

fun service_row :: "service \<Rightarrow> nat" where
  "service_row Networkd = 1"
| "service_row Statistics = 3"
| "service_row Containerd = 4"
| "service_row Storaged = 5"
| "service_row Noded = 6"
| "service_row Powerd = 7"

definition getRegistrarStatus :: "u32 \<times> goerr option \<Rightarrow> string" where
  "getRegistrarStatus answer =
     (case snd answer of
        Some err \<Rightarrow> if isInProgressError err then InProgressStatus else red FailedStatus
      | None \<Rightarrow> green activeStatus)"

text \<open>What the goroutine of a service sends: only the network is asked whether it is ready.\<close>

definition service_answer :: "goerr option \<Rightarrow> service \<Rightarrow> service \<times> bool" where
  "service_answer ready s = (s, if s = Networkd then ready = None else True)"

definition service_status :: "bool \<Rightarrow> string" where
  "service_status ok = (if ok then green activeStatus else red FailedStatus)"

text \<open>
  One pass of the loop: the registrar is asked, then the loop waits for a service. The loop runs six times
  and then tells the main program.
\<close>

definition services_pass :: "(u32 \<times> goerr option) \<times> (service \<times> bool) \<Rightarrow> string list \<Rightarrow> string list" where
  "services_pass p rows =
     (case p of (answer, (s, ok)) \<Rightarrow>
        (rows[2 := getRegistrarStatus answer])[service_row s := service_status ok])"

definition serviceRender :: "(u32 \<times> goerr option) list \<Rightarrow> (service \<times> bool) list \<Rightarrow> string list" where
  "serviceRender answers arrivals = fold services_pass (zip answers arrivals) services_rows"

section \<open>Disks, memory and addresses\<close>

text \<open>
  \<open>diskRender\<close> on one message of the monitor, \<open>visit\<close> being the order in which Go ranges over the pools:
  the keys are only read again when their number does not fit, and are then appended.
\<close>

definition disk_keys :: "(string list \<Rightarrow> string list) \<Rightarrow> string list \<Rightarrow> string list \<Rightarrow> string list" where
  "disk_keys visit pools keys =
     (if length keys \<noteq> length pools then sort (keys @ visit pools) else keys)"

datatype color = ColorGreen | ColorMagenta | ColorRed

text \<open>\<open>memRender\<close>: the percentage is a float; \<open>None\<close> is not a number.\<close>

definition mem_color :: "rat option \<Rightarrow> color \<Rightarrow> color" where
  "mem_color used c =
     (case used of
        None \<Rightarrow> c
      | Some u \<Rightarrow> if u < 50 then ColorGreen else if 50 \<le> u \<and> u < 90 then ColorMagenta
                  else if 90 < u then ColorRed else c)"

text \<open>\<open>toString\<close> on the addresses, each its bytes and its text.\<close>

definition addresses_text :: "(byte list \<times> string) list \<Rightarrow> string" where
  "addresses_text al =
     fold (\<lambda>(ip, text) buf. if ip = [] then buf else (if buf \<noteq> [] then buf @ '', '' else buf) @ text) al []"

section \<open>The main loop\<close>

datatype ui_event = Key string | Resize | Tick

record ui =
  ui_flag :: bool
  ui_initialized :: bool
  ui_drawn :: "string list list"

definition ui_render :: "ui \<Rightarrow> ui" where
  "ui_render s = s\<lparr>ui_drawn := ui_drawn s @
     [if ui_initialized s then [''header'', ''services'', ''netgrid'', ''resources'', ''errors'']
      else [''header'', ''services'', ''errors'']]\<rparr>"

text \<open>One event; \<open>None\<close> ends the program. A tick is a second without an event.\<close>

fun ui_step :: "ui_event \<Rightarrow> ui \<Rightarrow> ui option" where
  "ui_step (Key k) s = (if k = ''q'' \<or> k = ''<C-c>'' then None else Some s)"
| "ui_step Resize s = Some (ui_render s)"
| "ui_step Tick s =
     (case Signaled (ui_flag s) of
        (up, f) \<Rightarrow> Some (if up then ui_render (s\<lparr>ui_flag := f\<rparr>) else s\<lparr>ui_flag := f\<rparr>))"

section \<open>Properties\<close>

text \<open>A change that is signalled is drawn at the next tick at the latest, and drawn once.\<close>

lemma signalled_is_drawn:
  "ui_step Tick (s\<lparr>ui_flag := Signal (ui_flag s)\<rparr>) = Some (ui_render (s\<lparr>ui_flag := False\<rparr>))"
  "ui_step Tick (s\<lparr>ui_flag := False\<rparr>) = Some (s\<lparr>ui_flag := False\<rparr>)"
  by (simp_all add: Signal_def Signaled_def)

lemma trimFloat64_last: "0 \<le> n \<Longrightarrow> trimFloat64 a n = Some (drop (length a - nat n) a)"
  by (auto simp: trimFloat64_def)

text \<open>The registrar's row follows the registrar's state.\<close>

lemma registrar_row:
  "getRegistrarStatus (returnIfDone s v) =
     (case s_State s of
        Failed \<Rightarrow> if sublist in_progress_text (s_Msg s @ '': registration failed'') then InProgressStatus
                  else red FailedStatus
      | InProgress \<Rightarrow> InProgressStatus
      | Done \<Rightarrow> green activeStatus)"
  by (auto simp: getRegistrarStatus_def returnIfDone_def isInProgressError_def in_progress_text_def
      split: registration_state.splits)

lemma service_row_facts: "service_row s < 8" "service_row s \<noteq> 2" "service_row s \<noteq> 0"
  by (cases s; simp)+

lemma service_row_inj: "service_row s = service_row t \<longleftrightarrow> s = t"
  by (cases s; cases t) simp_all

lemma services_pass_nth:
  assumes "length rows = 8" "i < 8"
  shows "services_pass (answer, (s, ok)) rows ! i =
    (if i = service_row s then service_status ok else if i = 2 then getRegistrarStatus answer else rows ! i)"
  using assms service_row_facts(2) [of s] by (auto simp: services_pass_def nth_list_update)

lemma services_pass_length [simp]: "length (services_pass p rows) = length rows"
  by (simp add: services_pass_def split: prod.splits)

lemma services_fold_length [simp]: "length (fold services_pass ps rows) = length rows"
  by (induction ps arbitrary: rows) simp_all

lemma services_fold_other:
  assumes "length answers = length arrivals" "length rows = 8"
  shows "fold services_pass (zip answers arrivals) rows ! 0 = rows ! 0 \<and>
    fold services_pass (zip answers arrivals) rows ! 2 =
      (if answers = [] then rows ! 2 else getRegistrarStatus (last answers))"
  using assms
proof (induction answers arrivals arbitrary: rows rule: list_induct2)
  case (Cons a as p ps)
  obtain t ok where p: "p = (t, ok)" by fastforce
  have "services_pass (a, t, ok) rows ! 0 = rows ! 0" "services_pass (a, t, ok) rows ! 2 = getRegistrarStatus a"
    using services_pass_nth [OF Cons.prems, of 0 a t ok] services_pass_nth [OF Cons.prems, of 2 a t ok]
      service_row_facts [of t] by auto
  then show ?case using Cons.IH [of "services_pass (a, p) rows"] Cons.prems by (simp add: p)
qed simp

lemma services_fold_row:
  assumes "length answers = length arrivals" "distinct (map fst arrivals)" "length rows = 8"
  shows "fold services_pass (zip answers arrivals) rows ! service_row s =
      (case map_of arrivals s of None \<Rightarrow> rows ! service_row s | Some ok \<Rightarrow> service_status ok)"
  using assms
proof (induction answers arrivals arbitrary: rows rule: list_induct2)
  case (Cons a as p ps)
  obtain t ok where p: "p = (t, ok)" by fastforce
  have "services_pass (a, t, ok) rows ! service_row s = (if s = t then service_status ok else rows ! service_row s)"
    using services_pass_nth [OF Cons.prems(2), of "service_row s" a t ok] service_row_facts [of s]
    by (simp add: service_row_inj)
  moreover have "map_of ps t = None" using Cons.prems(1) by (simp add: p map_of_eq_None_iff)
  moreover have "fold services_pass (zip as ps) (services_pass (a, p) rows) ! service_row s =
      (case map_of ps s of None \<Rightarrow> services_pass (a, p) rows ! service_row s | Some ok \<Rightarrow> service_status ok)"
    by (rule Cons.IH) (use Cons.prems in simp_all)
  ultimately show ?case by (cases "s = t") (simp_all add: p split: option.splits)
qed simp

text \<open>
  The table of services is right whatever order the services answer in: once all six have, the network
  shows whether it is ready, every other service is active, and the registrar shows what it answered before
  the last of them.
\<close>

lemma services_any_order:
  assumes "distinct ss" "set ss = UNIV" "length answers = 6"
  shows "serviceRender answers (map (service_answer ready) ss) =
    [''Status'', service_status (ready = None), getRegistrarStatus (last answers), green activeStatus,
     green activeStatus, green activeStatus, green activeStatus, green activeStatus]"
proof -
  let ?arr = "map (service_answer ready) ss"
  let ?rows = "fold services_pass (zip answers ?arr) services_rows"
  have univ: "(UNIV :: service set) = {Networkd, Statistics, Containerd, Storaged, Noded, Powerd}"
    by (auto intro: service.exhaust)
  have "length ss = card (set ss)" using assms(1) by (simp add: distinct_card)
  then have len: "length answers = length ?arr" using assms(2,3) by (simp add: univ)
  have fst: "map fst ?arr = ss" by (induction ss) (simp_all add: service_answer_def)
  have at: "map_of ?arr s = Some (s = Networkd \<longrightarrow> ready = None)" for s
  proof -
    have "(s, s = Networkd \<longrightarrow> ready = None) \<in> set ?arr" using assms(2) by (auto simp: service_answer_def image_iff)
    then show ?thesis using assms(1) fst by (metis map_of_is_SomeI)
  qed
  have rows: "length services_rows = 8" by (simp add: services_rows_def)
  note nth = services_fold_other [OF len rows]
  have row: "?rows ! service_row s = service_status (s = Networkd \<longrightarrow> ready = None)" for s
    using services_fold_row [OF len _ rows, of s] assms(1) fst at by simp
  have "?rows = [?rows ! 0, ?rows ! 1, ?rows ! 2, ?rows ! 3, ?rows ! 4, ?rows ! 5, ?rows ! 6, ?rows ! 7]"
    by (rule nth_equalityI) (auto simp: rows less_Suc_eq numeral_eq_Suc)
  also have "\<dots> = [''Status'', service_status (ready = None), getRegistrarStatus (last answers), green activeStatus,
     green activeStatus, green activeStatus, green activeStatus, green activeStatus]"
    using row [of Networkd] row [of Statistics] row [of Containerd] row [of Storaged] row [of Noded] row [of Powerd]
      nth assms(3) by (auto simp: service_status_def services_rows_def)
  finally show ?thesis by (simp add: serviceRender_def)
qed

text \<open>
  After that the registrar's row never changes: a node that is still registering when its last service
  answers shows \<open>In progress\<close> for good. The list of disks (a renderer that nothing starts) grows with every
  message once the number of pools has changed.
\<close>

lemma disk_keys_grow:
  assumes "\<And>xs. length (visit xs) = length xs" "keys \<noteq> []" "length pools \<noteq> length keys" "pools \<noteq> []"
  shows "length ((disk_keys visit pools ^^ n) keys) = length keys + n * length pools"
proof (induction n)
  case (Suc n)
  have "length ((disk_keys visit pools ^^ n) keys) \<noteq> length pools"
  proof (cases n)
    case (Suc m)
    then show ?thesis using Suc.IH assms(2) by simp
  qed (use assms in simp)
  then show ?case using Suc.IH assms(1) by (simp add: disk_keys_def)
qed simp

lemma addresses_text_concat:
  "addresses_text al = concat (case filter (\<lambda>a. fst a \<noteq> []) al of [] \<Rightarrow> [] | a # as \<Rightarrow> snd a # map (\<lambda>b. '', '' @ snd b) as)"
  if "\<forall>a \<in> set al. snd a \<noteq> []"
proof -
  have acc: "fold (\<lambda>(ip, text) buf. if ip = [] then buf else (if buf \<noteq> [] then buf @ '', '' else buf) @ text) al buf
      = buf @ concat (map (\<lambda>b. '', '' @ snd b) (filter (\<lambda>a. fst a \<noteq> []) al))"
    if "buf \<noteq> []" for al :: "(byte list \<times> string) list" and buf
    using that by (induction al arbitrary: buf) auto
  show ?thesis
    using that
  proof (induction al)
    case (Cons a al)
    then show ?case using acc [of "snd a" al] by (cases a) (auto simp: addresses_text_def)
  qed (simp add: addresses_text_def)
qed

text \<open>The colour follows the percentage except where it is exactly ninety, where the last one stays.\<close>

lemma mem_color_stays: "mem_color (Some 90) c = c" "u \<noteq> 90 \<Longrightarrow> mem_color (Some u) c = mem_color (Some u) d"
  by (auto simp: mem_color_def)

end
