(* ===== verification/Actions.thy ===== *)
theory Actions
  imports Prelude
begin

text \<open>
  Programs that can fail, panic or not return, as the bootstrap program and the daemons are written:
  outcomes, sequencing, cleanup, retries, and what holds of a program whatever it is run on.

  An action is a function from a state to its outcome and the state afterwards, or to nothing if it does
  not return. \<open>bnd\<close> hands an error to the caller, as \<open>?\<close> does in Rust and \<open>if err != nil { return err }\<close> in
  Go; a panic unwinds through it the same way. \<open>dropping d m\<close> is a scope that owns a value whose \<open>drop\<close> is
  \<open>d\<close>, or one that deferred \<open>d\<close>.
\<close>

section \<open>Outcomes\<close>

datatype 'a outcome = Ok 'a | Err goerr | Panic

type_synonym ('s, 'a) action = "'s \<Rightarrow> ('a outcome \<times> 's) option"

definition give :: "'a \<Rightarrow> ('s, 'a) action" where
  "give x s = Some (Ok x, s)"

definition bail :: "goerr \<Rightarrow> ('s, 'a) action" where
  "bail e s = Some (Err e, s)"

definition panic :: "('s, 'a) action" where
  "panic s = Some (Panic, s)"

definition bnd :: "('s, 'a) action \<Rightarrow> ('a \<Rightarrow> ('s, 'b) action) \<Rightarrow> ('s, 'b) action" where
  "bnd m f s =
     (case m s of
        None \<Rightarrow> None
      | Some (Ok x, s') \<Rightarrow> f x s'
      | Some (Err e, s') \<Rightarrow> Some (Err e, s')
      | Some (Panic, s') \<Rightarrow> Some (Panic, s'))"

lemma bnd_assoc: "bnd (bnd m f) g = bnd m (\<lambda>x. bnd (f x) g)"
  by (rule ext) (simp add: bnd_def split: option.splits prod.splits outcome.splits)

definition context_msg :: "string \<Rightarrow> ('s, 'a) action \<Rightarrow> ('s, 'a) action" where
  "context_msg t m s = (case m s of Some (Err e, s') \<Rightarrow> Some (Err (Wrapped e t), s') | r \<Rightarrow> r)"

definition dropping :: "('s \<Rightarrow> 's) \<Rightarrow> ('s, 'a) action \<Rightarrow> ('s, 'a) action" where
  "dropping d m s = map_option (\<lambda>(r, s'). (r, d s')) (m s)"

text \<open>A call that returns, and one that cannot fail.\<close>

definition call :: "('s, 'a res) eff \<Rightarrow> ('s, 'a) action" where
  "call f s = (case f s of (Inl e, s') \<Rightarrow> Some (Err e, s') | (Inr x, s') \<Rightarrow> Some (Ok x, s'))"

definition run_eff :: "('s, 'a) eff \<Rightarrow> ('s, 'a) action" where
  "run_eff f s = (case f s of (x, s') \<Rightarrow> Some (Ok x, s'))"

definition check_eff :: "('s, goerr option) eff \<Rightarrow> ('s, unit) action" where
  "check_eff f s = (case f s of (Some e, s') \<Rightarrow> Some (Err e, s') | (None, s') \<Rightarrow> Some (Ok (), s'))"

text \<open>An error that is already there, and a call over the message bus, which panics when the bus fails.\<close>

definition check :: "goerr option \<Rightarrow> ('s, unit) action" where
  "check e s = (case e of Some x \<Rightarrow> Some (Err x, s) | None \<Rightarrow> Some (Ok (), s))"

definition bus :: "('s, 'a option) eff \<Rightarrow> ('s, 'a) action" where
  "bus f s = (case f s of (None, s') \<Rightarrow> Some (Panic, s') | (Some x, s') \<Rightarrow> Some (Ok x, s'))"

text \<open>A program that waits for good, and one that waits as long as a flag is up.\<close>

definition blocked :: "('s, 'a) action" where
  "blocked s = None"

partial_function (option) wait_while :: "('s \<Rightarrow> bool) \<Rightarrow> ('s \<Rightarrow> 's) \<Rightarrow> ('s, unit) action" where
  "wait_while flag sleep s = (if flag s then wait_while flag sleep (sleep s) else Some (Ok (), s))"

declare wait_while.simps [code]

text \<open>An action on a part of the state.\<close>

definition on_part :: "('s \<Rightarrow> 'p) \<Rightarrow> ('p \<Rightarrow> 's \<Rightarrow> 's) \<Rightarrow> ('p, 'a) action \<Rightarrow> ('s, 'a) action" where
  "on_part get put m s = map_option (\<lambda>(r, p). (r, put p s)) (m (get s))"

lemmas action_defs = give_def bail_def panic_def call_def run_eff_def check_eff_def check_def bus_def

fun for_each :: "('a \<Rightarrow> ('s, unit) action) \<Rightarrow> 'a list \<Rightarrow> ('s, unit) action" where
  "for_each f [] = give ()"
| "for_each f (x # xs) = bnd (f x) (\<lambda>_. for_each f xs)"

text \<open>
  \<open>retry::retry\<close> of the crate \<open>retry\<close>: the operation again after each error as long as there is a delay to
  wait, which an exponential sequence without \<open>take\<close> always has. A panic is not caught.
\<close>

fun retry_take :: "nat \<Rightarrow> ('s, 'a) action \<Rightarrow> ('s, 'a) action" where
  "retry_take 0 m s = m s"
| "retry_take (Suc n) m s = (case m s of Some (Err e, s') \<Rightarrow> retry_take n m s' | r \<Rightarrow> r)"

partial_function (option) retry_forever :: "('s, 'a) action \<Rightarrow> ('s, 'a) action" where
  "retry_forever m s =
     (case m s of
        None \<Rightarrow> None
      | Some (r, s') \<Rightarrow> (case r of Err e \<Rightarrow> retry_forever m s' | _ \<Rightarrow> Some (r, s')))"

declare retry_forever.simps [code]

section \<open>What holds when an action returns\<close>

definition ensures :: "('s \<Rightarrow> bool) \<Rightarrow> ('s, 'a) action \<Rightarrow> ('a outcome \<Rightarrow> 's \<Rightarrow> bool) \<Rightarrow> bool" where
  "ensures P m Q \<longleftrightarrow> (\<forall>s r s'. P s \<longrightarrow> m s = Some (r, s') \<longrightarrow> Q r s')"

lemma ensuresI: "(\<And>s r s'. P s \<Longrightarrow> m s = Some (r, s') \<Longrightarrow> Q r s') \<Longrightarrow> ensures P m Q"
  by (simp add: ensures_def)

lemma ensuresD: "ensures P m Q \<Longrightarrow> P s \<Longrightarrow> m s = Some (r, s') \<Longrightarrow> Q r s'"
  by (simp add: ensures_def)

lemma ensures_bnd:
  assumes "ensures P m Q" "\<And>x. ensures (Q (Ok x)) (f x) R"
    and "\<And>e s. Q (Err e) s \<Longrightarrow> R (Err e) s" "\<And>s. Q Panic s \<Longrightarrow> R Panic s"
  shows "ensures P (bnd m f) R"
  using assms unfolding ensures_def bnd_def
  by (auto split: option.splits prod.splits outcome.splits)

definition keeps :: "('s \<Rightarrow> bool) \<Rightarrow> ('s, 'a) action \<Rightarrow> bool" where
  "keeps I m \<longleftrightarrow> ensures I m (\<lambda>_. I)"

lemma keepsI: "(\<And>s r s'. I s \<Longrightarrow> m s = Some (r, s') \<Longrightarrow> I s') \<Longrightarrow> keeps I m"
  by (simp add: keeps_def ensures_def)

lemma keepsD: "keeps I m \<Longrightarrow> I s \<Longrightarrow> m s = Some (r, s') \<Longrightarrow> I s'"
  unfolding keeps_def by (rule ensuresD)

lemma keeps_give [intro, simp]: "keeps I (give x)" "keeps I (bail e)" "keeps I panic"
  by (auto intro!: keepsI simp: action_defs)

lemma keeps_call [intro]: "(\<And>s. I s \<Longrightarrow> I (snd (f s))) \<Longrightarrow> keeps I (call f)"
  by (rule keepsI) (auto simp: call_def split: prod.splits sum.splits, metis snd_conv, metis snd_conv)

lemma keeps_run_eff [intro]: "(\<And>s. I s \<Longrightarrow> I (snd (f s))) \<Longrightarrow> keeps I (run_eff f)"
  by (rule keepsI) (auto simp: run_eff_def split: prod.splits, metis snd_conv)

lemma keeps_check_eff [intro]: "(\<And>s. I s \<Longrightarrow> I (snd (f s))) \<Longrightarrow> keeps I (check_eff f)"
  by (rule keepsI) (auto simp: check_eff_def split: prod.splits option.splits, metis snd_conv, metis snd_conv)

lemma keeps_bnd [intro]: "keeps I m \<Longrightarrow> (\<And>x. keeps I (f x)) \<Longrightarrow> keeps I (bnd m f)"
  unfolding keeps_def by (rule ensures_bnd [where Q = "\<lambda>_. I"])

lemma keeps_for_each [intro]: "(\<And>x. x \<in> set xs \<Longrightarrow> keeps I (f x)) \<Longrightarrow> keeps I (for_each f xs)"
  by (induction xs) auto

lemma keeps_context [intro]: "keeps I m \<Longrightarrow> keeps I (context_msg t m)"
  unfolding keeps_def ensures_def context_msg_def by (auto split: option.splits prod.splits outcome.splits)

lemma keeps_retry_take [intro]: "keeps I m \<Longrightarrow> keeps I (retry_take n m)"
proof (induction n)
  case (Suc n)
  show ?case
  proof (rule keepsI)
    fix s r s' assume s: "I s" and run: "retry_take (Suc n) m s = Some (r, s')"
    show "I s'"
    proof (cases "m s")
      case (Some p)
      obtain r1 s1 where p: "p = (r1, s1)" by force
      then have "I s1" using keepsD [OF Suc.prems s] Some by simp
      then show ?thesis using run Some p keepsD [OF Suc.IH [OF Suc.prems]] by (cases r1) auto
    qed (use run in simp)
  qed
qed (auto intro!: keepsI dest: keepsD)

text \<open>An action that does not panic and gives values with a property.\<close>

definition sound :: "('s, 'a) action \<Rightarrow> ('a \<Rightarrow> bool) \<Rightarrow> bool" where
  "sound m V \<longleftrightarrow>
     ensures (\<lambda>_. True) m (\<lambda>r _. case r of Ok x \<Rightarrow> V x | Err _ \<Rightarrow> True | Panic \<Rightarrow> False)"

lemma soundI:
  "(\<And>s x s'. m s = Some (Ok x, s') \<Longrightarrow> V x) \<Longrightarrow> (\<And>s s'. m s \<noteq> Some (Panic, s')) \<Longrightarrow> sound m V"
  by (auto simp: sound_def ensures_def split: outcome.splits)

lemma soundD:
  assumes "sound m V"
  shows "m s = Some (Ok x, s') \<Longrightarrow> V x" "m s \<noteq> Some (Panic, s')"
  using assms by (force simp: sound_def ensures_def)+

lemma sound_give: "V x \<Longrightarrow> sound (give x) V" and sound_bail: "sound (bail e) V"
  by (auto intro!: soundI simp: action_defs)

lemma sound_call: "(\<And>s x s'. f s = (Inr x, s') \<Longrightarrow> V x) \<Longrightarrow> sound (call f) V"
  by (rule soundI) (auto simp: call_def split: prod.splits sum.splits)

lemma sound_run_eff: "(\<And>s x s'. f s = (x, s') \<Longrightarrow> V x) \<Longrightarrow> sound (run_eff f) V"
  by (rule soundI) (auto simp: run_eff_def split: prod.splits)

lemma sound_check_eff: "V () \<Longrightarrow> sound (check_eff f) V"
  by (rule soundI) (auto simp: check_eff_def split: prod.splits option.splits)

lemma sound_bnd: "sound m V \<Longrightarrow> (\<And>x. V x \<Longrightarrow> sound (f x) U) \<Longrightarrow> sound (bnd m f) U"
  unfolding sound_def by (erule ensures_bnd) (auto simp: ensures_def)

lemma sound_weaken:
  assumes "sound m V" "\<And>x. V x \<Longrightarrow> U x"
  shows "sound m U"
  by (rule soundI) (use soundD [OF assms(1)] assms(2) in blast)+

lemma sound_context:
  assumes "sound m V"
  shows "sound (context_msg t m) V"
  by (rule soundI)
     (use soundD [OF assms] in \<open>auto simp: context_msg_def split: option.splits prod.splits outcome.splits\<close>)

lemma sound_dropping:
  assumes "sound m V"
  shows "sound (dropping d m) V"
  by (rule soundI) (use soundD [OF assms] in \<open>auto simp: dropping_def\<close>)

lemma sound_simps [simp]:
  "sound (give x) V \<longleftrightarrow> V x" "sound (bail e) V" "sound (call f) (\<lambda>_. True)" "sound (run_eff g) (\<lambda>_. True)"
  "sound (check_eff h) (\<lambda>_. True)"
  by (auto intro: sound_give sound_bail sound_call sound_run_eff sound_check_eff) (simp add: sound_def ensures_def give_def)

lemma sound_bnd_true [simp]: "sound m (\<lambda>_. True) \<Longrightarrow> (\<And>x. sound (f x) U) \<Longrightarrow> sound (bnd m f) U"
  by (rule sound_bnd)

lemma sound_if: "(b \<Longrightarrow> sound m V) \<Longrightarrow> (\<not> b \<Longrightarrow> sound n V) \<Longrightarrow> sound (if b then m else n) V"
  by simp

lemma sound_for_each: "(\<And>x. x \<in> set xs \<Longrightarrow> sound (f x) (\<lambda>_. True)) \<Longrightarrow> sound (for_each f xs) (\<lambda>_. True)"
  by (induction xs) (auto intro: sound_give sound_bnd [where V = "\<lambda>_. True"])

lemma sound_retry_take:
  assumes "sound m V"
  shows "sound (retry_take n m) V"
proof (induction n)
  case (Suc n)
  show ?case
    by (rule soundI)
       (use soundD [OF assms] soundD [OF Suc.IH] in \<open>auto split: option.splits prod.splits outcome.splits\<close>)
qed (simp add: assms)

text \<open>What a retry without end returns, some attempt returned, after the failure of those before it.\<close>

lemma retry_forever_unfold:
  "retry_forever m s =
     (case m s of
        None \<Rightarrow> None
      | Some (Err e, s') \<Rightarrow> retry_forever m s'
      | Some (Ok x, s') \<Rightarrow> Some (Ok x, s')
      | Some (Panic, s') \<Rightarrow> Some (Panic, s'))"
  by (subst retry_forever.simps) (auto split: option.splits prod.splits outcome.splits)

lemma retry_forever_induct:
  assumes run: "retry_forever m s = Some (r, s')" and I: "I s"
    and err: "\<And>s e s'. I s \<Longrightarrow> m s = Some (Err e, s') \<Longrightarrow> I s'"
  shows "\<exists>u. I u \<and> m u = Some (r, s') \<and> (\<forall>e. r \<noteq> Err e)"
proof -
  let ?P = "\<lambda>m' s p. m' = m \<longrightarrow> I s \<longrightarrow> (\<exists>u. I u \<and> m u = Some p \<and> (\<forall>e. fst p \<noteq> Err e))"
  have "?P m s (r, s')"
  proof (rule retry_forever.raw_induct [where P = ?P, OF _ run], intro impI)
    fix again m' s p
    assume ih: "\<And>n u q. again n u = Some q \<Longrightarrow> ?P n u q"
      and eq: "(case m' s of None \<Rightarrow> None
                | Some (r, s') \<Rightarrow> (case r of Err e \<Rightarrow> again m' s' | _ \<Rightarrow> Some (r, s'))) = Some p"
      and "m' = m" "I s"
    then obtain r1 s1 where m: "m s = Some (r1, s1)" by (cases "m s") auto
    then show "\<exists>u. I u \<and> m u = Some p \<and> (\<forall>e. fst p \<noteq> Err e)"
    proof (cases r1)
      case (Err e)
      then show ?thesis using ih [of m s1 p] err [OF \<open>I s\<close>] eq m \<open>m' = m\<close> by auto
    qed (use eq m \<open>m' = m\<close> \<open>I s\<close> in auto)
  qed
  then show ?thesis using I by simp
qed

lemma retry_forever_returns:
  "retry_take n m s = Some (Ok x, s') \<Longrightarrow> retry_forever m s = Some (Ok x, s')"
proof (induction n arbitrary: s)
  case (Suc n)
  then show ?case
    by (subst retry_forever_unfold) (auto split: option.splits prod.splits outcome.splits)
qed (simp add: retry_forever_unfold)

text \<open>An action that never succeeds.\<close>

definition never_ok :: "('s, 'a) action \<Rightarrow> bool" where
  "never_ok m \<longleftrightarrow> (\<forall>s x s'. m s \<noteq> Some (Ok x, s'))"

lemma never_okD: "never_ok m \<Longrightarrow> m s \<noteq> Some (Ok x, s')"
  by (simp add: never_ok_def)

lemma never_ok_bnd: "never_ok m \<Longrightarrow> never_ok (bnd m f)"
  by (auto simp: never_ok_def bnd_def split: option.splits prod.splits outcome.splits)

lemma never_ok_bnd_then: "(\<And>x. never_ok (f x)) \<Longrightarrow> never_ok (bnd m f)"
  by (auto simp: never_ok_def bnd_def split: option.splits prod.splits outcome.splits)

lemma never_ok_context: "never_ok m \<Longrightarrow> never_ok (context_msg t m)"
  by (auto simp: never_ok_def context_msg_def split: option.splits prod.splits outcome.splits)

lemma never_ok_retry_take: "never_ok m \<Longrightarrow> never_ok (retry_take n m)"
proof (induction n)
  case (Suc n)
  then show ?case by (auto simp: never_ok_def split: option.splits prod.splits outcome.splits)
qed (simp add: never_ok_def)

lemma keeps_retry_forever [intro]:
  assumes "keeps I m"
  shows "keeps I (retry_forever m)"
proof (rule keepsI)
  fix s r s' assume "I s" "retry_forever m s = Some (r, s')"
  then obtain u where "I u" "m u = Some (r, s')"
    using retry_forever_induct [where I = I] keepsD [OF assms] by blast
  then show "I s'" using keepsD [OF assms] by blast
qed

lemma sound_retry_forever:
  assumes "sound m V"
  shows "sound (retry_forever m) V"
proof (rule soundI)
  show "V x" if "retry_forever m s = Some (Ok x, s')" for s x s'
    using retry_forever_induct [OF that, where I = "\<lambda>_. True"] soundD(1) [OF assms] by blast
  show "retry_forever m s \<noteq> Some (Panic, s')" for s s'
    using retry_forever_induct [of m s Panic s' "\<lambda>_. True"] soundD(2) [OF assms] by blast
qed

text \<open>An action that returns whatever its state.\<close>

definition returns :: "('s, 'a) action \<Rightarrow> bool" where
  "returns m \<longleftrightarrow> (\<forall>s. m s \<noteq> None)"

lemma returns_simps [simp]:
  "returns (give x)" "returns (bail e)" "returns panic" "returns (call f)" "returns (run_eff g)" "returns (check_eff h)"
  by (auto simp: returns_def action_defs split: prod.splits sum.splits option.splits)

lemma returns_rules [simp]:
  "returns m \<Longrightarrow> (\<And>x. returns (f x)) \<Longrightarrow> returns (bnd m f)"
  "returns m \<Longrightarrow> returns (context_msg t m)"
  "returns m \<Longrightarrow> returns (dropping d m)"
  by (auto simp: returns_def bnd_def context_msg_def dropping_def split: option.splits prod.splits outcome.splits)

lemma returns_retry_take [simp]: "returns m \<Longrightarrow> returns (retry_take n m)"
proof (induction n)
  case (Suc n)
  then show ?case unfolding returns_def by (auto split: option.splits prod.splits outcome.splits)
qed (simp add: returns_def)

lemma returns_for_each [simp]: "(\<And>x. returns (f x)) \<Longrightarrow> returns (for_each f xs)"
  by (induction xs) simp_all

end
