(* ===== verification/Daemon_Std.thy ===== *)
theory Daemon_Std
  imports Actions Go_Std
begin

text \<open>
  A daemon of the node as a process: the world, the goroutines it started, the objects it offers on the
  message bus and the lines it printed. What a program adds to one of these lists, wherever it breaks off,
  is followed with \<open>adds\<close>.
\<close>

section \<open>Processes\<close>

record ('w, 'r) daemon =
  da_world :: 'w
  da_runs :: "'r list"
  da_objects :: "string list"
  da_out :: "string list"

definition within :: "('w, 'a) action \<Rightarrow> (('w, 'r) daemon, 'a) action" where
  "within = on_part da_world (\<lambda>w s. s\<lparr>da_world := w\<rparr>)"

definition go :: "'r \<Rightarrow> (('w, 'r) daemon, unit) action" where
  "go g = run_eff (\<lambda>s. ((), s\<lparr>da_runs := da_runs s @ [g]\<rparr>))"

definition expose :: "string \<Rightarrow> (('w, 'r) daemon, unit) action" where
  "expose obj = run_eff (\<lambda>s. ((), s\<lparr>da_objects := da_objects s @ [obj]\<rparr>))"

definition println :: "string \<Rightarrow> (('w, 'r) daemon, unit) action" where
  "println line = run_eff (\<lambda>s. ((), s\<lparr>da_out := da_out s @ [line]\<rparr>))"

text \<open>A call whose error is logged; one that answers a pair of a value and an error; the latter over the bus.\<close>

definition logged :: "('w, goerr option) eff \<Rightarrow> ('w, unit) action" where
  "logged f = run_eff (\<lambda>w. ((), snd (f w)))"

definition gw_call :: "('w, 'a \<times> goerr option) eff \<Rightarrow> ('w, 'a) action" where
  "gw_call f w = (case f w of ((x, None), w1) \<Rightarrow> Some (Ok x, w1) | ((x, Some e), w1) \<Rightarrow> Some (Err e, w1))"

definition bus_res :: "('w, ('a \<times> goerr option) option) eff \<Rightarrow> ('w, 'a) action" where
  "bus_res f = bnd (bus f) (\<lambda>(x, err). case err of Some e \<Rightarrow> bail e | None \<Rightarrow> give x)"

text \<open>\<open>PrivateKey.Public\<close> of \<open>crypto/ed25519\<close>: the second half of the key; a key shorter than the seed panics.\<close>

definition ed25519_public :: "byte list \<Rightarrow> byte list" where
  "ed25519_public sk = take 32 (drop 32 sk @ replicate 32 0)"

text \<open>The exit status: \<open>log.Fatal\<close> and \<open>os.Exit(1)\<close> are 1, a panic is 2.\<close>

definition exit_status :: "('s, unit) action \<Rightarrow> 's \<Rightarrow> nat option" where
  "exit_status m s =
     map_option (\<lambda>(r, _). case r of Ok _ \<Rightarrow> 0 | Err _ \<Rightarrow> 1 | Panic \<Rightarrow> 2) (m s)"

lemma within_run: "within m s = Some (r, s') \<longleftrightarrow> (\<exists>w. m (da_world s) = Some (r, w) \<and> s' = s\<lparr>da_world := w\<rparr>)"
  by (auto simp: within_def on_part_def)

lemma bnd_okE:
  assumes "bnd m f w = Some (Ok y, w')"
  obtains x w1 where "m w = Some (Ok x, w1)" "f x w1 = Some (Ok y, w')"
  using assms by (auto simp: bnd_def split: option.splits prod.splits outcome.splits)

lemma context_ok [simp]: "context_msg t m w = Some (Ok x, w') \<longleftrightarrow> m w = Some (Ok x, w')"
  by (auto simp: context_msg_def split: option.splits prod.splits outcome.splits)

lemma call_ok [simp]: "call f w = Some (Ok x, w') \<longleftrightarrow> f w = (Inr x, w')"
  by (auto simp: call_def split: prod.splits sum.splits)

lemma check_eff_ok [simp]: "check_eff f w = Some (Ok u, w') \<longleftrightarrow> f w = (None, w')"
  by (auto simp: check_eff_def split: prod.splits option.splits)

lemma gw_call_ok [simp]: "gw_call f w = Some (Ok x, w') \<longleftrightarrow> f w = ((x, None), w')"
  by (auto simp: gw_call_def split: prod.splits option.splits)

lemma bus_ok [simp]: "bus f w = Some (Ok x, w') \<longleftrightarrow> f w = (Some x, w')"
  by (auto simp: bus_def split: prod.splits option.splits)

section \<open>What a program adds\<close>

definition silent :: "('s \<Rightarrow> 'r list) \<Rightarrow> ('s, 'a) action \<Rightarrow> bool" where
  "silent acc m \<longleftrightarrow> (\<forall>s r s'. m s = Some (r, s') \<longrightarrow> acc s' = acc s)"

definition adds :: "('s \<Rightarrow> 'r list) \<Rightarrow> ('s, 'a) action \<Rightarrow> ('r list \<Rightarrow> bool) \<Rightarrow> bool" where
  "adds acc m P \<longleftrightarrow> (\<forall>s r s'. m s = Some (r, s') \<longrightarrow> (\<exists>rs. acc s' = acc s @ rs \<and> P rs))"

lemma silent_basic [simp]: "silent acc (give x)" "silent acc (bail e)" "silent acc (check err)" "silent acc panic"
  "silent acc blocked"
  by (auto simp: silent_def action_defs blocked_def split: option.splits)

lemma silent_daemon [simp]:
  "silent da_runs (within m)" "silent da_objects (within m)"
  "silent da_runs (expose obj)" "silent da_objects (go g)" "silent da_runs (println t)" "silent da_objects (println t)"
  by (auto simp: silent_def within_run expose_def go_def println_def run_eff_def)

lemma silent_context [simp]: "silent acc m \<Longrightarrow> silent acc (context_msg t m)"
  unfolding silent_def context_msg_def by (auto split: option.splits prod.splits outcome.splits)

lemma silent_bnd:
  assumes "silent acc m" "\<And>x. silent acc (f x)"
  shows "silent acc (bnd m f)"
  using assms unfolding silent_def bnd_def by (fastforce split: option.splits prod.splits outcome.splits)

lemma adds_nothing: "silent acc m \<Longrightarrow> P [] \<Longrightarrow> adds acc m P"
  by (force simp: adds_def silent_def)

lemma adds_bnd:
  assumes "silent acc m" "P []"
    and "\<And>x s s'. m s = Some (Ok x, s') \<Longrightarrow> adds acc (f x) P"
  shows "adds acc (bnd m f) P"
  unfolding adds_def
proof (intro allI impI)
  fix s r s' assume run: "bnd m f s = Some (r, s')"
  then obtain q u where m: "m s = Some (q, u)" by (auto simp: bnd_def split: option.splits)
  have u: "acc u = acc s" using assms(1) m by (auto simp: silent_def)
  show "\<exists>rs. acc s' = acc s @ rs \<and> P rs"
  proof (cases q)
    case (Ok x)
    then show ?thesis using assms(3) [of s x u] m run u by (fastforce simp: bnd_def adds_def)
  qed (use m run u assms(2) in \<open>auto simp: bnd_def\<close>)
qed

lemma adds_one:
  assumes one: "\<And>s. \<exists>u. m s = Some (Ok (), u) \<and> acc u = acc s @ [x]" and rest: "\<And>v. adds acc (f v) (\<lambda>rs. P (x # rs))"
  shows "adds acc (bnd m f) P"
  unfolding adds_def
proof (intro allI impI)
  fix s r s' assume run: "bnd m f s = Some (r, s')"
  obtain u where u: "m s = Some (Ok (), u)" "acc u = acc s @ [x]" using one by blast
  then have "f () u = Some (r, s')" using run by (simp add: bnd_def)
  then obtain rs where "acc s' = (acc s @ [x]) @ rs" "P (x # rs)"
    using rest u(2) unfolding adds_def by fastforce
  then show "\<exists>rs. acc s' = acc s @ rs \<and> P rs" by simp
qed

lemma adds_go: "(\<And>v. adds da_runs (f v) (\<lambda>rs. P (g # rs))) \<Longrightarrow> adds da_runs (bnd (go g) f) P"
  by (rule adds_one) (auto simp: go_def run_eff_def)

lemma adds_expose: "(\<And>v. adds da_objects (f v) (\<lambda>rs. P (obj # rs))) \<Longrightarrow> adds da_objects (bnd (expose obj) f) P"
  by (rule adds_one) (auto simp: expose_def run_eff_def)

lemma adds_last: "P [g] \<Longrightarrow> adds da_runs (go g) P"
  by (simp add: adds_def go_def run_eff_def)

lemma adds_if: "(b \<Longrightarrow> adds acc m P) \<Longrightarrow> (\<not> b \<Longrightarrow> adds acc n P) \<Longrightarrow> adds acc (if b then m else n) P"
  by simp

lemma adds_pair: "(\<And>a b. x = (a, b) \<Longrightarrow> adds acc (f a b) P) \<Longrightarrow> adds acc (case x of (a, b) \<Rightarrow> f a b) P"
  by (cases x) simp

lemma addsD: "adds acc m P \<Longrightarrow> m s = Some (r, s') \<Longrightarrow> acc s = [] \<Longrightarrow> P (acc s')"
  unfolding adds_def by force

end
