(* ===== verification/Internet.thy ===== *)
theory Internet
  imports Daemon_Std
begin

text \<open>
  \<open>cmds/internet/main.go\<close>: the first connection of a node. An interface that reaches the internet is
  attached to the bridge \<open>zos\<close> with the configured VLANs, a DHCP client is started on the bridge, and the
  connection is tested. The packages of zosbase and \<open>netlink\<close> are parameters.
\<close>

type_synonym vlan = "16 word"

section \<open>The libraries\<close>

text \<open>
  A link is its name; \<open>'c\<close> is the result of probing the interfaces. \<open>Retry\<close> is \<open>backoff.RetryNotify\<close> with
  the default exponential policy.
\<close>

record ('w, 'c) net_lib =
  nl_PrivVlan :: "vlan option"
  nl_PubVlan :: "vlan option"
  nl_SetLoUp :: "('w, goerr option) eff"
  nl_AnalyzeLinks :: "vlan option \<Rightarrow> ('w, 'c res) eff"
  nl_SelectZOS :: "'c \<Rightarrow> string res"
  nl_CreateDefaultBridge :: "string \<Rightarrow> vlan option \<Rightarrow> ('w, string res) eff"
  nl_Sleep :: "'w \<Rightarrow> 'w"
  nl_LinkByName :: "string \<Rightarrow> ('w, string res) eff"
  nl_AttachNicWithMac :: "string \<Rightarrow> string \<Rightarrow> ('w, goerr option) eff"
  nl_IPv6Disable :: "string \<Rightarrow> ('w, goerr option) eff"
  nl_LinkSetUp :: "string \<Rightarrow> ('w, goerr option) eff"
  nl_BridgeVlanDel :: "string \<Rightarrow> vlan \<Rightarrow> bool \<Rightarrow> bool \<Rightarrow> ('w, goerr option) eff"
  nl_BridgeVlanAdd :: "string \<Rightarrow> vlan \<Rightarrow> bool \<Rightarrow> bool \<Rightarrow> ('w, goerr option) eff"
  nl_DestroyOlderService :: "string \<Rightarrow> ('w, goerr option) eff"
  nl_CreateService :: "string \<Rightarrow> ('w, goerr option) eff"
  nl_StartService :: "string \<Rightarrow> ('w, goerr option) eff"
  nl_GetBridge :: "string \<Rightarrow> ('w, string res) eff"
  nl_AddrList :: "string \<Rightarrow> ('w, string list res) eff"
  nl_RouteList :: "string \<Rightarrow> ('w, string list res) eff"
  nl_Dial :: "string \<Rightarrow> ('w, goerr option) eff"
  nl_ConClose :: "string \<Rightarrow> ('w, goerr option) eff"
  nl_Retry :: "('w, goerr option) eff \<Rightarrow> ('w, goerr option) eff"

definition DefaultBridge :: string where
  "DefaultBridge = ''zos''"

section \<open>The interface of zos\<close>

text \<open>The VLANs of a link, the two Booleans being \<open>pvid\<close> and \<open>untagged\<close>.\<close>

definition default_vlan :: "('w, 'c) net_lib \<Rightarrow> string \<Rightarrow> ('w, unit) action" where
  "default_vlan l link =
     (if nl_PrivVlan l \<noteq> None \<and> nl_PubVlan l \<noteq> None
      then context_msg (''failed to delete default vlan on device '' @ squote link) (check_eff (nl_BridgeVlanDel l link 1 True True))
      else give ())"

definition add_vlan :: "('w, 'c) net_lib \<Rightarrow> string \<Rightarrow> vlan option \<Rightarrow> ('w, unit) action" where
  "add_vlan l link vid =
     (case vid of
        None \<Rightarrow> give ()
      | Some v \<Rightarrow> context_msg (''failed to set vlan on device '' @ squote link) (check_eff (nl_BridgeVlanAdd l link v False False)))"

definition attach_link :: "('w, 'c) net_lib \<Rightarrow> string \<Rightarrow> string \<Rightarrow> ('w, unit) action" where
  "attach_link l zosChild br =
     bnd (context_msg (''could not get link '' @ zosChild) (call (nl_LinkByName l zosChild))) (\<lambda>link.
     bnd (check_eff (nl_AttachNicWithMac l link br)) (\<lambda>_.
     bnd (context_msg (''failed to disable ip6 on zos slave '' @ zosChild) (check_eff (nl_IPv6Disable l zosChild))) (\<lambda>_.
     bnd (context_msg (''could not bring '' @ zosChild @ '' up'') (check_eff (nl_LinkSetUp l link))) (\<lambda>_.
     bnd (default_vlan l link) (\<lambda>_.
     bnd (add_vlan l link (nl_PrivVlan l)) (\<lambda>_.
     add_vlan l link (nl_PubVlan l)))))))"

definition start_dhcp :: "('w, 'c) net_lib \<Rightarrow> ('w, unit) action" where
  "start_dhcp l =
     bnd (check_eff (nl_DestroyOlderService l DefaultBridge)) (\<lambda>_.
     bnd (check_eff (nl_CreateService l DefaultBridge)) (\<lambda>_.
     check_eff (nl_StartService l DefaultBridge)))"

definition configure_once :: "('w, 'c) net_lib \<Rightarrow> ('w, unit) action" where
  "configure_once l =
     bnd (call (nl_AnalyzeLinks l (nl_PrivVlan l))) (\<lambda>ifaceConfigs.
     bnd (call (Pair (nl_SelectZOS l ifaceConfigs))) (\<lambda>zosChild.
     bnd (call (nl_CreateDefaultBridge l DefaultBridge (nl_PrivVlan l))) (\<lambda>br.
     bnd (run_eff (\<lambda>w. ((), nl_Sleep l w))) (\<lambda>_.
     bnd (attach_link l zosChild br) (\<lambda>_.
     start_dhcp l)))))"

text \<open>An action that always returns and does not panic, as a call for the retry library.\<close>

definition attempt_of :: "('w, unit) action \<Rightarrow> ('w, goerr option) eff" where
  "attempt_of m w = (case m w of Some (Err e, w1) \<Rightarrow> (Some e, w1) | Some (_, w1) \<Rightarrow> (None, w1) | None \<Rightarrow> (None, w))"

definition configureZOS :: "('w, 'c) net_lib \<Rightarrow> ('w, goerr option) eff" where
  "configureZOS l = nl_Retry l (attempt_of (configure_once l))"

section \<open>The test of the connection\<close>

definition debugZos :: "('w, 'c) net_lib \<Rightarrow> ('w, unit) action" where
  "debugZos l =
     bnd (context_msg ''failed to get default bridge'' (call (nl_GetBridge l DefaultBridge))) (\<lambda>br.
     bnd (context_msg ''failed to list bridge addresses'' (call (nl_AddrList l br))) (\<lambda>_.
     bnd (context_msg ''failed to list bridge routes'' (call (nl_RouteList l br))) (\<lambda>_.
     give ())))"

definition check_addresses :: "string list" where
  "check_addresses = [''bootstrap.grid.tf:http'', ''v4.hub.grid.tf:http'']"

definition check_one :: "('w, 'c) net_lib \<Rightarrow> string \<Rightarrow> ('w, goerr option) eff" where
  "check_one l address w =
     (case nl_Dial l address w of
        (Some err, w1) \<Rightarrow> (Some (Wrapped err (''failed to reach '' @ address)), w1)
      | (None, w1) \<Rightarrow> nl_ConClose l address w1)"

definition check_once :: "('w, 'c) net_lib \<Rightarrow> ('w, goerr option) eff" where
  "check_once l w = for_err (check_one l) check_addresses (snd (attempt_of (debugZos l) w))"

definition check_connection :: "('w, 'c) net_lib \<Rightarrow> ('w, goerr option) eff" where
  "check_connection l = nl_Retry l (check_once l)"

section \<open>The program\<close>

text \<open>The exit status; the flag that prints the version is left out.\<close>

definition internet_main :: "('w, 'c) net_lib \<Rightarrow> ('w, nat) eff" where
  "internet_main l w =
     (case nl_SetLoUp l w of
        (Some err, w1) \<Rightarrow> (0, w1)
      | (None, w1) \<Rightarrow>
          (case configureZOS l w1 of
             (Some err, w2) \<Rightarrow> (1, w2)
           | (None, w2) \<Rightarrow>
               (case check_connection l w2 of
                  (Some err, w3) \<Rightarrow> (1, w3)
                | (None, w3) \<Rightarrow> (0, w3))))"

section \<open>What the kernel holds\<close>

text \<open>
  The state of the links: the bridge a link is attached to, which links are up, for which IPv6 is off, the
  VLANs of a link, and the interfaces with a DHCP client. What the libraries promise: a call that succeeds
  makes its change to the link it names, and the others change nothing.
\<close>

record net_view =
  nv_master :: "string \<rightharpoonup> string"
  nv_up :: "string set"
  nv_noIPv6 :: "string set"
  nv_vlans :: "string \<Rightarrow> vlan set"
  nv_dhcp :: "string set"

definition makes :: "('w \<Rightarrow> net_view) \<Rightarrow> ('w, goerr option) eff \<Rightarrow> (net_view \<Rightarrow> net_view) \<Rightarrow> bool" where
  "makes view f g \<longleftrightarrow> (\<forall>w w'. f w = (None, w') \<longrightarrow> view w' = g (view w))"

definition net_laws :: "('w, 'c) net_lib \<Rightarrow> ('w \<Rightarrow> net_view) \<Rightarrow> bool" where
  "net_laws l view \<longleftrightarrow>
     (\<forall>n w link w'. nl_LinkByName l n w = (Inr link, w') \<longrightarrow> link = n \<and> view w' = view w) \<and>
     (\<forall>link br. makes view (nl_AttachNicWithMac l link br) (\<lambda>v. v\<lparr>nv_master := (nv_master v)(link \<mapsto> br)\<rparr>)) \<and>
     (\<forall>link. makes view (nl_IPv6Disable l link) (\<lambda>v. v\<lparr>nv_noIPv6 := insert link (nv_noIPv6 v)\<rparr>)) \<and>
     (\<forall>link. makes view (nl_LinkSetUp l link) (\<lambda>v. v\<lparr>nv_up := insert link (nv_up v)\<rparr>)) \<and>
     (\<forall>link vid. makes view (nl_BridgeVlanDel l link vid True True)
        (\<lambda>v. v\<lparr>nv_vlans := (nv_vlans v)(link := nv_vlans v link - {vid})\<rparr>)) \<and>
     (\<forall>link vid. makes view (nl_BridgeVlanAdd l link vid False False)
        (\<lambda>v. v\<lparr>nv_vlans := (nv_vlans v)(link := insert vid (nv_vlans v link))\<rparr>)) \<and>
     (\<forall>n. makes view (nl_DestroyOlderService l n) (\<lambda>v. v\<lparr>nv_dhcp := nv_dhcp v - {n}\<rparr>)) \<and>
     (\<forall>n. makes view (nl_CreateService l n) (\<lambda>v. v)) \<and>
     (\<forall>n. makes view (nl_StartService l n) (\<lambda>v. v\<lparr>nv_dhcp := insert n (nv_dhcp v)\<rparr>)) \<and>
     (\<forall>w. view (nl_Sleep l w) = view w)"

text \<open>The VLANs of the interface: the default one goes when both networks have their own.\<close>

definition zos_vlans :: "vlan option \<Rightarrow> vlan option \<Rightarrow> vlan set \<Rightarrow> vlan set" where
  "zos_vlans priv pub before =
     (if priv \<noteq> None \<and> pub \<noteq> None then before - {1} else before) \<union> set_option priv \<union> set_option pub"

lemma makesD: "makes view f g \<Longrightarrow> f w = (None, w') \<Longrightarrow> view w' = g (view w)"
  by (simp add: makes_def)

lemma net_lawsD:
  assumes "net_laws l view"
  shows "nl_LinkByName l n w = (Inr link, w') \<Longrightarrow> link = n \<and> view w' = view w"
    and "nl_AttachNicWithMac l link br w = (None, w') \<Longrightarrow> view w' = (view w)\<lparr>nv_master := (nv_master (view w))(link \<mapsto> br)\<rparr>"
    and "nl_IPv6Disable l link w = (None, w') \<Longrightarrow> view w' = (view w)\<lparr>nv_noIPv6 := insert link (nv_noIPv6 (view w))\<rparr>"
    and "nl_LinkSetUp l link w = (None, w') \<Longrightarrow> view w' = (view w)\<lparr>nv_up := insert link (nv_up (view w))\<rparr>"
    and "nl_BridgeVlanDel l link vid True True w = (None, w') \<Longrightarrow>
      view w' = (view w)\<lparr>nv_vlans := (nv_vlans (view w))(link := nv_vlans (view w) link - {vid})\<rparr>"
    and "nl_BridgeVlanAdd l link vid False False w = (None, w') \<Longrightarrow>
      view w' = (view w)\<lparr>nv_vlans := (nv_vlans (view w))(link := insert vid (nv_vlans (view w) link))\<rparr>"
    and "nl_DestroyOlderService l n w = (None, w') \<Longrightarrow> view w' = (view w)\<lparr>nv_dhcp := nv_dhcp (view w) - {n}\<rparr>"
    and "nl_CreateService l n w = (None, w') \<Longrightarrow> view w' = view w"
    and "nl_StartService l n w = (None, w') \<Longrightarrow> view w' = (view w)\<lparr>nv_dhcp := insert n (nv_dhcp (view w))\<rparr>"
    and "view (nl_Sleep l w) = view w"
  using assms unfolding net_laws_def makes_def by (simp_all only:)

lemma default_vlan_view:
  assumes "net_laws l view" "default_vlan l k w = Some (Ok u, w')"
  shows "view w' = (view w)\<lparr>nv_vlans := (nv_vlans (view w))(k :=
    (if nl_PrivVlan l \<noteq> None \<and> nl_PubVlan l \<noteq> None then nv_vlans (view w) k - {1} else nv_vlans (view w) k))\<rparr>"
  using assms(2) net_lawsD(5) [OF assms(1)] by (auto simp: default_vlan_def give_def split: if_splits)

lemma add_vlan_view:
  assumes "net_laws l view" "add_vlan l k vid w = Some (Ok u, w')"
  shows "view w' = (view w)\<lparr>nv_vlans := (nv_vlans (view w))(k := nv_vlans (view w) k \<union> set_option vid)\<rparr>"
  using assms(2) net_lawsD(6) [OF assms(1)] by (auto simp: add_vlan_def give_def split: option.splits)

lemma attach_link_view:
  assumes laws: "net_laws l view" and run: "attach_link l link br w = Some (Ok u, w')"
  shows "view w' = (view w)\<lparr>nv_master := (nv_master (view w))(link \<mapsto> br), nv_up := insert link (nv_up (view w)),
    nv_noIPv6 := insert link (nv_noIPv6 (view w)),
    nv_vlans := (nv_vlans (view w))(link := zos_vlans (nl_PrivVlan l) (nl_PubVlan l) (nv_vlans (view w) link))\<rparr>"
proof -
  from run [unfolded attach_link_def] obtain link' w1 w2 w3 w4 w5 w6 a b where
    byname: "nl_LinkByName l link w = (Inr link', w1)" and
    attach: "nl_AttachNicWithMac l link' br w1 = (None, w2)" and
    ipv6: "nl_IPv6Disable l link w2 = (None, w3)" and
    up: "nl_LinkSetUp l link' w3 = (None, w4)" and
    dv: "default_vlan l link' w4 = Some (Ok a, w5)" and
    priv: "add_vlan l link' (nl_PrivVlan l) w5 = Some (Ok b, w6)" and
    pub: "add_vlan l link' (nl_PubVlan l) w6 = Some (Ok u, w')"
    by (elim bnd_okE) simp
  have [simp]: "link' = link" using net_lawsD(1) [OF laws byname] by simp
  show ?thesis
    using net_lawsD(1) [OF laws byname] net_lawsD(2) [OF laws attach] net_lawsD(3) [OF laws ipv6]
      net_lawsD(4) [OF laws up] default_vlan_view [OF laws dv] add_vlan_view [OF laws priv] add_vlan_view [OF laws pub]
    by (simp add: zos_vlans_def Un_assoc)
qed

lemma start_dhcp_view:
  assumes laws: "net_laws l view" and run: "start_dhcp l w = Some (Ok u, w')"
  shows "view w' = (view w)\<lparr>nv_dhcp := insert DefaultBridge (nv_dhcp (view w))\<rparr>"
proof -
  from run [unfolded start_dhcp_def] obtain w1 w2 where
    d: "nl_DestroyOlderService l DefaultBridge w = (None, w1)" and
    c: "nl_CreateService l DefaultBridge w1 = (None, w2)" and
    s: "nl_StartService l DefaultBridge w2 = (None, w')"
    by (elim bnd_okE) simp
  show ?thesis
    using net_lawsD(7) [OF laws d] net_lawsD(8) [OF laws c] net_lawsD(9) [OF laws s] by simp
qed

lemma attempt_of_ok:
  assumes "attempt_of m w = (None, w')" and "returns m" and "\<And>v v'. m v \<noteq> Some (Panic, v')"
  shows "\<exists>x. m w = Some (Ok x, w')"
proof -
  obtain r w1 where "m w = Some (r, w1)" using assms(2) unfolding returns_def by (metis option.exhaust prod.exhaust)
  then show ?thesis using assms(1,3) by (cases r) (auto simp: attempt_of_def)
qed

lemma configure_once_total:
  "returns (configure_once l)" "configure_once l w \<noteq> Some (Panic, w')"
proof -
  note defs = configure_once_def attach_link_def default_vlan_def add_vlan_def start_dhcp_def
  show "returns (configure_once l)" unfolding defs by (simp split: option.splits)
  have "sound (configure_once l) (\<lambda>_. True)" unfolding defs by (simp add: sound_context split: option.splits)
  then show "configure_once l w \<noteq> Some (Panic, w')" by (rule soundD)
qed

text \<open>
  C24. The network bootstrap ends with the node connected: when it succeeds, an interface that the probing
  found fit, and that the selection chose, is attached to the bridge, up and without IPv6; it has the
  private and the public VLAN where they are configured, and the default one unless both are or one of
  them is it; nothing else about links has changed since the bridge was made, and the DHCP client of the
  bridge runs.
\<close>

theorem configureZOS_connects:
  assumes laws: "net_laws l view" and ret: "retry_laws (nl_Retry l)" and ok: "configureZOS l w = (None, w')"
  shows "\<exists>u cfgs w1 link br w2.
    nl_AnalyzeLinks l (nl_PrivVlan l) u = (Inr cfgs, w1) \<and> nl_SelectZOS l cfgs = Inr link \<and>
    nl_CreateDefaultBridge l DefaultBridge (nl_PrivVlan l) w1 = (Inr br, w2) \<and>
    view w' = (view w2)\<lparr>nv_master := (nv_master (view w2))(link \<mapsto> br), nv_up := insert link (nv_up (view w2)),
      nv_noIPv6 := insert link (nv_noIPv6 (view w2)),
      nv_vlans := (nv_vlans (view w2))(link := zos_vlans (nl_PrivVlan l) (nl_PubVlan l) (nv_vlans (view w2) link)),
      nv_dhcp := insert DefaultBridge (nv_dhcp (view w2))\<rparr>"
proof -
  obtain u where u: "attempt_of (configure_once l) u = (None, w')"
    using retry_laws_none [OF ret ok [unfolded configureZOS_def]] by blast
  obtain x where run: "configure_once l u = Some (Ok x, w')"
    using attempt_of_ok [OF u configure_once_total(1) configure_once_total(2)] by blast
  from run [unfolded configure_once_def] obtain cfgs w1 link br w2 w3 w4 v where
    a: "nl_AnalyzeLinks l (nl_PrivVlan l) u = (Inr cfgs, w1)" and s: "nl_SelectZOS l cfgs = Inr link" and
    b: "nl_CreateDefaultBridge l DefaultBridge (nl_PrivVlan l) w1 = (Inr br, w2)" and z: "w3 = nl_Sleep l w2" and
    c: "attach_link l link br w3 = Some (Ok v, w4)" and d: "start_dhcp l w4 = Some (Ok x, w')"
    by (elim bnd_okE) (simp add: run_eff_def)
  have "view w3 = view w2" using net_lawsD(10) [OF laws] by (simp add: z)
  with attach_link_view [OF laws c] start_dhcp_view [OF laws d]
  have "view w' = (view w2)\<lparr>nv_master := (nv_master (view w2))(link \<mapsto> br), nv_up := insert link (nv_up (view w2)),
      nv_noIPv6 := insert link (nv_noIPv6 (view w2)),
      nv_vlans := (nv_vlans (view w2))(link := zos_vlans (nl_PrivVlan l) (nl_PubVlan l) (nv_vlans (view w2) link)),
      nv_dhcp := insert DefaultBridge (nv_dhcp (view w2))\<rparr>"
    by simp
  with a s b show ?thesis by blast
qed

text \<open>
  The exit status does not tell whether the network was set up: where the loopback interface cannot be
  brought up the program ends with success before anything else is done.
\<close>

lemma internet_main_lo_failure: "nl_SetLoUp l w = (Some err, w1) \<Longrightarrow> internet_main l w = (0, w1)"
  by (simp add: internet_main_def)

text \<open>With that interface up, success means that the last test reached every address.\<close>

lemma for_err_none_each:
  "for_err f xs w = (None, w') \<Longrightarrow> x \<in> set xs \<Longrightarrow> \<exists>v v'. f x v = (None, v')"
  by (induction xs arbitrary: w) (auto split: prod.splits option.splits)

lemma internet_main_reaches:
  assumes ret: "retry_laws (nl_Retry l)" and up: "nl_SetLoUp l w = (None, w1)" and ok: "internet_main l w = (0, w')"
    and "address \<in> set check_addresses"
  shows "\<exists>v v'. nl_Dial l address v = (None, v')"
proof -
  obtain w2 where "check_connection l w2 = (None, w')"
    using up ok by (auto simp: internet_main_def split: prod.splits option.splits)
  then obtain v where "check_once l v = (None, w')"
    using retry_laws_none [OF ret] unfolding check_connection_def by blast
  then obtain x x' where "check_one l address x = (None, x')"
    using for_err_none_each [where f = "check_one l", OF _ assms(4)] unfolding check_once_def by metis
  then show ?thesis by (auto simp: check_one_def split: prod.splits option.splits)
qed

end
