(* ===== verification/Reporter_Run.thy ===== *)
theory Reporter_Run
  imports Reporter Actions
begin

text \<open>
  The life of the consumption reporter (\<open>cmds/modules/provisiond/reporter.go\<close>): how it is made, its
  loop \<open>Run\<close> with the end of the context, the goroutine of \<open>main.go\<close> that runs it again and again, and
  the pushers that this leaves behind, interleaved with each other and with the reports.
\<close>

section \<open>Making a reporter\<close>

text \<open>
  The libraries: the bus call that hands out the private key (it panics when the bus fails), the check
  of the key, the persisted queue, the database. \<open>PrivateKey\<close> is \<open>None\<close> where the call panics.
\<close>

record ('w, 'f) reporter_lib =
  rl_PrivateKey :: "('w, byte list option) eff"
  rl_NewIdentity :: "byte list \<Rightarrow> goerr option"
  rl_NewOrOpen :: "string \<Rightarrow> string \<Rightarrow> ('w, (('w, report) dque) res) eff"
  rl_RemoveAll :: "string \<Rightarrow> 'w \<Rightarrow> 'w"
  rl_NewRRD :: "string \<Rightarrow> ('w, (('w, 'f) rrd) res) eff"
  rl_rrdClose :: "('w, 'f) rrd \<Rightarrow> ('w, goerr option) eff"
  rl_queueClose :: "('w, report) dque \<Rightarrow> ('w, goerr option) eff"

definition ReportChecks :: "('w, 'f) reporter_lib \<Rightarrow> string \<Rightarrow> ('w, goerr option) eff" where
  "ReportChecks l metricsPath w =
     (case rl_NewRRD l metricsPath w of
        (Inl err, w1) \<Rightarrow> (Some (Wrapped err ''failed to create metrics database''), w1)
      | (Inr rrd, w1) \<Rightarrow>
          (case rrd_Slot rrd w1 of
             (Inl err, w2) \<Rightarrow> (Some err, w2)
           | (Inr _, w2) \<Rightarrow> rl_rrdClose l rrd w2))"

definition queueName :: string where
  "queueName = ''consumption''"

definition NewReporter ::
  "('w, 'f) reporter_lib \<Rightarrow> 'w registrar_gateway \<Rightarrow> string \<Rightarrow> string \<Rightarrow> ('w, ('w, 'f) reporter) action" where
  "NewReporter l gw metricsPath root =
     bnd (bus (rl_PrivateKey l)) (\<lambda>sk.
     bnd (check (rl_NewIdentity l sk)) (\<lambda>_.
     bnd (call (open_queue 3 (rl_NewOrOpen l queueName root) (rl_RemoveAll l (root @ ''/'' @ queueName))
            (ErrMsg []))) (\<lambda>queue.
     bnd (context_msg ''failed to create metrics database'' (call (rl_NewRRD l metricsPath))) (\<lambda>rrd.
     give \<lparr>rp_rrd = rrd, rp_queue = queue, rp_registrarGateway = gw\<rparr>))))"

definition reporter_Close :: "('w, 'f) reporter_lib \<Rightarrow> ('w, 'f) reporter \<Rightarrow> 'w \<Rightarrow> 'w" where
  "reporter_Close l r w = snd (rl_queueClose l (rp_queue r) (snd (rl_rrdClose l (rp_rrd r) w)))"

text \<open>\<open>metrics\<close> for \<open>n\<close> ticks before the context ends; errors are logged.\<close>

definition reporter_metrics ::
  "'f floats \<Rightarrow> ('w, 'f) reporter \<Rightarrow> ('w, ((string \<times> 'f \<times> 'f) list) res) eff \<Rightarrow> nat \<Rightarrow> 'w \<Rightarrow> 'w" where
  "reporter_metrics fl r vm n = (\<lambda>w. snd (getMetrics fl r vm w)) ^^ n"

section \<open>The loop\<close>

text \<open>
  The parameters of \<open>Run\<close>: the clock in seconds and in nanoseconds, and the wait for a delay, which
  tells whether the context ended instead.
\<close>

record 'w timing =
  tm_Unix :: "('w, i64) eff"
  tm_Now :: "('w, int) eff"
  tm_wait :: "int \<Rightarrow> ('w, bool) eff"

datatype pass = PassError goerr | PassDone | PassNext

definition report_and_mark ::
  "gridtypes \<Rightarrow> 'f floats \<Rightarrow> ((u64 \<times> nru_consumption) list \<Rightarrow> (u64 \<times> nru_consumption) list) \<Rightarrow>
     ('w, int) eff \<Rightarrow> ('w, 'f) reporter \<Rightarrow> i64 \<Rightarrow> ('w, pass) eff" where
  "report_and_mark gt fl visit clock r lastReport w =
     (case reporter_report gt fl visit clock r lastReport w of
        ((now, Some x), w1) \<Rightarrow> (PassError (Wrapped x ''failed to create consumption report''), w1)
      | ((now, None), w1) \<Rightarrow>
          (case setLastReportTime fl r (time_Unix now) w1 of
             (Some x, w2) \<Rightarrow> (PassError x, w2)
           | (None, w2) \<Rightarrow> (PassNext, w2)))"

definition reporter_pass ::
  "gridtypes \<Rightarrow> 'f floats \<Rightarrow> ((u64 \<times> nru_consumption) list \<Rightarrow> (u64 \<times> nru_consumption) list) \<Rightarrow> 'w timing \<Rightarrow>
     ('w, 'f) reporter \<Rightarrow> ('w, pass) eff" where
  "reporter_pass gt fl visit tm r w =
     (case tm_Unix tm w of (u, w1) \<Rightarrow>
        (case getLastReportTime fl r w1 of
           (Inl err, w2) \<Rightarrow> (PassError err, w2)
         | (Inr (stored, ok), w2) \<Rightarrow>
             (case (if ok then (None, w2) else setLastReportTime fl r u w2) of
                (Some x, w3) \<Rightarrow> (PassError x, w3)
              | (None, w3) \<Rightarrow>
                  (let lastReport = (if ok then stored else u)
                   in case tm_wait tm (wait_time (report_delay lastReport u)) w3 of
                        (True, w4) \<Rightarrow> (PassDone, w4)
                      | (False, w4) \<Rightarrow> report_and_mark gt fl visit (tm_Now tm) r lastReport w4))))"

partial_function (option) pass_loop :: "('w, pass) eff \<Rightarrow> ('w, unit) action" where
  "pass_loop f w =
     (case f w of (p, w1) \<Rightarrow>
        (case p of
           PassError e \<Rightarrow> Some (Err e, w1)
         | PassDone \<Rightarrow> Some (Ok (), w1)
         | PassNext \<Rightarrow> pass_loop f w1))"

declare pass_loop.simps [code]

definition reporter_Run ::
  "gridtypes \<Rightarrow> 'f floats \<Rightarrow> ((u64 \<times> nru_consumption) list \<Rightarrow> (u64 \<times> nru_consumption) list) \<Rightarrow> 'w timing \<Rightarrow>
     ('w, 'f) reporter \<Rightarrow> ('w, unit) action" where
  "reporter_Run gt fl visit tm r = pass_loop (reporter_pass gt fl visit tm r)"

text \<open>
  The goroutine in \<open>action\<close>: it compares the error with \<open>context.Canceled\<close> itself, waits after any other
  result, and closes the reporter when it returns.
\<close>

definition is_canceled :: "goerr \<Rightarrow> bool" where
  "is_canceled e = (case e of Sentinel s _ \<Rightarrow> s = ContextCanceled | _ \<Rightarrow> False)"

partial_function (option) restart_loop :: "('w, unit) action \<Rightarrow> ('w \<Rightarrow> 'w) \<Rightarrow> ('w, unit) action" where
  "restart_loop run pause w =
     (case run w of
        None \<Rightarrow> None
      | Some (r, w1) \<Rightarrow>
          (case r of
             Panic \<Rightarrow> Some (Panic, w1)
           | Err e \<Rightarrow> if is_canceled e then Some (Ok (), w1) else restart_loop run pause (pause w1)
           | Ok _ \<Rightarrow> restart_loop run pause (pause w1)))"

declare restart_loop.simps [code]

definition reporter_routine ::
  "('w, 'f) reporter_lib \<Rightarrow> gridtypes \<Rightarrow> 'f floats \<Rightarrow> ((u64 \<times> nru_consumption) list \<Rightarrow> (u64 \<times> nru_consumption) list) \<Rightarrow>
     'w timing \<Rightarrow> ('w \<Rightarrow> 'w) \<Rightarrow> ('w, 'f) reporter \<Rightarrow> ('w, unit) action" where
  "reporter_routine l gt fl visit tm pause r =
     dropping (reporter_Close l r) (restart_loop (reporter_Run gt fl visit tm r) pause)"

section \<open>Pushers\<close>

text \<open>
  Every \<open>Run\<close> starts a pusher and cancels it when it returns, but a pusher looks at its context only
  between two calls of \<open>pushOne\<close>. So the pusher of a \<open>Run\<close> that failed may still be inside of \<open>pushOne\<close>
  when the next \<open>Run\<close> starts its own. A pusher is where it is in its loop (\<open>Waiting\<close> is in \<open>PeekBlock\<close>,
  \<open>Peeked\<close> in the call of the gateway, \<open>Reported\<close> before \<open>Dequeue\<close>), with whether its context has ended;
  \<open>pg_sent\<close> are the reports the gateway took and \<open>pg_gone\<close> those that left the queue, in order.
\<close>

datatype push_at = Looping | Waiting | Peeked report | Reported report | Ended

record pushing =
  pg_queue :: "report list"
  pg_sent :: "report list"
  pg_gone :: "report list"
  pg_pushers :: "(push_at \<times> bool) list"

definition at_step :: "pushing \<Rightarrow> nat \<Rightarrow> push_at \<Rightarrow> bool" where
  "at_step s i p \<longleftrightarrow> i < length (pg_pushers s) \<and> fst (pg_pushers s ! i) = p"

definition canceled :: "pushing \<Rightarrow> nat \<Rightarrow> bool" where
  "canceled s i = snd (pg_pushers s ! i)"

definition moves :: "nat \<Rightarrow> push_at \<Rightarrow> pushing \<Rightarrow> pushing" where
  "moves i p s = s\<lparr>pg_pushers := (pg_pushers s)[i := (p, canceled s i)]\<rparr>"

inductive push_step :: "pushing \<Rightarrow> pushing \<Rightarrow> bool" where
  begins: "at_step s i Looping \<Longrightarrow> \<not> canceled s i \<Longrightarrow> push_step s (moves i Waiting s)"
| ends: "at_step s i Looping \<Longrightarrow> canceled s i \<Longrightarrow> push_step s (moves i Ended s)"
| unread: "at_step s i Waiting \<Longrightarrow> push_step s (moves i Looping s)"
| peek: "at_step s i Waiting \<Longrightarrow> pg_queue s = rep # q \<Longrightarrow> push_step s (moves i (Peeked rep) s)"
| refused: "at_step s i (Peeked rep) \<Longrightarrow> push_step s (moves i Looping s)"
| taken: "at_step s i (Peeked rep) \<Longrightarrow>
    push_step s (moves i (Reported rep) (s\<lparr>pg_sent := pg_sent s @ [rep]\<rparr>))"
| dequeue: "at_step s i (Reported rep) \<Longrightarrow> pg_queue s = x # q \<Longrightarrow>
    push_step s (moves i Looping (s\<lparr>pg_queue := q, pg_gone := pg_gone s @ [x]\<rparr>))"
| stuck: "at_step s i (Reported rep) \<Longrightarrow> push_step s (moves i Looping s)"
| report: "push_step s (s\<lparr>pg_queue := pg_queue s @ [rep]\<rparr>)"
| run_ends: "push_step s (s\<lparr>pg_pushers := map (\<lambda>p. (fst p, True)) (pg_pushers s)\<rparr>)"
| run_starts: "list_all snd (pg_pushers s) \<Longrightarrow>
    push_step s (s\<lparr>pg_pushers := pg_pushers s @ [(Looping, False)]\<rparr>)"

definition no_pushers :: "report list \<Rightarrow> pushing" where
  "no_pushers q = \<lparr>pg_queue = q, pg_sent = [], pg_gone = [], pg_pushers = []\<rparr>"

text \<open>The interleavings, and those in which a \<open>Run\<close> only starts when every pusher has ended.\<close>

inductive pushes :: "bool \<Rightarrow> pushing \<Rightarrow> pushing \<Rightarrow> bool" for apart s0 where
  refl: "pushes apart s0 s0"
| step: "pushes apart s0 s \<Longrightarrow> push_step s s' \<Longrightarrow>
    apart \<and> length (pg_pushers s) < length (pg_pushers s') \<longrightarrow> list_all (\<lambda>p. fst p = Ended) (pg_pushers s) \<Longrightarrow>
    pushes apart s0 s'"

section \<open>Properties\<close>

text \<open>Without the end of the context a pass is a cycle of \<open>report_cycle\<close>.\<close>

lemma reporter_pass_cycle:
  assumes "\<And>d w. tm_wait tm d w = (False, sleep d w)"
  shows "reporter_pass gt fl visit tm r w =
    (case report_cycle gt fl visit (tm_Unix tm) (tm_Now tm) sleep r w of
       (Inl e, w') \<Rightarrow> (PassError e, w')
     | (Inr _, w') \<Rightarrow> (PassNext, w'))"
  by (auto simp: reporter_pass_def report_cycle_def report_and_mark_def assms Let_def
      split: prod.splits sum.splits option.splits)

text \<open>The errors of a pass are all wrapped.\<close>

lemma setLastReportTime_wraps: "setLastReportTime fl r ts w = (Some e, w') \<Longrightarrow> \<not> is_canceled e"
  by (auto simp: setLastReportTime_def is_canceled_def errors_wrap_def split: prod.splits sum.splits)

lemma getLastReportTime_wraps: "getLastReportTime fl r w = (Inl e, w') \<Longrightarrow> \<not> is_canceled e"
  by (auto simp: getLastReportTime_def is_canceled_def split: prod.splits sum.splits)

lemma report_and_mark_wraps: "report_and_mark gt fl visit clock r t w = (PassError e, w') \<Longrightarrow> \<not> is_canceled e"
  by (auto simp: report_and_mark_def is_canceled_def dest: setLastReportTime_wraps
      split: prod.splits option.splits)

lemma reporter_pass_wraps: "reporter_pass gt fl visit tm r w = (PassError e, w') \<Longrightarrow> \<not> is_canceled e"
  by (auto simp: reporter_pass_def Let_def
      dest: setLastReportTime_wraps getLastReportTime_wraps report_and_mark_wraps
      split: prod.splits sum.splits option.splits if_splits bool.splits)

lemma pass_loop_result:
  assumes "pass_loop f w = Some (r, w')"
  shows "\<exists>v p. f v = (p, w') \<and> (p = PassDone \<and> r = Ok () \<or> (\<exists>e. p = PassError e \<and> r = Err e))"
proof -
  have "\<exists>v p. f v = (p, snd x) \<and> (p = PassDone \<and> fst x = Ok () \<or> (\<exists>e. p = PassError e \<and> fst x = Err e))"
    if "pass_loop f w = Some x" for x
  proof (rule pass_loop.raw_induct [where P = "\<lambda>f w x. \<exists>v p. f v = (p, snd x) \<and>
        (p = PassDone \<and> fst x = Ok () \<or> (\<exists>e. p = PassError e \<and> fst x = Err e))", OF _ that])
    fix again g u y
    assume ih: "\<And>g u y. again g u = Some y \<Longrightarrow> \<exists>v p. g v = (p, snd y) \<and>
        (p = PassDone \<and> fst y = Ok () \<or> (\<exists>e. p = PassError e \<and> fst y = Err e))"
      and eq: "(case g u of (p, w1) \<Rightarrow> (case p of PassError e \<Rightarrow> Some (Err e, w1)
                | PassDone \<Rightarrow> Some (Ok (), w1) | PassNext \<Rightarrow> again g w1)) = Some y"
    obtain p w1 where g: "g u = (p, w1)" by fastforce
    show "\<exists>v p. g v = (p, snd y) \<and> (p = PassDone \<and> fst y = Ok () \<or> (\<exists>e. p = PassError e \<and> fst y = Err e))"
      using eq g ih [of g w1 y] by (cases p) auto
  qed
  from this [OF assms] show ?thesis by simp
qed

lemma reporter_Run_result:
  assumes "reporter_Run gt fl visit tm r w = Some (x, w')"
  shows "x = Ok () \<or> (\<exists>e. x = Err e \<and> \<not> is_canceled e)"
proof -
  obtain v p where "reporter_pass gt fl visit tm r v = (p, w')"
      and "p = PassDone \<and> x = Ok () \<or> (\<exists>e. p = PassError e \<and> x = Err e)"
    using pass_loop_result [OF assms [unfolded reporter_Run_def]] by blast
  then show ?thesis using reporter_pass_wraps [of gt fl visit tm r v _ w'] by blast
qed

lemma restart_loop_none:
  assumes "\<And>w x w'. run w = Some (x, w') \<Longrightarrow> x = Ok () \<or> (\<exists>e. x = Err e \<and> \<not> is_canceled e)"
  shows "restart_loop run pause w = None"
proof (rule ccontr)
  assume "restart_loop run pause w \<noteq> None"
  then obtain y where "restart_loop run pause w = Some y" by auto
  then have "run \<noteq> run"
  proof (rule restart_loop.raw_induct [where P = "\<lambda>run' pause' w' y. run' \<noteq> run", rotated])
    fix again run' pause' v y
    assume ih: "\<And>run'' pause'' w' y. again run'' pause'' w' = Some y \<Longrightarrow> run'' \<noteq> run"
      and eq: "(case run' v of None \<Rightarrow> None
        | Some (r, w1) \<Rightarrow> (case r of Panic \<Rightarrow> Some (Panic, w1)
            | Err e \<Rightarrow> if is_canceled e then Some (Ok (), w1) else again run' pause' (pause' w1)
            | Ok _ \<Rightarrow> again run' pause' (pause' w1))) = Some y"
    show "run' \<noteq> run"
    proof
      assume run: "run' = run"
      with eq obtain r w1 where r: "run v = Some (r, w1)" by (cases "run v") auto
      have "again run u v' \<noteq> Some y" for u v' using ih by blast
      with assms [OF r] eq r run show False by (auto split: outcome.splits)
    qed
  qed
  then show False by simp
qed

text \<open>
  The steps are those of the code: a call of \<open>pushOne\<close> that nothing interrupts is a run of its pusher
  from \<open>PeekBlock\<close> back to its loop, on the same queue.
\<close>

definition alone :: "report list \<Rightarrow> report list \<Rightarrow> report list \<Rightarrow> push_at \<Rightarrow> pushing" where
  "alone q sent gone p = \<lparr>pg_queue = q, pg_sent = sent, pg_gone = gone, pg_pushers = [(p, False)]\<rparr>"

lemma alone_steps:
  "push_step (alone q sent gone Waiting) (alone q sent gone Looping)"
  "push_step (alone (rep # q) sent gone Waiting) (alone (rep # q) sent gone (Peeked rep))"
  "push_step (alone q sent gone (Peeked rep)) (alone q sent gone Looping)"
  "push_step (alone q sent gone (Peeked rep)) (alone q (sent @ [rep]) gone (Reported rep))"
  "push_step (alone (x # q) sent gone (Reported rep)) (alone q sent (gone @ [x]) Looping)"
  "push_step (alone q sent gone (Reported rep)) (alone q sent gone Looping)"
  using push_step.unread [of "alone q sent gone Waiting" 0] push_step.peek [of "alone (rep # q) sent gone Waiting" 0]
    push_step.refused [of "alone q sent gone (Peeked rep)" 0] push_step.taken [of "alone q sent gone (Peeked rep)" 0]
    push_step.dequeue [of "alone (x # q) sent gone (Reported rep)" 0]
    push_step.stuck [of "alone q sent gone (Reported rep)" 0]
  by (simp_all add: alone_def at_step_def moves_def canceled_def)

lemma pushOne_steps:
  assumes d: "dque_laws (rp_queue r) items"
    and q: "\<And>rep. quiet items (gw_Report (rp_registrarGateway r) rep)"
    and run: "pushOne r w = (err, w')"
  shows "\<exists>sent' gone'. push_step\<^sup>*\<^sup>* (alone (items w) sent gone Waiting) (alone (items w') sent' gone' Looping)"
proof -
  obtain p w1 where p: "q_PeekBlock (rp_queue r) w = (p, w1)" by fastforce
  note w1 = dque_lawsD(3) [OF d p]
  show ?thesis
  proof (cases p)
    case (Inl e)
    have "push_step\<^sup>*\<^sup>* (alone (items w) sent gone Waiting) (alone (items w) sent gone Looping)"
      by (rule r_into_rtranclp) (rule alone_steps(1))
    then show ?thesis using Inl run p w1 by (auto simp: pushOne_def)
  next
    case (Inr rep)
    obtain hash ge w2 where g: "gw_Report (rp_registrarGateway r) rep w1 = ((hash, ge), w2)"
      by (metis prod.exhaust)
    note w2 = quietD [OF q g]
    obtain xs where xs: "items w = rep # xs" using dque_lawsD(4) [OF d] p Inr by blast
    have peek: "push_step\<^sup>*\<^sup>* (alone (items w) sent gone Waiting) (alone (items w) sent gone (Peeked rep))"
      unfolding xs by (rule r_into_rtranclp) (rule alone_steps(2))
    show ?thesis
    proof (cases ge)
      case (Some e)
      then show ?thesis
        using run p Inr g w1 w2 rtranclp.rtrancl_into_rtrancl [OF peek alone_steps(3)] by (auto simp: pushOne_def)
    next
      case None
      have sent: "push_step\<^sup>*\<^sup>* (alone (items w) sent gone Waiting) (alone (items w) (sent @ [rep]) gone (Reported rep))"
        by (rule rtranclp.rtrancl_into_rtrancl [OF peek alone_steps(4)])
      obtain dq w3 where de: "q_Dequeue (rp_queue r) w2 = (dq, w3)" by fastforce
      show ?thesis
      proof (cases dq)
        case (Inl e)
        have "items w3 = items w2" by (rule dque_lawsD(6) [OF d]) (use de Inl in simp)
        then show ?thesis
          using run p Inr g None de Inl w1 w2 rtranclp.rtrancl_into_rtrancl [OF sent alone_steps(6)]
          by (auto simp: pushOne_def)
      next
        case (Inr y)
        have "items w2 = y # items w3" by (rule dque_lawsD(5) [OF d]) (use de Inr in simp)
        then have w: "items w = y # items w3" using w1 w2 by simp
        have "push_step\<^sup>*\<^sup>* (alone (items w) sent gone Waiting) (alone (items w3) (sent @ [rep]) (gone @ [y]) Looping)"
          using sent unfolding w by (rule rtranclp.rtrancl_into_rtrancl) (rule alone_steps(5))
        then show ?thesis
          using run p \<open>p = Inr rep\<close> g None de Inr by (auto simp: pushOne_def)
      qed
    qed
  qed
qed

section \<open>Pushers that do not overlap\<close>

text \<open>
  The invariant: at most one pusher has not ended, what it peeked is the head of the queue, and every
  report that is gone was sent, the one that is sent but still queued not counted.
\<close>

fun held :: "push_at \<Rightarrow> report list" where
  "held (Reported rep) = [rep]"
| "held _ = []"

fun at_head :: "push_at \<Rightarrow> report list \<Rightarrow> bool" where
  "at_head (Peeked rep) q = (\<exists>q'. q = rep # q')"
| "at_head (Reported rep) q = (\<exists>q'. q = rep # q')"
| "at_head _ q = True"

definition push_inv :: "pushing \<Rightarrow> bool" where
  "push_inv s \<longleftrightarrow>
     (\<forall>i j. i < length (pg_pushers s) \<and> j < length (pg_pushers s) \<and> fst (pg_pushers s ! i) \<noteq> Ended \<and>
        fst (pg_pushers s ! j) \<noteq> Ended \<longrightarrow> i = j) \<and>
     (\<forall>p \<in> fst ` set (pg_pushers s). at_head p (pg_queue s) \<and>
        mset (pg_gone s) + mset (held p) \<subseteq># mset (pg_sent s)) \<and>
     mset (pg_gone s) \<subseteq># mset (pg_sent s)"

text \<open>A move of the one pusher that has not ended, to somewhere the invariant allows.\<close>

lemma push_inv_move:
  assumes inv: "push_inv s" and at: "at_step s i p" "p \<noteq> Ended"
    and head: "at_head p' (pg_queue s')" and pushers: "pg_pushers s' = pg_pushers s"
    and count: "mset (pg_gone s') + mset (held p') \<subseteq># mset (pg_sent s')"
  shows "push_inv (moves i p' s')"
proof -
  let ?ps = "(pg_pushers s)[i := (p', canceled s' i)]"
  have ended: "fst (pg_pushers s ! j) = Ended" if "j < length (pg_pushers s)" "j \<noteq> i" for j
    using inv at that unfolding push_inv_def at_step_def by blast
  have others: "fst (?ps ! j) = (if j = i then p' else Ended)" if "j < length ?ps" for j
    using ended that at by (auto simp: at_step_def nth_list_update)
  have sub: "mset (pg_gone s') \<subseteq># mset (pg_sent s')"
    by (rule subset_mset.order_trans [OF _ count]) simp
  have "at_head q (pg_queue s') \<and> mset (pg_gone s') + mset (held q) \<subseteq># mset (pg_sent s')"
    if "q \<in> fst ` set ?ps" for q
  proof -
    from that obtain j where "j < length ?ps" "q = fst (?ps ! j)" by (auto simp: in_set_conv_nth)
    then have "q = p' \<or> q = Ended" using others by auto
    then show ?thesis using head count sub by auto
  qed
  moreover have "j = k" if "j < length ?ps" "k < length ?ps" "fst (?ps ! j) \<noteq> Ended" "fst (?ps ! k) \<noteq> Ended" for j k
    using that others by (auto split: if_splits)
  ultimately show ?thesis
    using sub by (simp add: push_inv_def moves_def pushers)
qed

lemma push_inv_at:
  assumes "push_inv s" "at_step s i p"
  shows "at_head p (pg_queue s)" "mset (pg_gone s) + mset (held p) \<subseteq># mset (pg_sent s)"
    "mset (pg_gone s) \<subseteq># mset (pg_sent s)"
proof -
  have "p \<in> fst ` set (pg_pushers s)" using assms(2) by (auto simp: at_step_def)
  then show "at_head p (pg_queue s)" "mset (pg_gone s) + mset (held p) \<subseteq># mset (pg_sent s)"
    "mset (pg_gone s) \<subseteq># mset (pg_sent s)"
    using assms(1) by (auto simp: push_inv_def)
qed

lemma at_head_append: "at_head p q \<Longrightarrow> at_head p (q @ [rep])"
  by (cases p) auto

lemma push_inv_step:
  assumes "push_step s s'" "push_inv s"
    and "length (pg_pushers s) < length (pg_pushers s') \<longrightarrow> list_all (\<lambda>p. fst p = Ended) (pg_pushers s)"
  shows "push_inv s'"
  using assms
proof (cases rule: push_step.cases)
  case (taken i rep)
  then show ?thesis using assms(2) push_inv_at [OF assms(2), of i "Peeked rep"]
    by (auto intro!: push_inv_move [where s = s])
next
  case (dequeue i rep x q)
  then show ?thesis using assms(2) push_inv_at [OF assms(2), of i "Reported rep"]
    by (auto intro!: push_inv_move [where s = s])
next
  case (report rep)
  then show ?thesis using assms(2) by (auto simp: push_inv_def intro: at_head_append)
next
  case run_ends
  have "fst (map (\<lambda>p. (fst p, True)) ps ! i) = fst (ps ! i)" if "i < length ps" for i and ps :: "(push_at \<times> bool) list"
    using that by simp
  then show ?thesis using assms(2) unfolding run_ends push_inv_def by auto
next
  case run_starts
  then have all: "list_all (\<lambda>p. fst p = Ended) (pg_pushers s)" using assms(3) by simp
  then show ?thesis using assms(2) unfolding run_starts push_inv_def
    by (auto simp: nth_append list_all_length less_Suc_eq)
qed (use push_inv_at [OF assms(2)] in \<open>auto intro!: push_inv_move [where s = s]\<close>)

text \<open>
  C18. No report is lost as long as the runs of the reporter do not overlap: in every interleaving of the
  pusher with the reports that are queued, with refusals of the gateway and failures of the queue, and
  with the end of one run before the start of the next, each report that left the queue was taken by the
  gateway, as often as it left.
\<close>

theorem separate_runs_lose_nothing:
  assumes "pushes True (no_pushers q) s"
  shows "mset (pg_gone s) \<subseteq># mset (pg_sent s)"
proof -
  have "push_inv s"
    using assms
  proof induction
    case refl
    show ?case by (simp add: push_inv_def no_pushers_def)
  next
    case (step s s')
    then show ?case using push_inv_step by blast
  qed
  then show ?thesis by (simp add: push_inv_def)
qed

text \<open>
  Runs that overlap do lose one: the second run's pusher sends the report that the first one's is still
  sending, and both then remove a report from the queue.
\<close>

lemma overlapping_runs_lose_report:
  assumes "a \<noteq> b"
  shows "\<exists>s. pushes False (no_pushers [a, b]) s \<and> b \<in> set (pg_gone s) \<and> b \<notin> set (pg_sent s)"
proof -
  let ?s = "\<lambda>q sent gone ps. \<lparr>pg_queue = q, pg_sent = sent, pg_gone = gone, pg_pushers = ps\<rparr>"
  have go: "pushes False s0 t" if "pushes False s0 s" "push_step s t" for s0 s t
    using that by (rule pushes.step) simp
  note at = at_step_def canceled_def moves_def
  have "pushes False (no_pushers [a, b]) (?s [a, b] [] [] [])"
    using pushes.refl by (simp add: no_pushers_def)
  then have "pushes False (no_pushers [a, b]) (?s [a, b] [] [] [(Looping, False)])"
    by (rule go) (use push_step.run_starts [of "?s [a, b] [] [] []"] in simp)
  then have "pushes False (no_pushers [a, b]) (?s [a, b] [] [] [(Waiting, False)])"
    by (rule go) (use push_step.begins [of "?s [a, b] [] [] [(Looping, False)]" 0] in \<open>simp add: at\<close>)
  then have "pushes False (no_pushers [a, b]) (?s [a, b] [] [] [(Peeked a, False)])"
    by (rule go) (use push_step.peek [of "?s [a, b] [] [] [(Waiting, False)]" 0] in \<open>simp add: at\<close>)
  then have "pushes False (no_pushers [a, b]) (?s [a, b] [] [] [(Peeked a, True)])"
    by (rule go) (use push_step.run_ends [of "?s [a, b] [] [] [(Peeked a, False)]"] in simp)
  then have "pushes False (no_pushers [a, b]) (?s [a, b] [] [] [(Peeked a, True), (Looping, False)])"
    by (rule go) (use push_step.run_starts [of "?s [a, b] [] [] [(Peeked a, True)]"] in simp)
  then have "pushes False (no_pushers [a, b]) (?s [a, b] [] [] [(Peeked a, True), (Waiting, False)])"
    by (rule go)
       (use push_step.begins [of "?s [a, b] [] [] [(Peeked a, True), (Looping, False)]" 1] in \<open>simp add: at\<close>)
  then have "pushes False (no_pushers [a, b]) (?s [a, b] [] [] [(Peeked a, True), (Peeked a, False)])"
    by (rule go)
       (use push_step.peek [of "?s [a, b] [] [] [(Peeked a, True), (Waiting, False)]" 1] in \<open>simp add: at\<close>)
  then have "pushes False (no_pushers [a, b]) (?s [a, b] [a] [] [(Reported a, True), (Peeked a, False)])"
    by (rule go)
       (use push_step.taken [of "?s [a, b] [] [] [(Peeked a, True), (Peeked a, False)]" 0] in \<open>simp add: at\<close>)
  then have "pushes False (no_pushers [a, b]) (?s [a, b] [a, a] [] [(Reported a, True), (Reported a, False)])"
    by (rule go)
       (use push_step.taken [of "?s [a, b] [a] [] [(Reported a, True), (Peeked a, False)]" 1] in \<open>simp add: at\<close>)
  then have "pushes False (no_pushers [a, b]) (?s [b] [a, a] [a] [(Looping, True), (Reported a, False)])"
    by (rule go)
       (use push_step.dequeue [of "?s [a, b] [a, a] [] [(Reported a, True), (Reported a, False)]" 0]
         in \<open>simp add: at\<close>)
  then have "pushes False (no_pushers [a, b]) (?s [] [a, a] [a, b] [(Looping, True), (Looping, False)])"
    by (rule go)
       (use push_step.dequeue [of "?s [b] [a, a] [a] [(Looping, True), (Reported a, False)]" 1]
         in \<open>simp add: at\<close>)
  then show ?thesis using assms by force
qed

text \<open>
  C19. The goroutine that runs the reporter never ends, whatever the database, the queue and the clock do and
  whether or not the context has ended: \<open>Run\<close> returns nil when its context ends, and every error it
  returns is wrapped, so the comparison with \<open>context.Canceled\<close> never succeeds, the next \<open>Run\<close> follows
  and the reporter is never closed.
\<close>

theorem reporter_never_closed: "reporter_routine l gt fl visit tm pause r w = None"
proof -
  have "restart_loop (reporter_Run gt fl visit tm r) pause w = None"
    by (rule restart_loop_none) (rule reporter_Run_result)
  then show ?thesis by (simp add: reporter_routine_def dropping_def)
qed

end
