(* ===== verification/Provisiond.thy ===== *)
theory Provisiond
  imports Engine_Run Events Capacity Reporter_Run Daemon_Std
begin

text \<open>
  \<open>cmds/modules/provisiond/main.go\<close>: the provision daemon. It checks the metrics database in a process of
  its own, waits for the cache disk, opens and migrates the store, and then makes and starts the
  components: the capacity setter, the engine, the contract event handler and the reporter.
\<close>

section \<open>The goroutines\<close>

datatype ('w, 'f) routine =
    RunSetter
  | RunEngine "'w native_engine"
  | RunHandler "'w contract_event_handler"
  | RunReporter "('w, 'f) reporter"

type_synonym ('w, 'f) process = "('w, ('w, 'f) routine) daemon"

section \<open>What the daemon uses\<close>

text \<open>
  The bus, the process it starts (\<open>os/exec\<close>: the text on its standard error and the error of \<open>Run\<close>), the
  operating system, the environment of the node, and the constructors of the components. \<open>Gigabyte\<close>,
  \<open>Max\<close> and the names of the workload types are those of zosbase. \<open>Callback\<close> is the capacity setter's.
\<close>

record ('w, 'f) provisiond_env =
  dm_NewServer :: "('w, goerr option) eff"
  dm_NewClient :: "('w, goerr option) eff"
  dm_arg0 :: string
  dm_exec :: "string list \<Rightarrow> ('w, string \<times> goerr option) eff"
  dm_PushErrors :: "string \<Rightarrow> string list \<Rightarrow> ('w, goerr option) eff"
  dm_RemoveAll :: "string \<Rightarrow> ('w, goerr option) eff"
  dm_Remove :: "string \<Rightarrow> ('w, goerr option) eff"
  dm_MkdirAll :: "string \<Rightarrow> ('w, goerr option) eff"
  dm_Stat :: "string \<Rightarrow> ('w, goerr option) eff"
  dm_LimitedCache :: "'w \<Rightarrow> bool"
  dm_Sleep :: "nat \<Rightarrow> 'w \<Rightarrow> 'w"
  dm_IsFirstBoot :: "'w \<Rightarrow> bool"
  dm_MarkBooted :: "('w, goerr option) eff"
  dm_EnvGet :: "('w, (u32 \<times> bool) res) eff"
  dm_PrivateKey :: "('w, byte list option) eff"
  dm_openStore :: "string \<Rightarrow> ('w, 'w storage res) eff"
  dm_Migrate :: "deployment \<Rightarrow> ('w, goerr option) eff"
  dm_NewFSStore :: "string \<Rightarrow> ('w, 'w fs_storage res) eff"
  dm_CleanDeleted :: "('w, goerr option) eff"
  dm_Capacity :: "('w, deployment list \<times> goerr option) eff"
  dm_provisioners :: "'w provisioner"
  dm_NewStatistics :: "capacity \<Rightarrow> 'w storage \<Rightarrow> ('w, capacity res) eff \<Rightarrow> 'w provisioner \<Rightarrow> 'w provisioner"
  dm_Total :: "('w, capacity res) eff"
  dm_CacheSize :: "('w, u64 res) eff"
  dm_Gigabyte :: u64
  dm_Max :: "u64 \<Rightarrow> u64 \<Rightarrow> u64"
  dm_NetworkType :: workload_type
  dm_NewWorkloadID :: "u32 \<Rightarrow> u64 \<Rightarrow> name \<Rightarrow> string res"
  dm_NetworkID :: "u32 \<Rightarrow> name \<Rightarrow> string"
  dm_netOs :: "'w net_os"
  dm_registrarGateway :: "'w registrar_gateway"
  dm_NewLRU :: "'w lru res"
  dm_addCapacity :: "capacity \<Rightarrow> capacity \<Rightarrow> capacity"
  dm_retry :: "('w, goerr option) eff \<Rightarrow> ('w, goerr option) eff"
  dm_engine :: "'w engine_env"
  dm_visit :: "workload_type list \<Rightarrow> workload_type list"
  dm_Callback :: "'w callback"
  dm_QuantumSafeFSType :: workload_type
  dm_NetworkLightType :: workload_type
  dm_ZMachineLightType :: workload_type
  dm_ZLogsType :: workload_type
  dm_NewConsumer :: "('w, goerr option) eff"
  dm_reporter :: "('w, 'f) reporter_lib"
  dm_RunServer :: "('w, goerr option) eff"

definition boltStorageDB :: string where
  "boltStorageDB = ''workloads.bolt''"

definition metricsStorageDBOld :: string where
  "metricsStorageDBOld = ''metrics.bolt''"

definition metricsStorageDB :: string where
  "metricsStorageDB = ''metrics-diff.bolt''"

definition fsStorageDB :: string where
  "fsStorageDB = ''workloads''"

text \<open>\<open>filepath.Join\<close> with a root directory that is clean.\<close>

definition in_root :: "string \<Rightarrow> string \<Rightarrow> string" where
  "in_root root nm = root @ ''/'' @ nm"

section \<open>The integrity check\<close>

definition integrityChecks :: "('w, 'f) provisiond_env \<Rightarrow> string \<Rightarrow> ('w, goerr option) eff" where
  "integrityChecks en rootDir = ReportChecks (dm_reporter en) (in_root rootDir metricsStorageDB)"

text \<open>
  \<open>CombinedOutput\<close> refuses to run a command whose \<open>Stderr\<close> is set, so \<open>Run\<close> is what starts the process.
  The error is compared with \<open>context.Canceled\<close> itself.
\<close>

definition check_failed :: "string \<Rightarrow> goerr \<Rightarrow> string" where
  "check_failed stderr err =
     ''integrity check failed, resetting rrd db stderr='' @ stderr @ '': '' @ err_text err"

definition runChecks :: "('w, 'f) provisiond_env \<Rightarrow> string \<Rightarrow> ('w, goerr option) eff" where
  "runChecks en rootDir w =
     (case dm_exec en [dm_arg0 en, ''--root'', rootDir, ''--integrity''] (snd (dm_PushErrors en ''integrity'' [] w)) of
        ((stderr, None), w1) \<Rightarrow> (None, w1)
      | ((stderr, Some err), w1) \<Rightarrow>
          if is_canceled err then (Some err, w1)
          else dm_RemoveAll en (in_root rootDir metricsStorageDB)
                 (snd (dm_PushErrors en ''integrity'' [check_failed stderr err] w1)))"

section \<open>The store\<close>

definition migrate_store :: "('w, 'f) provisiond_env \<Rightarrow> string \<Rightarrow> ('w, unit) action" where
  "migrate_store en path =
     bnd (run_eff (dm_Stat en path)) (\<lambda>missing.
       if missing \<noteq> None then give ()
       else bnd (call (dm_NewFSStore en path)) (\<lambda>fs.
            bnd (context_msg ''storage migration failed'' (check_eff (storageMigration (dm_Migrate en) fs))) (\<lambda>_.
            logged (dm_RemoveAll en path))))"

definition open_store :: "('w, 'f) provisiond_env \<Rightarrow> string \<Rightarrow> ('w, 'w storage) action" where
  "open_store en rootDir =
     bnd (context_msg ''failed to create local reservation store'' (call (dm_openStore en (in_root rootDir boltStorageDB)))) (\<lambda>store.
     bnd (migrate_store en (in_root rootDir fsStorageDB)) (\<lambda>_.
     bnd (logged (dm_CleanDeleted en)) (\<lambda>_.
     give store)))"

text \<open>The deployments whose capacity is set again: those of the store, unless all of them are rerun.\<close>

definition active_deployments :: "('w, 'f) provisiond_env \<Rightarrow> ('w, deployment list) eff" where
  "active_deployments en w =
     (if dm_IsFirstBoot en w then ([], w)
      else case dm_Capacity en w of
             ((active, err), w1) \<Rightarrow>
               (active, snd (netResourceMigration (env_gt (dm_engine en)) (dm_NetworkType en) (dm_NewWorkloadID en)
                  (dm_NetworkID en) (dm_netOs en) active w1)))"

definition getNodeReserved :: "('w, 'f) provisiond_env \<Rightarrow> capacity \<Rightarrow> ('w, capacity res) eff" where
  "getNodeReserved en available w =
     (case dm_CacheSize en w of
        (Inl err, w1) \<Rightarrow> (Inl err, w1)
      | (Inr sz, w1) \<Rightarrow>
          (Inr \<lparr>c_CRU = 0, c_SRU = sz, c_HRU = 0,
             c_MRU = dm_Max en (c_MRU available * 10 div 100) (2 * dm_Gigabyte en)\<rparr>, w1))"

section \<open>The node\<close>

definition node_id :: "('w, 'f) provisiond_env \<Rightarrow> byte list \<Rightarrow> ('w, u64) action" where
  "node_id en sk =
     (if length sk < 32 then panic
      else bnd (context_msg ''failed to get node twin id''
                  (gw_call (gw_GetTwinByPubKey (dm_registrarGateway en) (ed25519_public sk)))) (\<lambda>twin.
           bnd (context_msg ''failed to get node from twin''
                  (gw_call (gw_GetNodeByTwinID (dm_registrarGateway en) twin))) (\<lambda>node.
           give (cn_NodeID node))))"

section \<open>The engine\<close>

definition startup_types :: "('w, 'f) provisiond_env \<Rightarrow> workload_type list" where
  "startup_types en =
     (let gt = env_gt (dm_engine en)
      in [gt_ZMountType gt, gt_VolumeType gt, dm_QuantumSafeFSType en, dm_NetworkLightType en,
          gt_PublicIPv4Type gt, gt_PublicIPType gt, dm_ZMachineLightType en, dm_ZLogsType en])"

definition engine_options ::
  "('w, 'f) provisiond_env \<Rightarrow> 'w lru \<Rightarrow> registrar_admins \<Rightarrow> u64 \<Rightarrow> bool \<Rightarrow> 'w engine_option list" where
  "engine_options en users admins nodeID rerun =
     [WithTwins (registrarTwins_GetKey (dm_registrarGateway en) users),
      WithAdmins (registrarAdmins_GetKey admins),
      WithAPIGateway nodeID (dm_registrarGateway en),
      WithStartupOrder (startup_types en),
      WithRerunAll rerun,
      WithCallback (dm_Callback en)]"

definition make_engine ::
  "('w, 'f) provisiond_env \<Rightarrow> 'w storage \<Rightarrow> 'w provisioner \<Rightarrow> 'w lru \<Rightarrow> registrar_admins \<Rightarrow> u64 \<Rightarrow>
     ('w, 'w native_engine) action" where
  "make_engine en store statistics users admins nodeID w =
     (case New (dm_engine en) (dm_visit en) store statistics
             (engine_options en users admins nodeID (dm_IsFirstBoot en w)) w of
        Inl msg \<Rightarrow> Some (Panic, w)
      | Inr (Inl err, w1) \<Rightarrow> Some (Err (Wrapped err ''failed to instantiate provision engine''), w1)
      | Inr (Inr e, w1) \<Rightarrow> Some (Ok e, w1))"

section \<open>The start\<close>

text \<open>From the engine on: its object, the initializers, the goroutines.\<close>

definition start_engine :: "('w, 'f) provisiond_env \<Rightarrow> 'w native_engine \<Rightarrow> (('w, 'f) process, unit) action" where
  "start_engine en e =
     bnd (expose ''provision'') (\<lambda>_.
     bnd (expose ''statistics'') (\<lambda>_.
     bnd (within (check_eff (pv_Initialize (dm_provisioners en)))) (\<lambda>_.
     bnd (go (RunEngine e)) (\<lambda>_.
     within (logged (dm_MarkBooted en))))))"

definition start_around ::
  "('w, 'f) provisiond_env \<Rightarrow> string \<Rightarrow> u64 \<Rightarrow> 'w native_engine \<Rightarrow> (('w, 'f) process, unit) action" where
  "start_around en rootDir nodeID e =
     bnd (context_msg ''failed to create event consumer'' (within (check_eff (dm_NewConsumer en)))) (\<lambda>_.
     bnd (go (RunHandler \<lparr>ch_node = nodeID, ch_registrarGateway = dm_registrarGateway en,
        ch_engine = native_api e\<rparr>)) (\<lambda>_.
     bnd (within (logged (dm_Remove en (in_root rootDir metricsStorageDBOld)))) (\<lambda>_.
     bnd (context_msg ''failed to setup capacity reporter''
            (within (NewReporter (dm_reporter en) (dm_registrarGateway en) (in_root rootDir metricsStorageDB)
               (in_root rootDir ''queues'')))) (\<lambda>r.
     bnd (go (RunReporter r)) (\<lambda>_.
     within (check_eff (dm_RunServer en)))))))"

definition start_setter :: "('w, 'f) provisiond_env \<Rightarrow> deployment list \<Rightarrow> (('w, 'f) process, unit) action" where
  "start_setter en active =
     bnd (within (logged (cap_Set (env_gt (dm_engine en)) (dm_addCapacity en) (dm_retry en)
            (dm_registrarGateway en) active))) (\<lambda>_.
     go RunSetter)"

definition users_admins :: "('w, 'f) provisiond_env \<Rightarrow> u32 \<Rightarrow> ('w, 'w lru \<times> registrar_admins) action" where
  "users_admins en farm =
     bnd (context_msg ''failed to create substrate users database'' (call (Pair (dm_NewLRU en)))) (\<lambda>users.
     bnd (context_msg ''failed to create substrate admins database''
            (call (NewRegistrarAdmins (dm_registrarGateway en) (ucast farm)))) (\<lambda>admins.
     give (users, admins)))"

definition provisiond_start ::
  "('w, 'f) provisiond_env \<Rightarrow> string \<Rightarrow> u32 \<Rightarrow> (('w, 'f) process, unit) action" where
  "provisiond_start en rootDir farm =
     bnd (within (bus (dm_PrivateKey en))) (\<lambda>sk.
     bnd (within (open_store en rootDir)) (\<lambda>store.
     bnd (context_msg ''failed to get node capacity'' (within (call (dm_Total en)))) (\<lambda>total.
     bnd (within (run_eff (active_deployments en))) (\<lambda>active.
     bnd (within (users_admins en farm)) (\<lambda>(users, admins).
     bnd (within (node_id en sk)) (\<lambda>nodeID.
     bnd (context_msg ''failed to create storage for queues''
            (within (check_eff (dm_MkdirAll en (in_root rootDir ''queues''))))) (\<lambda>_.
     bnd (start_setter en active) (\<lambda>_.
     bnd (within (make_engine en store
            (dm_NewStatistics en total store (getNodeReserved en total) (dm_provisioners en)) users admins nodeID)) (\<lambda>e.
     bnd (start_engine en e) (\<lambda>_.
     start_around en rootDir nodeID e))))))))))"

text \<open>
  \<open>action\<close>. A goroutine or server that ends with an error is \<open>log.Fatal\<close>, which ends the process; closing
  the store on the way out is left out.
\<close>

definition provisiond_action ::
  "('w, 'f) provisiond_env \<Rightarrow> string \<Rightarrow> bool \<Rightarrow> (('w, 'f) process, unit) action" where
  "provisiond_action en rootDir integrity =
     bnd (context_msg ''failed to connect to message broker'' (within (check_eff (dm_NewServer en)))) (\<lambda>_.
     bnd (context_msg ''fail to connect to message broker server'' (within (check_eff (dm_NewClient en)))) (\<lambda>_.
     if integrity then within (check_eff (integrityChecks en rootDir))
     else
       bnd (context_msg ''error running integrity checks'' (within (check_eff (runChecks en rootDir)))) (\<lambda>_.
       bnd (within (wait_while (dm_LimitedCache en) (dm_Sleep en 30))) (\<lambda>_.
       bnd (context_msg ''failed to create cache directory'' (within (check_eff (dm_MkdirAll en rootDir)))) (\<lambda>_.
       bnd (context_msg ''failed to parse node environment'' (within (call (dm_EnvGet en)))) (\<lambda>(farm, orphan).
       if orphan then blocked else provisiond_start en rootDir farm))))))"

section \<open>What the daemon starts\<close>

text \<open>
  An engine as the daemon wants it: the node and the gateway it works for, the capacity setter told about
  every change, the workload types that others need first, and provisioners that were initialised.
\<close>

definition engine_ready :: "('w, 'f) provisiond_env \<Rightarrow> u64 \<Rightarrow> 'w native_engine \<Rightarrow> bool" where
  "engine_ready en nodeID e \<longleftrightarrow>
     e_nodeID e = nodeID \<and> e_registrarGateway e = Some (dm_registrarGateway en) \<and>
     e_callback e = Some (dm_Callback en) \<and>
     map (e_typeIndex e) (startup_types en) = [1, 2, 3, 4, 5, 6, 7, 8] \<and>
     take 8 (e_order e) = startup_types en \<and> distinct (e_order e) \<and>
     set (e_order e) = set (gt_Types (env_gt (dm_engine en))) \<and>
     (\<exists>w. fst (pv_Initialize (dm_provisioners en) w) = None)"

lemma startup_types_length: "length (startup_types en) = 8"
  by (simp add: startup_types_def Let_def)

lemma startup_order_engine:
  assumes v: "visit_ok visit" and ok: "withStartupOrder_apply visit (startup_types en) e0 = Inr e"
  shows "map (e_typeIndex e) (startup_types en) = [1, 2, 3, 4, 5, 6, 7, 8]"
    and "take 8 (e_order e) = startup_types en" "distinct (e_order e)" "set (e_order e) = set (e_order e0)"
    and "e_nodeID e = e_nodeID e0" "e_registrarGateway e = e_registrarGateway e0"
proof -
  let ?ts = "startup_types en"
  have "distinct ?ts \<and> set ?ts \<subseteq> set (e_order e0)"
    using startup_order_indexed [OF v, of ?ts e0] ok by (auto split: if_splits)
  then obtain rest idx where e: "e = e0\<lparr>e_order := ?ts @ rest, e_typeIndex := idx\<rparr>"
      and types: "set (?ts @ rest) = set (e_order e0)" and ix: "indexed (?ts @ rest) idx"
    using startup_order_indexed [OF v, of ?ts e0] ok by auto
  have "map idx ?ts = map (\<lambda>i. int i + 1) [0..<8]"
  proof (rule nth_equalityI)
    fix i assume "i < length (map idx ?ts)"
    then have i: "i < 8" by (simp add: startup_types_length)
    then have "idx ((?ts @ rest) ! i) = int i + 1"
      using ix by (simp add: indexed_def startup_types_length)
    with i show "map idx ?ts ! i = map (\<lambda>i. int i + 1) [0..<8] ! i"
      by (simp add: nth_append startup_types_length)
  qed (simp add: startup_types_length)
  then show "map (e_typeIndex e) ?ts = [1, 2, 3, 4, 5, 6, 7, 8]" by (simp add: e upt_rec)
  show "take 8 (e_order e) = ?ts" "distinct (e_order e)" "set (e_order e) = set (e_order e0)"
    "e_nodeID e = e_nodeID e0" "e_registrarGateway e = e_registrarGateway e0"
    using types ix by (simp_all add: e startup_types_length indexed_def)
qed

lemma make_engine_ready:
  assumes v: "visit_ok (dm_visit en)" and init: "fst (pv_Initialize (dm_provisioners en) u) = None"
    and ok: "make_engine en store statistics users admins nodeID w = Some (Ok e, w')"
  shows "engine_ready en nodeID e"
proof -
  obtain e1 where o': "options_apply (dm_visit en) (engine_options en users admins nodeID (dm_IsFirstBoot en w))
        (initial_engine (env_gt (dm_engine en)) store statistics) = Inr e1"
      and "\<exists>q. e = e1\<lparr>e_queue := q\<rparr>"
    using ok by (fastforce simp: make_engine_def New_def Let_def split: sum.splits prod.splits)
  let ?e0 = "(initial_engine (env_gt (dm_engine en)) store statistics)\<lparr>
      e_twins := registrarTwins_GetKey (dm_registrarGateway en) users, e_admins := registrarAdmins_GetKey admins,
      e_nodeID := nodeID, e_registrarGateway := Some (dm_registrarGateway en)\<rparr>"
  obtain e2 where order: "withStartupOrder_apply (dm_visit en) (startup_types en) ?e0 = Inr e2"
      and e1: "e1 = e2\<lparr>e_rerunAll := dm_IsFirstBoot en w, e_callback := Some (dm_Callback en)\<rparr>"
    using o' by (cases "withStartupOrder_apply (dm_visit en) (startup_types en) ?e0") (simp_all add: engine_options_def)
  note facts = startup_order_engine [OF v order]
  obtain q where e: "e = e1\<lparr>e_queue := q\<rparr>" using \<open>\<exists>q. e = e1\<lparr>e_queue := q\<rparr>\<close> by blast
  have fields: "e_nodeID e = nodeID" "e_registrarGateway e = Some (dm_registrarGateway en)"
    "e_callback e = Some (dm_Callback en)" "e_order e = e_order e2" "e_typeIndex e = e_typeIndex e2"
    using facts(5,6) by (simp_all add: e e1)
  show ?thesis
    unfolding engine_ready_def fields
    using facts(1-3) facts(4) init by (simp add: initial_engine_def) blast
qed

text \<open>The goroutines in the order they are started; a start that breaks off has started the first \<open>n\<close>.\<close>

definition routines ::
  "('w, 'f) provisiond_env \<Rightarrow> u64 \<Rightarrow> 'w native_engine \<Rightarrow> ('w, 'f) reporter \<Rightarrow> ('w, 'f) routine list" where
  "routines en nodeID e rep =
     [RunSetter, RunEngine e,
      RunHandler \<lparr>ch_node = nodeID, ch_registrarGateway = dm_registrarGateway en, ch_engine = native_api e\<rparr>,
      RunReporter rep]"

definition started_ok :: "('w, 'f) provisiond_env \<Rightarrow> ('w, 'f) routine list \<Rightarrow> bool" where
  "started_ok en rs \<longleftrightarrow>
     (\<exists>n nodeID e rep. rs = take n (routines en nodeID e rep) \<and> (2 \<le> n \<longrightarrow> engine_ready en nodeID e))"

lemma started_ok_cases:
  "started_ok en []" "started_ok en [RunSetter]"
  "engine_ready en nodeID e \<Longrightarrow> started_ok en [RunSetter, RunEngine e]"
  "engine_ready en nodeID e \<Longrightarrow> started_ok en [RunSetter, RunEngine e, RunHandler \<lparr>ch_node = nodeID,
     ch_registrarGateway = dm_registrarGateway en, ch_engine = native_api e\<rparr>]"
  "engine_ready en nodeID e \<Longrightarrow> started_ok en [RunSetter, RunEngine e, RunHandler \<lparr>ch_node = nodeID,
     ch_registrarGateway = dm_registrarGateway en, ch_engine = native_api e\<rparr>, RunReporter rep]"
proof -
  have n: "started_ok en (take k (routines en nodeID e rep))" if "2 \<le> k \<Longrightarrow> engine_ready en nodeID e" for k nodeID e rep
    using that unfolding started_ok_def by blast
  show "started_ok en []" "started_ok en [RunSetter]"
    using n [of 0] n [of 1] by (simp_all add: routines_def)
  assume "engine_ready en nodeID e"
  then show "started_ok en [RunSetter, RunEngine e]"
    "started_ok en [RunSetter, RunEngine e, RunHandler \<lparr>ch_node = nodeID,
       ch_registrarGateway = dm_registrarGateway en, ch_engine = native_api e\<rparr>]"
    "started_ok en [RunSetter, RunEngine e, RunHandler \<lparr>ch_node = nodeID,
       ch_registrarGateway = dm_registrarGateway en, ch_engine = native_api e\<rparr>, RunReporter rep]"
    using n [of 2 nodeID e] n [of 3 nodeID e] n [of 4 nodeID e rep] by (simp_all add: routines_def numeral_eq_Suc)
qed

lemma adds_around:
  assumes "engine_ready en nodeID e"
  shows "adds da_runs (start_around en rootDir nodeID e) (\<lambda>rs. started_ok en (RunSetter # RunEngine e # rs))"
  unfolding start_around_def
  by (rule adds_go adds_bnd adds_nothing | simp add: started_ok_cases(1,2) started_ok_cases(3-5) [OF assms])+

lemma adds_engine:
  assumes "\<And>u. fst (pv_Initialize (dm_provisioners en) u) = None \<Longrightarrow> engine_ready en nodeID e"
  shows "adds da_runs (bnd (start_engine en e) (\<lambda>_. start_around en rootDir nodeID e))
    (\<lambda>rs. started_ok en (RunSetter # rs))"
  unfolding start_engine_def bnd_assoc
proof (rule adds_bnd [OF _ _ adds_bnd [OF _ _ adds_bnd]])
  fix x s s' assume "within (check_eff (pv_Initialize (dm_provisioners en))) s = Some (Ok x, s')"
  then obtain w where "fst (pv_Initialize (dm_provisioners en) (da_world s)) = None"
    by (auto simp: within_run)
  then have ready: "engine_ready en nodeID e" by (rule assms)
  show "adds da_runs (bnd (go (RunEngine e)) (\<lambda>x. bnd (within (logged (dm_MarkBooted en)))
      (\<lambda>_. start_around en rootDir nodeID e))) (\<lambda>rs. started_ok en (RunSetter # rs))"
    by (rule adds_go adds_bnd adds_around [OF ready]
          | simp add: started_ok_cases(1,2) started_ok_cases(3-5) [OF ready])+
qed (simp_all add: started_ok_cases)

lemma adds_start:
  assumes "visit_ok (dm_visit en)"
  shows "adds da_runs (provisiond_start en rootDir farm) (started_ok en)"
proof -
  have tail: "adds da_runs (bnd (within (make_engine en store statistics users admins nodeID))
      (\<lambda>e. bnd (start_engine en e) (\<lambda>_. start_around en rootDir nodeID e))) (\<lambda>rs. started_ok en (RunSetter # rs))"
    for store statistics users admins nodeID
  proof (rule adds_bnd)
    fix e s s' assume "within (make_engine en store statistics users admins nodeID) s = Some (Ok e, s')"
    then show "adds da_runs (bnd (start_engine en e) (\<lambda>_. start_around en rootDir nodeID e)) (\<lambda>rs. started_ok en (RunSetter # rs))"
      by (intro adds_engine) (auto simp: within_run intro: make_engine_ready [OF assms])
  qed (simp_all add: started_ok_cases)
  show ?thesis
    unfolding provisiond_start_def start_setter_def bnd_assoc
    by (rule adds_go tail adds_bnd adds_pair | simp add: started_ok_cases(1,2))+
qed

text \<open>
  C9. The provision daemon starts its parts in order and wired together: whatever the services answer and
  wherever the start breaks off, the goroutines it has started are the capacity setter, the engine, the
  event handler and the reporter, in this order and each at most once; the handler works on that engine
  and for the node the engine works for; and an engine only runs with provisioners that were initialised,
  with the capacity setter as its callback, with the gateway of the registrar, and with volumes and
  networks numbered before machines and those before logs.
\<close>

theorem provisiond_starts:
  assumes "visit_ok (dm_visit en)" and "da_runs s = []"
    and "provisiond_action en rootDir integrity s = Some (r, s')"
  shows "\<exists>n nodeID e rep.
    da_runs s' = take n
      [RunSetter, RunEngine e,
       RunHandler \<lparr>ch_node = nodeID, ch_registrarGateway = dm_registrarGateway en, ch_engine = native_api e\<rparr>,
       RunReporter rep] \<and>
    (2 \<le> n \<longrightarrow> engine_ready en nodeID e)"
proof -
  have "adds da_runs (provisiond_action en rootDir integrity) (started_ok en)"
    unfolding provisiond_action_def
    by (rule adds_start [OF assms(1)] adds_bnd adds_pair adds_if adds_nothing | simp add: started_ok_cases(1,2))+
  from addsD [OF this assms(3,2)] have "started_ok en (da_runs s')" .
  then show ?thesis unfolding started_ok_def routines_def .
qed

section \<open>The check of the metrics database\<close>

text \<open>
  The database is removed exactly when the process that checks it ends with an error, unless that error is
  \<open>context.Canceled\<close> itself. A process that the end of the context kills ends with the error of the process
  (\<open>signal: killed\<close>), so a daemon that is stopped during the check loses its metrics.
\<close>

lemma runChecks_removes:
  assumes push: "\<And>l es. quiet removed (dm_PushErrors en l es)" and exec: "\<And>args. quiet removed (dm_exec en args)"
    and remove: "\<And>p v. removed (snd (dm_RemoveAll en p v)) = insert p (removed v)"
  shows "\<exists>v. removed v = removed w \<and>
    removed (snd (runChecks en rootDir w)) =
      (case snd (fst (dm_exec en [dm_arg0 en, ''--root'', rootDir, ''--integrity''] v)) of
         None \<Rightarrow> removed w
       | Some err \<Rightarrow> if is_canceled err then removed w
                     else insert (in_root rootDir metricsStorageDB) (removed w))"
proof -
  let ?v = "snd (dm_PushErrors en ''integrity'' [] w)"
  obtain stderr e w1 where x: "dm_exec en [dm_arg0 en, ''--root'', rootDir, ''--integrity''] ?v = ((stderr, e), w1)"
    by (metis prod.exhaust)
  have v: "removed ?v = removed w" using push by (simp add: quiet_def)
  then have "removed w1 = removed w" using quietD [OF exec x] by simp
  then have "removed (snd (dm_PushErrors en ''integrity'' es w1)) = removed w" for es
    using push by (simp add: quiet_def)
  with v x show ?thesis
    by (intro exI [of _ ?v]) (auto simp: runChecks_def remove \<open>removed w1 = removed w\<close> split: option.splits)
qed

end
