(* ===== verification/Zos_Main.thy ===== *)
theory Zos_Main
  imports Provisiond "HOL-Library.Sublist"
begin

text \<open>
  One binary holds the daemons (\<open>cmds/zos/main.go\<close>): which one runs follows from the name it is called by.
  With it, the check that the provision daemon starts in a process of its own, and \<open>zbusdebug\<close>, which asks
  the daemons for their state.
\<close>

section \<open>Names and arguments\<close>

text \<open>\<open>filepath.Base\<close>.\<close>

definition path_base :: "string \<Rightarrow> string" where
  "path_base p =
     (if p = [] then ''.''
      else let q = rev (dropWhile (\<lambda>c. c = CHR ''/'') (rev p))
           in if q = [] then ''/'' else rev (takeWhile (\<lambda>c. c \<noteq> CHR ''/'') (rev q)))"

definition zos_commands :: "string list" where
  "zos_commands =
     [''zui'', ''storaged'', ''flistd'', ''contd'', ''vmd'', ''noded'', ''netlightd'', ''provisiond'',
      ''zbusdebug'', ''gateway'', ''powerd'', ''api-gateway'']"

text \<open>The arguments handed to the library; \<open>os.Args[0]\<close> of an empty list panics.\<close>

definition zos_args :: "string list \<Rightarrow> string list option" where
  "zos_args args =
     (case args of
        [] \<Rightarrow> None
      | arg0 # rest \<Rightarrow>
          (let name = path_base arg0
           in Some (if name \<in> set zos_commands then ''bin'' # name # rest else args)))"

text \<open>
  What the library makes of its arguments: the command and its own arguments, the action of the program
  with the flag \<open>list\<close>, or an error. Its documented behaviour: the first argument is the program; one
  that is the name of a command runs that command with what follows; one that is a flag the program does
  not define is an error.
\<close>

datatype invocation = Command string "string list" | ListCommands | Usage | CliError

definition zos_flags :: "string list" where
  "zos_flags = [''list'', ''debug'', ''d'', ''help'', ''h'', ''version'', ''v'']"

definition cli_laws :: "(string list \<Rightarrow> invocation) \<Rightarrow> bool" where
  "cli_laws cli \<longleftrightarrow>
     (\<forall>prog nm rest. nm \<in> set zos_commands \<longrightarrow> cli (prog # nm # rest) = Command nm rest) \<and>
     (\<forall>prog flag rest. flag \<notin> set zos_flags \<and> CHR ''='' \<notin> set flag \<and> flag \<noteq> [] \<longrightarrow>
        cli (prog # (''--'' @ flag) # rest) = CliError)"

definition zos_main :: "(string list \<Rightarrow> invocation) \<Rightarrow> string list \<Rightarrow> invocation option" where
  "zos_main cli args = map_option cli (zos_args args)"

text \<open>\<open>--list\<close> prints the visible commands (the library adds \<open>help\<close> to those of the program).\<close>

definition zos_list :: "string list \<Rightarrow> string list" where
  "zos_list visible = filter (\<lambda>nm. nm \<noteq> ''help'') visible"

section \<open>The arguments of the check\<close>

definition integrity_args :: "('w, 'f) provisiond_env \<Rightarrow> string \<Rightarrow> string list" where
  "integrity_args en rootDir = [dm_arg0 en, ''--root'', rootDir, ''--integrity'']"

section \<open>zbusdebug\<close>

definition PossibleModules :: "string list" where
  "PossibleModules =
     [''storage'', ''node'', ''identityd'', ''vmd'', ''flist'', ''netlight'', ''container'', ''provision'',
      ''gateway'', ''qsfsd'']"

text \<open>The modules that the daemons of the repository declare to the bus.\<close>

definition served_modules :: "string list" where
  "served_modules =
     [''storage'', ''node'', ''registrar'', ''identityd'', ''vmd'', ''flist'', ''netlight'', ''container'',
      ''provision'', ''gateway'', ''api-gateway'', ''zui'']"

definition debug_modules :: "string \<Rightarrow> (string list) res" where
  "debug_modules m =
     (if m \<noteq> [] then (if m \<in> set PossibleModules then Inr [m] else Inl (ErrMsg ''unknown module''))
      else Inr PossibleModules)"

text \<open>\<open>status\<close> is \<open>printModuleStatus\<close>; an error only ends the program when one module was asked for.\<close>

fun print_statuses :: "(string \<Rightarrow> ('w, goerr option) eff) \<Rightarrow> bool \<Rightarrow> string list \<Rightarrow> ('w, goerr option) eff" where
  "print_statuses status single [] w = (None, w)"
| "print_statuses status single (m # ms) w =
     (case status m w of
        (Some err, w1) \<Rightarrow> if single then (Some err, w1) else print_statuses status single ms w1
      | (None, w1) \<Rightarrow> print_statuses status single ms w1)"

text \<open>\<open>visit\<close> is the order in which Go ranges over the map of modules.\<close>

definition zbusdebug_action ::
  "(string list \<Rightarrow> string list) \<Rightarrow> ('w, goerr option) eff \<Rightarrow> (string \<Rightarrow> ('w, goerr option) eff) \<Rightarrow> string \<Rightarrow>
     ('w, goerr option) eff" where
  "zbusdebug_action visit client status m w =
     (case client w of
        (Some err, w1) \<Rightarrow> (Some (Wrapped err ''failed to initialize zbus client''), w1)
      | (None, w1) \<Rightarrow>
          (case debug_modules m of
             Inl err \<Rightarrow> (Some err, w1)
           | Inr debug \<Rightarrow>
               (let ms = (if m \<noteq> [] then debug else visit debug)
                in print_statuses status (length ms = 1) ms w1)))"

section \<open>Properties\<close>

lemma path_base_name:
  assumes "CHR ''/'' \<notin> set nm" "nm \<noteq> []"
  shows "path_base nm = nm" "path_base (d @ ''/'' @ nm) = nm"
proof -
  have hd: "dropWhile (\<lambda>c. c = CHR ''/'') (rev nm @ xs) = rev nm @ xs" for xs
    using assms by (cases "rev nm") (auto simp: rev_swap)
  have all: "takeWhile (\<lambda>c. c \<noteq> CHR ''/'') (rev nm) = rev nm"
    using assms(1) by (auto simp: takeWhile_eq_all_conv)
  have "path_base nm = rev (takeWhile (\<lambda>c. c \<noteq> CHR ''/'') (rev nm))"
    using hd [of "[]"] assms(2) by (simp add: path_base_def Let_def)
  then show "path_base nm = nm" by (simp only: all rev_rev_ident)
  have "takeWhile (\<lambda>c. c \<noteq> CHR ''/'') (rev nm @ CHR ''/'' # rev d) = rev nm"
    using assms(1) by (subst takeWhile_append2) auto
  then show "path_base (d @ ''/'' @ nm) = nm" using hd [of "CHR ''/'' # rev d"] assms(2)
    by (simp add: path_base_def Let_def)
qed

lemma zos_commands_plain: "nm \<in> set zos_commands \<Longrightarrow> CHR ''/'' \<notin> set nm \<and> nm \<noteq> []"
  by (auto simp: zos_commands_def)

text \<open>
  Every name that \<open>--list\<close> prints is a name by which the binary runs that very command, from any directory,
  with its arguments unchanged: so the links that the build makes from the list all work.
\<close>

lemma listed_names_dispatch:
  assumes "cli_laws cli" and "nm \<in> set (zos_list (zos_commands @ [''help'']))"
  shows "zos_main cli (nm # rest) = Some (Command nm rest)"
    and "zos_main cli ((dir @ ''/'' @ nm) # rest) = Some (Command nm rest)"
proof -
  have nm: "nm \<in> set zos_commands" using assms(2) by (auto simp: zos_list_def)
  then show "zos_main cli (nm # rest) = Some (Command nm rest)"
    "zos_main cli ((dir @ ''/'' @ nm) # rest) = Some (Command nm rest)"
    using assms(1) zos_commands_plain [OF nm] path_base_name(1) [of nm] path_base_name(2) [of nm dir]
    by (simp_all add: zos_main_def zos_args_def Let_def cli_laws_def)
qed

text \<open>
  The integrity check runs the provision daemon exactly when the daemon was called by its own name: then
  the process it starts is the daemon with its root and the flag \<open>--integrity\<close>; called as a command of the
  binary instead, it starts the binary with a flag it does not know, the check always fails and the metrics
  are removed at every start.
\<close>

lemma integrity_check_command:
  assumes "cli_laws cli" and "dm_arg0 en = dir @ ''/'' @ nm" and "CHR ''/'' \<notin> set nm" and "nm \<noteq> []"
  shows "(nm = ''provisiond'' \<longrightarrow> zos_main cli (integrity_args en rootDir)
        = Some (Command ''provisiond'' [''--root'', rootDir, ''--integrity''])) \<and>
    (nm \<notin> set zos_commands \<longrightarrow> zos_main cli (integrity_args en rootDir) = Some CliError)"
proof (intro conjI impI)
  have base: "path_base (dir @ CHR ''/'' # nm) = nm" using path_base_name(2) [OF assms(3,4), of dir] by simp
  show "zos_main cli (integrity_args en rootDir) = Some (Command ''provisiond'' [''--root'', rootDir, ''--integrity''])"
    if "nm = ''provisiond''"
    using assms(1,2) base that
    by (simp add: zos_main_def zos_args_def integrity_args_def cli_laws_def zos_commands_def)
  show "zos_main cli (integrity_args en rootDir) = Some CliError" if "nm \<notin> set zos_commands"
  proof -
    have "cli (dm_arg0 en # (''--'' @ ''root'') # [rootDir, ''--integrity'']) = CliError"
      using assms(1) unfolding cli_laws_def by (simp add: zos_flags_def)
    then show ?thesis using assms(2) base that by (simp add: zos_main_def zos_args_def integrity_args_def)
  qed
qed

text \<open>
  The list of known modules is not that of the modules the daemons serve: three of them can never be asked
  for, and one is served by no daemon.
\<close>

lemma unknown_modules:
  "filter (\<lambda>m. m \<notin> set PossibleModules) served_modules = [''registrar'', ''api-gateway'', ''zui'']"
  "filter (\<lambda>m. m \<notin> set served_modules) PossibleModules = [''qsfsd'']"
  by (simp_all add: PossibleModules_def served_modules_def)

lemma zbusdebug_unserved:
  assumes "client w = (None, w1)" "m \<in> {''registrar'', ''api-gateway'', ''zui''}"
  shows "zbusdebug_action visit client status m w = (Some (ErrMsg ''unknown module''), w1)"
  using assms by (auto simp: zbusdebug_action_def debug_modules_def PossibleModules_def)

end
