(* ===== verification/Daemons.thy ===== *)
theory Daemons
  imports Zos_Main Registrar Power_Server Identityd Upgrade Update_Worker
begin

text \<open>
  The programs around the remaining components: the power daemon (\<open>cmds/modules/powerd/main.go\<close>), the node
  daemon (\<open>cmds/modules/noded/main.go\<close>), the identity daemon (\<open>cmds/identityd/main.go\<close>, \<open>monitor.go\<close>) and the
  command of the update worker (\<open>tools/zos-update-worker/cmd/worker.go\<close>).
\<close>

section \<open>The power daemon\<close>

text \<open>
  \<open>MustGet\<close> and the calls over the bus panic where they fail. \<open>NewIdentity\<close> gives whether the identity is
  not nil, and the error.
\<close>

record 'w powerd_env =
  pw_MustGet :: "('w, u32 option) eff"
  pw_NewClient :: "('w, goerr option) eff"
  pw_PushErrors :: "string list \<Rightarrow> ('w, goerr option) eff"
  pw_NodeID :: "('w, (u32 \<times> goerr option) option) eff"
  pw_TwinID :: "('w, (u32 \<times> goerr option) option) eff"
  pw_PrivateKey :: "('w, byte list option) eff"
  pw_NewIdentity :: "byte list \<Rightarrow> bool \<times> goerr option"
  pw_gateway :: "'w registrar_gateway"
  pw_wol :: "'w wol_lib"
  pw_NewConsumer :: "('w, goerr option) eff"
  pw_host :: "'w host"
  pw_machine :: "'w machine"

datatype 'w power_run = RunUptime | RunPower "'w power_server"

text \<open>An id of the registrar: an error is shown on the console before it is returned.\<close>

definition registrar_id ::
  "'w powerd_env \<Rightarrow> string \<Rightarrow> ('w, (u32 \<times> goerr option) option) eff \<Rightarrow> ('w, u32) action" where
  "registrar_id en msg f =
     bnd (bus f) (\<lambda>(i, err).
       case err of
         None \<Rightarrow> give i
       | Some e \<Rightarrow> bnd (logged (pw_PushErrors en [err_text e])) (\<lambda>_. bail (Wrapped e msg)))"

text \<open>The public key is logged before the error is looked at: a nil identity panics.\<close>

definition powerd_identity :: "'w powerd_env \<Rightarrow> ('w, unit) action" where
  "powerd_identity en =
     bnd (bus (pw_PrivateKey en)) (\<lambda>sk.
       case pw_NewIdentity en sk of (present, err) \<Rightarrow> if present then check err else panic)"

definition powerd_action :: "'w powerd_env \<Rightarrow> (('w, 'w power_run) daemon, unit) action" where
  "powerd_action en =
     bnd (within (bus (pw_MustGet en))) (\<lambda>farm.
     bnd (context_msg ''failed to connect to message broker server'' (within (check_eff (pw_NewClient en)))) (\<lambda>_.
     bnd (within (logged (pw_PushErrors en []))) (\<lambda>_.
     bnd (within (registrar_id en ''failed to get node id from powerd'' (pw_NodeID en))) (\<lambda>nodeID.
     bnd (within (registrar_id en ''failed to get twin id'' (pw_TwinID en))) (\<lambda>twinID.
     bnd (within (powerd_identity en)) (\<lambda>_.
     bnd (go RunUptime) (\<lambda>_.
     bnd (context_msg ''failed to enable wol'' (within (gw_call (EnsureWakeOnLan (pw_wol en))))) (\<lambda>enabled.
     bnd (context_msg ''failed to to create event consumer'' (within (check_eff (pw_NewConsumer en)))) (\<lambda>_.
     go (RunPower \<lparr>ps_registrarGateway = pw_gateway en, ps_enabled = enabled, ps_farm = farm, ps_node = nodeID,
           ps_host = pw_host en, ps_machine = pw_machine en\<rparr>))))))))))"

section \<open>The node daemon\<close>

record ('w, 'g) noded_env =
  nd_MustGet :: "('w, unit option) eff"
  nd_NewClient :: "('w, goerr option) eff"
  nd_NewServer :: "string \<Rightarrow> ('w, goerr option) eff"
  nd_Register :: "string \<Rightarrow> ('w, goerr option) eff"
  nd_SystemNodeID :: "('w, u32 option) eff"
  nd_RunningMode :: string
  nd_Total :: "('w, capacity res) eff"
  nd_IsSecureBoot :: "('w, bool \<times> goerr option) eff"
  nd_BoardVersion :: "('w, string res) eff"
  nd_GetHypervisor :: "('w, string res) eff"
  nd_GPUs :: "('w, 'g list res) eff"
  nd_ShortID :: "'g \<Rightarrow> string"
  nd_zero_info :: registration_info
  nd_NewPerfMon :: "('w, goerr option) eff"
  nd_NTPCheck :: "'w \<Rightarrow> 'w"
  nd_RunPerfMon :: "('w, goerr option) eff"
  nd_LimitedCache :: "'w \<Rightarrow> bool"
  nd_Sleep :: "'w \<Rightarrow> 'w"
  nd_NodeID :: "('w, u32 \<times> goerr option) eff"
  nd_TwinID :: "('w, u32 \<times> goerr option) eff"
  nd_Retry :: "((u32 \<times> u32) \<times> 'w, goerr option) eff \<Rightarrow> ((u32 \<times> u32) \<times> 'w, goerr option) eff"
  nd_GetSubstrate :: "('w, goerr option) eff"
  nd_NewRedisStream :: "u32 \<Rightarrow> ('w, goerr option) eff"
  nd_NewSystemMonitor :: "u32 \<Rightarrow> ('w, goerr option) eff"
  nd_NewHostMonitor :: "('w, goerr option) eff"
  nd_RunServer :: "('w, goerr option) eff"

datatype node_run = RunRegistration registration_info | RunEvents u32

definition build_info ::
  "registration_info \<Rightarrow> capacity \<Rightarrow> string \<Rightarrow> bool \<Rightarrow> string \<Rightarrow> string list \<Rightarrow> registration_info" where
  "build_info zero cap serial secureBoot hypervisor gpus =
     WithVirtualized (WithSecureBoot (WithSerialNumber (WithCapacity
       (fold (\<lambda>g info. WithGPU info g) gpus zero) cap) serial) secureBoot) (length hypervisor \<noteq> 0)"

text \<open>
  \<open>registerationServer\<close>, the goroutine that answers for the registrar: nothing looks at the error it returns.
\<close>

definition registerationServer :: "('w, 'g) noded_env \<Rightarrow> (('w, node_run) daemon, unit) action" where
  "registerationServer en =
     bnd (context_msg ''fail to connect to message broker server'' (within (check_eff (nd_NewClient en)))) (\<lambda>_.
     bnd (context_msg ''fail to connect to message broker server'' (within (check_eff (nd_NewServer en ''registrar'')))) (\<lambda>_.
     bnd (within (check_eff (nd_Register en ''registrar''))) (\<lambda>_.
     bnd (expose ''registrar'') (\<lambda>_.
     within (check_eff (nd_RunServer en))))))"

text \<open>The facts about the machine; an error of the secure boot check is only logged.\<close>

definition collect_info :: "('w, 'g) noded_env \<Rightarrow> ('w, registration_info) action" where
  "collect_info en =
     bnd (context_msg ''failed to get node capacity'' (call (nd_Total en))) (\<lambda>cap.
     bnd (run_eff (nd_IsSecureBoot en)) (\<lambda>(secureBoot, _).
     bnd (context_msg ''failed to get dmi information'' (call (nd_BoardVersion en))) (\<lambda>serial.
     bnd (context_msg ''failed to get hypervisors'' (call (nd_GetHypervisor en))) (\<lambda>hypervisor.
     bnd (context_msg ''failed to list gpus'' (call (nd_GPUs en))) (\<lambda>gpus.
     give (build_info (nd_zero_info en) cap serial secureBoot hypervisor (map (nd_ShortID en) gpus)))))))"

text \<open>One attempt to read the ids, into the variables \<open>node\<close> and \<open>twin\<close> of the program.\<close>

definition read_ids :: "('w, 'g) noded_env \<Rightarrow> ((u32 \<times> u32) \<times> 'w, goerr option) eff" where
  "read_ids en s =
     (case s of ((node, twin), w) \<Rightarrow>
        (case nd_NodeID en w of
           ((n, Some err), w1) \<Rightarrow> (Some err, ((n, twin), w1))
         | ((n, None), w1) \<Rightarrow> (case nd_TwinID en w1 of ((t, err), w2) \<Rightarrow> (err, ((n, t), w2)))))"

definition wait_ids :: "('w, 'g) noded_env \<Rightarrow> ('w, u32 \<times> u32) action" where
  "wait_ids en w =
     (case nd_Retry en (read_ids en) ((0, 0), w) of
        (Some err, (_, w1)) \<Rightarrow> Some (Err (Wrapped err ''failed to get node id''), w1)
      | (None, (ids, w1)) \<Rightarrow> Some (Ok ids, w1))"

definition serve_node :: "('w, 'g) noded_env \<Rightarrow> u32 \<Rightarrow> (('w, node_run) daemon, unit) action" where
  "serve_node en node =
     bnd (within (check_eff (nd_GetSubstrate en))) (\<lambda>_.
     bnd (within (check_eff (nd_NewRedisStream en node))) (\<lambda>_.
     bnd (go (RunEvents node)) (\<lambda>_.
     bnd (within (check_eff (nd_NewSystemMonitor en node))) (\<lambda>_.
     bnd (within (check_eff (nd_NewHostMonitor en))) (\<lambda>_.
     bnd (expose ''host'') (\<lambda>_.
     bnd (expose ''system'') (\<lambda>_.
     bnd (expose ''performance-monitor'') (\<lambda>_.
     within (check_eff (nd_RunServer en))))))))))"

definition start_node :: "('w, 'g) noded_env \<Rightarrow> (('w, node_run) daemon, unit) action" where
  "start_node en =
     bnd (context_msg ''fail to connect to message broker server'' (within (check_eff (nd_NewServer en ''node'')))) (\<lambda>_.
     bnd (within (collect_info en)) (\<lambda>info.
     bnd (go (RunRegistration info)) (\<lambda>_.
     bnd (context_msg ''failed to create a new perfMon'' (within (check_eff (nd_NewPerfMon en)))) (\<lambda>_.
     bnd (context_msg ''failed to create a zbus client to the msgBroker'' (within (check_eff (nd_NewClient en)))) (\<lambda>_.
     bnd (within (run_eff (\<lambda>w. ((), nd_NTPCheck en w)))) (\<lambda>_.
     bnd (context_msg ''failed to run the scheduler'' (within (check_eff (nd_RunPerfMon en)))) (\<lambda>_.
     bnd (within (wait_while (nd_LimitedCache en) (nd_Sleep en))) (\<lambda>_.
     bnd (within (wait_ids en)) (\<lambda>(node, twin).
     serve_node en node)))))))))"

definition noded_action :: "('w, 'g) noded_env \<Rightarrow> bool \<Rightarrow> bool \<Rightarrow> (('w, node_run) daemon, unit) action" where
  "noded_action en printID printNet =
     bnd (within (bus (nd_MustGet en))) (\<lambda>_.
     bnd (context_msg ''fail to connect to message broker server'' (within (check_eff (nd_NewClient en)))) (\<lambda>_.
     if printID then bnd (within (bus (nd_SystemNodeID en))) (\<lambda>i. println (show_nat (unat i)))
     else if printNet then println (nd_RunningMode en)
     else start_node en))"

section \<open>The identity daemon\<close>

text \<open>
  The files of the upgrader, the world, and the file of authorized keys. \<open>MustGet\<close> panics where there is no
  environment.
\<close>

type_synonym 'w identity_world = "'w ust \<times> string option"

record 'w identityd_env =
  iy_NewClient :: "('w, goerr option) eff"
  iy_NewServer :: "('w, goerr option) eff"
  iy_MustGet :: "('w, node_env option) eff"
  iy_RunningMode :: string
  iy_PrivateKey :: "('w, byte list option) eff"
  iy_id :: "'w id_env"
  iy_fs :: fs_env
  iy_new_storage :: "string \<Rightarrow> goerr option"
  iy_v4 :: bool
  iy_up :: "'w up_env"
  iy_gateway :: "'w registrar_gateway"
  iy_ssh :: "'w ssh_env"

datatype identity_run = RunBus identity_manager

definition on_w :: "('w, 'a) action \<Rightarrow> ('w identity_world, 'a) action" where
  "on_w = on_part (\<lambda>s. snd (fst s)) (\<lambda>w s. ((fst (fst s), w), snd s))"

lemma on_w_run:
  "on_w m s = Some (r, s') \<longleftrightarrow> (\<exists>w. m (snd (fst s)) = Some (r, w) \<and> s' = ((fst (fst s), w), snd s))"
  by (auto simp: on_w_def on_part_def)

definition on_fs :: "(fsys, 'a) action \<Rightarrow> ('w identity_world, 'a) action" where
  "on_fs = on_part (\<lambda>s. fst (fst s)) (\<lambda>f s. ((f, snd (fst s)), snd s))"

definition on_keys :: "('w keys_state, 'a) action \<Rightarrow> ('w identity_world, 'a) action" where
  "on_keys = on_part (\<lambda>s. (snd (fst s), snd s)) (\<lambda>k s. ((fst (fst s), fst k), snd k))"

definition on_ust :: "('w ust, 'a) action \<Rightarrow> ('w identity_world, 'a) action" where
  "on_ust = on_part fst (\<lambda>u s. (u, snd s))"

text \<open>The flags: \<open>-v\<close>, \<open>-farm\<close>, \<open>-net\<close>, \<open>-id\<close>, \<open>-d\<close>, in the order they are looked at.\<close>

record identity_flags =
  if_ver :: bool
  if_farm :: bool
  if_net :: bool
  if_id :: bool
  if_debug :: bool

definition getIdentityMgr :: "'w identityd_env \<Rightarrow> string \<Rightarrow> bool \<Rightarrow> ('w, identity_manager) action" where
  "getIdentityMgr en root debug =
     bnd (call (NewManager (iy_id en) root debug)) (\<lambda>manager.
     bnd (context_msg ''failed to parse node environment'' (call (id_EnvGet (iy_id en)))) (\<lambda>_.
     give manager))"

text \<open>\<open>monitorStream.Version\<close>: what a reader has received after it read \<open>n\<close> times.\<close>

definition monitor_stream :: "'v \<Rightarrow> nat \<Rightarrow> 'v list" where
  "monitor_stream version n = take n (version # replicate n version)"

text \<open>
  The upgrader runs for \<open>n\<close> rounds; that it needs a restart ends the program like the end of the context.
\<close>

definition run_upgrader :: "'w identityd_env \<Rightarrow> upgrader \<Rightarrow> nat \<Rightarrow> ('w ust, unit) action" where
  "run_upgrader en u n s =
     (case upgrader_Run (iy_up en) (install (iy_up en) (iy_fs en) u) (iy_gateway en) u n s of
        None \<Rightarrow> None
      | Some (Inr _, s1) \<Rightarrow> Some (Ok (), s1)
      | Some (Inl err, s1) \<Rightarrow> if errors_is err ErrRestartNeeded then Some (Ok (), s1) else Some (Err err, s1))"

definition identityd_serve ::
  "'w identityd_env \<Rightarrow> string \<Rightarrow> bool \<Rightarrow> nat \<Rightarrow> (('w identity_world, identity_run) daemon, unit) action" where
  "identityd_serve en root debug n =
     bnd (within (on_fs (check_eff (os_MkdirAll (fe_io (iy_fs en)) (fe_resolve (iy_fs en)) root)))) (\<lambda>_.
     bnd (within (on_w (getIdentityMgr en root debug))) (\<lambda>idMgr.
     bnd (within (on_fs (call (NewUpgrader (iy_fs en) (iy_new_storage en) (iy_v4 en) root
            [NoZosUpgrade debug, ZbusClient])))) (\<lambda>upgrader.
     bnd (within (on_w (check_eff (iy_NewServer en)))) (\<lambda>_.
     bnd (expose ''manager'') (\<lambda>_.
     bnd (expose ''monitor'') (\<lambda>_.
     bnd (go (RunBus idMgr)) (\<lambda>_.
     bnd (within (on_keys (logged (manageSSHKeys (iy_ssh en))))) (\<lambda>_.
     within (on_ust (run_upgrader en upgrader n))))))))))"

text \<open>The error of the bus client only matters to \<open>-id\<close>.\<close>

definition identityd_run ::
  "'w identityd_env \<Rightarrow> identity_flags \<Rightarrow> string \<Rightarrow> nat \<Rightarrow> (('w identity_world, identity_run) daemon, unit) action" where
  "identityd_run en fl root n =
     (if if_ver fl then give ()
      else bnd (within (on_w (run_eff (iy_NewClient en)))) (\<lambda>err.
        if if_farm fl
        then bnd (within (on_w (bus (iy_MustGet en)))) (\<lambda>env. println (show_nat (unat (ne_FarmID env))))
        else if if_net fl then bnd (within (on_w (bus (iy_MustGet en)))) (\<lambda>_. println (iy_RunningMode en))
        else if if_id fl
        then bnd (check err) (\<lambda>_.
             bnd (within (on_w (bus (iy_PrivateKey en)))) (\<lambda>sk.
             if length sk < 32 then panic else println (b64_encode (ed25519_public sk))))
        else identityd_serve en root (if_debug fl) n))"

section \<open>The command of the update worker\<close>

record worker_flags =
  wf_src :: string
  wf_dst :: string
  wf_interval :: "64 word"
  wf_main :: string
  wf_test :: string
  wf_qa :: string

definition default_flags :: worker_flags where
  "default_flags = \<lparr>wf_src = ''tf-autobuilder'', wf_dst = ''tf-zos'', wf_interval = 10,
     wf_main = ''https://registrar.prod4.grid.tf'', wf_test = ''https://registrar.test4.grid.tf'',
     wf_qa = ''https://registrar.qa4.grid.tf''\<rparr>"

text \<open>\<open>time.Duration(interval) * time.Minute\<close> in nanoseconds: it wraps.\<close>

definition worker_interval :: "worker_flags \<Rightarrow> 64 word" where
  "worker_interval f = wf_interval f * 60000000000"

definition worker_params :: "worker_flags \<Rightarrow> params" where
  "worker_params f = \<lparr>pm_QAUrl = wf_qa f, pm_TestUrl = wf_test f, pm_MainUrl = wf_main f\<rparr>"

definition worker_cmd ::
  "(string \<Rightarrow> string res) \<Rightarrow> (string \<Rightarrow> 'c res) \<Rightarrow> worker_flags \<Rightarrow> (worker \<times> (network \<times> 'c) list) res" where
  "worker_cmd absp newClient f = NewWorker absp newClient (wf_src f) (wf_dst f) (worker_params f)"

section \<open>What the daemons start\<close>

text \<open>
  The power server only runs for a registered node: with the id that the registrar answered without an error,
  after the uptime reports have started, and allowed to stop the node only as far as wake on LAN was enabled.
\<close>

definition power_ready :: "'w powerd_env \<Rightarrow> 'w power_server \<Rightarrow> bool" where
  "power_ready en p \<longleftrightarrow>
     ps_registrarGateway p = pw_gateway en \<and> ps_host p = pw_host en \<and> ps_machine p = pw_machine en \<and>
     (\<exists>w w'. pw_MustGet en w = (Some (ps_farm p), w')) \<and>
     (\<exists>w w'. pw_NodeID en w = (Some (ps_node p, None), w')) \<and>
     (\<exists>w w'. EnsureWakeOnLan (pw_wol en) w = ((ps_enabled p, None), w'))"

definition power_started :: "'w powerd_env \<Rightarrow> 'w power_run list \<Rightarrow> bool" where
  "power_started en rs \<longleftrightarrow> (\<exists>n p. rs = take n [RunUptime, RunPower p] \<and> (2 \<le> n \<longrightarrow> power_ready en p))"

lemma power_started_simps:
  "power_started en []" "power_started en [RunUptime]" "power_ready en p \<Longrightarrow> power_started en [RunUptime, RunPower p]"
  unfolding power_started_def
    apply (rule exI [of _ 0], simp)
   apply (rule exI [of _ 1], simp)
  apply (rule exI [of _ 2], rule exI [of _ p], simp)
  done

lemma registrar_id_ok:
  "registrar_id en msg f w = Some (Ok i, w') \<longleftrightarrow> f w = (Some (i, None), w')"
  by (auto simp: registrar_id_def bnd_def bus_def logged_def action_defs split: prod.splits option.splits)

lemma powerd_starts_only:
  assumes "powerd_action en s = Some (r, s')" and "da_runs s = []"
  shows "power_started en (da_runs s')"
proof -
  have "adds da_runs (powerd_action en) (power_started en)"
    unfolding powerd_action_def
    by (rule adds_bnd adds_go adds_last | simp add: power_started_simps(1,2) | rule power_started_simps(3),
        force simp: power_ready_def within_run registrar_id_ok)+
  from addsD [OF this assms] show ?thesis .
qed

text \<open>
  A key that makes no identity is an error the daemon means to return; it panics instead, because it prints
  the identity first.
\<close>

lemma powerd_nil_identity:
  assumes "pw_PrivateKey en w = (Some sk, w')" and "pw_NewIdentity en sk = (False, Some err)"
  shows "powerd_identity en w = Some (Panic, w')"
  using assms by (simp add: powerd_identity_def bnd_def bus_def panic_def)

text \<open>The node's data: all its graphics cards, and the rest as the libraries report it.\<close>

lemma fold_WithGPU: "fold (\<lambda>g info. WithGPU info g) gpus i = i\<lparr>ri_GPUs := ri_GPUs i \<union> set gpus\<rparr>"
  by (induction gpus arbitrary: i) (auto simp: WithGPU_def)

lemma build_info_fields:
  "build_info zero cap serial secure hypervisor gpus =
     zero\<lparr>ri_Capacity := cap, ri_SerialNumber := serial, ri_SecureBoot := secure,
       ri_Virtualized := (hypervisor \<noteq> []), ri_GPUs := ri_GPUs zero \<union> set gpus\<rparr>"
  by (simp add: build_info_def fold_WithGPU WithVirtualized_def WithSecureBoot_def WithSerialNumber_def
      WithCapacity_def)

text \<open>
  The node daemon answers for the node only once it is registered: nothing is offered on the bus before both
  ids were read without an error, in one attempt of the last retry.
\<close>

lemma wait_ids_ok:
  assumes ret: "retry_laws (nd_Retry en)" and ok: "wait_ids en w = Some (Ok (node, twin), w')"
  shows "\<exists>v v'. nd_NodeID en v = ((node, None), v') \<and> nd_TwinID en v' = ((twin, None), w')"
proof -
  have "nd_Retry en (read_ids en) ((0, 0), w) = (None, ((node, twin), w'))"
    using ok by (auto simp: wait_ids_def split: prod.splits option.splits)
  then obtain v where "read_ids en v = (None, ((node, twin), w'))"
    using retry_laws_none [OF ret] by blast
  then show ?thesis by (auto simp: read_ids_def split: prod.splits option.splits)
qed

definition node_known :: "('w, 'g) noded_env \<Rightarrow> bool" where
  "node_known en \<longleftrightarrow>
     (\<exists>v v' v'' node twin. nd_NodeID en v = ((node, None), v') \<and> nd_TwinID en v' = ((twin, None), v''))"

definition node_offers :: "('w, 'g) noded_env \<Rightarrow> string list \<Rightarrow> bool" where
  "node_offers en os \<longleftrightarrow> prefix os [''host'', ''system'', ''performance-monitor''] \<and>
     (os \<noteq> [] \<longrightarrow> node_known en)"

lemma noded_serves_registered:
  assumes ret: "retry_laws (nd_Retry en)" and run: "noded_action en printID printNet s = Some (r, s')"
    and "da_objects s = []"
  shows "node_offers en (da_objects s')"
proof -
  have serve: "adds da_objects (serve_node en node) (node_offers en)" if ids: "node_known en" for node
    unfolding serve_node_def
    by (rule adds_expose adds_bnd adds_nothing | simp add: node_offers_def ids)+
  have known: "adds da_objects (case ids of (node, twin) \<Rightarrow> serve_node en node) (node_offers en)"
    if "within (wait_ids en) u = Some (Ok ids, u')" for ids u u'
  proof (rule adds_pair)
    fix node twin assume "ids = (node, twin)"
    with that show "adds da_objects (serve_node en node) (node_offers en)"
      using wait_ids_ok [OF ret] by (intro serve) (unfold within_run node_known_def, blast)
  qed
  have "node_offers en []" by (simp add: node_offers_def)
  note quiet = adds_bnd [where P = "node_offers en", OF _ this]
  have start: "adds da_objects (start_node en) (node_offers en)"
    unfolding start_node_def by (intro quiet known silent_context silent_daemon)
  have "adds da_objects (noded_action en printID printNet) (node_offers en)"
    unfolding noded_action_def
    by (intro quiet adds_if start adds_nothing silent_context silent_daemon \<open>node_offers en []\<close>)
  from addsD [OF this run assms(3)] show ?thesis .
qed

text \<open>The registrar is offered exactly when the bus could be reached and took the object.\<close>

lemma registerationServer_offers:
  assumes run: "registerationServer en s = Some (r, s')" and "da_objects s = []"
  shows "da_objects s' = [''registrar''] \<longleftrightarrow> (\<exists>w1 w2 w3. nd_NewClient en (da_world s) = (None, w1) \<and>
    nd_NewServer en ''registrar'' w1 = (None, w2) \<and> nd_Register en ''registrar'' w2 = (None, w3))"
proof -
  obtain e1 w1 where c: "nd_NewClient en (da_world s) = (e1, w1)" by fastforce
  obtain e2 w2 where v: "nd_NewServer en ''registrar'' w1 = (e2, w2)" by fastforce
  obtain e3 w3 where g: "nd_Register en ''registrar'' w2 = (e3, w3)" by fastforce
  obtain e4 w4 where n: "nd_RunServer en w3 = (e4, w4)" by fastforce
  note defs = registerationServer_def bnd_def context_msg_def within_def on_part_def check_eff_def expose_def run_eff_def
  show ?thesis
    using assms c v g n by (cases e1; cases e2; cases e3; cases e4) (auto simp: defs)
qed

text \<open>
  The program of the identity daemon ends with success exactly when its upgrader did, or asks for a
  restart; whatever happens to the keys of the users does not matter to that.
\<close>

lemma run_upgrader_exit:
  assumes "upgrader_Run (iy_up en) (install (iy_up en) (iy_fs en) u) (iy_gateway en) u n s = Some (r, s')"
  shows "exit_status (run_upgrader en u n) s =
    Some (case r of Inr _ \<Rightarrow> 0 | Inl err \<Rightarrow> if errors_is err ErrRestartNeeded then 0 else 1)"
  using assms by (auto simp: exit_status_def run_upgrader_def split: sum.splits)

text \<open>The version that is streamed never changes, and is sent for every read.\<close>

lemma monitor_stream_constant: "monitor_stream v n = replicate n v"
proof -
  have "v # replicate n v = replicate (Suc n) v" by simp
  then show ?thesis unfolding monitor_stream_def by (simp only: take_replicate) simp
qed

text \<open>The identity daemon serves the identity that it loaded from its key store, and that before its first update.\<close>

definition identity_served :: "'w identityd_env \<Rightarrow> string \<Rightarrow> bool \<Rightarrow> identity_run list \<Rightarrow> bool" where
  "identity_served en root debug rs \<longleftrightarrow>
     rs = [] \<or> (\<exists>m w w'. rs = [RunBus m] \<and> NewManager (iy_id en) root debug w = (Inr m, w'))"

lemma identityd_serves:
  assumes "identityd_run en fl root n s = Some (r, s')" "da_runs s = []"
  shows "identity_served en root (if_debug fl) (da_runs s')"
proof -
  have bus: "identity_served en root (if_debug fl) [RunBus m]"
    if run: "within (on_w (getIdentityMgr en root (if_debug fl))) u = Some (Ok m, u')" for m u u'
  proof -
    obtain w w' where "getIdentityMgr en root (if_debug fl) w = Some (Ok m, w')"
      using run unfolding within_run on_w_run by blast
    then obtain v v' where "NewManager (iy_id en) root (if_debug fl) v = (Inr m, v')"
      unfolding getIdentityMgr_def by (auto elim!: bnd_okE simp: give_def)
    then show ?thesis unfolding identity_served_def by blast
  qed
  have empty: "identity_served en root (if_debug fl) []" by (simp add: identity_served_def)
  have serve: "adds da_runs (identityd_serve en root (if_debug fl) n) (identity_served en root (if_debug fl))"
    unfolding identityd_serve_def
    by (rule adds_go adds_bnd adds_nothing | simp add: empty | (rule bus, assumption))+
  have "adds da_runs (identityd_run en fl root n) (identity_served en root (if_debug fl))"
    unfolding identityd_run_def
    by (rule serve adds_if adds_bnd adds_nothing | simp add: empty)+
  from addsD [OF this assms] show ?thesis .
qed

text \<open>The flags of the update worker: the networks all get a client, and an interval can wrap around.\<close>

lemma worker_default: "worker_interval default_flags = 600000000000"
  by (simp add: worker_interval_def default_flags_def)

lemma worker_interval_wraps: "worker_interval (f\<lparr>wf_interval := 2 ^ 55\<rparr>) = 0"
  by (simp add: worker_interval_def)

end
