(* ===== verification/Module_Daemons.thy ===== *)
theory Module_Daemons
  imports Upgrade Provisiond
begin

text \<open>
  The daemons that put a module of zosbase on the message bus (\<open>storaged\<close>, \<open>flistd\<close>, \<open>contd\<close>, \<open>vmd\<close>,
  \<open>netlightd\<close>, \<open>gateway\<close> and \<open>api_gateway\<close> under \<open>cmds/modules\<close>), and \<open>zlf\<close>, which forwards the log. What they do
  on their own is modelled: the order of their start, the waiting for a program, the migration of the
  machines' configuration, the link of the host network, the loop that serves the gateway.
\<close>

section \<open>The bus\<close>

text \<open>\<open>Run\<close> ends with the error of the bus; the end of the context is no error for the daemons.\<close>

record 'w bus_lib =
  bl_NewServer :: "string \<Rightarrow> ('w, goerr option) eff"
  bl_NewClient :: "('w, goerr option) eff"
  bl_Run :: "('w, goerr option) eff"

datatype module_run = CleanCache | WatchContainers | MonitorMachines | ServeGateway

definition serve :: "'w bus_lib \<Rightarrow> (('w, module_run) daemon, unit) action" where
  "serve b =
     bnd (within (run_eff (bl_Run b))) (\<lambda>err.
       case err of
         Some e \<Rightarrow> if is_canceled e then give () else bail (Wrapped e ''unexpected error'')
       | None \<Rightarrow> give ())"

definition connect_server :: "string \<Rightarrow> 'w bus_lib \<Rightarrow> string \<Rightarrow> (('w, module_run) daemon, unit) action" where
  "connect_server msg b m = context_msg msg (within (check_eff (bl_NewServer b m)))"

definition connect_client :: "string \<Rightarrow> 'w bus_lib \<Rightarrow> (('w, module_run) daemon, unit) action" where
  "connect_client msg b = context_msg msg (within (check_eff (bl_NewClient b)))"

section \<open>Storage, flists, gateways\<close>

definition storaged_action ::
  "'w bus_lib \<Rightarrow> ('w, goerr option) eff \<Rightarrow> (('w, module_run) daemon, unit) action" where
  "storaged_action b newStorage =
     bnd (context_msg ''failed to initialize storage module'' (within (check_eff newStorage))) (\<lambda>_.
     bnd (connect_server ''fail to connect to message broker server'' b ''storage'') (\<lambda>_.
     bnd (expose ''storage'') (\<lambda>_.
     serve b)))"

text \<open>\<open>cleaner\<close> is whether the module implements \<open>flist.Cleaner\<close>.\<close>

definition flistd_action :: "'w bus_lib \<Rightarrow> bool \<Rightarrow> (('w, module_run) daemon, unit) action" where
  "flistd_action b cleaner =
     bnd (connect_client ''fail to connect to message broker server'' b) (\<lambda>_.
     bnd (connect_server ''fail to connect to message broker server'' b ''flist'') (\<lambda>_.
     bnd (expose ''flist'') (\<lambda>_.
     bnd (if cleaner then go CleanCache else give ()) (\<lambda>_.
     serve b))))"

definition gateway_action ::
  "'w bus_lib \<Rightarrow> ('w, goerr option) eff \<Rightarrow> (('w, module_run) daemon, unit) action" where
  "gateway_action b newGateway =
     bnd (connect_server ''fail to connect to message broker server'' b ''gateway'') (\<lambda>_.
     bnd (connect_client ''failed to connect to zbus broker'' b) (\<lambda>_.
     bnd (context_msg ''failed to construct gateway object'' (within (check_eff newGateway))) (\<lambda>_.
     bnd (expose ''manager'') (\<lambda>_.
     serve b))))"

section \<open>Containers\<close>

text \<open>\<open>lookPath\<close> is \<open>exec.LookPath\<close>, which is asked again and again without end.\<close>

definition wait_binary :: "(string \<Rightarrow> ('w, goerr option) eff) \<Rightarrow> string \<Rightarrow> ('w, unit) action" where
  "wait_binary lookPath bin = retry_forever (check_eff (lookPath bin))"

definition contd_action ::
  "'w bus_lib \<Rightarrow> (string \<Rightarrow> ('w, goerr option) eff) \<Rightarrow> (string \<Rightarrow> ('w, goerr option) eff) \<Rightarrow> string \<Rightarrow>
     (('w, module_run) daemon, unit) action" where
  "contd_action b lookPath mkdirAll root =
     bnd (within (wait_binary lookPath ''shim-logs'')) (\<lambda>_.
     bnd (context_msg ''fail to create module root'' (within (check_eff (mkdirAll root)))) (\<lambda>_.
     bnd (connect_server ''fail to connect to message broker server'' b ''container'') (\<lambda>_.
     bnd (connect_client ''fail to connect to message broker server'' b) (\<lambda>_.
     bnd (expose ''container'') (\<lambda>_.
     bnd (go WatchContainers) (\<lambda>_.
     serve b))))))"

section \<open>The network\<close>

record 'w netlight_lib =
  nt_MkdirAll :: "string \<Rightarrow> ('w, goerr option) eff"
  nt_LookPath :: "string \<Rightarrow> ('w, goerr option) eff"
  nt_DefaultBridgeValid :: "('w, goerr option) eff"
  nt_ApplyRules :: "('w, goerr option) eff"
  nt_CreateNDMZBridge :: "('w, goerr option) eff"
  nt_BridgeExists :: "string \<Rightarrow> 'w \<Rightarrow> bool"
  nt_BridgeNew :: "string \<Rightarrow> ('w, goerr option) eff"
  nt_LinkExists :: "string \<Rightarrow> 'w \<Rightarrow> bool"
  nt_MakeVethPair :: "string \<Rightarrow> string \<Rightarrow> ('w, goerr option) eff"
  nt_HostMyceliumBr :: string
  nt_PrivateKey :: "('w, byte list option) eff"
  nt_seed :: "byte list \<Rightarrow> byte list"
  nt_SetupMycelium :: "string \<Rightarrow> byte list \<Rightarrow> ('w, goerr option) eff"
  nt_NewNetworker :: "('w, goerr option) eff"
  nt_Register :: "('w, goerr option) eff"

text \<open>The bridge and the link of the host's mycelium, each made only where it is missing.\<close>

definition host_bridge :: "'w netlight_lib \<Rightarrow> ('w, unit) action" where
  "host_bridge l w =
     (if nt_BridgeExists l (nt_HostMyceliumBr l) w then give () w
      else context_msg (''could not create bridge '' @ nt_HostMyceliumBr l)
             (check_eff (nt_BridgeNew l (nt_HostMyceliumBr l))) w)"

definition host_link :: "'w netlight_lib \<Rightarrow> ('w, unit) action" where
  "host_link l w =
     (if nt_LinkExists l ''hmycelium'' w then give () w
      else context_msg ''failed to create mycelium link''
             (check_eff (nt_MakeVethPair l ''hmycelium'' (nt_HostMyceliumBr l))) w)"

definition host_mycelium :: "'w netlight_lib \<Rightarrow> ('w, unit) action" where
  "host_mycelium l =
     bnd (host_bridge l) (\<lambda>_.
     bnd (host_link l) (\<lambda>_.
     bnd (bus (nt_PrivateKey l)) (\<lambda>sk.
     context_msg ''failed to setup mycelium on host'' (check_eff (nt_SetupMycelium l ''hmycelium'' (nt_seed l sk))))))"

definition netlightd_action ::
  "'w bus_lib \<Rightarrow> 'w netlight_lib \<Rightarrow> string \<Rightarrow> (('w, module_run) daemon, unit) action" where
  "netlightd_action b l root =
     bnd (context_msg ''fail to create module root'' (within (check_eff (nt_MkdirAll l root)))) (\<lambda>_.
     bnd (within (wait_binary (nt_LookPath l) ''mycelium'')) (\<lambda>_.
     bnd (context_msg ''invalid setup'' (within (check_eff (nt_DefaultBridgeValid l)))) (\<lambda>_.
     bnd (connect_client ''failed to connect to zbus broker'' b) (\<lambda>_.
     bnd (connect_server ''failed to connect to zbus broker'' b ''netlight'') (\<lambda>_.
     bnd (context_msg ''failed to apply host nft rules'' (within (check_eff (nt_ApplyRules l)))) (\<lambda>_.
     bnd (context_msg ''failed to create ndmz bridge'' (within (check_eff (nt_CreateNDMZBridge l)))) (\<lambda>_.
     bnd (within (host_mycelium l)) (\<lambda>_.
     bnd (context_msg ''failed to create Networker'' (within (check_eff (nt_NewNetworker l)))) (\<lambda>_.
     bnd (context_msg ''failed to register network light module'' (within (check_eff (nt_Register l)))) (\<lambda>_.
     bnd (expose ''netlight'') (\<lambda>_.
     serve b)))))))))))"

section \<open>Machines\<close>

text \<open>
  The configuration of the machines is moved from the persisted to the volatile directory. \<open>readDir\<close> lists
  the names in a directory in order; \<open>removeAll\<close> removes a tree.
\<close>

record vm_files =
  vf_fs :: fs_env
  vf_readDir :: "path \<Rightarrow> fsys \<Rightarrow> string list res"
  vf_removeAll :: "path \<Rightarrow> fsys \<Rightarrow> goerr option \<times> fsys"

text \<open>The callback on a file: \<open>os.Open\<close>, which follows links, \<open>os.Create\<close> and \<open>io.Copy\<close>.\<close>

definition copy_one :: "fs_env \<Rightarrow> path \<Rightarrow> path \<Rightarrow> (fsys, goerr option) eff" where
  "copy_one fe dst p fs =
     (case fe_io fe ''open'' p of
        Some e \<Rightarrow> (Some e, fs)
      | None \<Rightarrow>
          (let q = fe_resolve fe fs p
           in if fs q = None then (Some not_exist, fs)
              else case os_OpenTrunc (fe_io fe) (fe_resolve fe) (in_root dst (after_last_slash p)) fs of
                     (Inl err, fs1) \<Rightarrow> (Some err, fs1)
                   | (Inr d, fs1) \<Rightarrow>
                       (case fs1 q of
                          Some (Regular content) \<Rightarrow>
                            (case fe_Copy fe content of (written, err) \<Rightarrow> (err, fs1(d \<mapsto> Regular written)))
                        | _ \<Rightarrow> (Some (ErrMsg ''is a directory''), fs1))))"

text \<open>\<open>filepath.Walk\<close> on one entry of the directory: a directory is listed, and then skipped.\<close>

definition copy_name :: "vm_files \<Rightarrow> path \<Rightarrow> path \<Rightarrow> string \<Rightarrow> (fsys, goerr option) eff" where
  "copy_name vf src dst nm fs =
     (case os_Lstat (fe_io (vf_fs vf)) (in_root src nm) fs of
        Some e \<Rightarrow> (Some e, fs)
      | None \<Rightarrow>
          if fs (in_root src nm) = Some Directory
          then (case vf_readDir vf (in_root src nm) fs of Inl e \<Rightarrow> (Some e, fs) | Inr _ \<Rightarrow> (None, fs))
          else copy_one (vf_fs vf) dst (in_root src nm) fs)"

definition copyDepth1 :: "vm_files \<Rightarrow> path \<Rightarrow> path \<Rightarrow> (fsys, goerr option) eff" where
  "copyDepth1 vf src dst fs =
     (case os_Lstat (fe_io (vf_fs vf)) src fs of
        Some e \<Rightarrow> (Some e, fs)
      | None \<Rightarrow>
          if fs src \<noteq> Some Directory then copy_one (vf_fs vf) dst src fs
          else case vf_readDir vf src fs of
                 Inl e \<Rightarrow> (Some e, fs)
               | Inr names \<Rightarrow> for_err (copy_name vf src dst) names fs)"

text \<open>The migration: errors are logged, and the old configuration is removed in all cases.\<close>

definition move_config :: "vm_files \<Rightarrow> path \<Rightarrow> path \<Rightarrow> bool \<Rightarrow> fsys \<Rightarrow> fsys" where
  "move_config vf old config running fs =
     snd (vf_removeAll vf old (if running then snd (copyDepth1 vf old config fs) else fs))"

record 'w vmd_env =
  vm_bus :: "'w bus_lib"
  vm_files :: vm_files
  vm_VolatileDir :: "('w, string \<times> goerr option) eff"
  vm_NewVMModule :: "string \<Rightarrow> string \<Rightarrow> ('w, goerr option) eff"
  vm_List :: "('w, (string list) res) eff"
  vm_ConfigDir :: string

text \<open>
  The volatile directory may exist already; \<open>os.IsExist\<close> looks at the error itself. The world holds the files
  beside the rest.
\<close>

definition os_IsExist :: "goerr \<Rightarrow> bool" where
  "os_IsExist e = (case e of Sentinel s _ \<Rightarrow> s = ErrExist | _ \<Rightarrow> False)"

definition volatile_dir :: "'w vmd_env \<Rightarrow> ('w, string) action" where
  "volatile_dir en w =
     (case vm_VolatileDir en w of
        ((config, Some e), w1) \<Rightarrow>
          if os_IsExist e then Some (Ok config, w1)
          else Some (Err (Wrapped e ''failed to create vmd volatile storage''), w1)
      | ((config, None), w1) \<Rightarrow> Some (Ok config, w1))"

definition on_rest :: "('w, 'a) action \<Rightarrow> (fsys \<times> 'w, 'a) action" where
  "on_rest = on_part snd (\<lambda>w s. (fst s, w))"

definition lift_bus :: "'w bus_lib \<Rightarrow> (fsys \<times> 'w) bus_lib" where
  "lift_bus b = \<lparr>bl_NewServer = (\<lambda>m s. case bl_NewServer b m (snd s) of (e, w) \<Rightarrow> (e, (fst s, w))),
     bl_NewClient = (\<lambda>s. case bl_NewClient b (snd s) of (e, w) \<Rightarrow> (e, (fst s, w))),
     bl_Run = (\<lambda>s. case bl_Run b (snd s) of (e, w) \<Rightarrow> (e, (fst s, w)))\<rparr>"

definition vmd_action :: "'w vmd_env \<Rightarrow> path \<Rightarrow> ((fsys \<times> 'w, module_run) daemon, unit) action" where
  "vmd_action en root =
     (let fe = vf_fs (vm_files en); b = lift_bus (vm_bus en)
      in
     bnd (within (check_eff (\<lambda>s. case os_MkdirAll (fe_io fe) (fe_resolve fe) root (fst s) of (e, fs) \<Rightarrow> (e, (fs, snd s))))) (\<lambda>_.
     bnd (connect_client ''failed to connect to message broker'' b) (\<lambda>_.
     bnd (connect_server ''fail to connect to message broker server'' b ''vmd'') (\<lambda>_.
     bnd (within (on_rest (volatile_dir en))) (\<lambda>config.
     bnd (context_msg ''failed to create a new instance of manager''
            (within (on_rest (check_eff (vm_NewVMModule en root config))))) (\<lambda>_.
     bnd (context_msg ''failed to list running vms'' (within (on_rest (call (vm_List en))))) (\<lambda>vms.
     bnd (within (run_eff (\<lambda>s. ((), (move_config (vm_files en) (in_root root (vm_ConfigDir en)) config (vms \<noteq> []) (fst s), snd s))))) (\<lambda>_.
     bnd (expose ''manager'') (\<lambda>_.
     bnd (go MonitorMachines) (\<lambda>_.
     serve b))))))))))"

section \<open>The gateway of the registrar\<close>

text \<open>The goroutine that serves: again after every error of the bus, until it ends or the context does.\<close>

partial_function (option) serve_again :: "('w, goerr option) eff \<Rightarrow> ('w, unit) action" where
  "serve_again run w =
     (case run w of
        (Some e, w1) \<Rightarrow> if is_canceled e then Some (Ok (), w1) else serve_again run w1
      | (None, w1) \<Rightarrow> Some (Ok (), w1))"

declare serve_again.simps [code]

record 'w api_env =
  ap_PrivateKey :: "('w, byte list option) eff"
  ap_NewRegistrarGateway :: "('w, 'w registrar_gateway res) eff"
  ap_MustGet :: "('w, u32 option) eff"
  ap_NewZosAPI :: "u32 \<Rightarrow> ('w, goerr option) eff"
  ap_done :: "('w, unit) action"

text \<open>The routes of the API are set up on a router that nothing serves.\<close>

definition api_gateway_action :: "'w bus_lib \<Rightarrow> 'w api_env \<Rightarrow> (('w, module_run) daemon, unit) action" where
  "api_gateway_action b en =
     bnd (connect_server ''fail to connect to message broker server'' b ''api-gateway'') (\<lambda>_.
     bnd (connect_client ''fail to connect to message broker server'' b) (\<lambda>_.
     bnd (within (bus (ap_PrivateKey en))) (\<lambda>sk.
     if length sk < 32 then panic
     else
       bnd (context_msg ''failed to create api gateway'' (within (call (ap_NewRegistrarGateway en)))) (\<lambda>gw.
       bnd (expose ''api-gateway'') (\<lambda>_.
       bnd (go ServeGateway) (\<lambda>_.
       bnd (within (bus (ap_MustGet en))) (\<lambda>farmID.
       bnd (context_msg ''failed to get farm'' (within (gw_call (gw_GetFarm gw (ucast farmID))))) (\<lambda>farm.
       bnd (context_msg ''failed to create zos api'' (within (check_eff (ap_NewZosAPI en (ucast (fm_TwinID farm)))))) (\<lambda>_.
       within (ap_done en))))))))))"

section \<open>The log forwarder\<close>

text \<open>
  \<open>reader\<close> of \<open>zlf\<close> on what the reads of at most 1024 bytes return before the first error: each is published
  trimmed (of ASCII space); where publishing fails the program ends.
\<close>

definition go_space :: "char \<Rightarrow> bool" where
  "go_space c \<longleftrightarrow> c \<in> {CHR 0x09, CHR 0x0A, CHR 0x0B, CHR 0x0C, CHR 0x0D, CHR 0x20}"

definition trim_space :: "string \<Rightarrow> string" where
  "trim_space s = rev (dropWhile go_space (rev (dropWhile go_space s)))"

definition forward_logs :: "(string \<Rightarrow> ('w, goerr option) eff) \<Rightarrow> string list \<Rightarrow> ('w, unit) action" where
  "forward_logs publish = for_each (\<lambda>chunk. check_eff (publish (trim_space chunk)))"

section \<open>What the daemons offer\<close>

text \<open>
  A daemon offers its object only when its module was made; \<open>contd\<close> and \<open>netlightd\<close> only once the program that
  they wait for was found. What a daemon offers it offers once.
\<close>

lemma silent_serve [simp]: "silent da_objects (serve b)"
  unfolding serve_def by (rule silent_bnd) (simp_all split: option.splits)

lemma silent_connect [simp]:
  "silent da_objects (connect_server msg b m)" "silent da_objects (connect_client msg b)"
  by (simp_all add: connect_server_def connect_client_def)

text \<open>\<open>offers P obj\<close>: nothing, or \<open>obj\<close> and then \<open>P\<close> holds.\<close>

definition offers :: "bool \<Rightarrow> string \<Rightarrow> string list \<Rightarrow> bool" where
  "offers P obj os \<longleftrightarrow> os = [] \<or> os = [obj] \<and> P"

lemma offers_simps [simp]: "offers P obj []" "offers P obj [obj] \<longleftrightarrow> P"
  by (auto simp: offers_def)

lemma adds_offer:
  assumes P "\<And>v. silent da_objects (f v)"
  shows "adds da_objects (bnd (expose obj) f) (offers P obj)"
  by (rule adds_expose, rule adds_nothing) (use assms in simp_all)

lemma within_check_ok: "within (check_eff f) s = Some (Ok x, s') \<Longrightarrow> \<exists>w w'. f w = (None, w')"
  by (auto simp: within_run)

lemma found_binary:
  assumes "within (wait_binary lookPath bin) s = Some (Ok x, s')"
  shows "\<exists>w w'. lookPath bin w = (None, w')"
proof -
  obtain w where "retry_forever (check_eff (lookPath bin)) (da_world s) = Some (Ok x, w)"
    using assms by (auto simp: within_run wait_binary_def)
  then show ?thesis using retry_forever_induct [where I = "\<lambda>_. True"] by fastforce
qed

lemma storaged_offers:
  assumes "storaged_action b newStorage s = Some (r, s')" and "da_objects s = []"
  shows "offers (\<exists>w w'. newStorage w = (None, w')) ''storage'' (da_objects s')"
proof -
  have "adds da_objects (storaged_action b newStorage) (offers (\<exists>w w'. newStorage w = (None, w')) ''storage'')"
    unfolding storaged_action_def
    by (rule adds_offer adds_bnd | simp | force dest: within_check_ok)+
  from addsD [OF this assms] show ?thesis .
qed

lemma contd_offers:
  assumes "contd_action b lookPath mkdirAll root s = Some (r, s')" and "da_objects s = []"
  shows "offers ((\<exists>w w'. lookPath ''shim-logs'' w = (None, w')) \<and> (\<exists>w w'. mkdirAll root w = (None, w')))
    ''container'' (da_objects s')"
proof -
  let ?P = "(\<exists>w w'. lookPath ''shim-logs'' w = (None, w')) \<and> (\<exists>w w'. mkdirAll root w = (None, w'))"
  have offer: "adds da_objects (bnd (expose ''container'') (\<lambda>_. bnd (go WatchContainers) (\<lambda>_. serve b))) (offers ?P ''container'')"
    if ?P by (rule adds_offer [OF that]) (rule silent_bnd; simp)
  have "adds da_objects (contd_action b lookPath mkdirAll root) (offers ?P ''container'')"
    unfolding contd_action_def
  proof (rule adds_bnd)
    fix x :: unit and s s' :: "('a, module_run) daemon"
    assume found: "within (wait_binary lookPath ''shim-logs'') s = Some (Ok x, s')"
    show "adds da_objects (bnd (context_msg ''fail to create module root'' (within (check_eff (mkdirAll root))))
      (\<lambda>_. bnd (connect_server ''fail to connect to message broker server'' b ''container'')
      (\<lambda>_. bnd (connect_client ''fail to connect to message broker server'' b)
      (\<lambda>_. bnd (expose ''container'') (\<lambda>_. bnd (go WatchContainers) (\<lambda>_. serve b)))))) (offers ?P ''container'')"
    proof (rule adds_bnd)
      fix x :: unit and s s' :: "('a, module_run) daemon"
      assume "context_msg ''fail to create module root'' (within (check_eff (mkdirAll root))) s = Some (Ok x, s')"
      then have ?P using found_binary [OF found] within_check_ok [of "mkdirAll root"] by auto
      then show "adds da_objects (bnd (connect_server ''fail to connect to message broker server'' b ''container'')
        (\<lambda>_. bnd (connect_client ''fail to connect to message broker server'' b)
        (\<lambda>_. bnd (expose ''container'') (\<lambda>_. bnd (go WatchContainers) (\<lambda>_. serve b))))) (offers ?P ''container'')"
        by (intro adds_bnd offer) simp_all
    qed simp_all
  qed simp_all
  from addsD [OF this assms] show ?thesis .
qed

text \<open>
  A restart of \<open>netlightd\<close> makes no second bridge and no second link: where the calls of the first start
  succeeded, that part of the second one does nothing.
\<close>

definition link_laws :: "'w netlight_lib \<Rightarrow> bool" where
  "link_laws l \<longleftrightarrow>
     (\<forall>br w w'. nt_BridgeNew l br w = (None, w') \<longrightarrow> nt_BridgeExists l br w' \<and>
        (\<forall>k. nt_LinkExists l k w \<longrightarrow> nt_LinkExists l k w')) \<and>
     (\<forall>k br w w'. nt_MakeVethPair l k br w = (None, w') \<longrightarrow> nt_LinkExists l k w' \<and>
        (\<forall>br. nt_BridgeExists l br w \<longrightarrow> nt_BridgeExists l br w'))"

lemma host_links_once:
  assumes laws: "link_laws l" and br: "host_bridge l w = Some (Ok u, w1)" and k: "host_link l w1 = Some (Ok v, w2)"
  shows "host_bridge l w2 = Some (Ok (), w2)" "host_link l w2 = Some (Ok (), w2)"
proof -
  have "nt_BridgeExists l (nt_HostMyceliumBr l) w1"
    using laws br by (auto simp: host_bridge_def link_laws_def give_def split: if_splits)
  then have "nt_BridgeExists l (nt_HostMyceliumBr l) w2" "nt_LinkExists l ''hmycelium'' w2"
    using laws k by (auto simp: host_link_def link_laws_def give_def split: if_splits)
  then show "host_bridge l w2 = Some (Ok (), w2)" "host_link l w2 = Some (Ok (), w2)"
    by (simp_all add: host_bridge_def host_link_def give_def)
qed

section \<open>The configuration of the machines\<close>

text \<open>What the migration relies on: path resolution, complete copies, the list of a directory, removal.\<close>

definition plain_name :: "string \<Rightarrow> bool" where
  "plain_name n \<longleftrightarrow> n \<noteq> [] \<and> CHR ''/'' \<notin> set n"

definition below :: "path \<Rightarrow> path \<Rightarrow> bool" where
  "below dir q \<longleftrightarrow> q = dir \<or> prefix (dir @ ''/'') q"

definition vm_laws :: "vm_files \<Rightarrow> bool" where
  "vm_laws vf \<longleftrightarrow>
     resolve_laws (fe_resolve (vf_fs vf)) \<and>
     (\<forall>c wr. fe_Copy (vf_fs vf) c = (wr, None) \<longrightarrow> wr = c) \<and>
     (\<forall>dir fs names. vf_readDir vf dir fs = Inr names \<longrightarrow>
        distinct names \<and> (\<forall>n. n \<in> set names \<longleftrightarrow> plain_name n \<and> fs (in_root dir n) \<noteq> None)) \<and>
     (\<forall>dir fs fs'. vf_removeAll vf dir fs = (None, fs') \<longrightarrow> fs' = (\<lambda>q. if below dir q then None else fs q))"

definition no_links :: "path \<Rightarrow> fsys \<Rightarrow> bool" where
  "no_links dir fs \<longleftrightarrow> (\<forall>n t. plain_name n \<longrightarrow> fs (in_root dir n) \<noteq> Some (Symlink t))"

text \<open>One file of a directory, copied to the directory of the same name below another.\<close>

definition moved :: "path \<Rightarrow> path \<Rightarrow> string \<Rightarrow> fsys \<Rightarrow> fsys" where
  "moved src dst n fs =
     (case fs (in_root src n) of Some (Regular c) \<Rightarrow> fs(in_root dst n \<mapsto> Regular c) | _ \<Rightarrow> fs)"

lemma in_root_eq: "plain_name a \<Longrightarrow> plain_name b \<Longrightarrow> in_root d a = in_root e b \<longleftrightarrow> d = e \<and> a = b"
  using after_last_slash_append [of a d] after_last_slash_append [of b e]
  by (auto simp: plain_name_def in_root_def)

lemma in_root_same [simp]: "in_root d a = in_root d b \<longleftrightarrow> a = b"
  by (simp add: in_root_def)

lemma copy_one_ok:
  assumes laws: "vm_laws vf" and n: "plain_name n" and "src \<noteq> dst"
    and links: "no_links src fs" "no_links dst fs"
    and ok: "copy_one (vf_fs vf) dst (in_root src n) fs = (None, fs')"
  shows "fs' = moved src dst n fs" "fs (in_root src n) \<noteq> None"
proof -
  let ?fe = "vf_fs vf" and ?s = "in_root src n" and ?d = "in_root dst n"
  have base: "after_last_slash ?s = n"
    using n after_last_slash_append [of n src] by (simp add: in_root_def plain_name_def)
  have res: "fe_resolve ?fe fs ?s = ?s" "fe_resolve ?fe fs ?d = ?d"
    using laws links n by (auto simp: vm_laws_def resolve_laws_def no_links_def)
  have "?s \<noteq> ?d" using n \<open>src \<noteq> dst\<close> by (simp add: in_root_eq)
  moreover have "wr = c" if "fe_Copy ?fe c = (wr, None)" for c wr using laws that by (simp add: vm_laws_def)
  ultimately show "fs' = moved src dst n fs" "fs (in_root src n) \<noteq> None"
    using ok res base
    by (auto simp: copy_one_def os_OpenTrunc_def moved_def Let_def split: option.splits if_splits inode.splits prod.splits)
qed

lemma copy_name_ok:
  assumes "vm_laws vf" "plain_name n" "src \<noteq> dst" "no_links src fs" "no_links dst fs"
    and "copy_name vf src dst n fs = (None, fs')"
  shows "fs' = moved src dst n fs"
  using assms(6) copy_one_ok(1) [OF assms(1-5), of fs']
  by (auto simp: copy_name_def moved_def split: option.splits if_splits sum.splits)

lemma moved_keeps:
  assumes "plain_name n" "src \<noteq> dst"
  shows "plain_name m \<Longrightarrow> moved src dst n fs (in_root src m) = fs (in_root src m)"
    and "no_links src fs \<Longrightarrow> no_links src (moved src dst n fs)"
    and "no_links dst fs \<Longrightarrow> no_links dst (moved src dst n fs)"
  using assms by (auto simp: moved_def no_links_def in_root_eq split: option.splits inode.splits)

lemma copy_names_ok:
  assumes "vm_laws vf" "\<forall>n \<in> set names. plain_name n" "src \<noteq> dst" "no_links src fs" "no_links dst fs"
    and "for_err (copy_name vf src dst) names fs = (None, fs')"
  shows "fs' = fold (moved src dst) names fs"
  using assms(2,4-6)
proof (induction names arbitrary: fs)
  case (Cons n names)
  then obtain fs1 where one: "copy_name vf src dst n fs = (None, fs1)"
      and rest: "for_err (copy_name vf src dst) names fs1 = (None, fs')"
    by (auto split: prod.splits option.splits)
  have "fs1 = moved src dst n fs" using copy_name_ok [OF assms(1) _ assms(3) _ _ one] Cons.prems by simp
  then show ?case using Cons.IH [of fs1] rest Cons.prems moved_keeps [OF _ assms(3), of n] by simp
qed simp

lemma fold_moved:
  assumes "\<forall>n \<in> set names. plain_name n" "src \<noteq> dst" "distinct names"
  shows "fold (moved src dst) names fs q =
    (if \<exists>n \<in> set names. q = in_root dst n \<and> (\<exists>c. fs (in_root src n) = Some (Regular c))
     then fs (in_root src (after_last_slash q)) else fs q)"
  using assms(1,3)
proof (induction names arbitrary: fs)
  case (Cons n names)
  have n: "plain_name n" using Cons.prems by simp
  have src: "moved src dst n fs (in_root src m) = fs (in_root src m)" if "m \<in> set names" for m
    using moved_keeps(1) [OF n assms(2)] Cons.prems that by simp
  have base: "after_last_slash (in_root dst m) = m" if "m \<in> set (n # names)" for m
    using Cons.prems(1) that after_last_slash_append [of m dst] by (auto simp: in_root_def plain_name_def)
  have other: "moved src dst n fs q = fs q" if "q \<noteq> in_root dst n" for q
    using that by (simp add: moved_def split: option.splits inode.splits)
  have "fold (moved src dst) names (moved src dst n fs) q =
    (if \<exists>m \<in> set names. q = in_root dst m \<and> (\<exists>c. moved src dst n fs (in_root src m) = Some (Regular c))
     then moved src dst n fs (in_root src (after_last_slash q)) else moved src dst n fs q)"
    using Cons by simp
  also have "\<dots> = (if \<exists>m \<in> set (n # names). q = in_root dst m \<and> (\<exists>c. fs (in_root src m) = Some (Regular c))
     then fs (in_root src (after_last_slash q)) else fs q)"
  proof (cases "q = in_root dst n")
    case True
    then have "\<not> (\<exists>m \<in> set names. q = in_root dst m)" using Cons.prems by auto
    then show ?thesis using True base by (auto simp: moved_def split: option.splits inode.splits)
  next
    case False
    then show ?thesis using src base other by (auto; metis)
  qed
  finally show ?case by simp
qed simp

text \<open>
  An update of the daemon keeps the configuration of the machines that run: when the copy succeeds, every
  file of the old directory has its content under the same name in the new one, nothing is left below the
  old one, and no other entry changed.
\<close>

lemma move_config_keeps:
  assumes laws: "vm_laws vf" and apart: "\<not> prefix (old @ ''/'') (config @ ''/'')"
    and links: "no_links old fs" "no_links config fs" and dir: "fs old = Some Directory"
    and copy: "copyDepth1 vf old config fs = (None, fs1)"
    and remove: "fst (vf_removeAll vf old fs1) = None"
  shows "move_config vf old config True fs q =
    (if below old q then None
     else if \<exists>n c. plain_name n \<and> q = in_root config n \<and> fs (in_root old n) = Some (Regular c)
     then fs (in_root old (after_last_slash q)) else fs q)"
proof -
  have diff: "old \<noteq> config" using apart by auto
  obtain names where names: "vf_readDir vf old fs = Inr names"
      and run: "for_err (copy_name vf old config) names fs = (None, fs1)"
    using copy dir by (auto simp: copyDepth1_def split: option.splits sum.splits)
  have listed: "distinct names" "n \<in> set names \<longleftrightarrow> plain_name n \<and> fs (in_root old n) \<noteq> None" for n
    using laws names by (auto simp: vm_laws_def)
  have "fs1 = fold (moved old config) names fs"
    by (rule copy_names_ok [OF laws _ diff links run]) (simp add: listed)
  then have fs1: "fs1 q = (if \<exists>n \<in> set names. q = in_root config n \<and> (\<exists>c. fs (in_root old n) = Some (Regular c))
      then fs (in_root old (after_last_slash q)) else fs q)"
    using fold_moved [OF _ diff listed(1)] listed(2) by simp
  obtain fs2 where fs2: "vf_removeAll vf old fs1 = (None, fs2)" using remove by (metis prod.collapse)
  have "fs2 = (\<lambda>q. if below old q then None else fs1 q)"
    using laws fs2 unfolding vm_laws_def by blast
  then have "move_config vf old config True fs q = (if below old q then None else fs1 q)"
    using copy fs2 by (simp add: move_config_def)
  then show ?thesis using fs1 listed(2) by (auto; metis option.distinct(1))
qed

text \<open>
  A copy that fails loses it: the error is only logged, and the old directory is removed all the same. A
  file that cannot be opened, or a link to nothing, in the first place of the directory is enough to lose
  the configuration of every machine.
\<close>

lemma move_config_loses:
  assumes laws: "vm_laws vf" and dir: "fs old = Some Directory" "fe_io (vf_fs vf) ''lstat'' old = None"
    and names: "vf_readDir vf old fs = Inr (first # names)"
    and broken: "copy_name vf old config first fs = (Some e, fs)"
    and remove: "fst (vf_removeAll vf old fs) = None"
  shows "move_config vf old config True fs = (\<lambda>q. if below old q then None else fs q)"
proof -
  have "copyDepth1 vf old config fs = (Some e, fs)"
    using dir names broken by (simp add: copyDepth1_def os_Lstat_def)
  moreover obtain fs2 where fs2: "vf_removeAll vf old fs = (None, fs2)" using remove by (metis prod.collapse)
  moreover have "fs2 = (\<lambda>q. if below old q then None else fs q)"
    using laws fs2 unfolding vm_laws_def by blast
  ultimately show ?thesis by (simp add: move_config_def)
qed

lemma copy_name_dangling:
  assumes "fe_io (vf_fs vf) ''lstat'' (in_root src n) = None" "fe_io (vf_fs vf) ''open'' (in_root src n) = None"
    and "fs (in_root src n) = Some (Symlink t)" "fs (fe_resolve (vf_fs vf) fs (in_root src n)) = None"
  shows "copy_name vf src dst n fs = (Some not_exist, fs)"
  using assms by (simp add: copy_name_def os_Lstat_def copy_one_def Let_def)

text \<open>The goroutine of the gateway only ends when the bus ended without an error, or the context did.\<close>

lemma serve_again_ends:
  assumes "serve_again run w = Some (r, w')"
  shows "\<exists>v e. run v = (e, w') \<and> (e = None \<or> (\<exists>x. e = Some x \<and> is_canceled x)) \<and> r = Ok ()"
proof -
  have "\<exists>v e. run v = (e, snd p) \<and> (e = None \<or> (\<exists>x. e = Some x \<and> is_canceled x)) \<and> fst p = Ok ()"
    if "serve_again run w = Some p" for p
  proof (rule serve_again.raw_induct [where P = "\<lambda>run w p.
      \<exists>v e. run v = (e, snd p) \<and> (e = None \<or> (\<exists>x. e = Some x \<and> is_canceled x)) \<and> fst p = Ok ()", OF _ that])
    fix again run' u y
    assume ih: "\<And>g v q. again g v = Some q \<Longrightarrow>
        \<exists>v e. g v = (e, snd q) \<and> (e = None \<or> (\<exists>x. e = Some x \<and> is_canceled x)) \<and> fst q = Ok ()"
      and eq: "(case run' u of (Some e, w1) \<Rightarrow> if is_canceled e then Some (Ok (), w1) else again run' w1
                | (None, w1) \<Rightarrow> Some (Ok (), w1)) = Some y"
    obtain e w1 where run: "run' u = (e, w1)" by fastforce
    show "\<exists>v e. run' v = (e, snd y) \<and> (e = None \<or> (\<exists>x. e = Some x \<and> is_canceled x)) \<and> fst y = Ok ()"
    proof (cases "e = None \<or> (\<exists>x. e = Some x \<and> is_canceled x)")
      case True
      then show ?thesis using eq run by (intro exI [of _ u] exI [of _ e]) auto
    next
      case False
      then show ?thesis using eq run ih [of run' w1 y] by auto
    qed
  qed
  from this [OF assms] show ?thesis by simp
qed

section \<open>The log\<close>

text \<open>
  No character but space at the ends of a read is lost or added, however the log is cut into reads; there
  is one message for every read, not for every line.
\<close>

lemma trim_space_filter: "filter (\<lambda>c. \<not> go_space c) (trim_space s) = filter (\<lambda>c. \<not> go_space c) s"
proof -
  have drop: "filter (\<lambda>c. \<not> go_space c) (dropWhile go_space t) = filter (\<lambda>c. \<not> go_space c) t" for t
    by (induction t) auto
  show ?thesis by (simp add: trim_space_def drop flip: rev_filter)
qed

lemma forward_logs_all:
  assumes ok: "\<And>m w. publish m w = (None, w @ [m])"
  shows "forward_logs publish chunks w = Some (Ok (), w @ map trim_space chunks)"
  by (induction chunks arbitrary: w) (simp_all add: forward_logs_def give_def bnd_def check_eff_def ok)

lemma forward_logs_keeps:
  assumes "\<And>m w. publish m w = (None, w @ [m])" and "forward_logs publish chunks [] = Some (r, messages)"
  shows "filter (\<lambda>c. \<not> go_space c) (concat messages) = filter (\<lambda>c. \<not> go_space c) (concat chunks)"
    and "length messages = length chunks"
proof -
  have "messages = map trim_space chunks" using assms(2) forward_logs_all [OF assms(1), of chunks "[]"] by simp
  then show "filter (\<lambda>c. \<not> go_space c) (concat messages) = filter (\<lambda>c. \<not> go_space c) (concat chunks)"
    "length messages = length chunks"
    by (simp_all add: filter_concat comp_def trim_space_filter)
qed

end
