(* ===== verification/Daemon_Applications.thy ===== *)
theory Daemon_Applications
  imports Applications Console Internet Daemons Module_Daemons
begin

text \<open>
  Concrete surroundings of the daemons, and the theorems about their programs applied to them: a provision
  daemon that starts up to its last goroutine, the interleaving of a pusher with the end of its run, a
  network that is set up at the second attempt.
\<close>

section \<open>A provision daemon\<close>

definition d_gt :: gridtypes where
  "d_gt = c_gt\<lparr>gt_Types := [''b'', ''a'', ''v'', ''q'', ''n'', ''4'', ''6'', ''m'', ''l'']\<rparr>"

definition d_rrd :: "(cworld, int) rrd" where
  "d_rrd = \<lparr>rrd_Slot = (\<lambda>w. (Inr 0, w)), rrd_Counter = (\<lambda>_ _ _ w. (None, w)),
     rrd_Last = (\<lambda>_ w. (Inr (0, False), w)), rrd_Counters = (\<lambda>_ w. (Inr [], w))\<rparr>"

definition d_rqueue :: "(cworld, report) dque" where
  "d_rqueue = \<lparr>q_Enqueue = (\<lambda>_ w. (None, w)), q_Dequeue = (\<lambda>w. (Inl (ErrMsg ''empty''), w)),
     q_PeekBlock = (\<lambda>w. (Inl (ErrMsg ''empty''), w))\<rparr>"

definition d_reporter :: "(cworld, int) reporter_lib" where
  "d_reporter = \<lparr>rl_PrivateKey = (\<lambda>w. (Some (replicate 64 7), w)), rl_NewIdentity = (\<lambda>_. None),
     rl_NewOrOpen = (\<lambda>_ _ w. (Inr d_rqueue, w)), rl_RemoveAll = (\<lambda>_ w. w), rl_NewRRD = (\<lambda>_ w. (Inr d_rrd, w)),
     rl_rrdClose = (\<lambda>_ w. (None, w)), rl_queueClose = (\<lambda>_ w. (None, w))\<rparr>"

definition d_lru :: "cworld lru" where
  "d_lru = \<lparr>lru_Get = (\<lambda>_ w. (None, w)), lru_Add = (\<lambda>_ _ w. w)\<rparr>"

definition d_store :: "cworld storage" where
  "d_store = c_storage [1] (\<lambda>_. [2]) (\<lambda>_ _. dl1)"

definition d_os :: "cworld net_os" where
  "d_os = \<lparr>no_Stat = (\<lambda>_ w. (Some (Sentinel ErrNotExist ''no such file''), w)), no_MkdirAll = (\<lambda>_ w. (None, w)),
     no_Symlink = (\<lambda>_ _ w. (None, w))\<rparr>"

definition d_env :: "(cworld, int) provisiond_env" where
  "d_env = \<lparr>dm_NewServer = (\<lambda>w. (None, w)), dm_NewClient = (\<lambda>w. (None, w)), dm_arg0 = ''/bin/provisiond'',
     dm_exec = (\<lambda>_ w. (([], None), w)), dm_PushErrors = (\<lambda>_ _ w. (None, w)), dm_RemoveAll = (\<lambda>_ w. (None, w)),
     dm_Remove = (\<lambda>_ w. (None, w)), dm_MkdirAll = (\<lambda>_ w. (None, w)), dm_Stat = (\<lambda>_ w. (Some (ErrMsg ''none''), w)),
     dm_LimitedCache = (\<lambda>_. False), dm_Sleep = (\<lambda>_ w. w), dm_IsFirstBoot = (\<lambda>_. False),
     dm_MarkBooted = (\<lambda>w. (None, w)), dm_EnvGet = (\<lambda>w. (Inr (1, False), w)),
     dm_PrivateKey = (\<lambda>w. (Some (replicate 64 7), w)), dm_openStore = (\<lambda>_ w. (Inr d_store, w)),
     dm_Migrate = (\<lambda>_ w. (None, w)), dm_NewFSStore = (\<lambda>_ w. (Inl (ErrMsg ''none''), w)),
     dm_CleanDeleted = (\<lambda>w. (None, w)), dm_Capacity = (\<lambda>w. (([], None), w)),
     dm_provisioners = c_provisioner None, dm_NewStatistics = (\<lambda>_ _ _ p. p),
     dm_Total = (\<lambda>w. (Inr \<lparr>c_CRU = 8, c_SRU = 9, c_HRU = 0, c_MRU = 16\<rparr>, w)), dm_CacheSize = (\<lambda>w. (Inr 1, w)),
     dm_Gigabyte = 1073741824, dm_Max = max, dm_NetworkType = ''network'', dm_NewWorkloadID = (\<lambda>t d n. Inr (Concrete.c_id t d n)),
     dm_NetworkID = (\<lambda>_ n. n), dm_netOs = d_os, dm_registrarGateway = c_gateway, dm_NewLRU = Inr d_lru,
     dm_addCapacity = c_add, dm_retry = retry_run 5, dm_engine = c_env\<lparr>env_gt := d_gt\<rparr>, dm_visit = rev,
     dm_Callback = (\<lambda>_ _ _ w. (True, w)), dm_QuantumSafeFSType = ''q'', dm_NetworkLightType = ''n'',
     dm_ZMachineLightType = ''m'', dm_ZLogsType = ''l'', dm_NewConsumer = (\<lambda>w. (None, w)), dm_reporter = d_reporter,
     dm_RunServer = (\<lambda>w. (None, w))\<rparr>"

definition d_start :: "(cworld, int) process" where
  "d_start = \<lparr>da_world = w0, da_runs = [], da_objects = [], da_out = []\<rparr>"

lemma d_gt_types: "gt_Types d_gt = [''b'', ''a'', ''v'', ''q'', ''n'', ''4'', ''6'', ''m'', ''l'']"
  "gt_ZMountType d_gt = ''a''" "gt_VolumeType d_gt = ''v''" "gt_PublicIPv4Type d_gt = ''4''" "gt_PublicIPType d_gt = ''6''"
  by (simp_all add: d_gt_def c_gt_def)

lemma d_engine:
  "\<exists>e. make_engine d_env d_store (c_provisioner None) users admins nodeID w = Some (Ok e, w)"
  by (simp add: make_engine_def New_def engine_options_def startup_types_def d_env_def d_gt_types initial_engine_def
      withStartupOrder_apply_def c_env_def Let_def)

lemma wait_while_over: "\<not> flag s \<Longrightarrow> wait_while flag sleep s = Some (Ok (), s)"
  by (subst wait_while.simps) simp

lemma d_calls:
  "runChecks d_env dir w = (None, w)"
  "open_store d_env dir w = Some (Ok d_store, w)"
  "active_deployments d_env w = ([], w)"
  "\<exists>admins. users_admins d_env farm w = Some (Ok (d_lru, admins), w)"
  "node_id d_env (replicate 64 7) w = Some (Ok 1, w)"
  "NewReporter d_reporter c_gateway m q w
    = Some (Ok \<lparr>rp_rrd = d_rrd, rp_queue = d_rqueue, rp_registrarGateway = c_gateway\<rparr>, w)"
  "pv_Initialize (c_provisioner None) w = (None, w)"
       apply (simp add: runChecks_def d_env_def)
      apply (simp add: open_store_def migrate_store_def d_env_def action_defs bnd_def context_msg_def logged_def)
     apply (simp add: active_deployments_def d_env_def netResourceMigration_def d_os_def)
    apply (simp add: users_admins_def d_env_def NewRegistrarAdmins_def c_gateway_def gateway_simps c_client_def action_defs bnd_def
      context_msg_def del: b64_encode.simps)
   apply (simp add: node_id_def d_env_def c_gateway_def gateway_simps c_client_def gw_call_def c_node_def action_defs bnd_def
      context_msg_def)
  apply (simp add: NewReporter_def d_reporter_def numeral_eq_Suc action_defs bnd_def context_msg_def)
  apply (simp add: c_provisioner_def NewMapProvisioner_def map_Initialize_def)
  done

lemma d_starts:
  "\<exists>s'. provisiond_action d_env ''/r'' False d_start = Some (Ok (), s') \<and> length (da_runs s') = 4"
proof -
  obtain admins where admins: "users_admins d_env 1 w0 = Some (Ok (d_lru, admins), w0)" using d_calls(4) by blast
  obtain e where e: "make_engine d_env d_store (c_provisioner None) d_lru admins 1 w0 = Some (Ok e, w0)"
    using d_engine by blast
  have fields: "dm_NewServer d_env = (\<lambda>w. (None, w))" "dm_NewClient d_env = (\<lambda>w. (None, w))"
    "dm_LimitedCache d_env = (\<lambda>_. False)" "dm_MkdirAll d_env = (\<lambda>_ w. (None, w))"
    "dm_EnvGet d_env = (\<lambda>w. (Inr (1, False), w))" "dm_PrivateKey d_env = (\<lambda>w. (Some (replicate 64 7), w))"
    "dm_Total d_env = (\<lambda>w. (Inr \<lparr>c_CRU = 8, c_SRU = 9, c_HRU = 0, c_MRU = 16\<rparr>, w))"
    "dm_NewStatistics d_env = (\<lambda>_ _ _ p. p)" "dm_provisioners d_env = c_provisioner None"
    "dm_MarkBooted d_env = (\<lambda>w. (None, w))" "dm_NewConsumer d_env = (\<lambda>w. (None, w))"
    "dm_Remove d_env = (\<lambda>_ w. (None, w))" "dm_RunServer d_env = (\<lambda>w. (None, w))"
    "dm_reporter d_env = d_reporter" "dm_registrarGateway d_env = c_gateway"
    by (simp_all add: d_env_def)
  show ?thesis
    by (simp add: provisiond_action_def provisiond_start_def start_setter_def start_engine_def start_around_def
        cap_Set_def fields d_calls admins e wait_while_over bnd_def within_def on_part_def context_msg_def action_defs
        logged_def go_def expose_def d_start_def)
qed

theorem provisiond_starts_witness:
  "\<exists>s' nodeID e rep.
    provisiond_action d_env ''/r'' False d_start = Some (Ok (), s') \<and>
    da_runs s' =
      [RunSetter, RunEngine e,
       RunHandler \<lparr>ch_node = nodeID, ch_registrarGateway = c_gateway, ch_engine = native_api e\<rparr>,
       RunReporter rep] \<and>
    engine_ready d_env nodeID e"
proof -
  have gw: "dm_registrarGateway d_env = c_gateway" by (simp add: d_env_def)
  obtain s' where run: "provisiond_action d_env ''/r'' False d_start = Some (Ok (), s')" and four: "length (da_runs s') = 4"
    using d_starts by blast
  obtain n nodeID e rep where rs: "da_runs s' = take n
      [RunSetter, RunEngine e,
       RunHandler \<lparr>ch_node = nodeID, ch_registrarGateway = c_gateway, ch_engine = native_api e\<rparr>,
       RunReporter rep]" and ready: "2 \<le> n \<longrightarrow> engine_ready d_env nodeID e"
    using provisiond_starts [OF _ _ run] unfolding gw by (auto simp: visit_ok_def d_env_def d_start_def)
  have "4 \<le> n" using four unfolding rs by simp
  then show ?thesis using run rs ready by auto
qed

section \<open>Pushers one after another\<close>

text \<open>A report is pushed, the run ends, its pusher ends, and the next run starts.\<close>

theorem separate_runs_lose_nothing_witness:
  "\<exists>s. pushes True (no_pushers [rep1]) s \<and> pg_gone s = [rep1] \<and>
     pg_pushers s = [(Ended, True), (Looping, False)] \<and> mset (pg_gone s) \<subseteq># mset (pg_sent s)"
proof -
  let ?s = "\<lambda>q sent gone ps. \<lparr>pg_queue = q, pg_sent = sent, pg_gone = gone, pg_pushers = ps\<rparr>"
  note at = at_step_def canceled_def moves_def
  have one: "pushes True (no_pushers [rep1]) (?s q' sent' gone' ps')"
    if "pushes True (no_pushers [rep1]) (?s q sent gone ps)" "push_step (?s q sent gone ps) (?s q' sent' gone' ps')"
      "length ps < length ps' \<longrightarrow> list_all (\<lambda>p. fst p = Ended) ps"
    for q q' sent sent' gone gone' ps ps'
    by (rule pushes.step [OF that(1,2)]) (use that(3) in simp)
  have "pushes True (no_pushers [rep1]) (?s [rep1] [] [] [])"
    using pushes.refl by (simp add: no_pushers_def)
  then have "pushes True (no_pushers [rep1]) (?s [rep1] [] [] [(Looping, False)])"
    by (rule one) (use push_step.run_starts [of "?s [rep1] [] [] []"] in simp_all)
  then have "pushes True (no_pushers [rep1]) (?s [rep1] [] [] [(Waiting, False)])"
    by (rule one) (use push_step.begins [of "?s [rep1] [] [] [(Looping, False)]" 0] in \<open>simp_all add: at\<close>)
  then have "pushes True (no_pushers [rep1]) (?s [rep1] [] [] [(Peeked rep1, False)])"
    by (rule one) (use push_step.peek [of "?s [rep1] [] [] [(Waiting, False)]" 0] in \<open>simp_all add: at\<close>)
  then have "pushes True (no_pushers [rep1]) (?s [rep1] [rep1] [] [(Reported rep1, False)])"
    by (rule one) (use push_step.taken [of "?s [rep1] [] [] [(Peeked rep1, False)]" 0] in \<open>simp_all add: at\<close>)
  then have "pushes True (no_pushers [rep1]) (?s [] [rep1] [rep1] [(Looping, False)])"
    by (rule one) (use push_step.dequeue [of "?s [rep1] [rep1] [] [(Reported rep1, False)]" 0] in \<open>simp_all add: at\<close>)
  then have "pushes True (no_pushers [rep1]) (?s [] [rep1] [rep1] [(Looping, True)])"
    by (rule one) (use push_step.run_ends [of "?s [] [rep1] [rep1] [(Looping, False)]"] in simp_all)
  then have "pushes True (no_pushers [rep1]) (?s [] [rep1] [rep1] [(Ended, True)])"
    by (rule one) (use push_step.ends [of "?s [] [rep1] [rep1] [(Looping, True)]" 0] in \<open>simp_all add: at\<close>)
  then have last: "pushes True (no_pushers [rep1]) (?s [] [rep1] [rep1] [(Ended, True), (Looping, False)])"
    by (rule one) (use push_step.run_starts [of "?s [] [rep1] [rep1] [(Ended, True)]"] in simp_all)
  show ?thesis
    by (rule exI, rule conjI [OF last], rule conjI [rotated], rule conjI [rotated],
        rule separate_runs_lose_nothing [OF last]) simp_all
qed

section \<open>A network\<close>

text \<open>
  The world is a counter of calls and the links; the first probe finds no interface. Both networks have a
  VLAN, so the default one is taken off the interface.
\<close>

definition n_change :: "(net_view \<Rightarrow> net_view) \<Rightarrow> (nat \<times> net_view, goerr option) eff" where
  "n_change f w = (None, (fst w, f (snd w)))"

definition n_lib :: "(nat \<times> net_view, string) net_lib" where
  "n_lib = \<lparr>nl_PrivVlan = Some 10, nl_PubVlan = Some 20, nl_SetLoUp = (\<lambda>w. (None, w)),
     nl_AnalyzeLinks = (\<lambda>_ w. (Inr (if fst w = 0 then [] else ''eth0''), (Suc (fst w), snd w))),
     nl_SelectZOS = (\<lambda>c. if c = [] then Inl (ErrMsg ''no interface'') else Inr c),
     nl_CreateDefaultBridge = (\<lambda>n _ w. (Inr n, w)), nl_Sleep = (\<lambda>w. w), nl_LinkByName = (\<lambda>n w. (Inr n, w)),
     nl_AttachNicWithMac = (\<lambda>link br. n_change (\<lambda>v. v\<lparr>nv_master := (nv_master v)(link \<mapsto> br)\<rparr>)),
     nl_IPv6Disable = (\<lambda>link. n_change (\<lambda>v. v\<lparr>nv_noIPv6 := insert link (nv_noIPv6 v)\<rparr>)),
     nl_LinkSetUp = (\<lambda>link. n_change (\<lambda>v. v\<lparr>nv_up := insert link (nv_up v)\<rparr>)),
     nl_BridgeVlanDel = (\<lambda>link vid _ _. n_change (\<lambda>v. v\<lparr>nv_vlans := (nv_vlans v)(link := nv_vlans v link - {vid})\<rparr>)),
     nl_BridgeVlanAdd = (\<lambda>link vid _ _. n_change (\<lambda>v. v\<lparr>nv_vlans := (nv_vlans v)(link := insert vid (nv_vlans v link))\<rparr>)),
     nl_DestroyOlderService = (\<lambda>n. n_change (\<lambda>v. v\<lparr>nv_dhcp := nv_dhcp v - {n}\<rparr>)),
     nl_CreateService = (\<lambda>_. n_change (\<lambda>v. v)),
     nl_StartService = (\<lambda>n. n_change (\<lambda>v. v\<lparr>nv_dhcp := insert n (nv_dhcp v)\<rparr>)),
     nl_GetBridge = (\<lambda>n w. (Inr n, w)), nl_AddrList = (\<lambda>_ w. (Inr [], w)), nl_RouteList = (\<lambda>_ w. (Inr [], w)),
     nl_Dial = (\<lambda>_ w. (None, w)), nl_ConClose = (\<lambda>_ w. (None, w)), nl_Retry = retry_run 3\<rparr>"

lemma n_laws: "net_laws n_lib snd"
  unfolding net_laws_def makes_def n_lib_def by (simp add: n_change_def)

definition n_view :: net_view where
  "n_view = \<lparr>nv_master = Map.empty, nv_up = {}, nv_noIPv6 = {}, nv_vlans = (\<lambda>_. {1}), nv_dhcp = {}\<rparr>"

lemma n_connects: "\<exists>w'. configureZOS n_lib (0, n_view) = (None, w')"
  by (simp add: configureZOS_def attempt_of_def configure_once_def attach_link_def default_vlan_def add_vlan_def
      start_dhcp_def n_lib_def n_change_def bnd_def context_msg_def action_defs numeral_eq_Suc)

theorem configureZOS_connects_witness:
  "\<exists>w' u w1 link br w2.
    configureZOS n_lib (0, n_view) = (None, w') \<and>
    nl_AnalyzeLinks n_lib (Some 10) u = (Inr link, w1) \<and> link \<noteq> [] \<and> (br, w2) = (DefaultBridge, w1) \<and>
    snd w' = (snd w2)\<lparr>nv_master := (nv_master (snd w2))(link \<mapsto> br), nv_up := insert link (nv_up (snd w2)),
      nv_noIPv6 := insert link (nv_noIPv6 (snd w2)),
      nv_vlans := (nv_vlans (snd w2))(link := nv_vlans (snd w2) link - {1} \<union> {10} \<union> {20}),
      nv_dhcp := insert DefaultBridge (nv_dhcp (snd w2))\<rparr>"
proof -
  have lib: "nl_PrivVlan n_lib = Some 10" "nl_PubVlan n_lib = Some 20" "nl_CreateDefaultBridge n_lib nm vid w = (Inr nm, w)"
    "nl_SelectZOS n_lib c = Inr x \<longleftrightarrow> c = x \<and> x \<noteq> []" for nm vid w c x
    by (auto simp: n_lib_def)
  have ret: "retry_laws (nl_Retry n_lib)" using retry_laws_refl by (simp add: n_lib_def)
  obtain w' where run: "configureZOS n_lib (0, n_view) = (None, w')" using n_connects by blast
  obtain u cfgs w1 link br w2 where
    found: "nl_AnalyzeLinks n_lib (nl_PrivVlan n_lib) u = (Inr cfgs, w1)" "nl_SelectZOS n_lib cfgs = Inr link" and
    bridge: "nl_CreateDefaultBridge n_lib DefaultBridge (nl_PrivVlan n_lib) w1 = (Inr br, w2)" and
    view: "snd w' = (snd w2)\<lparr>nv_master := (nv_master (snd w2))(link \<mapsto> br), nv_up := insert link (nv_up (snd w2)),
      nv_noIPv6 := insert link (nv_noIPv6 (snd w2)),
      nv_vlans := (nv_vlans (snd w2))(link := zos_vlans (nl_PrivVlan n_lib) (nl_PubVlan n_lib) (nv_vlans (snd w2) link)),
      nv_dhcp := insert DefaultBridge (nv_dhcp (snd w2))\<rparr>"
    using configureZOS_connects [OF n_laws ret run] by blast
  show ?thesis
    by (intro exI [of _ w'] exI [of _ u] exI [of _ w1] exI [of _ link] exI [of _ br] exI [of _ w2] conjI)
       (use run found bridge view in \<open>simp_all add: lib zos_vlans_def\<close>)
qed

end
