(* ===== verification/Rust_Std.thy ===== *)
theory Rust_Std
  imports Actions Files
begin

text \<open>
  What the bootstrap program uses of the library of Rust besides the actions: paths and texts, and the
  calls on files that differ from those of Go.
\<close>

section \<open>Texts and paths\<close>

text \<open>A text is the list of its bytes. \<open>str::from_utf8\<close> accepts exactly well-formed UTF-8.\<close>

definition utf8_rest :: "nat \<Rightarrow> bool" where
  "utf8_rest b \<longleftrightarrow> 128 \<le> b \<and> b \<le> 191"

fun utf8_ok :: "nat list \<Rightarrow> bool" where
  "utf8_ok [] = True"
| "utf8_ok (b # bs) =
     (if b < 128 then utf8_ok bs
      else if 194 \<le> b \<and> b \<le> 223 then (case bs of c # cs \<Rightarrow> utf8_rest c \<and> utf8_ok cs | _ \<Rightarrow> False)
      else if 224 \<le> b \<and> b \<le> 239
      then (case bs of
              c # d # cs \<Rightarrow>
                utf8_rest c \<and> (b = 224 \<longrightarrow> 160 \<le> c) \<and> (b = 237 \<longrightarrow> c \<le> 159) \<and> utf8_rest d \<and> utf8_ok cs
            | _ \<Rightarrow> False)
      else if 240 \<le> b \<and> b \<le> 244
      then (case bs of
              c # d # e # cs \<Rightarrow>
                utf8_rest c \<and> (b = 240 \<longrightarrow> 144 \<le> c) \<and> (b = 244 \<longrightarrow> c \<le> 143) \<and> utf8_rest d \<and> utf8_rest e
                  \<and> utf8_ok cs
            | _ \<Rightarrow> False)
      else False)"

definition from_utf8 :: "string \<Rightarrow> string res" where
  "from_utf8 s = (if utf8_ok (map of_char s) then Inr s else Inl (ErrMsg ''invalid utf-8 sequence''))"

text \<open>\<open>splitn(2, c)\<close>, \<open>split(c)\<close>, \<open>rfind\<close> and \<open>parse::<u32>\<close>.\<close>

definition splitn2 :: "char \<Rightarrow> string \<Rightarrow> string list" where
  "splitn2 c s = (let a = takeWhile (\<lambda>x. x \<noteq> c) s in if a = s then [s] else [a, drop (Suc (length a)) s])"

fun split_on :: "char \<Rightarrow> string \<Rightarrow> string list" where
  "split_on c [] = [[]]"
| "split_on c (x # xs) = (if x = c then [] # split_on c xs else (x # hd (split_on c xs)) # tl (split_on c xs))"

definition rfind :: "string \<Rightarrow> string \<Rightarrow> nat option" where
  "rfind pat s =
     (case filter (\<lambda>i. prefix pat (drop i s)) (rev [0..<Suc (length s)]) of [] \<Rightarrow> None | i # _ \<Rightarrow> Some i)"

definition parse_u32 :: "string \<Rightarrow> u32 option" where
  "parse_u32 s =
     (let d = (case s of c # cs \<Rightarrow> if c = CHR ''+'' \<and> cs \<noteq> [] then cs else s | [] \<Rightarrow> []);
          n = foldl (\<lambda>n c. n * 10 + (of_char c - 48)) 0 d
      in if d \<noteq> [] \<and> list_all (\<lambda>c. 48 \<le> (of_char c :: nat) \<and> (of_char c :: nat) \<le> 57) d \<and> n < 2 ^ 32
         then Some (of_nat n) else None)"

text \<open>
  \<open>PathBuf::push\<close>: an absolute path replaces what was there. \<open>file_name\<close> is for a path that is \<open>/\<close> or does
  not end in a slash.
\<close>

definition path_push :: "path \<Rightarrow> path \<Rightarrow> path" where
  "path_push p q =
     (if prefix ''/'' q then q else if p = [] \<or> last p = CHR ''/'' then p @ q else p @ ''/'' @ q)"

definition file_name :: "path \<Rightarrow> string option" where
  "file_name p = (let n = after_last_slash p in if n = [] \<or> n = ''..'' then None else Some n)"

definition is_below :: "path \<Rightarrow> path \<Rightarrow> bool" where
  "is_below d p \<longleftrightarrow> p = d \<or> prefix (d @ ''/'') p"

section \<open>Calls of the file system that differ from those of Go\<close>

text \<open>\<open>fs::remove_file\<close> does not remove directories; \<open>fs::create_dir\<close> makes one directory.\<close>

definition remove_file :: "faults \<Rightarrow> path \<Rightarrow> fsys \<Rightarrow> goerr option \<times> fsys" where
  "remove_file io p fs =
     (case io ''remove'' p of
        Some e \<Rightarrow> (Some e, fs)
      | None \<Rightarrow>
          (case fs p of
             None \<Rightarrow> (Some not_exist, fs)
           | Some Directory \<Rightarrow> (Some (ErrMsg ''is a directory''), fs)
           | Some _ \<Rightarrow> (None, fs(p := None))))"

definition create_dir :: "faults \<Rightarrow> path \<Rightarrow> fsys \<Rightarrow> goerr option \<times> fsys" where
  "create_dir io p fs =
     (case io ''mkdir'' p of
        Some e \<Rightarrow> (Some e, fs)
      | None \<Rightarrow> if fs p \<noteq> None then (Some already_exists, fs) else (None, fs(p \<mapsto> Directory)))"

text \<open>
  \<open>fs::remove_dir_all\<close>: every entry below the path, except those that a fault protects.
\<close>

definition remove_dir_all :: "faults \<Rightarrow> path \<Rightarrow> fsys \<Rightarrow> fsys" where
  "remove_dir_all io d fs = (\<lambda>p. if is_below d p \<and> io ''remove'' p = None then None else fs p)"

text \<open>\<open>OpenOptions\<close> with \<open>write\<close> and \<open>create\<close> but without \<open>truncate\<close>: what the file holds stays.\<close>

definition open_keep :: "faults \<Rightarrow> (fsys \<Rightarrow> path \<Rightarrow> path) \<Rightarrow> path \<Rightarrow> fsys \<Rightarrow> path res \<times> fsys" where
  "open_keep io resolve p fs =
     (case io ''open'' p of
        Some e \<Rightarrow> (Inl e, fs)
      | None \<Rightarrow>
          (let q = resolve fs p
           in case fs q of
                None \<Rightarrow> (Inr q, fs(q \<mapsto> Regular []))
              | Some (Regular _) \<Rightarrow> (Inr q, fs)
              | Some _ \<Rightarrow> (Inl (ErrMsg ''is a directory''), fs)))"

text \<open>Writing from the start of an open file: bytes behind the last one written stay.\<close>

definition overwrite :: "path \<Rightarrow> byte list \<Rightarrow> fsys \<Rightarrow> fsys" where
  "overwrite q bs fs =
     (case fs q of Some (Regular old) \<Rightarrow> fs(q \<mapsto> Regular (bs @ drop (length bs) old)) | _ \<Rightarrow> fs(q \<mapsto> Regular bs))"

lemma splitn2_first:
  assumes "c \<notin> set k"
  shows "splitn2 c (k @ c # v) = [k, v]" "splitn2 c k = [k]"
proof -
  have "takeWhile (\<lambda>x. x \<noteq> c) (k @ c # v) = k" using assms by (subst takeWhile_append2) auto
  then show "splitn2 c (k @ c # v) = [k, v]" by (simp add: splitn2_def Let_def)
  have "takeWhile (\<lambda>x. x \<noteq> c) k = k" using assms by (auto simp: takeWhile_eq_all_conv)
  then show "splitn2 c k = [k]" by (simp add: splitn2_def Let_def)
qed

end
