(* ===== verification/Bootstrap.thy ===== *)
theory Bootstrap
  imports Rust_Std Go_Std
begin

text \<open>
  \<open>bootstrap/bootstrap/src\<close>: the Rust program that brings a node from its minimal image to the current
  release. Its first stage replaces the program itself, its second installs every package of the tag that
  the run mode and the version select, and starts their services.

  The state is the file system and a world \<open>'w\<close> for everything else. The hub, the process that mounts a
  flist, the mounted flist itself, the init system, the logger, \<open>clap\<close>, \<open>shlex\<close>, \<open>serde_json\<close> and
  \<open>walkdir\<close> are parameters. \<open>be_bin\<close> is the first argument of the process, if it has one. Relative paths of the program are below the working directory that it sets.
\<close>

section \<open>Parameters\<close>

datatype flist_kind = KRegular | KSymlink | KTag | KTagLink

record flist =
  fl_kind :: flist_kind
  fl_updated :: u64
  fl_md5 :: string
  fl_name :: string
  fl_target :: "string option"
  fl_url :: string

text \<open>A response: its status and the bytes that arrive, with the error that ends them early, if any.\<close>

record http_response =
  rp_status :: nat
  rp_body :: "byte list \<times> goerr option"

datatype walk_type = WDir | WFile | WSymlink | WOther

text \<open>An entry of a walk over a mounted flist, with its path relative to the mount point.\<close>

record walk_entry =
  we_rel :: path
  we_type :: walk_type

text \<open>An entry of a directory; a name that is no Unicode text is \<open>None\<close>.\<close>

record dir_entry =
  de_name :: "string option"
  de_file :: bool

record boot_args =
  ba_stage :: string
  ba_debug :: bool

record 'w boot_env =
  be_args :: boot_args
  be_bin :: "path option"
  be_logger :: "('w, goerr option) eff"
  be_cmdline :: "('w, string res) eff"
  be_shlex :: "string \<Rightarrow> string list option"
  be_get :: "string \<Rightarrow> ('w, http_response res) eff"
  be_config_json :: "byte list \<Rightarrow> (string list) res"
  be_flists_json :: "byte list \<Rightarrow> (flist list) res"
  be_flist_json :: "byte list \<Rightarrow> flist res"
  be_to_json :: "flist \<Rightarrow> (byte list) res"
  be_io :: faults
  be_resolve :: "fsys \<Rightarrow> path \<Rightarrow> path"
  be_write :: "path \<Rightarrow> byte list \<Rightarrow> byte list \<times> goerr option"
  be_current_dir :: "('w, path res) eff"
  be_set_current_dir :: "path \<Rightarrow> ('w, goerr option) eff"
  be_mount_tmpfs :: "path \<Rightarrow> ('w, goerr option) eff"
  be_umount :: "path \<Rightarrow> ('w, goerr option) eff"
  be_g8ufs :: "path \<Rightarrow> path \<Rightarrow> path \<Rightarrow> ('w, goerr option) eff"
  be_kill :: "('w, goerr option) eff"
  be_wait :: "('w, goerr option) eff"
  be_mountpoint :: "path \<Rightarrow> ('w, bool res) eff"
  be_walk :: "path \<Rightarrow> ('w, (walk_entry res) list) eff"
  be_read :: "path \<Rightarrow> ('w, (byte list \<times> goerr option) res) eff"
  be_read_link :: "path \<Rightarrow> ('w, string res) eff"
  be_read_dir :: "path \<Rightarrow> ('w, ((dir_entry res) list) res) eff"
  be_monitor :: "string \<Rightarrow> ('w, goerr option) eff"
  be_exec :: "string list \<Rightarrow> ('w, goerr option) eff"

type_synonym 'w bst = "fsys \<times> 'w"

definition on_world :: "('w, 'a) eff \<Rightarrow> ('w bst, 'a) eff" where
  "on_world f s = (case f (snd s) of (x, w) \<Rightarrow> (x, (fst s, w)))"

definition on_files :: "(fsys, 'a) eff \<Rightarrow> ('w bst, 'a) eff" where
  "on_files f s = (case f (fst s) of (x, fs) \<Rightarrow> (x, (fs, snd s)))"

section \<open>Kernel parameters and configuration\<close>

text \<open>\<open>kparams.rs\<close>: a parameter without \<open>=\<close> has no value, and a later one replaces an earlier one.\<close>

type_synonym kparams = "string \<rightharpoonup> string option"

definition insert_param :: "string \<Rightarrow> kparams \<Rightarrow> kparams" where
  "insert_param arg m =
     (let parts = splitn2 (CHR ''='') arg
      in m(parts ! 0 \<mapsto> (if length parts = 1 then None else Some (parts ! 1))))"

definition kparams_parse :: "'w boot_env \<Rightarrow> string \<Rightarrow> kparams res" where
  "kparams_parse en bytes =
     (case from_utf8 bytes of
        Inl e \<Rightarrow> Inl e
      | Inr t \<Rightarrow>
          (case be_shlex en t of
             None \<Rightarrow> Inl (ErrMsg ''failed to parse kernel params'')
           | Some args \<Rightarrow> Inr (fold insert_param args Map.empty)))"

definition kparams_params :: "'w boot_env \<Rightarrow> ('w bst, kparams) action" where
  "kparams_params en =
     bnd (call (on_world (be_cmdline en))) (\<lambda>bytes. case kparams_parse en bytes of Inl e \<Rightarrow> bail e | Inr m \<Rightarrow> give m)"

text \<open>\<open>config.rs\<close>.\<close>

datatype run_mode = Prod | Test | Dev | QA

definition run_mode_name :: "run_mode \<Rightarrow> string" where
  "run_mode_name m =
     (case m of Prod \<Rightarrow> ''production'' | QA \<Rightarrow> ''qa'' | Test \<Rightarrow> ''testing'' | Dev \<Rightarrow> ''development'')"

datatype boot_version = V3 | V3Light | V4

definition boot_runmode :: "'w boot_env \<Rightarrow> ('w bst, run_mode) action" where
  "boot_runmode en =
     bnd (kparams_params en) (\<lambda>params.
       case params ''runmode'' of
         Some (Some mode) \<Rightarrow>
           if mode = ''prod'' \<or> mode = ''production'' then give Prod
           else if mode = ''dev'' \<or> mode = ''development'' then give Dev
           else if mode = ''test'' \<or> mode = ''testing'' then give Test
           else if mode = ''qa'' then give QA
           else bail (ErrMsg (''unknown runmode: '' @ mode))
       | Some None \<Rightarrow> bail (ErrMsg ''missing runmode value'')
       | None \<Rightarrow> give Prod)"

definition boot_version_of :: "'w boot_env \<Rightarrow> ('w bst, boot_version) action" where
  "boot_version_of en =
     bnd (kparams_params en) (\<lambda>params.
       case params ''version'' of
         Some (Some v) \<Rightarrow>
           if v = ''v3'' then give V3
           else if v = ''v3light'' then give V3Light
           else if v = ''v4'' then give V4
           else bail (ErrMsg (''unknown version: '' @ v))
       | Some None \<Rightarrow> give V3
       | None \<Rightarrow> give V3)"

record boot_config =
  cf_stage :: u32
  cf_debug :: bool
  cf_runmode :: run_mode
  cf_version :: boot_version

definition Config_current :: "'w boot_env \<Rightarrow> ('w bst, boot_config) action" where
  "Config_current en =
     (case parse_u32 (ba_stage (be_args en)) of
        None \<Rightarrow> bail (ErrMsg ''invalid stage format expecting a positive integer'')
      | Some stage \<Rightarrow>
          if stage = 0 then bail (ErrMsg ''invalid stage value 0, stages starting from 1'')
          else bnd (if stage = 2 then boot_version_of en else give V3) (\<lambda>ver.
               bnd (boot_runmode en) (\<lambda>mode.
                 give \<lparr>cf_stage = stage, cf_debug = ba_debug (be_args en), cf_runmode = mode, cf_version = ver\<rparr>)))"

section \<open>The hub\<close>

text \<open>\<open>hub.rs\<close>.\<close>

definition is_success :: "nat \<Rightarrow> bool" where
  "is_success status \<longleftrightarrow> 200 \<le> status \<and> status \<le> 299"

definition json_of :: "(byte list \<Rightarrow> 'a res) \<Rightarrow> http_response \<Rightarrow> 'a res" where
  "json_of decode resp =
     (case rp_body resp of (bs, Some e) \<Rightarrow> Inl e | (bs, None) \<Rightarrow> decode bs)"

definition hub_fallback :: "string list" where
  "hub_fallback = [''https://v4.hub.grid.tf'']"

definition config_url :: "run_mode \<Rightarrow> string" where
  "config_url mode =
     ''https://github.com/threefoldtech/zos-config/raw/main/'' @ ''/'' @
     (case mode of
        Prod \<Rightarrow> ''production.json'' | Dev \<Rightarrow> ''development.json'' | Test \<Rightarrow> ''testing.json'' | QA \<Rightarrow> ''qa.json'')"

definition get_config :: "'w boot_env \<Rightarrow> string \<Rightarrow> ('w bst, http_response) action" where
  "get_config en url =
     bnd (call (on_world (be_get en url))) (\<lambda>resp.
       if is_success (rp_status resp) then give resp else bail (ErrMsg ''Retrying...''))"

definition get_hub_url :: "'w boot_env \<Rightarrow> run_mode \<Rightarrow> ('w bst, string list) action" where
  "get_hub_url en mode s =
     (case retry_take 5 (get_config en (config_url mode)) s of
        None \<Rightarrow> None
      | Some (Panic, s') \<Rightarrow> Some (Panic, s')
      | Some (Err _, s') \<Rightarrow> Some (Ok hub_fallback, s')
      | Some (Ok resp, s') \<Rightarrow>
          (case json_of (be_config_json en) resp of
             Inl _ \<Rightarrow> Some (Ok hub_fallback, s')
           | Inr urls \<Rightarrow> Some (Ok (if urls = [] then hub_fallback else urls), s')))"

record repo =
  rp_name :: string
  rp_hub :: "string list"

definition Repo_new :: "'w boot_env \<Rightarrow> string \<Rightarrow> ('w bst, repo) action" where
  "Repo_new en nm =
     bnd (Config_current en) (\<lambda>config.
     bnd (get_hub_url en (cf_runmode config)) (\<lambda>hub. give \<lparr>rp_name = nm, rp_hub = hub\<rparr>))"

definition is_hub_working :: "'w boot_env \<Rightarrow> string \<Rightarrow> ('w, bool) eff" where
  "is_hub_working en hub_url w =
     (case be_get en (hub_url @ ''/api/flist'') w of
        (Inr response, w') \<Rightarrow> (is_success (rp_status response), w')
      | (Inl _, w') \<Rightarrow> (False, w'))"

fun first_working :: "'w boot_env \<Rightarrow> string list \<Rightarrow> ('w, string option) eff" where
  "first_working en [] w = (None, w)"
| "first_working en (u # us) w =
     (case is_hub_working en u w of (True, w') \<Rightarrow> (Some u, w') | (False, w') \<Rightarrow> first_working en us w')"

definition get_working_hub :: "'w boot_env \<Rightarrow> repo \<Rightarrow> ('w bst, string) action" where
  "get_working_hub en r =
     bnd (run_eff (on_world (first_working en (rp_hub r)))) (\<lambda>found.
       case found of
         Some u \<Rightarrow> give u
       | None \<Rightarrow> (case rp_hub r of u # _ \<Rightarrow> give u | [] \<Rightarrow> panic))"

fun map_each :: "('a \<Rightarrow> ('s, 'b) action) \<Rightarrow> 'a list \<Rightarrow> ('s, 'b list) action" where
  "map_each f [] = give []"
| "map_each f (x # xs) = bnd (f x) (\<lambda>y. bnd (map_each f xs) (\<lambda>ys. give (y # ys)))"

definition Repo_list :: "'w boot_env \<Rightarrow> repo \<Rightarrow> ('w bst, flist list) action" where
  "Repo_list en r =
     bnd (get_working_hub en r) (\<lambda>hub.
     bnd (call (on_world (be_get en (hub @ ''/api/flist/'' @ rp_name r)))) (\<lambda>response.
     if rp_status response \<noteq> 200 then bail (ErrMsg ''failed to get flist info'')
     else case json_of (be_flists_json en) response of
            Inl e \<Rightarrow> bail e
          | Inr info \<Rightarrow>
              map_each (\<lambda>fl. bnd (get_working_hub en r) (\<lambda>hub.
                give (fl\<lparr>fl_url := hub @ ''/'' @ rp_name r @ ''/'' @ fl_name fl\<rparr>))) info))"

definition tag_url :: "'w boot_env \<Rightarrow> repo \<Rightarrow> flist \<Rightarrow> ('w bst, flist) action" where
  "tag_url en r fl =
     (if fl_kind fl = KRegular then give fl
      else case fl_target fl of
             None \<Rightarrow> give fl
           | Some target \<Rightarrow> bnd (get_working_hub en r) (\<lambda>hub. give (fl\<lparr>fl_url := hub @ ''/'' @ target\<rparr>)))"

definition Repo_list_tag :: "'w boot_env \<Rightarrow> repo \<Rightarrow> string \<Rightarrow> ('w bst, (flist list) option) action" where
  "Repo_list_tag en r tag =
     bnd (get_working_hub en r) (\<lambda>hub.
     bnd (call (on_world (be_get en (hub @ ''/api/flist/'' @ rp_name r @ ''/tags/'' @ tag)))) (\<lambda>response.
     if rp_status response = 404 then give None
     else if rp_status response \<noteq> 200 then bail (ErrMsg ''failed to get flist info'')
     else case json_of (be_flists_json en) response of
            Inl e \<Rightarrow> bail e
          | Inr info \<Rightarrow> bnd (map_each (tag_url en r) info) (\<lambda>fls. give (Some fls))))"

definition Repo_get :: "'w boot_env \<Rightarrow> repo \<Rightarrow> string \<Rightarrow> ('w bst, flist) action" where
  "Repo_get en r nm =
     bnd (get_working_hub en r) (\<lambda>hub.
     bnd (call (on_world (be_get en (hub @ ''/api/flist/'' @ rp_name r @ ''/'' @ nm @ ''/light'')))) (\<lambda>response.
     if rp_status response \<noteq> 200 then bail (ErrMsg ''failed to get flist info'')
     else case json_of (be_flist_json en) response of
            Inl e \<Rightarrow> bail e
          | Inr info \<Rightarrow>
              bnd (get_working_hub en r) (\<lambda>hub.
                give (info\<lparr>fl_url := hub @ ''/'' @ rp_name r @ ''/'' @ nm\<rparr>))))"

definition Flist_tag_link :: "flist \<Rightarrow> (string \<times> string) outcome" where
  "Flist_tag_link fl =
     (if fl_kind fl \<noteq> KTagLink then Panic
      else case fl_target fl of
             None \<Rightarrow> Panic
           | Some target \<Rightarrow>
               (let parts = split_on (CHR ''/'') target
                in if length parts \<noteq> 3 \<or> parts ! 1 \<noteq> ''tags'' then Panic else Ok (parts ! 0, parts ! 2)))"

text \<open>The body of the response goes to the file as far as it arrives and can be written.\<close>

definition copy_response :: "'w boot_env \<Rightarrow> path \<Rightarrow> byte list \<times> goerr option \<Rightarrow> (fsys, goerr option) eff" where
  "copy_response en q body fs =
     (case be_write en q (fst body) of
        (written, Some e) \<Rightarrow> (Some e, overwrite q written fs)
      | (written, None) \<Rightarrow> (snd body, overwrite q written fs))"

definition Flist_download :: "'w boot_env \<Rightarrow> flist \<Rightarrow> path \<Rightarrow> ('w bst, unit) action" where
  "Flist_download en fl out =
     (if fl_kind fl \<noteq> KRegular \<and> fl_kind fl \<noteq> KSymlink then panic
      else bnd (call (on_files (open_keep (be_io en) (be_resolve en) out))) (\<lambda>file.
           bnd (call (on_world (be_get en (fl_url fl)))) (\<lambda>response.
           if \<not> is_success (rp_status response) then bail (ErrMsg ''failed to download flist'')
           else check_eff (on_files (copy_response en file (rp_body response))))))"

definition Flist_write :: "'w boot_env \<Rightarrow> flist \<Rightarrow> path \<Rightarrow> ('w bst, unit) action" where
  "Flist_write en fl out =
     (case be_to_json en fl of
        Inl e \<Rightarrow> bail e
      | Inr bytes \<Rightarrow>
          bnd (call (on_files (os_OpenTrunc (be_io en) (be_resolve en) out))) (\<lambda>q.
            check_eff (on_files (copy_response en q (bytes, None)))))"

section \<open>Flists\<close>

text \<open>
  \<open>zfs.rs\<close>: \<open>mount\<close>, \<open>copy\<close>, and the \<open>drop\<close> of a mounted flist. A file is copied to a path of its own
  and renamed.
\<close>

definition workdir_path :: path where
  "workdir_path = ''/tmp/bootstrap''"

definition in_workdir :: "path \<Rightarrow> path" where
  "in_workdir p = path_push workdir_path p"

definition wait_mountpoint :: "'w boot_env \<Rightarrow> path \<Rightarrow> ('w bst, unit) action" where
  "wait_mountpoint en target =
     bnd (call (on_world (be_mountpoint en target))) (\<lambda>success.
       if success then give () else bail (ErrMsg ''not a mount point''))"

definition zfs_mount :: "'w boot_env \<Rightarrow> path \<Rightarrow> path \<Rightarrow> path \<Rightarrow> ('w bst, unit) action" where
  "zfs_mount en backend meta target =
     bnd (check_eff (on_files (os_MkdirAll (be_io en) (be_resolve en) (in_workdir target)))) (\<lambda>_.
     bnd (check_eff (on_world (be_g8ufs en backend meta target))) (\<lambda>_ s.
       case retry_take 10 (wait_mountpoint en target) s of
         Some (Err e, s') \<Rightarrow>
           bnd (check_eff (on_world (be_kill en))) (\<lambda>_. bail (Wrapped e ''failed to mount flist'')) s'
       | r \<Rightarrow> r))"

definition zfs_drop :: "'w boot_env \<Rightarrow> path \<Rightarrow> 'w bst \<Rightarrow> 'w bst" where
  "zfs_drop en target s = snd (on_world (be_wait en) (snd (on_world (be_umount en target) s)))"

text \<open>\<open>fs::copy\<close>: the bytes that are read, as far as they can be written, in a file made empty before.\<close>

definition copy_content :: "'w boot_env \<Rightarrow> path \<Rightarrow> path \<Rightarrow> ('w bst, unit) action" where
  "copy_content en src tmp =
     bnd (call (on_world (be_read en src))) (\<lambda>body.
     bnd (call (on_files (os_OpenTrunc (be_io en) (be_resolve en) tmp))) (\<lambda>q.
       check_eff (on_files (copy_response en q body))))"

definition partial_path :: "path \<Rightarrow> path" where
  "partial_path p = p @ ''.partial''"

definition install_file :: "'w boot_env \<Rightarrow> path \<Rightarrow> path \<Rightarrow> ('w bst, unit) action" where
  "install_file en src dst =
     (if file_name dst = None then panic
      else bnd (context_msg ''failed to copy file'' (copy_content en src (partial_path dst))) (\<lambda>_.
             context_msg ''failed to rename file'' (check_eff (on_files (os_Rename (be_io en) (partial_path dst) dst)))))"

definition link_target :: "path \<Rightarrow> string \<Rightarrow> string" where
  "link_target target orig = (if prefix ''/'' orig then path_push (path_push [] target) orig else orig)"

definition remove_old :: "'w boot_env \<Rightarrow> path \<Rightarrow> (fsys, goerr option) eff" where
  "remove_old en dst fs =
     (case remove_file (be_io en) dst fs of
        (None, fs') \<Rightarrow> (None, fs')
      | (Some e, fs') \<Rightarrow> (if errors_is e ErrNotExist then None else Some (ErrMsg ''failed to delete file''), fs'))"

definition install_link :: "'w boot_env \<Rightarrow> path \<Rightarrow> path \<Rightarrow> path \<Rightarrow> ('w bst, unit) action" where
  "install_link en src target dst =
     bnd (context_msg ''failed to read link'' (call (on_world (be_read_link en src)))) (\<lambda>orig.
     bnd (check_eff (on_files (remove_old en dst))) (\<lambda>_.
       context_msg ''failed to create symlink''
         (check_eff (on_files (os_Symlink (be_io en) (link_target target orig) dst)))))"

definition zfs_copy_entry :: "'w boot_env \<Rightarrow> path \<Rightarrow> path \<Rightarrow> walk_entry res \<Rightarrow> ('w bst, unit) action" where
  "zfs_copy_entry en root target entry =
     (case entry of
        Inl e \<Rightarrow> bail e
      | Inr entry \<Rightarrow>
          let src = path_push root (we_rel entry); dst = path_push target (we_rel entry)
          in case we_type entry of
               WDir \<Rightarrow>
                 context_msg ''failed to create directory''
                   (check_eff (on_files (os_MkdirAll (be_io en) (be_resolve en) dst)))
             | WFile \<Rightarrow> install_file en src dst
             | WSymlink \<Rightarrow> install_link en src target dst
             | WOther \<Rightarrow> give ())"

definition zfs_copy :: "'w boot_env \<Rightarrow> path \<Rightarrow> path \<Rightarrow> ('w bst, unit) action" where
  "zfs_copy en root target =
     bnd (run_eff (on_world (be_walk en root))) (\<lambda>entries. for_each (zfs_copy_entry en root target) entries)"

section \<open>The working directory\<close>

text \<open>
  \<open>workdir.rs\<close>: \<open>run\<close> with the cleanup of \<open>drop\<close>, which runs whatever the end of the work, once the old
  directory is known. Mounting an empty file system hides what was below the directory; unmounting discards
  what was written there.
\<close>

definition below_cleared :: "path \<Rightarrow> fsys \<Rightarrow> fsys" where
  "below_cleared d fs = (\<lambda>p. if is_below d p \<and> p \<noteq> d then None else fs p)"

definition mount_tmpfs :: "'w boot_env \<Rightarrow> path \<Rightarrow> ('w bst, goerr option) eff" where
  "mount_tmpfs en d s =
     (case on_world (be_mount_tmpfs en d) s of
        (None, s') \<Rightarrow> (None, (below_cleared d (fst s'), snd s'))
      | (Some e, s') \<Rightarrow> (Some e, s'))"

definition workdir_create :: "'w boot_env \<Rightarrow> path \<Rightarrow> (fsys, goerr option) eff" where
  "workdir_create en d fs =
     (case create_dir (be_io en) d fs of
        (None, fs') \<Rightarrow> (None, fs')
      | (Some e, fs') \<Rightarrow> (if errors_is e ErrExist then None else Some e, fs'))"

definition workdir_drop :: "'w boot_env \<Rightarrow> path \<Rightarrow> path \<Rightarrow> 'w bst \<Rightarrow> 'w bst" where
  "workdir_drop en d old s =
     (case on_world (be_umount en d) (snd (on_world (be_set_current_dir en old) s)) of
        (e, (fs, w)) \<Rightarrow> (remove_dir_all (be_io en) d (if e = None then below_cleared d fs else fs), w))"

definition WorkDir_run :: "'w boot_env \<Rightarrow> path \<Rightarrow> ('w bst, 'a) action \<Rightarrow> ('w bst, 'a) action" where
  "WorkDir_run en d f =
     bnd (call (on_world (be_current_dir en))) (\<lambda>old.
       dropping (workdir_drop en d old)
         (bnd (check_eff (on_files (workdir_create en d))) (\<lambda>_.
          bnd (check_eff (mount_tmpfs en d)) (\<lambda>_.
          bnd (check_eff (on_world (be_set_current_dir en d))) (\<lambda>_. f)))))"

section \<open>The stages\<close>

text \<open>\<open>bootstrap.rs\<close>.\<close>

definition boot_service :: "dir_entry \<Rightarrow> string option" where
  "boot_service entry =
     (if \<not> de_file entry then None
      else case de_name entry of
             None \<Rightarrow> None
           | Some nm \<Rightarrow> (case rfind ''.yaml'' nm of None \<Rightarrow> None | Some idx \<Rightarrow> Some (take idx nm)))"

definition run_service :: "'w boot_env \<Rightarrow> dir_entry res \<Rightarrow> ('w bst, unit) action" where
  "run_service en entry =
     (case entry of
        Inl e \<Rightarrow> bail e
      | Inr d \<Rightarrow>
          (case boot_service d of
             None \<Rightarrow> give ()
           | Some service \<Rightarrow> bnd (run_eff (on_world (be_monitor en service))) (\<lambda>_. give ())))"

definition run_all :: "'w boot_env \<Rightarrow> path \<Rightarrow> ('w bst, unit) action" where
  "run_all en root =
     bnd (run_eff (on_world (be_read_dir en (path_push (path_push root ''etc'') ''zinit'')))) (\<lambda>services.
       case services of
         Inl e \<Rightarrow> if errors_is e ErrNotExist then give () else bail (Wrapped e ''failed to read directory'')
       | Inr entries \<Rightarrow> for_each (run_service en) entries)"

definition install_package :: "'w boot_env \<Rightarrow> flist \<Rightarrow> ('w bst, unit) action" where
  "install_package en fl =
     bnd (retry_forever (context_msg ''failed to download flist'' (Flist_download en fl (in_workdir (fl_name fl))))) (\<lambda>_.
     bnd (retry_take 10 (context_msg ''failed to mount flist'' (zfs_mount en ''backend'' (fl_name fl) ''root''))) (\<lambda>_.
       dropping (zfs_drop en ''root'')
         (bnd (context_msg ''failed to copy files'' (zfs_copy en ''root'' ''/'')) (\<lambda>_. run_all en ''root''))))"

definition install_packages :: "'w boot_env \<Rightarrow> flist list \<Rightarrow> ('w bst, unit) action" where
  "install_packages en packages = for_each (install_package en) packages"

definition update_bootstrap :: "'w boot_env \<Rightarrow> ('w bst, unit) action" where
  "update_bootstrap en =
     bnd (Repo_new en ''tf-autobuilder'') (\<lambda>r.
     bnd (retry_forever (context_msg ''failed to get info'' (Repo_get en r ''bootstrap-v4:latest.flist''))) (\<lambda>fl.
       case be_bin en of
         None \<Rightarrow> panic
       | Some bin \<Rightarrow>
           bnd (check_eff (on_files (os_Rename (be_io en) (in_workdir bin) (in_workdir bin @ ''.bak'')))) (\<lambda>_.
             install_package en fl)))"

definition boot_update :: "'w boot_env \<Rightarrow> ('w bst, unit) action" where
  "boot_update en = WorkDir_run en workdir_path (update_bootstrap en)"

definition tag_name :: "boot_config \<Rightarrow> string" where
  "tag_name cfg =
     (case cf_version cfg of
        V3 \<Rightarrow> run_mode_name (cf_runmode cfg)
      | V3Light \<Rightarrow> run_mode_name (cf_runmode cfg) @ ''-v3light''
      | V4 \<Rightarrow> run_mode_name (cf_runmode cfg) @ ''-v4'')"

definition install_tag :: "'w boot_env \<Rightarrow> flist \<Rightarrow> ('w bst, unit) action" where
  "install_tag en tag =
     bnd (Flist_write en tag ''/tmp/tag.info'') (\<lambda>_.
       case Flist_tag_link tag of
         Panic \<Rightarrow> panic
       | Err e \<Rightarrow> bail e
       | Ok (repo_name, t) \<Rightarrow>
           bnd (Repo_new en repo_name) (\<lambda>client.
           bnd (Repo_list_tag en client t) (\<lambda>packages.
             case packages of
               None \<Rightarrow> bail (ErrMsg ''tag is not found'')
             | Some packages \<Rightarrow> install_packages en packages)))"

definition boot_install :: "'w boot_env \<Rightarrow> boot_config \<Rightarrow> ('w bst, unit) action" where
  "boot_install en cfg =
     bnd (Repo_new en ''tf-zos'') (\<lambda>r.
     bnd (Repo_list en r) (\<lambda>lists.
       WorkDir_run en workdir_path
         (case find (\<lambda>l. fl_kind l = KTagLink \<and> fl_name l = tag_name cfg) lists of
            None \<Rightarrow> bail (ErrMsg ''no tag found attached to this version'')
          | Some tag \<Rightarrow> install_tag en tag)))"

text \<open>\<open>main.rs\<close>: the process ends, or it is replaced by the one that runs the next stage.\<close>

datatype boot_end = Finished | Replaced "string list"

definition boot_stages :: "'w boot_env \<Rightarrow> (boot_config \<Rightarrow> ('w bst, unit) action) list" where
  "boot_stages en = [\<lambda>cfg. if cf_debug cfg then give () else boot_update en, boot_install en]"

definition exec_stage :: "'w boot_env \<Rightarrow> string list \<Rightarrow> ('w bst, boot_end) action" where
  "exec_stage en args s =
     (case on_world (be_exec en args) s of
        (None, s') \<Rightarrow> Some (Ok (Replaced args), s')
      | (Some e, s') \<Rightarrow> Some (Err e, s'))"

definition logger_init :: "'w boot_env \<Rightarrow> ('w bst, unit) action" where
  "logger_init en = bnd (run_eff (on_world (be_logger en))) (\<lambda>e. if e = None then give () else panic)"

definition boot_app :: "'w boot_env \<Rightarrow> ('w bst, boot_end) action" where
  "boot_app en =
     bnd (Config_current en) (\<lambda>config.
     bnd (logger_init en) (\<lambda>_.
       let stages = boot_stages en; index = unat (cf_stage config) - 1
       in if index \<ge> length stages then bail (ErrMsg ''unknown stage'')
          else bnd ((stages ! index) config) (\<lambda>_.
            let following = unat (cf_stage config) + 1
            in if following \<le> length stages
               then (case be_bin en of
                       None \<Rightarrow> panic
                     | Some bin \<Rightarrow> exec_stage en ([bin, ''-s'', show_nat following] @ (if cf_debug config then [''-d''] else [])))
               else give Finished)))"

definition boot_main :: "'w boot_env \<Rightarrow> 'w bst \<Rightarrow> ((nat + string list) \<times> 'w bst) option" where
  "boot_main en s =
     (case boot_app en s of
        None \<Rightarrow> None
      | Some (Ok Finished, s') \<Rightarrow> Some (Inl 0, s')
      | Some (Ok (Replaced args), s') \<Rightarrow> Some (Inr args, s')
      | Some (Err _, s') \<Rightarrow> Some (Inl 1, s')
      | Some (Panic, s') \<Rightarrow> Some (Inl 101, s'))"

section \<open>Installing the files of a package\<close>

text \<open>Writing stops early only with an error; the mounted flist is read-only, so a file has one content.\<close>

definition write_laws :: "'w boot_env \<Rightarrow> bool" where
  "write_laws en \<longleftrightarrow>
     (\<forall>q bs. (\<exists>k. fst (be_write en q bs) = take k bs) \<and> (snd (be_write en q bs) = None \<longrightarrow> fst (be_write en q bs) = bs))"

lemma write_lawsD:
  assumes "write_laws en"
  shows "be_write en q bs = (x, None) \<Longrightarrow> x = bs" "be_write en q bs = (x, e) \<Longrightarrow> \<exists>k. x = take k bs"
  using assms unfolding write_laws_def by (metis fst_conv snd_conv)+

definition content_laws :: "'w boot_env \<Rightarrow> path \<Rightarrow> (path \<Rightarrow> byte list) \<Rightarrow> bool" where
  "content_laws en root c \<longleftrightarrow>
     (\<forall>rel w bs w'. be_read en (path_push root rel) w = (Inr (bs, None), w') \<longrightarrow> bs = c rel)"

lemma content_lawsD: "content_laws en root c \<Longrightarrow> be_read en (path_push root rel) w = (Inr (bs, None), w') \<Longrightarrow> bs = c rel"
  unfolding content_laws_def by blast

definition no_symlink :: "fsys \<Rightarrow> path \<Rightarrow> bool" where
  "no_symlink fs p \<longleftrightarrow> (\<forall>t. fs p \<noteq> Some (Symlink t))"

lemma resolve_plain: "resolve_laws rs \<Longrightarrow> no_symlink fs p \<Longrightarrow> rs fs p = p"
  by (simp add: resolve_laws_def no_symlink_def)

lemma partial_path_neq [simp]: "partial_path p \<noteq> p" "p \<noteq> partial_path p"
  by (simp_all add: partial_path_def)

text \<open>The paths that an entry may write.\<close>

definition entry_writes :: "path \<Rightarrow> walk_entry \<Rightarrow> path set" where
  "entry_writes target e =
     (let dst = path_push target (we_rel e)
      in case we_type e of
           WDir \<Rightarrow> set (dirs_of dst) | WFile \<Rightarrow> {dst, partial_path dst} | WSymlink \<Rightarrow> {dst} | WOther \<Rightarrow> {})"

lemma mkdirs_frame:
  assumes "resolve_laws rs" "p \<notin> set qs"
  shows "snd (mkdirs rs qs fs) p = fs p"
  using assms(2)
proof (induction qs arbitrary: fs)
  case (Cons q qs)
  have "fs q = None \<Longrightarrow> rs fs q = q" using assms(1) by (intro resolve_plain) (simp_all add: no_symlink_def)
  then show ?case using Cons by (auto split: option.splits inode.splits)
qed simp

lemma os_MkdirAll_frame:
  "resolve_laws rs \<Longrightarrow> p \<notin> set (dirs_of d) \<Longrightarrow> snd (os_MkdirAll io rs d fs) p = fs p"
  by (auto simp: os_MkdirAll_def mkdirs_frame split: option.splits)

text \<open>A file is replaced as a whole or not at all.\<close>

lemma copy_content_effect:
  assumes "resolve_laws (be_resolve en)" "write_laws en" "content_laws en root c" "no_symlink fs tmp"
    and run: "copy_content en (path_push root rel) tmp (fs, w) = Some (r, (fs', w'))"
  shows "\<forall>p. p \<noteq> tmp \<longrightarrow> fs' p = fs p" "r = Ok () \<Longrightarrow> fs' tmp = Some (Regular (c rel))" "no_symlink fs' tmp"
    and "r \<noteq> Panic"
proof -
  note rs = resolve_plain [OF assms(1,4)]
  obtain x w1 where x: "be_read en (path_push root rel) w = (x, w1)" by force
  have *: "(\<forall>p. p \<noteq> tmp \<longrightarrow> fs' p = fs p) \<and> (r = Ok () \<longrightarrow> fs' tmp = Some (Regular (c rel))) \<and> no_symlink fs' tmp \<and> r \<noteq> Panic"
  proof (cases x)
    case (Inl e)
    then show ?thesis using run x assms(4)
      by (auto simp: copy_content_def bnd_def call_def on_world_def)
  next
    case (Inr body)
    obtain bs e where body: "body = (bs, e)" by force
    obtain o1 fs1 where o1: "os_OpenTrunc (be_io en) (be_resolve en) tmp fs = (o1, fs1)" by force
    have o: "o1 = Inr tmp \<and> fs1 = fs(tmp \<mapsto> Regular []) \<or> (\<exists>e. o1 = Inl e) \<and> fs1 = fs"
      using o1 rs by (auto simp: os_OpenTrunc_def Let_def split: option.splits if_splits)
    obtain wr we where wr: "be_write en tmp bs = (wr, we)" by force
    have "e = None \<Longrightarrow> we = None \<Longrightarrow> wr = c rel"
      using write_lawsD(1) [OF assms(2), of tmp bs wr] wr content_lawsD [OF assms(3)] x Inr body by simp
    then show ?thesis using run x Inr body o1 o wr assms(4)
      by (auto simp: copy_content_def bnd_def call_def check_eff_def on_world_def on_files_def copy_response_def
          overwrite_def no_symlink_def split: option.splits)
  qed
  then show "\<forall>p. p \<noteq> tmp \<longrightarrow> fs' p = fs p" "r = Ok () \<Longrightarrow> fs' tmp = Some (Regular (c rel))" "no_symlink fs' tmp"
    "r \<noteq> Panic" by blast+
qed

lemma install_file_effect:
  assumes "resolve_laws (be_resolve en)" "write_laws en" "content_laws en root c" "no_symlink fs (partial_path dst)"
    and run: "install_file en (path_push root rel) dst (fs, w) = Some (r, (fs', w'))"
  shows "(\<forall>p. p \<noteq> dst \<longrightarrow> p \<noteq> partial_path dst \<longrightarrow> fs' p = fs p)
       \<and> (fs' dst = fs dst \<or> fs' dst = Some (Regular (c rel)))
       \<and> (r = Ok () \<longrightarrow> fs' dst = Some (Regular (c rel)))"
proof (cases "file_name dst = None")
  case True
  then show ?thesis using run by (simp add: install_file_def panic_def)
next
  case False
  let ?tmp = "partial_path dst"
  have neq: "?tmp \<noteq> dst" "dst \<noteq> ?tmp" by simp_all
  obtain r1 fs1 w1 where 1: "copy_content en (path_push root rel) ?tmp (fs, w) = Some (r1, (fs1, w1))"
    using run False
    by (cases "copy_content en (path_push root rel) ?tmp (fs, w)")
       (auto simp: install_file_def bnd_def context_msg_def)
  note eff = copy_content_effect [OF assms(1-4) 1]
  show ?thesis
  proof (cases r1)
    case (Ok u)
    then have "fs1 ?tmp = Some (Regular (c rel))" using eff(2) by simp
    then show ?thesis using run False 1 Ok eff(1) neq
      by (auto simp: install_file_def bnd_def context_msg_def check_eff_def on_files_def os_Rename_def
          split: option.splits if_splits prod.splits)
  qed (use run False 1 eff neq in \<open>auto simp: install_file_def bnd_def context_msg_def\<close>)
qed

lemma remove_old_frame: "remove_old en d fs = (e, fs') \<Longrightarrow> p \<noteq> d \<Longrightarrow> fs' p = fs p"
  by (auto simp: remove_old_def remove_file_def split: option.splits inode.splits if_splits)

lemma os_Symlink_frame: "os_Symlink io t d fs = (e, fs') \<Longrightarrow> p \<noteq> d \<Longrightarrow> fs' p = fs p"
  by (auto simp: os_Symlink_def split: option.splits if_splits)

lemma keeps_on_world [intro]:
  "keeps (\<lambda>s. J (fst s)) (call (on_world f))" "keeps (\<lambda>s. J (fst s)) (run_eff (on_world g))"
  "keeps (\<lambda>s. J (fst s)) (check_eff (on_world h))"
  by (auto simp: on_world_def split: prod.splits)

lemma install_link_frame:
  assumes "p \<noteq> dst"
  shows "keeps (\<lambda>s. fst s p = v) (install_link en src target dst)"
  unfolding install_link_def using assms remove_old_frame os_Symlink_frame
  by (intro keeps_bnd keeps_context keeps_call keeps_check_eff)
     (auto simp: on_world_def on_files_def split: prod.splits)

lemma zfs_copy_entry_frame:
  assumes "resolve_laws (be_resolve en)" "write_laws en" "content_laws en root c"
    and "we_type e = WFile \<Longrightarrow> no_symlink fs (partial_path (path_push target (we_rel e)))"
    and "p \<notin> entry_writes target e"
    and run: "zfs_copy_entry en root target (Inr e) (fs, w) = Some (r, (fs', w'))"
  shows "fs' p = fs p"
proof (cases "we_type e")
  case WDir
  then have "snd (os_MkdirAll (be_io en) (be_resolve en) (path_push target (we_rel e)) fs) p = fs p"
    using assms(1,5) by (intro os_MkdirAll_frame) (simp_all add: entry_writes_def)
  then show ?thesis using run WDir
    by (auto simp: zfs_copy_entry_def context_msg_def check_eff_def on_files_def split: prod.splits option.splits)
next
  case WFile
  then show ?thesis
    using run assms(5) install_file_effect [OF assms(1-3), of fs "path_push target (we_rel e)" "we_rel e"] assms(4)
    by (simp add: zfs_copy_entry_def entry_writes_def Let_def)
next
  case WSymlink
  then show ?thesis
    using run assms(5) keepsD [OF install_link_frame [of p "path_push target (we_rel e)" "fs p"], of "(fs, w)"]
    by (auto simp: zfs_copy_entry_def entry_writes_def)
next
  case WOther
  then show ?thesis using run by (simp add: zfs_copy_entry_def give_def)
qed

text \<open>No path of a file, or of its partial copy, is written by another entry, and no partial copy is a link.\<close>

fun separate :: "path \<Rightarrow> walk_entry list \<Rightarrow> bool" where
  "separate target [] = True"
| "separate target (e # es) \<longleftrightarrow>
     list_all (\<lambda>f. we_type e = WFile \<or> we_type f = WFile \<longrightarrow> entry_writes target e \<inter> entry_writes target f = {}) es
       \<and> separate target es"

definition partials_free :: "path \<Rightarrow> walk_entry list \<Rightarrow> fsys \<Rightarrow> bool" where
  "partials_free target es fs \<longleftrightarrow>
     list_all (\<lambda>e. we_type e = WFile \<longrightarrow> no_symlink fs (partial_path (path_push target (we_rel e)))) es"

definition good_entries :: "(walk_entry res) list \<Rightarrow> walk_entry list" where
  "good_entries es = concat (map (\<lambda>e. case e of Inl _ \<Rightarrow> [] | Inr x \<Rightarrow> [x]) es)"

lemma good_entries_simps [simp]:
  "good_entries [] = []" "good_entries (Inl e # es) = good_entries es" "good_entries (Inr x # es) = x # good_entries es"
  by (simp_all add: good_entries_def)

lemma copy_entries_effect:
  assumes "resolve_laws (be_resolve en)" "write_laws en" "content_laws en root c"
    and "separate target (good_entries es)" "partials_free target (good_entries es) fs"
    and "for_each (zfs_copy_entry en root target) es (fs, w) = Some (r, (fs', w'))"
  shows "(\<forall>p. (\<forall>e \<in> set (good_entries es). p \<notin> entry_writes target e) \<longrightarrow> fs' p = fs p)
       \<and> (\<forall>e \<in> set (good_entries es). we_type e = WFile \<longrightarrow>
            (fs' (path_push target (we_rel e)) = fs (path_push target (we_rel e))
               \<or> fs' (path_push target (we_rel e)) = Some (Regular (c (we_rel e))))
          \<and> (r = Ok () \<longrightarrow> fs' (path_push target (we_rel e)) = Some (Regular (c (we_rel e)))))"
  using assms(4-6)
proof (induction es arbitrary: fs w)
  case Nil
  then show ?case by (simp add: give_def)
next
  case (Cons x es)
  let ?dst = "\<lambda>e. path_push target (we_rel e)"
  show ?case
  proof (cases x)
    case (Inl er)
    then show ?thesis using Cons.prems by (auto simp: zfs_copy_entry_def bail_def bnd_def)
  next
    case x: (Inr e)
    obtain r1 fs1 w1 where 1: "zfs_copy_entry en root target (Inr e) (fs, w) = Some (r1, (fs1, w1))"
      using Cons.prems(3) x by (cases "zfs_copy_entry en root target (Inr e) (fs, w)") (auto simp: bnd_def)
    have apart: "entry_writes target e \<inter> entry_writes target f = {}"
      if "f \<in> set (good_entries es)" "we_type e = WFile \<or> we_type f = WFile" for f
      using Cons.prems(1) that x by (auto simp: list_all_iff)
    have writes: "?dst f \<in> entry_writes target f" "partial_path (?dst f) \<in> entry_writes target f"
      if "we_type f = WFile" for f
      using that by (simp_all add: entry_writes_def Let_def)
    have frame: "p \<notin> entry_writes target e \<Longrightarrow> fs1 p = fs p" for p
      using zfs_copy_entry_frame [OF assms(1-3) _ _ 1] Cons.prems(2) x by (simp add: partials_free_def)
    have own: "(fs1 (?dst e) = fs (?dst e) \<or> fs1 (?dst e) = Some (Regular (c (we_rel e))))
        \<and> (r1 = Ok () \<longrightarrow> fs1 (?dst e) = Some (Regular (c (we_rel e))))" if "we_type e = WFile"
      using install_file_effect [OF assms(1-3), of fs "?dst e" "we_rel e"] 1 Cons.prems(2) x that
      by (simp add: partials_free_def zfs_copy_entry_def Let_def)
    show ?thesis
    proof (cases "r1 = Ok ()")
      case False
      then have "(r, (fs', w')) = (r1, (fs1, w1))"
        using Cons.prems(3) 1 x by (cases r1) (auto simp: bnd_def)
      then show ?thesis using False frame own apart writes x by auto
    next
      case True
      have rest: "for_each (zfs_copy_entry en root target) es (fs1, w1) = Some (r, (fs', w'))"
        using Cons.prems(3) 1 x True by (simp add: bnd_def)
      have same: "fs1 (?dst f) = fs (?dst f) \<and> fs1 (partial_path (?dst f)) = fs (partial_path (?dst f))"
        if "f \<in> set (good_entries es)" "we_type f = WFile" for f
        using apart [OF that(1)] writes [OF that(2)] that(2) by (auto intro!: frame)
      have "partials_free target (good_entries es) fs1"
        using Cons.prems(2) x same by (auto simp: partials_free_def list_all_iff no_symlink_def)
      from Cons.IH [OF _ this rest] Cons.prems(1) x
      have ih: "(\<forall>p. (\<forall>f \<in> set (good_entries es). p \<notin> entry_writes target f) \<longrightarrow> fs' p = fs1 p)
         \<and> (\<forall>f \<in> set (good_entries es). we_type f = WFile \<longrightarrow>
            (fs' (?dst f) = fs1 (?dst f) \<or> fs' (?dst f) = Some (Regular (c (we_rel f))))
          \<and> (r = Ok () \<longrightarrow> fs' (?dst f) = Some (Regular (c (we_rel f)))))"
        by simp
      have "fs' (?dst e) = fs1 (?dst e)" if "we_type e = WFile"
        using ih apart writes [OF that] that by blast
      then show ?thesis using ih own same frame True x by auto
    qed
  qed
qed

text \<open>
  C31. A package's files are replaced as a whole or not at all: wherever the copy of a mounted flist into the
  system ends, by a failing call of the file system, of the walk or of the mounted flist, or in a panic,
  every file of the package is either what it was before or has its complete new content, and after a copy
  without an error all have. What no entry of the package names is unchanged. The entries must not write
  each other's paths, and the path of a partial copy must not be a link.
\<close>

theorem zfs_copy_atomic:
  assumes "resolve_laws (be_resolve en)" "write_laws en" "content_laws en root c"
    and "be_walk en root w = (es, w1)" "separate target (good_entries es)" "partials_free target (good_entries es) fs"
    and "zfs_copy en root target (fs, w) = Some (r, (fs', w'))"
  shows "(\<forall>p. (\<forall>e \<in> set (good_entries es). p \<notin> entry_writes target e) \<longrightarrow> fs' p = fs p)
       \<and> (\<forall>e \<in> set (good_entries es). we_type e = WFile \<longrightarrow>
            (fs' (path_push target (we_rel e)) = fs (path_push target (we_rel e))
               \<or> fs' (path_push target (we_rel e)) = Some (Regular (c (we_rel e))))
          \<and> (r = Ok () \<longrightarrow> fs' (path_push target (we_rel e)) = Some (Regular (c (we_rel e)))))"
  using copy_entries_effect [OF assms(1-3,5,6)] assms(4,7)
  by (simp add: zfs_copy_def bnd_def run_eff_def on_world_def)

section \<open>Downloading a package\<close>

text \<open>
  The attempts write over each other from the start of the file and none empties it: what is behind the
  bytes that came stays. \<open>serves\<close> says that every answer for a URL brings one content, or a part of it from
  its start.
\<close>

definition serves :: "'w boot_env \<Rightarrow> string \<Rightarrow> byte list \<Rightarrow> bool" where
  "serves en url c \<longleftrightarrow>
     (\<forall>w resp w'. be_get en url w = (Inr resp, w') \<longrightarrow> is_success (rp_status resp) \<longrightarrow>
        (\<exists>k. fst (rp_body resp) = take k c) \<and> (snd (rp_body resp) = None \<longrightarrow> fst (rp_body resp) = c))"

definition held :: "fsys \<Rightarrow> path \<Rightarrow> byte list" where
  "held fs p = (case fs p of Some (Regular b) \<Rightarrow> b | _ \<Rightarrow> [])"

text \<open>A part of \<open>c\<close> laid over an old content.\<close>

definition laid :: "byte list \<Rightarrow> byte list \<Rightarrow> byte list \<Rightarrow> bool" where
  "laid c old b \<longleftrightarrow> (\<exists>k \<le> length c. b = take k c @ drop k old)"

lemma laid_old: "laid c old old"
  unfolding laid_def by (rule exI [of _ 0]) simp

lemma laid_over:
  assumes "laid c old b"
  shows "laid c old (take i c @ drop (length (take i c)) b)"
proof -
  obtain k where k: "k \<le> length c" "b = take k c @ drop k old" using assms unfolding laid_def by blast
  define m where "m = min i (length c)"
  have m: "take i c = take m c" "length (take i c) = m" "m \<le> length c" by (cases "i \<le> length c"; simp add: m_def min_def)+
  have "take m c @ drop m b = take (max m k) c @ drop (max m k) old"
  proof (cases "m \<le> k")
    case True
    have "take m c = take m (take k c)" using True by (simp add: min_absorb1)
    then have "take m c @ drop m (take k c) = take k c" by (simp only: append_take_drop_id)
    then show ?thesis using True k by (simp add: max_absorb2)
  qed (use k in \<open>simp add: max_absorb1\<close>)
  moreover have "max m k \<le> length c" using m(3) k(1) by simp
  ultimately show ?thesis unfolding laid_def m(2) unfolding m(1) by blast
qed

lemma overwrite_held: "fs p = Some (Regular b) \<Longrightarrow> overwrite p x fs = fs(p \<mapsto> Regular (x @ drop (length x) b))"
  by (simp add: overwrite_def)

text \<open>What every attempt keeps: other files, the parts of the served contents, and that there is no link.\<close>

definition downloading :: "'w boot_env \<Rightarrow> string \<Rightarrow> path \<Rightarrow> fsys \<Rightarrow> fsys \<Rightarrow> bool" where
  "downloading en url out fs0 fs \<longleftrightarrow>
     (\<forall>p. p \<noteq> out \<longrightarrow> fs p = fs0 p) \<and> no_symlink fs out \<and>
     (\<forall>c. serves en url c \<longrightarrow> laid c (held fs0 out) (held fs out))"

lemma downloading_open:
  assumes "resolve_laws rs" "downloading en url out fs0 fs" "open_keep io rs out fs = (x, fs1)"
  shows "downloading en url out fs0 fs1 \<and> ((x = Inr out \<and> (\<exists>b. fs1 out = Some (Regular b))) \<or> (\<exists>e. x = Inl e))"
proof -
  have "rs fs out = out" using resolve_plain [OF assms(1)] assms(2) by (simp add: downloading_def)
  then show ?thesis using assms(2,3)
    by (auto simp: open_keep_def downloading_def held_def no_symlink_def Let_def split: option.splits inode.splits)
qed

lemma downloading_copy:
  assumes laws: "write_laws en" and I: "downloading en url out fs0 fs" and b: "fs out = Some (Regular b)"
    and get: "be_get en url w = (Inr resp, w1)" "is_success (rp_status resp)"
    and run: "copy_response en out (rp_body resp) fs = (e, fs1)"
  shows "downloading en url out fs0 fs1 \<and>
         (e = None \<longrightarrow> snd (rp_body resp) = None \<and> (\<exists>t. fs1 out = Some (Regular (fst (rp_body resp) @ t))))"
proof -
  obtain wr we where wr: "be_write en out (fst (rp_body resp)) = (wr, we)" by force
  have fs1: "fs1 = fs(out \<mapsto> Regular (wr @ drop (length wr) b))"
    using run wr overwrite_held [where fs = fs and p = out, OF b] by (auto simp: copy_response_def split: option.splits)
  have "laid c (held fs0 out) (held fs1 out)" if c: "serves en url c" for c
  proof -
    obtain k where "fst (rp_body resp) = take k c" using c get unfolding serves_def by blast
    moreover obtain i where "wr = take i (fst (rp_body resp))" using write_lawsD(2) [OF laws wr] by blast
    ultimately have "wr = take (min i k) c" by (simp add: min.commute)
    moreover have "laid c (held fs0 out) b" using I c b by (simp add: downloading_def held_def)
    ultimately show ?thesis using laid_over by (simp add: fs1 held_def)
  qed
  moreover have "snd (rp_body resp) = None \<and> wr = fst (rp_body resp)" if "e = None"
    using that run wr write_lawsD(1) [OF laws] by (auto simp: copy_response_def split: option.splits)
  ultimately show ?thesis using I by (auto simp: fs1 downloading_def no_symlink_def)
qed

lemma download_attempt:
  assumes laws: "resolve_laws (be_resolve en)" "write_laws en"
    and kind: "fl_kind fl = KRegular \<or> fl_kind fl = KSymlink" and I: "downloading en (fl_url fl) out fs0 fs"
    and run: "Flist_download en fl out (fs, w) = Some (r, (fs', w'))"
  shows "downloading en (fl_url fl) out fs0 fs' \<and> r \<noteq> Panic \<and>
         (r = Ok () \<longrightarrow> (\<exists>w0 resp c t. be_get en (fl_url fl) w0 = (Inr resp, w') \<and> is_success (rp_status resp) \<and>
            rp_body resp = (c, None) \<and> fs' out = Some (Regular (c @ t))))"
proof -
  obtain x fs1 where x: "open_keep (be_io en) (be_resolve en) out fs = (x, fs1)" by force
  note o = downloading_open [OF laws(1) I x]
  show ?thesis
  proof (cases x)
    case (Inl e)
    then show ?thesis using run x o kind by (auto simp: Flist_download_def bnd_def call_def on_files_def)
  next
    case (Inr q)
    then obtain b where q: "q = out" and b: "fs1 out = Some (Regular b)" using o by auto
    obtain g w1 where g: "be_get en (fl_url fl) w = (g, w1)" by force
    show ?thesis
    proof (cases "\<exists>resp. g = Inr resp \<and> is_success (rp_status resp)")
      case True
      then obtain resp where resp: "g = Inr resp" "is_success (rp_status resp)" by blast
      obtain e fs2 where cp: "copy_response en out (rp_body resp) fs1 = (e, fs2)" by force
      have get: "be_get en (fl_url fl) w = (Inr resp, w1)" using g resp by simp
      have after: "fs' = fs2" "w' = w1" "r = (case e of None \<Rightarrow> Ok () | Some e \<Rightarrow> Err e)"
        using run x Inr q g resp cp kind
        by (auto simp: Flist_download_def bnd_def call_def check_eff_def on_files_def on_world_def split: option.splits)
      note c = downloading_copy [OF laws(2) conjunct1 [OF o] b get resp(2) cp]
      show ?thesis
      proof (cases e)
        case None
        then obtain t where "snd (rp_body resp) = None" "fs2 out = Some (Regular (fst (rp_body resp) @ t))" using c by blast
        then have "rp_body resp = (fst (rp_body resp), None)" by (metis prod.collapse)
        then show ?thesis using c after None get resp(2) \<open>fs2 out = _\<close> by (metis option.simps(4) outcome.distinct(3))
      qed (use c after in simp)
    next
      case False
      then show ?thesis using run x Inr g o kind
        by (cases g) (auto simp: Flist_download_def bnd_def call_def bail_def on_files_def on_world_def)
    qed
  qed
qed

text \<open>
  C33. When the download of a flist returns, after any number of attempts that failed or broke off, it never
  returns an error: the last answer was complete, the file begins with the whole body of that answer, and no
  other file has changed. When all answers bring one content, or a part of it, the file is exactly this
  content, followed by what an older and longer file had behind that many bytes: no attempt empties the file,
  so the content is exact when no longer file was there before.
\<close>

theorem download_exact:
  assumes "resolve_laws (be_resolve en)" "write_laws en"
    and "fl_kind fl = KRegular \<or> fl_kind fl = KSymlink" "no_symlink fs out"
    and run: "retry_forever (context_msg t (Flist_download en fl out)) (fs, w) = Some (r, (fs', w'))"
  shows "r = Ok () \<and> (\<forall>p. p \<noteq> out \<longrightarrow> fs' p = fs p) \<and>
         (\<exists>w0 resp c rest. be_get en (fl_url fl) w0 = (Inr resp, w') \<and> is_success (rp_status resp) \<and>
            rp_body resp = (c, None) \<and> fs' out = Some (Regular (c @ rest)) \<and>
            (serves en (fl_url fl) c \<longrightarrow> rest = drop (length c) (held fs out)))"
proof -
  let ?m = "context_msg t (Flist_download en fl out)"
  let ?I = "\<lambda>s. downloading en (fl_url fl) out fs (fst s)"
  let ?Q = "\<lambda>s'. \<exists>w0 resp c t. be_get en (fl_url fl) w0 = (Inr resp, snd s') \<and> is_success (rp_status resp) \<and>
            rp_body resp = (c, None) \<and> fst s' out = Some (Regular (c @ t))"
  have attempt: "?I s' \<and> r \<noteq> Panic \<and> (r = Ok () \<longrightarrow> ?Q s')" if I: "?I s" and m: "?m s = Some (r, s')" for s r s'
  proof -
    obtain r1 where r1: "Flist_download en fl out (fst s, snd s) = Some (r1, (fst s', snd s'))"
        "r = r1 \<or> (\<exists>e f. r1 = Err e \<and> r = Err f)"
      using m by (auto simp: context_msg_def split: option.splits prod.splits outcome.splits)
    show ?thesis using download_attempt [OF assms(1-3) I r1(1)] r1(2) by auto
  qed
  have "\<exists>u. ?I u \<and> ?m u = Some (r, (fs', w')) \<and> (\<forall>e. r \<noteq> Err e)"
  proof (rule retry_forever_induct [OF run, where I = ?I])
    show "?I (fs, w)" using assms(4) by (simp add: downloading_def laid_old)
    show "?I s'" if "?I s" "?m s = Some (Err e, s')" for s e s'
      using attempt [OF that] by (rule conjunct1)
  qed
  then obtain u where u: "?I u" "?m u = Some (r, (fs', w'))" "\<forall>e. r \<noteq> Err e" by (elim exE conjE) (rule that)
  have r: "r = Ok ()" using attempt [OF u(1,2)] u(3) by (cases r) auto
  then obtain w0 resp c rest where get: "be_get en (fl_url fl) w0 = (Inr resp, w')" "is_success (rp_status resp)"
      "rp_body resp = (c, None)" "fs' out = Some (Regular (c @ rest))"
    using attempt [OF u(1,2)] by auto
  have "rest = drop (length c) (held fs out)" if "serves en (fl_url fl) c"
  proof -
    have "laid c (held fs out) (c @ rest)"
      using attempt [OF u(1,2)] that get(4) by (simp add: downloading_def held_def)
    then obtain k where k: "k \<le> length c" "c @ rest = take k c @ drop k (held fs out)" unfolding laid_def by blast
    then have "drop (length c) (c @ rest) = drop (length c - k) (drop k (held fs out))" by simp
    then show ?thesis using k(1) by simp
  qed
  then show ?thesis using r get attempt [OF u(1,2)] by (auto simp: downloading_def)
qed

section \<open>The hub leaves the files alone\<close>

text \<open>A property of the file system that an action keeps, whatever it does to the rest of the world.\<close>

definition keeps_files :: "(fsys \<Rightarrow> bool) \<Rightarrow> ('w bst, 'a) action \<Rightarrow> bool" where
  "keeps_files J m \<longleftrightarrow> keeps (\<lambda>s. J (fst s)) m"

lemma keeps_filesI: "(\<And>fs w r fs' w'. J fs \<Longrightarrow> m (fs, w) = Some (r, (fs', w')) \<Longrightarrow> J fs') \<Longrightarrow> keeps_files J m"
  unfolding keeps_files_def by (rule keepsI) (metis prod.collapse)

lemma keeps_filesD: "keeps_files J m \<Longrightarrow> J fs \<Longrightarrow> m (fs, w) = Some (r, (fs', w')) \<Longrightarrow> J fs'"
  unfolding keeps_files_def using keepsD [of "\<lambda>s. J (fst s)" m "(fs, w)" r "(fs', w')"] by simp

lemma keeps_files_world [simp]:
  "keeps_files J (call (on_world f))" "keeps_files J (run_eff (on_world g))" "keeps_files J (check_eff (on_world h))"
  unfolding keeps_files_def by (rule keeps_on_world)+

lemma keeps_files_simps [simp]:
  "keeps_files J (give x)" "keeps_files J (bail e)" "keeps_files J panic"
  by (simp_all add: keeps_files_def)

lemma keeps_files_rules [simp]:
  "keeps_files J m \<Longrightarrow> (\<And>x. keeps_files J (f x)) \<Longrightarrow> keeps_files J (bnd m f)"
  "keeps_files J m \<Longrightarrow> keeps_files J (context_msg t m)"
  "keeps_files J m \<Longrightarrow> keeps_files J (retry_take n m)"
  "keeps_files J m \<Longrightarrow> keeps_files J (retry_forever m)"
  unfolding keeps_files_def by (rule keeps_bnd keeps_context keeps_retry_take keeps_retry_forever; simp)+

lemma keeps_files_bnd_never: "never_ok m \<Longrightarrow> keeps_files J m \<Longrightarrow> keeps_files J (bnd m f)"
  by (rule keeps_filesI)
     (auto simp: bnd_def never_ok_def split: option.splits prod.splits outcome.splits dest: keeps_filesD)

lemma kparams_params_files [simp]: "keeps_files J (kparams_params en)"
  by (simp add: kparams_params_def split: sum.splits)

lemma Config_current_files [simp]: "keeps_files J (Config_current en)"
proof -
  have "keeps_files J (boot_version_of en)" "keeps_files J (boot_runmode en)"
    by (simp_all add: boot_version_of_def boot_runmode_def split: option.splits)
  then show ?thesis by (simp add: Config_current_def split: option.splits)
qed

lemma get_hub_url_files [simp]: "keeps_files J (get_hub_url en mode)"
proof (rule keeps_filesI)
  fix fs w r fs' w'
  assume J: "J fs" and run: "get_hub_url en mode (fs, w) = Some (r, (fs', w'))"
  have k: "keeps_files J (retry_take 5 (get_config en (config_url mode)))" by (simp add: get_config_def)
  obtain r1 where "retry_take 5 (get_config en (config_url mode)) (fs, w) = Some (r1, (fs', w'))"
    using run by (auto simp: get_hub_url_def split: option.splits prod.splits outcome.splits sum.splits)
  then show "J fs'" using keeps_filesD [OF k J] by blast
qed

lemma Repo_new_files [simp]: "keeps_files J (Repo_new en nm)"
  by (simp add: Repo_new_def)

lemma get_working_hub_files [simp]: "keeps_files J (get_working_hub en r)"
  by (simp add: get_working_hub_def split: option.splits list.splits)

lemma Repo_get_files [simp]: "keeps_files J (Repo_get en r nm)"
  by (simp add: Repo_get_def split: sum.splits)

section \<open>No panic\<close>

text \<open>
  The hub URLs are never empty, so picking one does not panic. What remains are the assertions on the form
  of the hub's answers, and the file name of an installed file.
\<close>

lemma get_hub_url_some: "sound (get_hub_url en mode) (\<lambda>urls. urls \<noteq> [])"
proof -
  have get: "sound (retry_take 5 (get_config en (config_url mode))) (\<lambda>_. True)"
    by (rule sound_retry_take) (simp add: get_config_def)
  show ?thesis
    by (rule soundI)
       (use soundD [OF get] in \<open>auto simp: get_hub_url_def hub_fallback_def
          split: option.splits prod.splits outcome.splits sum.splits if_splits\<close>)
qed

lemma Config_current_sound [simp]: "sound (Config_current en) (\<lambda>_. True)"
proof -
  have "sound (kparams_params en) (\<lambda>_. True)" by (simp add: kparams_params_def split: sum.splits)
  then have "sound (boot_version_of en) (\<lambda>_. True)" "sound (boot_runmode en) (\<lambda>_. True)"
    by (simp_all add: boot_version_of_def boot_runmode_def split: option.splits)
  then show ?thesis by (simp add: Config_current_def split: option.splits)
qed

lemma Repo_new_hub: "sound (Repo_new en nm) (\<lambda>r. rp_hub r \<noteq> [] \<and> rp_name r = nm)"
  unfolding Repo_new_def
  by (rule sound_bnd [OF Config_current_sound], rule sound_bnd [OF get_hub_url_some]) simp

lemma get_working_hub_sound [simp]: "rp_hub r \<noteq> [] \<Longrightarrow> sound (get_working_hub en r) (\<lambda>_. True)"
  by (cases "rp_hub r") (simp_all add: get_working_hub_def split: option.splits)

lemma Repo_get_sound: "rp_hub r \<noteq> [] \<Longrightarrow> sound (Repo_get en r nm) (\<lambda>_. True)"
  by (simp add: Repo_get_def split: sum.splits)

section \<open>An update that cannot be mounted\<close>

text \<open>What an installation that fails before it copies keeps.\<close>

definition program_lost :: "path \<Rightarrow> inode \<Rightarrow> fsys \<Rightarrow> bool" where
  "program_lost bin n fs \<longleftrightarrow>
     fs bin = None \<and> fs (bin @ ''.bak'') = Some n \<and> (\<forall>p. is_below workdir_path p \<longrightarrow> no_symlink fs p)"

definition program_outside :: "path \<Rightarrow> bool" where
  "program_outside bin \<longleftrightarrow>
     \<not> is_below workdir_path bin \<and> \<not> is_below workdir_path (bin @ ''.bak'') \<and> bin \<noteq> ''/tmp''"

lemma download_frame:
  assumes "resolve_laws (be_resolve en)" "no_symlink fs out"
    and "Flist_download en fl out (fs, w) = Some (r, (fs', w'))"
  shows "(\<forall>p. p \<noteq> out \<longrightarrow> fs' p = fs p) \<and> no_symlink fs' out"
proof -
  note rs = resolve_plain [OF assms(1,2)]
  obtain x fs1 where x: "open_keep (be_io en) (be_resolve en) out fs = (x, fs1)" by force
  have o: "(x = Inr out \<or> (\<exists>e. x = Inl e)) \<and> (\<forall>p. p \<noteq> out \<longrightarrow> fs1 p = fs p) \<and> no_symlink fs1 out"
    using x rs assms(2) by (auto simp: open_keep_def Let_def no_symlink_def split: option.splits inode.splits)
  have c: "(\<forall>p. p \<noteq> out \<longrightarrow> snd (copy_response en out b fs1) p = fs p) \<and> no_symlink (snd (copy_response en out b fs1)) out" for b
    using o by (auto simp: copy_response_def overwrite_def no_symlink_def split: prod.splits option.splits inode.splits)
  obtain g w1 where g: "be_get en (fl_url fl) w = (g, w1)" by force
  show ?thesis
  proof (cases "fl_kind fl \<noteq> KRegular \<and> fl_kind fl \<noteq> KSymlink \<or> (\<exists>e. x = Inl e)")
    case True
    then show ?thesis using assms(2,3) x o
      by (auto simp: Flist_download_def panic_def bnd_def call_def on_files_def split: if_splits)
  next
    case False
    then have "x = Inr out" using o by blast
    then have run: "(bnd (call (on_world (be_get en (fl_url fl)))) (\<lambda>response.
        if \<not> is_success (rp_status response) then bail (ErrMsg ''failed to download flist'')
        else check_eff (on_files (copy_response en out (rp_body response))))) (fs1, w) = Some (r, (fs', w'))"
      using assms(3) x False by (simp add: Flist_download_def bnd_def call_def on_files_def split: if_splits)
    have "(fs', w') = (fs1, w1) \<or> (\<exists>(resp :: http_response) e. copy_response en out (rp_body resp) fs1 = (e, fs'))"
      using run g
      by (cases g) (auto simp: bnd_def call_def bail_def check_eff_def on_files_def on_world_def
          split: if_splits prod.splits option.splits)
    then show ?thesis using o c by (metis prod.inject snd_conv)
  qed
qed

lemma mkdirs_kinds:
  assumes "resolve_laws rs"
  shows "snd (mkdirs rs qs fs) p = fs p \<or> snd (mkdirs rs qs fs) p = Some Directory"
proof (induction qs arbitrary: fs)
  case (Cons q qs)
  have "fs q = None \<Longrightarrow> rs fs q = q" using assms(1) by (intro resolve_plain) (simp_all add: no_symlink_def)
  then show ?case using Cons by (auto split: option.splits inode.splits) (metis fun_upd_apply)+
qed simp

lemma root_dirs: "set (dirs_of ''/tmp/bootstrap/root'') = {''/tmp'', ''/tmp/bootstrap'', ''/tmp/bootstrap/root''}"
  by code_simp

lemma lost_download:
  assumes "resolve_laws (be_resolve en)" "program_outside bin" "CHR ''/'' \<notin> set (fl_name fl)"
  shows "keeps_files (program_lost bin n) (Flist_download en fl (in_workdir (fl_name fl)))"
proof (rule keeps_filesI)
  fix fs w r fs' w'
  let ?out = "in_workdir (fl_name fl)"
  assume lost: "program_lost bin n fs" and run: "Flist_download en fl ?out (fs, w) = Some (r, (fs', w'))"
  have below: "is_below workdir_path ?out"
    using assms(3) by (auto simp: in_workdir_def path_push_def is_below_def workdir_path_def prefix_def)
  then have "no_symlink fs ?out" using lost by (simp add: program_lost_def)
  note frame = download_frame [OF assms(1) this run]
  have "bin \<noteq> ?out" "bin @ ''.bak'' \<noteq> ?out" using below assms(2) unfolding program_outside_def by metis+
  moreover have "no_symlink fs' p" if "is_below workdir_path p" for p
    using frame lost that by (cases "p = ?out") (simp_all add: program_lost_def no_symlink_def)
  ultimately show "program_lost bin n fs'" using frame lost by (simp add: program_lost_def)
qed

lemma lost_mkdirs:
  assumes "resolve_laws rs" "program_outside bin" "program_lost bin n fs"
  shows "program_lost bin n (snd (os_MkdirAll io rs ''/tmp/bootstrap/root'' fs))"
proof -
  let ?fs = "snd (mkdirs rs (dirs_of ''/tmp/bootstrap/root'') fs)"
  have "bin \<notin> set (dirs_of ''/tmp/bootstrap/root'')" "bin @ ''.bak'' \<notin> set (dirs_of ''/tmp/bootstrap/root'')"
  proof -
    have "is_below workdir_path ''/tmp/bootstrap''" "is_below workdir_path ''/tmp/bootstrap/root''"
      by (simp_all add: is_below_def workdir_path_def)
    moreover have "bin @ ''.bak'' \<noteq> ''/tmp''"
    proof
      assume "bin @ ''.bak'' = ''/tmp''"
      then have "last (bin @ ''.bak'') = last ''/tmp''" by (rule arg_cong)
      then show False by simp
    qed
    ultimately show "bin \<notin> set (dirs_of ''/tmp/bootstrap/root'')" "bin @ ''.bak'' \<notin> set (dirs_of ''/tmp/bootstrap/root'')"
      using assms(2) unfolding root_dirs program_outside_def by auto
  qed
  then have "?fs bin = fs bin" "?fs (bin @ ''.bak'') = fs (bin @ ''.bak'')"
    using mkdirs_frame [OF assms(1)] by blast+
  moreover have "no_symlink fs p \<Longrightarrow> no_symlink ?fs p" for p
    using mkdirs_kinds [OF assms(1), of "dirs_of ''/tmp/bootstrap/root''" fs p] by (auto simp: no_symlink_def)
  ultimately show ?thesis using assms(3) by (auto simp: os_MkdirAll_def program_lost_def split: option.splits)
qed

lemma lost_mount:
  assumes "resolve_laws (be_resolve en)" "program_outside bin"
  shows "keeps_files (program_lost bin n) (zfs_mount en b m ''root'')"
proof -
  have root: "in_workdir ''root'' = ''/tmp/bootstrap/root''" by (simp add: in_workdir_def path_push_def workdir_path_def)
  have dirs: "keeps_files (program_lost bin n) (check_eff (on_files (os_MkdirAll (be_io en) (be_resolve en) ''/tmp/bootstrap/root'')))"
    by (rule keeps_filesI)
       (auto simp: check_eff_def on_files_def split: prod.splits option.splits dest: lost_mkdirs [OF assms, of n _ "be_io en"])
  let ?wait = "retry_take 10 (wait_mountpoint en ''root'')"
  have "keeps_files J ?wait" for J by (simp add: wait_mountpoint_def)
  note wait = keeps_filesD [OF this]
  have killed: "keeps_files J (\<lambda>s. case ?wait s of
      Some (Err e, s') \<Rightarrow> bnd (check_eff (on_world (be_kill en))) (\<lambda>_. bail (Wrapped e ''failed to mount flist'')) s'
    | r \<Rightarrow> r)" for J
  proof (rule keeps_filesI)
    fix fs w r fs' w'
    assume J: "J fs"
      and run: "(case ?wait (fs, w) of
          Some (Err e, s') \<Rightarrow> bnd (check_eff (on_world (be_kill en))) (\<lambda>_. bail (Wrapped e ''failed to mount flist'')) s'
        | r \<Rightarrow> r) = Some (r, (fs', w'))"
    obtain r1 fs1 w1 where 1: "?wait (fs, w) = Some (r1, (fs1, w1))"
      using run by (cases "?wait (fs, w)") auto
    then have "J fs1" using wait J by blast
    moreover have "keeps_files J (bnd (check_eff (on_world (be_kill en))) (\<lambda>_. bail e))" for e by simp
    note kill = keeps_filesD [OF this]
    ultimately show "J fs'" using run 1 kill by (cases r1) auto
  qed
  show ?thesis unfolding zfs_mount_def root by (intro keeps_files_rules(1) dirs keeps_files_world killed)
qed

lemma mount_never_ok:
  assumes "\<forall>w. fst (be_mountpoint en ''root'' w) \<noteq> Inr True"
  shows "never_ok (zfs_mount en b m ''root'')"
proof -
  have "never_ok (wait_mountpoint en ''root'')"
    unfolding never_ok_def
  proof (intro allI)
    fix s :: "'a bst" and x s'
    show "wait_mountpoint en ''root'' s \<noteq> Some (Ok x, s')"
      using assms [rule_format, of "snd s"]
      by (auto simp: wait_mountpoint_def bnd_def call_def on_world_def give_def bail_def split: prod.splits sum.splits)
  qed
  note wait = never_ok_retry_take [OF this, of 10]
  show ?thesis unfolding zfs_mount_def
    by (intro never_ok_bnd_then)
       (use wait in \<open>auto simp: never_ok_def bnd_def bail_def split: option.splits prod.splits outcome.splits\<close>)
qed

text \<open>Every answer of the hub at a URL that can be decoded has a property.\<close>

definition hub_answers :: "'w boot_env \<Rightarrow> string \<Rightarrow> (byte list \<Rightarrow> 'a res) \<Rightarrow> ('a \<Rightarrow> bool) \<Rightarrow> bool" where
  "hub_answers en url decode P \<longleftrightarrow>
     (\<forall>w resp w' x. be_get en url w = (Inr resp, w') \<longrightarrow> json_of decode resp = Inr x \<longrightarrow> P x)"

lemma hub_answersD:
  "hub_answers en url d P \<Longrightarrow> be_get en url w = (Inr resp, w') \<Longrightarrow> json_of d resp = Inr x \<Longrightarrow> P x"
  unfolding hub_answers_def by blast

text \<open>Where the hub serves the package of the program itself.\<close>

definition program_url :: "string \<Rightarrow> string" where
  "program_url hub = hub @ ''/api/flist/'' @ ''tf-autobuilder'' @ ''/'' @ ''bootstrap-v4:latest.flist'' @ ''/light''"

lemma Repo_get_name:
  assumes "\<forall>hub. hub_answers en (program_url hub) (be_flist_json en) (\<lambda>fl. P (fl_name fl))"
    and "rp_name r = ''tf-autobuilder''" "Repo_get en r ''bootstrap-v4:latest.flist'' s = Some (Ok fl, s')"
  shows "P (fl_name fl)"
proof -
  have "hub_answers en (hub @ ''/api/flist/tf-autobuilder/bootstrap-v4:latest.flist/light'') (be_flist_json en) (\<lambda>fl. P (fl_name fl))" for hub
    using assms(1) by (simp add: program_url_def)
  note answer = hub_answersD [OF this]
  show ?thesis
    using assms(2,3)
    by (auto simp: Repo_get_def bnd_def bail_def give_def call_def on_world_def
        split: option.splits prod.splits outcome.splits sum.splits if_splits dest: answer)
qed

text \<open>
  C32. An update of the bootstrap program whose package cannot be mounted leaves the node without the
  program: it is moved aside before its package is downloaded, and nothing moves it back when the
  installation fails, so that the file is gone and its content is under the name with \<open>.bak\<close>. The run ends
  with an error or a panic, whatever the hub answers and whatever else fails.
\<close>

theorem failed_update_loses_program:
  fixes en :: "'w boot_env"
  assumes self: "be_bin en = Some arg" and bin_def: "bin = in_workdir arg"
    and "resolve_laws (be_resolve en)" "program_outside bin"
    and mount: "\<forall>w. fst (be_mountpoint en ''root'' w) \<noteq> Inr True"
    and name: "\<forall>hub. hub_answers en (program_url hub) (be_flist_json en) (\<lambda>fl. CHR ''/'' \<notin> set (fl_name fl))"
    and old: "fs bin = Some n" "n \<noteq> Directory" "be_io en ''rename'' bin = None" "fs (bin @ ''.bak'') \<noteq> Some Directory"
    and links: "\<forall>p. is_below workdir_path p \<longrightarrow> no_symlink fs p"
    and config: "Repo_new en ''tf-autobuilder'' (fs, w) = Some (Ok rp, s1)"
    and run: "update_bootstrap en (fs, w) = Some (r, (fs', w'))"
  shows "(\<forall>u. r \<noteq> Ok u) \<and> fs' bin = None \<and> fs' (bin @ ''.bak'') = Some n"
proof -
  let ?get = "retry_forever (context_msg ''failed to get info'' (Repo_get en rp ''bootstrap-v4:latest.flist''))"
  obtain w1 where s1: "s1 = (fs, w1)"
    using keeps_filesD [OF Repo_new_files [of "\<lambda>f. f = fs"]] config by (metis prod.collapse)
  obtain g s2 where g: "?get (fs, w1) = Some (g, s2)"
    using run config s1 by (cases "?get (fs, w1)") (auto simp: update_bootstrap_def bnd_def)
  obtain w2 where s2: "s2 = (fs, w2)"
    using keeps_filesD [of "\<lambda>f. f = fs" ?get] g by (metis keeps_files_rules(2,4) Repo_get_files prod.collapse)
  have hub: "rp_hub rp \<noteq> []" and nm: "rp_name rp = ''tf-autobuilder''"
    using soundD(1) [OF Repo_new_hub config] by simp_all
  have "g \<noteq> Panic"
    using soundD(2) [OF sound_retry_forever [OF sound_context [OF Repo_get_sound [OF hub]]]] g by blast
  moreover obtain u where u: "context_msg ''failed to get info'' (Repo_get en rp ''bootstrap-v4:latest.flist'') u = Some (g, s2)"
      "\<forall>e. g \<noteq> Err e"
    using retry_forever_induct [OF g, where I = "\<lambda>_. True"] by blast
  ultimately obtain fl where fl: "g = Ok fl" by (cases g) auto
  have slash: "CHR ''/'' \<notin> set (fl_name fl)"
    using u(1) fl Repo_get_name [where P = "\<lambda>n. CHR ''/'' \<notin> set n", OF name nm]
    by (auto simp: context_msg_def split: option.splits prod.splits outcome.splits)
  let ?fs = "(fs(bin := None))(bin @ ''.bak'' \<mapsto> n)"
  have "os_Rename (be_io en) bin (bin @ ''.bak'') fs = (None, ?fs)" using old by (simp add: os_Rename_def)
  then have inst: "install_package en fl (?fs, w2) = Some (r, (fs', w'))"
    using run config s1 g s2 fl by (simp add: update_bootstrap_def bnd_def check_eff_def on_files_def bin_def self)
  have "program_lost bin n ?fs"
    using links assms(4) by (auto simp: program_lost_def program_outside_def no_symlink_def)
  moreover have "never_ok (install_package en fl)"
    unfolding install_package_def
    by (intro never_ok_bnd_then never_ok_bnd never_ok_retry_take never_ok_context mount_never_ok [OF mount])
  moreover have "keeps_files (program_lost bin n) (install_package en fl)"
    unfolding install_package_def
    by (intro keeps_files_rules lost_download [OF assms(3,4) slash] keeps_files_bnd_never
        never_ok_retry_take never_ok_context mount_never_ok [OF mount] lost_mount [OF assms(3,4)])
  ultimately show ?thesis using inst keeps_filesD never_okD
    by (metis program_lost_def)
qed

section \<open>The whole program does not panic\<close>

text \<open>
  The answers the assertions ask for: a tag link names a repository and a tag, the packages of a tag and the
  package of the program itself are flists or links to one.
\<close>

definition installable :: "flist \<Rightarrow> bool" where
  "installable fl \<longleftrightarrow> fl_kind fl = KRegular \<or> fl_kind fl = KSymlink"

definition tag_link_ok :: "flist \<Rightarrow> bool" where
  "tag_link_ok fl \<longleftrightarrow> (fl_kind fl = KTagLink \<longrightarrow> Flist_tag_link fl \<noteq> Panic)"

definition hub_well_formed :: "'w boot_env \<Rightarrow> bool" where
  "hub_well_formed en \<longleftrightarrow>
     (\<forall>hub. hub_answers en (hub @ ''/api/flist/'' @ ''tf-zos'') (be_flists_json en) (list_all tag_link_ok))
   \<and> (\<forall>hub. hub_answers en (program_url hub) (be_flist_json en) installable)
   \<and> (\<forall>hub nm tag. hub_answers en (hub @ ''/api/flist/'' @ nm @ ''/tags/'' @ tag) (be_flists_json en) (list_all installable))"

lemma hub_well_formedD:
  assumes "hub_well_formed en"
  shows "hub_answers en (hub @ ''/api/flist/'' @ ''tf-zos'') (be_flists_json en) (list_all tag_link_ok)"
    and "hub_answers en (program_url hub) (be_flist_json en) installable"
    and "hub_answers en (hub @ ''/api/flist/'' @ nm @ ''/tags/'' @ tag) (be_flists_json en) (list_all installable)"
  using assms unfolding hub_well_formed_def by blast+

text \<open>What a walk over a mounted flist finds has names; the process has a first argument and one logger.\<close>

definition process_ok :: "'w boot_env \<Rightarrow> bool" where
  "process_ok en \<longleftrightarrow> be_bin en \<noteq> None \<and> (\<forall>w. fst (be_logger en w) = None)"

definition walk_named :: "'w boot_env \<Rightarrow> bool" where
  "walk_named en \<longleftrightarrow>
     (\<forall>w es w'. be_walk en ''root'' w = (es, w') \<longrightarrow>
        list_all (\<lambda>e. we_type e = WFile \<longrightarrow> file_name (path_push ''/'' (we_rel e)) \<noteq> None) (good_entries es))"

lemma sound_answer:
  "hub_answers en url d P \<Longrightarrow>
   sound (call (on_world (be_get en url))) (\<lambda>resp. \<forall>x. json_of d resp = Inr x \<longrightarrow> P x)"
  unfolding hub_answers_def by (rule sound_call) (auto simp: on_world_def split: prod.splits)

lemma sound_map_each: "(\<And>x. x \<in> set xs \<Longrightarrow> sound (f x) P) \<Longrightarrow> sound (map_each f xs) (list_all P)"
proof (induction xs)
  case (Cons x xs)
  have "sound (map_each f xs) (list_all P)" by (rule Cons.IH) (use Cons.prems in simp)
  then have rest: "sound (bnd (map_each f xs) (\<lambda>ys. give (y # ys))) (list_all P)" if "P y" for y
    by (rule sound_bnd) (use that in simp)
  have "sound (f x) P" using Cons.prems by simp
  from sound_bnd [OF this rest] show ?case by simp
qed simp

lemma with_hub:
  assumes "rp_hub r \<noteq> []" "\<And>hub. V (g hub)"
  shows "sound (bnd (get_working_hub en r) (\<lambda>hub. give (g hub))) V"
  by (rule sound_bnd_true) (simp_all add: assms)

lemma Repo_get_installable:
  assumes "hub_well_formed en" "rp_hub r \<noteq> []" "rp_name r = ''tf-autobuilder''"
  shows "sound (Repo_get en r ''bootstrap-v4:latest.flist'') installable"
proof -
  have rest: "sound (case json_of (be_flist_json en) resp of Inl e \<Rightarrow> bail e
      | Inr info \<Rightarrow> bnd (get_working_hub en r) (\<lambda>hub. give (info\<lparr>fl_url := f hub\<rparr>))) installable"
    if "\<forall>fl. json_of (be_flist_json en) resp = Inr fl \<longrightarrow> installable fl" for resp f
    using that by (auto intro!: with_hub [OF assms(2)] simp: installable_def split: sum.splits)
  show ?thesis unfolding Repo_get_def assms(3)
    by (rule sound_bnd_true [OF get_working_hub_sound [OF assms(2)]],
        rule sound_bnd [OF sound_answer [OF hub_well_formedD(2) [OF assms(1), unfolded program_url_def]]],
        rule sound_if, rule sound_simps(2), rule rest)
qed

lemma Repo_list_links:
  assumes "hub_well_formed en" "rp_hub r \<noteq> []" "rp_name r = ''tf-zos''"
  shows "sound (Repo_list en r) (list_all tag_link_ok)"
proof -
  have rest: "sound (case json_of (be_flists_json en) resp of Inl e \<Rightarrow> bail e
      | Inr info \<Rightarrow> map_each (\<lambda>fl. bnd (get_working_hub en r) (\<lambda>hub. give (fl\<lparr>fl_url := f fl hub\<rparr>))) info)
      (list_all tag_link_ok)"
    if links: "\<forall>fls. json_of (be_flists_json en) resp = Inr fls \<longrightarrow> list_all tag_link_ok fls" for resp f
  proof (cases "json_of (be_flists_json en) resp")
    case (Inr info)
    then have info: "list_all tag_link_ok info" using links by blast
    have "sound (map_each (\<lambda>fl. bnd (get_working_hub en r) (\<lambda>hub. give (fl\<lparr>fl_url := f fl hub\<rparr>))) info)
        (list_all tag_link_ok)"
    proof (rule sound_map_each)
      fix fl assume "fl \<in> set info"
      then have "tag_link_ok fl" using info by (simp add: list_all_iff)
      then show "sound (bnd (get_working_hub en r) (\<lambda>hub. give (fl\<lparr>fl_url := f fl hub\<rparr>))) tag_link_ok"
        by (intro with_hub [OF assms(2)]) (simp add: tag_link_ok_def Flist_tag_link_def)
    qed
    then show ?thesis using Inr by simp
  qed simp
  show ?thesis unfolding Repo_list_def assms(3)
    by (rule sound_bnd_true [OF get_working_hub_sound [OF assms(2)]],
        rule sound_bnd [OF sound_answer [OF hub_well_formedD(1) [OF assms(1)]]],
        rule sound_if, rule sound_simps(2), rule rest)
qed

lemma Repo_list_tag_installable:
  assumes "hub_well_formed en" "rp_hub r \<noteq> []"
  shows "sound (Repo_list_tag en r tag) (\<lambda>ps. \<forall>fls. ps = Some fls \<longrightarrow> list_all installable fls)"
proof -
  have url: "sound (tag_url en r fl) installable" if fl: "installable fl" for fl
  proof (cases "fl_kind fl = KRegular \<or> fl_target fl = None")
    case True
    then show ?thesis using fl by (auto simp: tag_url_def)
  next
    case False
    then obtain t where "fl_target fl = Some t" by auto
    then show ?thesis using False fl
      by (auto intro!: with_hub [OF assms(2)] simp: tag_url_def installable_def)
  qed
  let ?V = "\<lambda>resp. \<forall>fls. json_of (be_flists_json en) resp = Inr fls \<longrightarrow> list_all installable fls"
  have resp: "sound (call (on_world (be_get en (hub @ ''/api/flist/'' @ rp_name r @ ''/tags/'' @ tag)))) ?V" for hub
    by (rule sound_answer [OF hub_well_formedD(3) [OF assms(1)]])
  have decoded: "sound (bnd (map_each (tag_url en r) info) (\<lambda>fls. give (Some fls)))
      (\<lambda>ps. \<forall>fls. ps = Some fls \<longrightarrow> list_all installable fls)" if "list_all installable info" for info
    by (rule sound_bnd [OF sound_map_each [where P = installable]]) (use that url in \<open>auto simp: list_all_iff\<close>)
  show ?thesis unfolding Repo_list_tag_def
    by (rule sound_bnd_true, simp add: assms(2), rule sound_bnd [OF resp])
       (auto intro: decoded split: sum.splits)
qed

lemma download_sound: "installable fl \<Longrightarrow> sound (Flist_download en fl out) (\<lambda>_. True)"
  by (auto simp: Flist_download_def installable_def)

lemma zfs_mount_sound: "sound (zfs_mount en b m t) (\<lambda>_. True)"
proof -
  have wait: "sound (retry_take 10 (wait_mountpoint en t)) (\<lambda>_. True)"
    by (rule sound_retry_take) (simp add: wait_mountpoint_def)
  have kill: "sound (bnd (check_eff (on_world (be_kill en))) (\<lambda>_. bail e)) (\<lambda>_ :: unit. True)" for e by simp
  have "sound (\<lambda>s. case retry_take 10 (wait_mountpoint en t) s of
      Some (Err e, s') \<Rightarrow> bnd (check_eff (on_world (be_kill en))) (\<lambda>_. bail (Wrapped e ''failed to mount flist'')) s'
    | r \<Rightarrow> r) (\<lambda>_. True)"
    by (rule soundI) (use soundD(2) [OF wait] soundD(2) [OF kill] in \<open>auto split: option.splits prod.splits outcome.splits\<close>)
  then show ?thesis unfolding zfs_mount_def by (intro sound_bnd_true sound_simps)
qed

lemma zfs_copy_sound:
  assumes "walk_named en"
  shows "sound (zfs_copy en ''root'' ''/'') (\<lambda>_. True)"
proof -
  let ?named = "\<lambda>e. we_type e = WFile \<longrightarrow> file_name (path_push ''/'' (we_rel e)) \<noteq> None"
  have entry: "sound (zfs_copy_entry en ''root'' ''/'' (Inr e)) (\<lambda>_. True)" if "?named e" for e
    using that
    by (cases "we_type e")
       (auto simp: zfs_copy_entry_def install_file_def install_link_def copy_content_def Let_def
         intro!: sound_bnd_true sound_context)
  have "sound (run_eff (on_world (be_walk en ''root''))) (\<lambda>es. list_all ?named (good_entries es))"
    by (rule sound_run_eff) (use assms in \<open>auto simp: walk_named_def on_world_def split: prod.splits\<close>)
  then show ?thesis unfolding zfs_copy_def
  proof (rule sound_bnd)
    fix es assume named: "list_all ?named (good_entries es)"
    show "sound (for_each (zfs_copy_entry en ''root'' ''/'') es) (\<lambda>_. True)"
    proof (rule sound_for_each)
      fix x assume x: "x \<in> set es"
      show "sound (zfs_copy_entry en ''root'' ''/'' x) (\<lambda>_. True)"
      proof (cases x)
        case (Inr e)
        then have "e \<in> set (good_entries es)" using x by (force simp: good_entries_def)
        then show ?thesis using named entry Inr by (simp add: list_all_iff)
      qed (simp add: zfs_copy_entry_def)
    qed
  qed
qed

lemma run_all_sound: "sound (run_all en root) (\<lambda>_. True)"
proof -
  have "sound (run_service en x) (\<lambda>_. True)" for x
    by (simp add: run_service_def split: sum.splits option.splits)
  then have "sound (for_each (run_service en) es) (\<lambda>_. True)" for es by (intro sound_for_each)
  then show ?thesis by (simp add: run_all_def split: sum.splits)
qed

lemma install_package_sound:
  assumes "walk_named en" "installable fl"
  shows "sound (install_package en fl) (\<lambda>_. True)"
  unfolding install_package_def
  by (intro sound_bnd_true sound_retry_forever sound_retry_take sound_context sound_dropping
      download_sound [OF assms(2)] zfs_mount_sound zfs_copy_sound [OF assms(1)] run_all_sound)

lemma install_packages_sound:
  "walk_named en \<Longrightarrow> list_all installable fls \<Longrightarrow> sound (install_packages en fls) (\<lambda>_. True)"
  unfolding install_packages_def by (rule sound_for_each) (simp add: list_all_iff install_package_sound)

lemma WorkDir_run_sound: "sound f (\<lambda>_. True) \<Longrightarrow> sound (WorkDir_run en d f) (\<lambda>_. True)"
  unfolding WorkDir_run_def by (intro sound_bnd_true sound_dropping sound_simps)

lemma boot_update_sound:
  assumes "hub_well_formed en" "walk_named en" "process_ok en"
  shows "sound (boot_update en) (\<lambda>_. True)"
proof -
  obtain bin where bin: "be_bin en = Some bin" using assms(3) by (auto simp: process_ok_def)
  have "sound (update_bootstrap en) (\<lambda>_. True)" unfolding update_bootstrap_def bin option.case
  proof (rule sound_bnd [OF Repo_new_hub])
    fix r :: repo assume r: "rp_hub r \<noteq> [] \<and> rp_name r = ''tf-autobuilder''"
    let ?get = "retry_forever (context_msg ''failed to get info'' (Repo_get en r ''bootstrap-v4:latest.flist''))"
    have "sound ?get installable"
      using r by (intro sound_retry_forever sound_context Repo_get_installable [OF assms(1)]) simp_all
    then show "sound (bnd ?get (\<lambda>fl. bnd (check_eff (on_files (os_Rename (be_io en) (in_workdir bin)
        (in_workdir bin @ ''.bak'')))) (\<lambda>_. install_package en fl))) (\<lambda>_. True)"
      by (rule sound_bnd) (intro sound_bnd_true sound_simps install_package_sound [OF assms(2)])
  qed
  then show ?thesis unfolding boot_update_def by (rule WorkDir_run_sound)
qed

lemma install_tag_sound:
  assumes "hub_well_formed en" "walk_named en" "fl_kind tag = KTagLink" "tag_link_ok tag"
  shows "sound (install_tag en tag) (\<lambda>_. True)"
proof -
  have w: "sound (Flist_write en tag p) (\<lambda>_. True)" for p
    by (simp add: Flist_write_def split: sum.splits)
  have rest: "sound (bnd (Repo_new en nm) (\<lambda>client. bnd (Repo_list_tag en client t) (\<lambda>packages.
        case packages of None \<Rightarrow> bail (ErrMsg ''tag is not found'') | Some ps \<Rightarrow> install_packages en ps))) (\<lambda>_. True)" for nm t
    by (rule sound_bnd [OF Repo_new_hub], rule sound_bnd [OF Repo_list_tag_installable [OF assms(1)]], erule conjunct1)
       (auto intro: install_packages_sound [OF assms(2)] split: option.splits)
  have "Flist_tag_link tag \<noteq> Panic" using assms by (simp add: tag_link_ok_def)
  then show ?thesis unfolding install_tag_def using rest
    by (intro sound_bnd_true w) (auto split: outcome.splits)
qed

lemma boot_install_sound:
  assumes "hub_well_formed en" "walk_named en"
  shows "sound (boot_install en cfg) (\<lambda>_. True)"
  unfolding boot_install_def
proof (rule sound_bnd [OF Repo_new_hub], elim conjE, rule sound_bnd [OF Repo_list_links [OF assms(1)]], assumption, assumption)
  fix lists :: "flist list" assume ok: "list_all tag_link_ok lists"
  let ?tag = "find (\<lambda>l. fl_kind l = KTagLink \<and> fl_name l = tag_name cfg) lists"
  show "sound (WorkDir_run en workdir_path (case ?tag of
      None \<Rightarrow> bail (ErrMsg ''no tag found attached to this version'') | Some tag \<Rightarrow> install_tag en tag)) (\<lambda>_. True)"
  proof (rule WorkDir_run_sound, cases ?tag)
    case (Some tag)
    then have "fl_kind tag = KTagLink" "tag_link_ok tag" using ok by (auto simp: find_Some_iff list_all_length)
    then show "sound (case ?tag of None \<Rightarrow> bail (ErrMsg ''no tag found attached to this version'')
        | Some tag \<Rightarrow> install_tag en tag) (\<lambda>_. True)"
      using Some install_tag_sound [OF assms] by simp
  qed simp
qed

text \<open>
  C34. The bootstrap program never panics, in any stage, however the hub, the network, the file system, the
  mounted flist and the init system fail: it replaces itself, ends with code 0, or reports an error with
  code 1. What it relies on is what its assertions and its indexing ask for: the tag links that the hub lists
  in \<open>tf-zos\<close> name a repository and a tag, the hub's packages (the program's own and those of a tag) are
  flists or links to one, the files of a mounted flist have names, the process was started with a name as
  its first argument, and no logger was set before.
\<close>

theorem boot_never_panics:
  assumes "hub_well_formed en" "walk_named en" "process_ok en" "boot_main en s = Some (ended, s')"
  shows "ended \<in> {Inl 0, Inl 1} \<union> range Inr"
proof -
  obtain bin where bin: "be_bin en = Some bin" using assms(3) by (auto simp: process_ok_def)
  have stage: "sound ((boot_stages en ! i) cfg) (\<lambda>_. True)" if "i < length (boot_stages en)" for i cfg
    using that boot_update_sound [OF assms(1-3)] boot_install_sound [OF assms(1,2)]
    by (auto simp: boot_stages_def nth_Cons split: nat.splits)
  have exec: "sound (exec_stage en args) (\<lambda>_. True)" for args
    by (rule soundI) (auto simp: exec_stage_def split: prod.splits option.splits)
  have logger: "sound (logger_init en) (\<lambda>_. True)" unfolding logger_init_def
    by (rule sound_bnd [OF sound_run_eff [where V = "\<lambda>e. e = None"]])
       (use assms(3) in \<open>auto simp: process_ok_def on_world_def split: prod.splits\<close>, metis fst_conv)
  have "sound (boot_app en) (\<lambda>_. True)" unfolding boot_app_def Let_def bin option.case
    by (rule sound_bnd_true [OF Config_current_sound], rule sound_bnd_true [OF logger], rule sound_if, rule sound_simps(2),
        rule sound_bnd_true, rule stage, simp, rule sound_if, rule exec, simp)
  from soundD(2) [OF this] show ?thesis using assms(4)
    by (auto simp: boot_main_def split: option.splits prod.splits outcome.splits boot_end.splits)
qed

text \<open>Without a first argument, or with a logger already set, the program does panic.\<close>

lemma boot_panics:
  "be_bin en = None \<Longrightarrow> Config_current en s = Some (Ok cfg, s1) \<Longrightarrow> cf_stage cfg = 1 \<Longrightarrow> cf_debug cfg \<Longrightarrow>
     be_logger en (snd s1) = (None, w) \<Longrightarrow> boot_main en s = Some (Inl 101, (fst s1, w))"
  "Config_current en s = Some (Ok cfg, s1) \<Longrightarrow> be_logger en (snd s1) = (Some e, w) \<Longrightarrow>
     boot_main en s = Some (Inl 101, (fst s1, w))"
  by (simp_all add: boot_main_def boot_app_def logger_init_def bnd_def run_eff_def on_world_def boot_stages_def
      give_def panic_def Let_def)

section \<open>Returning\<close>

text \<open>Only the two retries without end can keep the program from returning.\<close>

lemma Config_current_returns [simp]: "returns (Config_current en)"
proof -
  have "returns (kparams_params en)" by (simp add: kparams_params_def split: sum.splits)
  then have "returns (boot_version_of en)" "returns (boot_runmode en)"
    by (simp_all add: boot_version_of_def boot_runmode_def split: option.splits)
  then show ?thesis by (simp add: Config_current_def split: option.splits)
qed

lemma Repo_new_returns [simp]: "returns (Repo_new en nm)"
proof -
  have "returns (retry_take 5 (get_config en (config_url m)))" for m by (simp add: get_config_def)
  then have "returns (get_hub_url en m)" for m
    unfolding returns_def get_hub_url_def by (auto split: option.splits prod.splits outcome.splits sum.splits)
  then show ?thesis by (simp add: Repo_new_def)
qed

lemma zfs_mount_returns: "returns (zfs_mount en b m t)"
proof -
  have wait: "returns (retry_take 10 (wait_mountpoint en t))" by (simp add: wait_mountpoint_def)
  have kill: "returns (bnd (check_eff (on_world (be_kill en))) (\<lambda>_. bail e :: ('a bst, unit) action))" for e by simp
  have "returns (\<lambda>s. case retry_take 10 (wait_mountpoint en t) s of
      Some (Err e, s') \<Rightarrow> bnd (check_eff (on_world (be_kill en))) (\<lambda>_. bail (Wrapped e ''failed to mount flist'')) s'
    | r \<Rightarrow> r)"
    unfolding returns_def
  proof
    fix s
    obtain r s1 where "retry_take 10 (wait_mountpoint en t) s = Some (r, s1)"
      using wait unfolding returns_def by (metis not_None_eq prod.collapse)
    then show "(case retry_take 10 (wait_mountpoint en t) s of
      Some (Err e, s') \<Rightarrow> bnd (check_eff (on_world (be_kill en))) (\<lambda>_. bail (Wrapped e ''failed to mount flist'')) s'
    | r \<Rightarrow> r) \<noteq> None"
      using kill unfolding returns_def by (cases r) (simp_all del: split_paired_All not_None_eq)
  qed
  then show ?thesis by (simp add: zfs_mount_def)
qed

lemma zfs_copy_returns: "returns (zfs_copy en root target)"
proof -
  have "returns (zfs_copy_entry en root target x)" for x
    by (cases x) (simp_all add: zfs_copy_entry_def install_file_def install_link_def copy_content_def Let_def split: walk_type.splits)
  then show ?thesis by (simp add: zfs_copy_def)
qed

lemma run_all_returns: "returns (run_all en root)"
proof -
  have "returns (run_service en x)" for x by (simp add: run_service_def split: sum.splits option.splits)
  then show ?thesis by (simp add: run_all_def split: sum.splits)
qed

lemma install_package_returns:
  assumes "retry_forever (context_msg ''failed to download flist'' (Flist_download en fl (in_workdir (fl_name fl)))) s \<noteq> None"
  shows "install_package en fl s \<noteq> None"
proof -
  have "returns (bnd (retry_take 10 (context_msg ''failed to mount flist'' (zfs_mount en ''backend'' (fl_name fl) ''root''))) (\<lambda>_.
       dropping (zfs_drop en ''root'')
         (bnd (context_msg ''failed to copy files'' (zfs_copy en ''root'' ''/'')) (\<lambda>_. run_all en ''root''))))"
    by (intro returns_rules returns_retry_take zfs_mount_returns zfs_copy_returns run_all_returns)
  then show ?thesis using assms unfolding install_package_def bnd_def [of "retry_forever _"]
    by (auto simp: returns_def split: option.splits prod.splits outcome.splits)
qed

section \<open>Parameters, stages and the working directory\<close>

text \<open>The last parameter with a name decides.\<close>

lemma kparams_last_wins:
  assumes "CHR ''='' \<notin> set k" "\<forall>a \<in> set later. hd (splitn2 (CHR ''='') a) \<noteq> k"
  shows "fold insert_param (earlier @ (k @ ''='' @ v) # later) m k = Some (Some v)"
proof -
  have keep: "fold insert_param later m' k = m' k" for m'
    using assms(2)
  proof (induction later arbitrary: m')
    case (Cons a later)
    have "splitn2 (CHR ''='') a ! 0 = hd (splitn2 (CHR ''='') a)"
      by (simp add: splitn2_def Let_def)
    then have "insert_param a m' k = m' k" using Cons.prems by (auto simp: insert_param_def Let_def)
    then show ?case using Cons by simp
  qed simp
  have "insert_param (k @ ''='' @ v) m' k = Some (Some v)" for m'
    using splitn2_first(1) [OF assms(1), of v] by (simp add: insert_param_def Let_def)
  then show ?thesis using keep by simp
qed

text \<open>Only the first stage is followed by another, which is the second with the same debug flag.\<close>

lemma boot_two_stages:
  assumes "boot_app en s = Some (Ok (Replaced args), s')"
  shows "parse_u32 (ba_stage (be_args en)) = Some 1
       \<and> (\<exists>bin. be_bin en = Some bin \<and> args = [bin, ''-s'', ''2''] @ (if ba_debug (be_args en) then [''-d''] else []))"
proof -
  have fin: "give Finished s1 \<noteq> Some (Ok (Replaced args), s2)" for s1 s2 by (simp add: give_def)
  obtain cfg s1 where c: "Config_current en s = Some (Ok cfg, s1)"
    using assms by (auto simp: boot_app_def bnd_def split: option.splits prod.splits outcome.splits)
  have cfg: "parse_u32 (ba_stage (be_args en)) = Some (cf_stage cfg) \<and> cf_debug cfg = ba_debug (be_args en) \<and> cf_stage cfg \<noteq> 0"
    using c by (auto simp: Config_current_def bnd_def bail_def give_def
        split: option.splits prod.splits outcome.splits if_splits)
  have two: "length (boot_stages en) = 2" by (simp add: boot_stages_def)
  have "unat (cf_stage cfg) \<noteq> 0" using cfg by (simp add: unat_eq_0)
  moreover obtain bin where "unat (cf_stage cfg) + 1 \<le> 2" and bin: "be_bin en = Some bin"
      and args: "args = [bin, ''-s'', show_nat (unat (cf_stage cfg) + 1)] @ (if cf_debug cfg then [''-d''] else [])"
    using assms c two
    by (auto simp: boot_app_def bnd_def Let_def bail_def give_def panic_def exec_stage_def
        split: option.splits prod.splits outcome.splits if_splits)
  ultimately have one: "unat (cf_stage cfg) = 1" by simp
  then have "cf_stage cfg = 1" by (metis unat_1 word_unat_eq_iff)
  then show ?thesis using args bin one cfg by (simp add: show_nat.simps dec_digit_def)
qed

text \<open>The working directory is gone after the work, however it ends.\<close>

lemma WorkDir_run_cleans:
  fixes en :: "'w boot_env" and f :: "('w bst, 'b) action"
  assumes "WorkDir_run en d f (fs, w) = Some (r, (fs', w'))" "be_current_dir en w = (Inr old, w1)"
    and "is_below d p" "be_io en ''remove'' p = None"
  shows "fs' p = None"
proof -
  have dropped: "dropping (workdir_drop en d old) m s = Some (x, (fs', w')) \<Longrightarrow> \<exists>s1. (fs', w') = workdir_drop en d old s1"
    for m :: "('w bst, 'b) action" and s x
    by (auto simp: dropping_def) metis
  have "\<exists>m. dropping (workdir_drop en d old) (m :: ('w bst, 'b) action) (fs, w1) = Some (r, (fs', w'))"
    using assms(1,2) by (auto simp: WorkDir_run_def bnd_def [of "call _"] call_def on_world_def split: option.splits)
  then obtain s1 where "(fs', w') = workdir_drop en d old s1" using dropped by blast
  then show ?thesis using assms(3,4)
    by (auto simp: workdir_drop_def remove_dir_all_def split: prod.splits)
qed

text \<open>
  Two effects that the code does not mean: the name of a service ends at the last \<open>.yaml\<close> wherever that is
  in the name, and an absolute link is not taken below the target directory, because pushing an absolute
  path replaces the path.
\<close>

lemma service_names:
  "boot_service \<lparr>de_name = Some ''redis.yaml'', de_file = True\<rparr> = Some ''redis''"
  "boot_service \<lparr>de_name = Some ''redis.yaml.partial'', de_file = True\<rparr> = Some ''redis''"
  by code_simp+

lemma link_target_absolute: "prefix ''/'' orig \<Longrightarrow> link_target target orig = orig"
  by (simp add: link_target_def path_push_def)

end
