(* ===== verification/Boot_Applications.thy ===== *)
theory Boot_Applications
  imports Bootstrap
begin

text \<open>
  The theorems about the bootstrap program applied to a concrete hub, network and file system. The first
  transfer of a file breaks off after one byte.
\<close>

definition boot_flist :: flist where
  "boot_flist = \<lparr>fl_kind = KRegular, fl_updated = 0, fl_md5 = [], fl_name = ''b.flist'', fl_target = None, fl_url = ''u''\<rparr>"

definition c_boot :: "nat boot_env" where
  "c_boot =
     \<lparr>be_args = \<lparr>ba_stage = ''1'', ba_debug = False\<rparr>, be_bin = Some ''/sbin/bootstrap'', be_logger = (\<lambda>w. (None, w)),
      be_cmdline = (\<lambda>w. (Inr [], w)), be_shlex = (\<lambda>t. Some []),
      be_get = (\<lambda>url w. if prefix ''https://github'' url then (Inl (ErrMsg ''no route''), w)
                        else (Inr \<lparr>rp_status = 200,
                                   rp_body = (if w = 0 then ([1], Some (ErrMsg ''reset'')) else ([1, 2, 3], None))\<rparr>, w + 1)),
      be_config_json = (\<lambda>_. Inl (ErrMsg ''json'')), be_flists_json = (\<lambda>_. Inr []), be_flist_json = (\<lambda>_. Inr boot_flist),
      be_to_json = (\<lambda>_. Inr []), be_io = (\<lambda>_ _. None), be_resolve = (\<lambda>_ p. p), be_write = (\<lambda>_ bs. (bs, None)),
      be_current_dir = (\<lambda>w. (Inr ''/'', w)), be_set_current_dir = (\<lambda>_ w. (None, w)), be_mount_tmpfs = (\<lambda>_ w. (None, w)),
      be_umount = (\<lambda>_ w. (None, w)), be_g8ufs = (\<lambda>_ _ _ w. (None, w)), be_kill = (\<lambda>w. (None, w)), be_wait = (\<lambda>w. (None, w)),
      be_mountpoint = (\<lambda>_ w. (Inr False, w)),
      be_walk = (\<lambda>_ w. ([Inr \<lparr>we_rel = ''sbin'', we_type = WDir\<rparr>, Inr \<lparr>we_rel = ''sbin/bootstrap'', we_type = WFile\<rparr>], w)),
      be_read = (\<lambda>_ w. (Inr ([7], None), w)), be_read_link = (\<lambda>_ w. (Inr [], w)), be_read_dir = (\<lambda>_ w. (Inr [], w)),
      be_monitor = (\<lambda>_ w. (None, w)), be_exec = (\<lambda>_ w. (None, w))\<rparr>"

definition boot_files :: fsys where
  "boot_files = [''/sbin'' \<mapsto> Directory, ''/sbin/bootstrap'' \<mapsto> Regular [0], ''/tmp'' \<mapsto> Directory, ''/tmp/bootstrap'' \<mapsto> Directory]"

lemma c_boot_laws:
  "resolve_laws (be_resolve c_boot)" "write_laws c_boot" "content_laws c_boot root (\<lambda>_. [7])"
  "serves c_boot url [1, 2, 3]" "hub_well_formed c_boot" "walk_named c_boot" "process_ok c_boot"
proof -
  show "resolve_laws (be_resolve c_boot)" "write_laws c_boot" "content_laws c_boot root (\<lambda>_. [7])"
    by (auto simp: resolve_laws_def write_laws_def content_laws_def c_boot_def intro: take_all [symmetric])
  show "serves c_boot url [1, 2, 3]"
    unfolding serves_def
  proof (intro allI impI)
    fix w resp w' assume "be_get c_boot url w = (Inr resp, w')"
    then have "rp_body resp = ([1], Some (ErrMsg ''reset'')) \<or> rp_body resp = ([1, 2, 3], None)"
      by (auto simp: c_boot_def split: if_splits)
    moreover have "[1] = take 1 [1, 2, 3 :: byte]" "[1, 2, 3] = take 3 [1, 2, 3 :: byte]" by simp_all
    ultimately show "(\<exists>k. fst (rp_body resp) = take k [1, 2, 3]) \<and> (snd (rp_body resp) = None \<longrightarrow> fst (rp_body resp) = [1, 2, 3])"
      by (metis fst_conv snd_conv option.distinct(1))
  qed
  have "file_name (path_push ''/'' ''sbin/bootstrap'') \<noteq> None" by code_simp
  then show "walk_named c_boot" by (simp add: walk_named_def c_boot_def)
  show "hub_well_formed c_boot"
    by (auto simp: hub_well_formed_def hub_answers_def c_boot_def boot_flist_def installable_def json_of_def
        split: if_splits option.splits)
  show "process_ok c_boot" by (simp add: process_ok_def c_boot_def)
qed

theorem zfs_copy_atomic_witness:
  "\<exists>r fs' w'. zfs_copy c_boot ''root'' ''/'' (boot_files, 0) = Some (r, (fs', w')) \<and>
     (fs' ''/sbin/bootstrap'' = Some (Regular [0]) \<or> fs' ''/sbin/bootstrap'' = Some (Regular [7])) \<and>
     (r = Ok () \<longrightarrow> fs' ''/sbin/bootstrap'' = Some (Regular [7]))"
proof -
  let ?es = "[Inr \<lparr>we_rel = ''sbin'', we_type = WDir\<rparr>, Inr \<lparr>we_rel = ''sbin/bootstrap'', we_type = WFile\<rparr>] :: walk_entry res list"
  have walk: "be_walk c_boot ''root'' 0 = (?es, 0)" by (simp add: c_boot_def)
  have dst: "path_push ''/'' ''sbin/bootstrap'' = ''/sbin/bootstrap''" "path_push ''/'' ''sbin'' = ''/sbin''"
    by (simp_all add: path_push_def)
  have sep: "separate ''/'' (good_entries ?es)"
  proof -
    have "set (dirs_of ''/sbin'') = {''/sbin''}" by code_simp
    then show ?thesis by (simp add: entry_writes_def dst partial_path_def)
  qed
  have free: "partials_free ''/'' (good_entries ?es) boot_files"
    by (simp add: partials_free_def no_symlink_def boot_files_def dst partial_path_def)
  obtain r fs' w' where run: "zfs_copy c_boot ''root'' ''/'' (boot_files, 0) = Some (r, (fs', w'))"
  proof -
    have "zfs_copy c_boot ''root'' ''/'' (boot_files, 0) \<noteq> None" by code_simp
    then show ?thesis using that by (metis not_None_eq prod.collapse)
  qed
  from zfs_copy_atomic [OF c_boot_laws(1-3) walk sep free run] run show ?thesis
    by (auto simp: dst boot_files_def)
qed

theorem download_exact_witness:
  "\<exists>fs' w'. retry_forever (context_msg [] (Flist_download c_boot boot_flist ''/tmp/bootstrap/b.flist'')) (boot_files, 0)
       = Some (Ok (), (fs', w')) \<and> fs' ''/tmp/bootstrap/b.flist'' = Some (Regular [1, 2, 3])"
proof -
  let ?m = "context_msg [] (Flist_download c_boot boot_flist ''/tmp/bootstrap/b.flist'')"
  have "retry_forever ?m (boot_files, 0) \<noteq> None" by code_simp
  then obtain r fs' w' where run: "retry_forever ?m (boot_files, 0) = Some (r, (fs', w'))"
    by (metis not_None_eq prod.collapse)
  have new: "fl_kind boot_flist = KRegular \<or> fl_kind boot_flist = KSymlink" "no_symlink boot_files ''/tmp/bootstrap/b.flist''"
    "held boot_files ''/tmp/bootstrap/b.flist'' = []"
    by (simp_all add: boot_flist_def boot_files_def no_symlink_def held_def)
  obtain w0 resp c rest where fin: "r = Ok ()" "be_get c_boot (fl_url boot_flist) w0 = (Inr resp, w')"
      "rp_body resp = (c, None)" "fs' ''/tmp/bootstrap/b.flist'' = Some (Regular (c @ rest))"
      "serves c_boot (fl_url boot_flist) c \<longrightarrow> rest = drop (length c) (held boot_files ''/tmp/bootstrap/b.flist'')"
    using download_exact [OF c_boot_laws(1,2) new(1,2) run] by blast
  have "c = [1, 2, 3]" using fin(2,3) by (auto simp: c_boot_def split: if_splits)
  then show ?thesis using fin new(3) c_boot_laws(4) run by simp
qed

lemma c_boot_calls:
  "be_get c_boot url w =
     (if prefix ''https://github'' url then (Inl (ErrMsg ''no route''), w)
      else (Inr \<lparr>rp_status = 200, rp_body = (if w = 0 then ([1], Some (ErrMsg ''reset'')) else ([1, 2, 3], None))\<rparr>, w + 1))"
  "be_flist_json c_boot bs = Inr boot_flist" "be_bin c_boot = Some ''/sbin/bootstrap''" "be_logger c_boot w = (None, w)"
  "be_io c_boot op p = None" "be_current_dir c_boot w = (Inr ''/'', w)" "be_set_current_dir c_boot d w = (None, w)"
  "be_mount_tmpfs c_boot d w = (None, w)" "be_umount c_boot d w = (None, w)"
  by (simp_all add: c_boot_def)

lemma c_boot_config:
  "Config_current c_boot s = Some (Ok \<lparr>cf_stage = 1, cf_debug = False, cf_runmode = Prod, cf_version = V3\<rparr>, s)"
proof -
  have "parse_u32 ''1'' = Some 1" by (simp add: parse_u32_def Let_def)
  then show ?thesis
    by (simp add: Config_current_def boot_runmode_def kparams_params_def kparams_parse_def from_utf8_def c_boot_def
        bnd_def call_def on_world_def give_def)
qed

lemma c_boot_repo: "Repo_new c_boot nm s = Some (Ok \<lparr>rp_name = nm, rp_hub = hub_fallback\<rparr>, s)"
proof -
  have "get_config c_boot (config_url Prod) s = Some (Err (ErrMsg ''no route''), s)" for s
    by (simp add: get_config_def bnd_def call_def on_world_def c_boot_calls config_url_def)
  then have "retry_take n (get_config c_boot (config_url Prod)) s = Some (Err (ErrMsg ''no route''), s)" for n s
    by (induction n) simp_all
  then show ?thesis
    by (simp add: Repo_new_def bnd_def c_boot_config get_hub_url_def give_def)
qed

lemma c_boot_get:
  "\<exists>w'. Repo_get c_boot \<lparr>rp_name = ''tf-autobuilder'', rp_hub = hub_fallback\<rparr> ''bootstrap-v4:latest.flist'' (fs, w)
     = Some (Ok (boot_flist\<lparr>fl_url := ''https://v4.hub.grid.tf/tf-autobuilder/bootstrap-v4:latest.flist''\<rparr>), (fs, w')) \<and> 0 < w'"
  by (simp add: Repo_get_def get_working_hub_def hub_fallback_def is_hub_working_def is_success_def bnd_def call_def
      run_eff_def on_world_def give_def c_boot_calls json_of_def)

lemma c_boot_download: "0 < w \<Longrightarrow> \<not> prefix ''https://github'' (fl_url fl) \<Longrightarrow> fl_kind fl = KRegular \<Longrightarrow> fs out = None \<Longrightarrow>
    \<exists>s'. Flist_download c_boot fl out (fs, w) = Some (Ok (), s')"
  by (simp add: Flist_download_def bnd_def call_def check_eff_def on_files_def on_world_def c_boot_def open_keep_def
      is_success_def copy_response_def Let_def)

lemma c_boot_update: "\<exists>r s'. update_bootstrap c_boot (boot_files, w) = Some (r, s')"
proof -
  let ?fl = "boot_flist\<lparr>fl_url := ''https://v4.hub.grid.tf/tf-autobuilder/bootstrap-v4:latest.flist''\<rparr>"
  let ?get = "context_msg ''failed to get info'' (Repo_get c_boot \<lparr>rp_name = ''tf-autobuilder'', rp_hub = hub_fallback\<rparr> ''bootstrap-v4:latest.flist'')"
  obtain w1 where w1: "?get (boot_files, w) = Some (Ok ?fl, (boot_files, w1))" "0 < w1"
    using c_boot_get [of boot_files w] by (elim exE conjE) (simp add: context_msg_def)
  then have get: "retry_forever ?get (boot_files, w) = Some (Ok ?fl, (boot_files, w1))" by (simp add: retry_forever_unfold)
  let ?fs = "(boot_files(''/sbin/bootstrap'' := None))(''/sbin/bootstrap.bak'' \<mapsto> Regular [0])"
  have ren: "os_Rename (be_io c_boot) ''/sbin/bootstrap'' ''/sbin/bootstrap.bak'' boot_files = (None, ?fs)"
    by (simp add: os_Rename_def c_boot_calls boot_files_def)
  have "fl_kind ?fl = KRegular" "\<not> prefix ''https://github'' (fl_url ?fl)" "?fs (in_workdir (fl_name ?fl)) = None"
    by (simp_all add: boot_flist_def boot_files_def in_workdir_def path_push_def workdir_path_def)
  from c_boot_download [of w1 ?fl ?fs "in_workdir (fl_name ?fl)", OF w1(2) this(2,1,3)]
  have "install_package c_boot ?fl (?fs, w1) \<noteq> None"
    by (intro install_package_returns) (auto simp: retry_forever_unfold context_msg_def)
  then obtain r s' where inst: "install_package c_boot ?fl (?fs, w1) = Some (r, s')" by auto
  have "update_bootstrap c_boot (boot_files, w) = Some (r, s')"
    using get ren inst
    by (simp add: update_bootstrap_def bnd_def c_boot_repo check_eff_def on_files_def c_boot_calls in_workdir_def path_push_def)
  then show ?thesis by blast
qed

theorem failed_update_loses_program_witness:
  "\<exists>r fs' w'. update_bootstrap c_boot (boot_files, 0) = Some (r, (fs', w')) \<and> (\<forall>u. r \<noteq> Ok u) \<and>
     fs' ''/sbin/bootstrap'' = None \<and> fs' ''/sbin/bootstrap.bak'' = Some (Regular [0])"
proof -
  have self: "be_bin c_boot = Some ''/sbin/bootstrap''" and bin: "''/sbin/bootstrap'' = in_workdir ''/sbin/bootstrap''"
    by (simp_all add: in_workdir_def path_push_def c_boot_def)
  have outside: "program_outside ''/sbin/bootstrap''" by code_simp
  have "\<not> is_below workdir_path ''/sbin/bootstrap''" using outside by (simp add: program_outside_def)
  have given: "\<forall>w. fst (be_mountpoint c_boot ''root'' w) \<noteq> Inr True"
    "\<forall>hub. hub_answers c_boot (program_url hub) (be_flist_json c_boot) (\<lambda>fl. CHR ''/'' \<notin> set (fl_name fl))"
    "boot_files ''/sbin/bootstrap'' = Some (Regular [0])" "Regular [0] \<noteq> Directory" "be_io c_boot ''rename'' ''/sbin/bootstrap'' = None"
    "boot_files (''/sbin/bootstrap'' @ ''.bak'') \<noteq> Some Directory"
    "\<forall>p. is_below workdir_path p \<longrightarrow> no_symlink boot_files p"
    by (auto simp: c_boot_def boot_flist_def boot_files_def no_symlink_def hub_answers_def json_of_def
        split: if_splits option.splits)
  obtain r fs' w' where run: "update_bootstrap c_boot (boot_files, 0) = Some (r, (fs', w'))"
    using c_boot_update by (metis prod.collapse)
  from failed_update_loses_program [OF self bin c_boot_laws(1) outside given c_boot_repo run] run
  show ?thesis by simp
qed

theorem boot_never_panics_witness:
  "\<exists>ended s'. boot_main c_boot (boot_files, 0) = Some (ended, s') \<and> ended \<in> {Inl 0, Inl 1} \<union> range Inr"
proof -
  obtain r s1 where up: "boot_update c_boot (boot_files, 0) = Some (r, s1)"
  proof -
    have "below_cleared workdir_path boot_files = boot_files"
      by (rule ext) (auto simp: below_cleared_def is_below_def workdir_path_def boot_files_def)
    moreover have "workdir_create c_boot workdir_path boot_files = (None, boot_files)"
      by (simp add: workdir_create_def create_dir_def c_boot_calls boot_files_def workdir_path_def already_exists_def)
    moreover obtain r s2 where "update_bootstrap c_boot (boot_files, 0) = Some (r, s2)" using c_boot_update by blast
    ultimately have "boot_update c_boot (boot_files, 0) = Some (r, workdir_drop c_boot workdir_path ''/'' s2)"
      by (simp add: boot_update_def WorkDir_run_def bnd_def call_def check_eff_def on_world_def on_files_def dropping_def
          mount_tmpfs_def c_boot_calls)
    then show ?thesis by (rule that)
  qed
  have "boot_app c_boot (boot_files, 0) \<noteq> None"
    using up by (cases r) (simp_all add: boot_app_def logger_init_def give_def run_eff_def on_world_def c_boot_calls bnd_def c_boot_config boot_stages_def Let_def exec_stage_def split: prod.splits option.splits)
  then have "boot_main c_boot (boot_files, 0) \<noteq> None"
    by (auto simp: boot_main_def split: option.splits prod.splits outcome.splits boot_end.splits)
  then obtain ended s' where "boot_main c_boot (boot_files, 0) = Some (ended, s')" by (metis not_None_eq prod.collapse)
  then show ?thesis using boot_never_panics [OF c_boot_laws(5-7)] by blast
qed

end
