(* ===== verification/Js_Values.thy ===== *)
theory Js_Values
  imports Go_Std "HOL-Library.Sublist"
begin

text \<open>
  The parts of JavaScript that the page's own functions use: strings with \<open>replace\<close>, \<open>split\<close> and
  \<open>trim\<close>, JSON values with \<open>String(v)\<close> and \<open>JSON.stringify\<close>. A string is a list of code units; those
  below 256 are the characters here.
\<close>

text \<open>The exceptions that the modelled functions raise.\<close>

datatype js_error = JsError string | RangeError string | TypeError string

section \<open>Strings\<close>

text \<open>\<open>s.replace(/pat/g, rep)\<close> for a literal pattern: left to right, without overlap.\<close>

function replace_all :: "string \<Rightarrow> string \<Rightarrow> string \<Rightarrow> string" where
  "replace_all pat rep s =
     (case s of
        [] \<Rightarrow> []
      | c # cs \<Rightarrow>
          if pat \<noteq> [] \<and> prefix pat s then rep @ replace_all pat rep (drop (length pat) s)
          else c # replace_all pat rep cs)"
  by pat_completeness auto
termination by (relation "measure (\<lambda>(_, _, s). length s)") auto

declare replace_all.simps [simp del]

text \<open>\<open>s.replace(/pat/, rep)\<close>: the first occurrence only.\<close>

fun replace_first :: "string \<Rightarrow> string \<Rightarrow> string \<Rightarrow> string" where
  "replace_first pat rep [] = []"
| "replace_first pat rep (c # cs) =
     (if prefix pat (c # cs) then rep @ drop (length pat) (c # cs) else c # replace_first pat rep cs)"

lemma replace_all_Nil [simp]: "replace_all pat rep [] = []"
  by (simp add: replace_all.simps)

lemma replace_all_char: "replace_all [x] rep s = concat (map (\<lambda>c. if c = x then rep else [c]) s)"
proof (induction s)
  case (Cons c s)
  then show ?case by (auto simp: replace_all.simps [of "[x]" rep "c # s"])
qed simp

text \<open>The text before the first occurrence of \<open>pat\<close>, which is \<open>s.split(pat)[0]\<close>.\<close>

fun before_first :: "string \<Rightarrow> string \<Rightarrow> string" where
  "before_first pat [] = []"
| "before_first pat (c # cs) = (if prefix pat (c # cs) then [] else c # before_first pat cs)"

definition js_space :: "char \<Rightarrow> bool" where
  "js_space c \<longleftrightarrow> c \<in> {CHR 0x09, CHR 0x0A, CHR 0x0B, CHR 0x0C, CHR 0x0D, CHR '' '', CHR 0xA0}"

definition js_trim :: "string \<Rightarrow> string" where
  "js_trim s = rev (dropWhile js_space (rev (dropWhile js_space s)))"

definition to_lower :: "char \<Rightarrow> char" where
  "to_lower c = (let n = of_char c :: nat in if 65 \<le> n \<and> n \<le> 90 then char_of (n + 32) else c)"

definition lower :: "string \<Rightarrow> string" where
  "lower = map to_lower"

text \<open>\<open>s.split(sep)\<close> for a separator of one character, and \<open>a.join(sep)\<close>.\<close>

fun js_split :: "char \<Rightarrow> string \<Rightarrow> string list" where
  "js_split sep [] = [[]]"
| "js_split sep (c # cs) =
     (if c = sep then [] # js_split sep cs
      else case js_split sep cs of [] \<Rightarrow> [[c]] | w # ws \<Rightarrow> (c # w) # ws)"

fun js_join :: "string \<Rightarrow> string list \<Rightarrow> string" where
  "js_join sep [] = []"
| "js_join sep [x] = x"
| "js_join sep (x # y # xs) = x @ sep @ js_join sep (y # xs)"

section \<open>JSON values\<close>

text \<open>A number is kept as the text that JavaScript prints for it.\<close>

datatype jsv = JNull | JBool bool | JNum string | JStr string | JArr "jsv list" | JObj "(string \<times> jsv) list"

definition js_bool :: "bool \<Rightarrow> string" where
  "js_bool b = (if b then ''true'' else ''false'')"

text \<open>\<open>String(v)\<close>; in an array \<open>null\<close> prints as nothing.\<close>

fun to_string :: "jsv \<Rightarrow> string" where
  "to_string JNull = ''null''"
| "to_string (JBool b) = js_bool b"
| "to_string (JNum n) = n"
| "to_string (JStr s) = s"
| "to_string (JArr vs) = js_join '','' (map (\<lambda>v. if v = JNull then [] else to_string v) vs)"
| "to_string (JObj kvs) = ''[object Object]''"

definition json_char :: "char \<Rightarrow> string" where
  "json_char c =
     (if c = CHR 0x22 then [CHR 0x5C, CHR 0x22]
      else if c = CHR 0x5C then [CHR 0x5C, CHR 0x5C]
      else if c = CHR 0x08 then [CHR 0x5C, CHR ''b'']
      else if c = CHR 0x09 then [CHR 0x5C, CHR ''t'']
      else if c = CHR 0x0A then [CHR 0x5C, CHR ''n'']
      else if c = CHR 0x0C then [CHR 0x5C, CHR ''f'']
      else if c = CHR 0x0D then [CHR 0x5C, CHR ''r'']
      else if of_char c < (32 :: nat)
      then CHR 0x5C # ''u00'' @ [hex_digit (of_char c div 16), hex_digit (of_char c mod 16)]
      else [c])"

definition json_string :: "string \<Rightarrow> string" where
  "json_string s = CHR 0x22 # concat (map json_char s) @ [CHR 0x22]"

text \<open>\<open>JSON.stringify(v)\<close> and \<open>JSON.stringify(v, null, 2)\<close>, the latter at a depth of \<open>d\<close> spaces.\<close>

fun stringify :: "jsv \<Rightarrow> string" where
  "stringify JNull = ''null''"
| "stringify (JBool b) = js_bool b"
| "stringify (JNum n) = n"
| "stringify (JStr s) = json_string s"
| "stringify (JArr vs) = ''['' @ js_join '','' (map stringify vs) @ '']''"
| "stringify (JObj kvs) = ''{'' @ js_join '','' (map (\<lambda>(k, v). json_string k @ '':'' @ stringify v) kvs) @ ''}''"

definition newline_at :: "nat \<Rightarrow> string" where
  "newline_at d = CHR 0x0A # replicate d (CHR '' '')"

fun stringify2 :: "nat \<Rightarrow> jsv \<Rightarrow> string" where
  "stringify2 d JNull = ''null''"
| "stringify2 d (JBool b) = js_bool b"
| "stringify2 d (JNum n) = n"
| "stringify2 d (JStr s) = json_string s"
| "stringify2 d (JArr vs) =
     (if vs = [] then ''[]''
      else ''['' @ newline_at (d + 2) @ js_join ('','' @ newline_at (d + 2)) (map (stringify2 (d + 2)) vs)
             @ newline_at d @ '']'')"
| "stringify2 d (JObj kvs) =
     (if kvs = [] then ''{}''
      else ''{'' @ newline_at (d + 2)
             @ js_join ('','' @ newline_at (d + 2)) (map (\<lambda>(k, v). json_string k @ '': '' @ stringify2 (d + 2) v) kvs)
             @ newline_at d @ ''}'')"

text \<open>The JavaScript notion of a value that counts as true.\<close>

fun truthy :: "jsv \<Rightarrow> bool" where
  "truthy JNull = False"
| "truthy (JBool b) = b"
| "truthy (JNum n) = (n \<noteq> ''0'' \<and> n \<noteq> ''NaN'')"
| "truthy (JStr s) = (s \<noteq> [])"
| "truthy (JArr vs) = True"
| "truthy (JObj kvs) = True"

section \<open>Splitting and joining\<close>

lemma js_split_ne [simp]: "js_split sep s \<noteq> []"
  by (induction s) (auto split: list.splits)

lemma js_split_word:
  assumes "sep \<notin> set w"
  shows "js_split sep w = [w]" "js_split sep (w @ sep # s) = w # js_split sep s"
  using assms by (induction w) auto

lemma js_split_join:
  assumes "list_all (\<lambda>w. sep \<notin> set w) ws" "ws \<noteq> []"
  shows "js_split sep (js_join [sep] ws) = ws"
  using assms by (induction "[sep]" ws rule: js_join.induct) (simp_all add: js_split_word)

end
