(* ===== verification/Js_Base64.thy ===== *)
theory Js_Base64
  imports Js_Values
begin

text \<open>
  The base 64 module of the page that the provision daemon serves
  (\<open>cmds/modules/provisiond/swagger/swagger-ui-standalone-preset.js\<close>, exports \<open>byteLength\<close>,
  \<open>toByteArray\<close> and \<open>fromByteArray\<close>).

  A JavaScript string is a list of code units; those below 256 are the characters here. The bit
  operators of JavaScript work on 32-bit integers; every value below stays under \<open>2 ^ 24\<close>, so they
  are the operators on \<open>int\<close>. Reading outside an array gives \<open>undefined\<close>, which the operators treat
  as 0; a \<open>Uint8Array\<close> ignores a write outside its bounds and starts out as zeros.
\<close>

unbundle bit_operations_syntax

section \<open>The module\<close>

definition code :: string where
  "code = ''ABCDEFGHIJKLMNOPQRSTUVWXYZabcdefghijklmnopqrstuvwxyz0123456789+/''"

definition b64_lookup :: "int \<Rightarrow> char" where
  "b64_lookup i = code ! nat i"

text \<open>The reverse table: the alphabet, and the two characters of the URL variant.\<close>

definition revLookup :: "char \<Rightarrow> int" where
  "revLookup c =
     (if c = CHR ''-'' then 62 else if c = CHR ''_'' then 63
      else case index_of c code of None \<Rightarrow> 0 | Some i \<Rightarrow> int i)"

definition at :: "byte list \<Rightarrow> nat \<Rightarrow> int" where
  "at t i = (if i < length t then uint (t ! i) else 0)"

definition charAt :: "string \<Rightarrow> nat \<Rightarrow> int" where
  "charAt s i = (if i < length s then revLookup (s ! i) else 0)"

definition getLens :: "string \<Rightarrow> js_error + (nat \<times> nat)" where
  "getLens b64 =
     (let len = length b64
      in if len mod 4 > 0 then Inl (JsError ''Invalid string. Length must be a multiple of 4'')
         else let validLen = (case index_of (CHR ''='') b64 of None \<Rightarrow> len | Some i \<Rightarrow> i)
              in Inr (validLen, if validLen = len then 0 else 4 - validLen mod 4))"

definition byteLength :: "string \<Rightarrow> js_error + int" where
  "byteLength b64 =
     (case getLens b64 of
        Inl e \<Rightarrow> Inl e
      | Inr (validLen, placeHoldersLen) \<Rightarrow>
          Inr ((int validLen + int placeHoldersLen) * 3 div 4 - int placeHoldersLen))"

text \<open>The loop over the full groups: the bytes it writes, and where it stops.\<close>

function decode_groups :: "string \<Rightarrow> nat \<Rightarrow> int \<Rightarrow> int list \<times> nat" where
  "decode_groups b64 i len =
     (if int i < len
      then let tmp = push_bit 18 (charAt b64 i) OR push_bit 12 (charAt b64 (i + 1))
                       OR push_bit 6 (charAt b64 (i + 2)) OR charAt b64 (i + 3);
               (out, stop) = decode_groups b64 (i + 4) len
           in ([drop_bit 16 tmp AND 255, drop_bit 8 tmp AND 255, tmp AND 255] @ out, stop)
      else ([], i))"
  by pat_completeness auto
termination by (relation "measure (\<lambda>(_, i, len). nat (len - int i))") auto

declare decode_groups.simps [simp del]

definition decode_rest :: "string \<Rightarrow> nat \<Rightarrow> nat \<Rightarrow> int list" where
  "decode_rest b64 i placeHoldersLen =
     (if placeHoldersLen = 2
      then [(push_bit 2 (charAt b64 i) OR drop_bit 4 (charAt b64 (i + 1))) AND 255]
      else if placeHoldersLen = 1
      then let tmp = push_bit 10 (charAt b64 i) OR push_bit 4 (charAt b64 (i + 1)) OR drop_bit 2 (charAt b64 (i + 2))
           in [drop_bit 8 tmp AND 255, tmp AND 255]
      else [])"

text \<open>The writes in order into an array of \<open>size\<close> zeros.\<close>

definition fill_array :: "nat \<Rightarrow> int list \<Rightarrow> byte list" where
  "fill_array n ws = map word_of_int (take n (ws @ replicate n 0))"

definition toByteArray :: "string \<Rightarrow> js_error + byte list" where
  "toByteArray b64 =
     (case getLens b64 of
        Inl e \<Rightarrow> Inl e
      | Inr (validLen, placeHoldersLen) \<Rightarrow>
          let len = (int validLen + int placeHoldersLen) * 3 div 4 - int placeHoldersLen
          in if len < 0 then Inl (RangeError ''Invalid typed array length'')
             else case decode_groups b64 0 (if placeHoldersLen > 0 then int validLen - 4 else int validLen) of
                    (out, i) \<Rightarrow> Inr (fill_array (nat len) (out @ decode_rest b64 i placeHoldersLen)))"

definition tripletToBase64 :: "int \<Rightarrow> string" where
  "tripletToBase64 num =
     [b64_lookup (drop_bit 18 num AND 63), b64_lookup (drop_bit 12 num AND 63),
      b64_lookup (drop_bit 6 num AND 63), b64_lookup (num AND 63)]"

function encodeChunk :: "byte list \<Rightarrow> nat \<Rightarrow> nat \<Rightarrow> string" where
  "encodeChunk uint8 i stop =
     (if i < stop
      then tripletToBase64 ((push_bit 16 (at uint8 i) AND 16711680) + (push_bit 8 (at uint8 (i + 1)) AND 65280)
             + (at uint8 (i + 2) AND 255)) @ encodeChunk uint8 (i + 3) stop
      else [])"
  by pat_completeness auto
termination by (relation "measure (\<lambda>(_, i, stop). stop - i)") auto

declare encodeChunk.simps [simp del]

definition maxChunkLength :: nat where
  "maxChunkLength = 16383"

function encode_chunks :: "byte list \<Rightarrow> nat \<Rightarrow> nat \<Rightarrow> string" where
  "encode_chunks uint8 i len2 =
     (if i < len2
      then encodeChunk uint8 i (if i + maxChunkLength > len2 then len2 else i + maxChunkLength)
             @ encode_chunks uint8 (i + maxChunkLength) len2
      else [])"
  by pat_completeness auto
termination by (relation "measure (\<lambda>(_, i, len2). len2 - i)") (auto simp: maxChunkLength_def)

declare encode_chunks.simps [simp del]

definition fromByteArray :: "byte list \<Rightarrow> string" where
  "fromByteArray uint8 =
     (let len = length uint8; extraBytes = len mod 3
      in encode_chunks uint8 0 (len - extraBytes) @
         (if extraBytes = 1
          then let tmp = at uint8 (len - 1)
               in [b64_lookup (drop_bit 2 tmp), b64_lookup (push_bit 4 tmp AND 63), CHR ''='', CHR ''='']
          else if extraBytes = 2
          then let tmp = push_bit 8 (at uint8 (len - 2)) + at uint8 (len - 1)
               in [b64_lookup (drop_bit 10 tmp), b64_lookup (drop_bit 4 tmp AND 63),
                   b64_lookup (push_bit 2 tmp AND 63), CHR ''='']
          else []))"

section \<open>Encoding\<close>

lemma and_masks:
  fixes x :: int
  shows "x AND 63 = x mod 64" "x AND 255 = x mod 256"
  using take_bit_eq_mask [of 6 x] take_bit_eq_mask [of 8 x]
  by (simp_all add: mask_eq_exp_minus_1 take_bit_eq_mod)

lemma and_shifted:
  assumes "0 \<le> x" "x < (256 :: int)"
  shows "push_bit n x AND push_bit n 255 = x * 2 ^ n"
proof -
  have "push_bit n x AND push_bit n 255 = push_bit n (x AND 255)" by (rule push_bit_and [symmetric])
  also have "x AND 255 = x" using assms by (simp add: and_masks)
  finally show ?thesis by (simp add: push_bit_eq_mult)
qed

lemma b64_lookup_char: "0 \<le> i \<Longrightarrow> i < 64 \<Longrightarrow> b64_lookup i = b64_char (nat i)"
  by (simp add: b64_lookup_def b64_char_def code_def b64_alphabet_def)

text \<open>A byte read from an array, as a number below 256.\<close>

lemma byte_nat:
  obtains x where "unat (b :: byte) = x" "uint b = int x" "x < 256"
  using unat_byte_less [of b] by (metis uint_nat)

lemma div_mod_split:
  fixes n q m r :: nat
  assumes "n = q * m + r" and "r < m"
  shows "n div m = q" "n mod m = r"
  using assms by simp_all

lemma div_mod_parts:
  fixes n m :: nat
  assumes "0 < m"
  obtains q r where "n = q * m + r" "r < m" "q = n div m" "r = n mod m"
  using that [of "n div m" "n mod m"] assms by simp

lemma sextet_bounds:
  fixes x y z :: nat
  assumes "x < 256" "y < 256" "z < 256"
  shows "x div 4 < 64" "x mod 4 * 16 < 64" "x mod 4 * 16 + y div 16 < 64" "y mod 16 * 4 < 64"
    "y mod 16 * 4 + z div 64 < 64" "z mod 64 < 64"
proof -
  have "x mod 4 < 4" "y mod 16 < 16" by simp_all
  with assms show "x div 4 < 64" "x mod 4 * 16 < 64" "x mod 4 * 16 + y div 16 < 64" "y mod 16 * 4 < 64"
    "y mod 16 * 4 + z div 64 < 64" "z mod 64 < 64"
    by linarith+
qed

lemma triplet_sextets:
  fixes x y z :: nat
  assumes "x < 256" "y < 256" "z < 256"
  defines "n \<equiv> int (x * 65536 + y * 256 + z)"
  shows "drop_bit 18 n AND 63 = int (x div 4)" "drop_bit 12 n AND 63 = int (x mod 4 * 16 + y div 16)"
    "drop_bit 6 n AND 63 = int (y mod 16 * 4 + z div 64)" "n AND 63 = int (z mod 64)"
proof -
  have d: "(x * 65536 + y * 256 + z) div 262144 mod 64 = x div 4"
    "(x * 65536 + y * 256 + z) div 4096 mod 64 = x mod 4 * 16 + y div 16"
    "(x * 65536 + y * 256 + z) div 64 mod 64 = y mod 16 * 4 + z div 64"
    "(x * 65536 + y * 256 + z) mod 64 = z mod 64"
  proof -
    obtain xq xr where x: "x = xq * 4 + xr" "xr < 4" "xq = x div 4" "xr = x mod 4"
      by (rule div_mod_parts [of 4 x]) simp
    obtain yq yr where y: "y = yq * 16 + yr" "yr < 16" "yq = y div 16" "yr = y mod 16"
      by (rule div_mod_parts [of 16 y]) simp
    obtain zq zr where z: "z = zq * 64 + zr" "zr < 64" "zq = z div 64" "zr = z mod 64"
      by (rule div_mod_parts [of 64 z]) simp
    have b: "xq < 64" "yq < 16" "zq < 4" using assms(1-3) x(1) y(1) z(1) by simp_all
    let ?n = "x * 65536 + y * 256 + z"
    have "?n div 262144 = xq" by (rule div_mod_split(1) [of _ _ _ "xr * 65536 + y * 256 + z"]) (use x(1,2) assms in simp_all)
    then show "?n div 262144 mod 64 = x div 4" using b x(3) by simp
    have "?n div 4096 = x * 16 + yq" by (rule div_mod_split(1) [of _ _ _ "yr * 256 + z"]) (use y(1,2) assms in simp_all)
    moreover have "(x * 16 + yq) mod 64 = xr * 16 + yq"
      by (rule div_mod_split(2) [of _ xq]) (use x(1,2) b in simp_all)
    ultimately show "?n div 4096 mod 64 = x mod 4 * 16 + y div 16" using x(4) y(3) by simp
    have "?n div 64 = x * 1024 + y * 4 + zq" by (rule div_mod_split(1) [of _ _ _ zr]) (use z(1,2) in simp_all)
    moreover have "(x * 1024 + y * 4 + zq) mod 64 = yr * 4 + zq"
      by (rule div_mod_split(2) [of _ "x * 16 + yq"]) (use y(1,2) b in simp_all)
    ultimately show "?n div 64 mod 64 = y mod 16 * 4 + z div 64" using y(4) z(3) by simp
    have "?n mod 64 = zr" by (rule div_mod_split(2) [of _ "x * 1024 + y * 4 + zq"]) (use z(1,2) in simp_all)
    then show "?n mod 64 = z mod 64" using z(4) by simp
  qed
  show "drop_bit 18 n AND 63 = int (x div 4)" "drop_bit 12 n AND 63 = int (x mod 4 * 16 + y div 16)"
    "drop_bit 6 n AND 63 = int (y mod 16 * 4 + z div 64)" "n AND 63 = int (z mod 64)"
    unfolding d [symmetric] n_def and_masks drop_bit_eq_div by (simp_all add: zdiv_int zmod_int)
qed

lemma b64_lookup_nat: "m < 64 \<Longrightarrow> b64_lookup (int m) = b64_char m"
  by (simp add: b64_lookup_char)

lemma triplet_encode:
  "tripletToBase64 ((push_bit 16 (uint a) AND 16711680) + (push_bit 8 (uint b) AND 65280) + (uint c AND 255)) =
     b64_encode [a, b, c]"
proof -
  obtain x where x: "unat a = x" "uint a = int x" "x < 256" by (rule byte_nat)
  obtain y where y: "unat b = y" "uint b = int y" "y < 256" by (rule byte_nat)
  obtain z where z: "unat c = z" "uint c = int z" "z < 256" by (rule byte_nat)
  have "push_bit 16 (int x) AND 16711680 = int x * 65536" "push_bit 8 (int y) AND 65280 = int y * 256"
      "int z AND 255 = int z"
    using and_shifted [of "int x" 16] and_shifted [of "int y" 8] x y z by (simp_all add: push_bit_eq_mult and_masks)
  then have n: "(push_bit 16 (uint a) AND 16711680) + (push_bit 8 (uint b) AND 65280) + (uint c AND 255)
      = int (x * 65536 + y * 256 + z)"
    using x y z by simp
  show ?thesis
    unfolding n tripletToBase64_def triplet_sextets [OF x(3) y(3) z(3)] b64_encode.simps x(1) y(1) z(1)
    by (simp only: b64_lookup_nat sextet_bounds [OF x(3) y(3) z(3)])
qed

lemma b64_encode_append:
  assumes "3 dvd length xs"
  shows "b64_encode (xs @ ys) = b64_encode xs @ b64_encode ys"
  using assms
proof (induction xs rule: b64_encode.induct)
  case (4 a b c bs)
  then have "3 dvd length bs" by (simp add: dvd_def) presburger
  with 4 show ?case by simp
qed (auto dest!: dvd_imp_le)

lemma take3:
  assumes "i + 2 < length t"
  shows "take (Suc (Suc (Suc n))) (drop i t) = [t ! i, t ! (i + 1), t ! (i + 2)] @ take n (drop (i + 3) t)"
proof -
  have "drop i t = t ! i # t ! (i + 1) # t ! (i + 2) # drop (i + 3) t"
    using assms by (metis Cons_nth_drop_Suc add.commute add_2_eq_Suc add_Suc_right add_lessD1 less_add_Suc1
        Suc_eq_plus1 numeral_3_eq_3 numeral_2_eq_2 plus_1_eq_Suc Suc_lessD)
  then show ?thesis by simp
qed

lemma encodeChunk_encode:
  assumes "stop \<le> length t" and "3 dvd stop - i" and "i \<le> stop"
  shows "encodeChunk t i stop = b64_encode (take (stop - i) (drop i t))"
  using assms
proof (induction t i stop rule: encodeChunk.induct)
  case (1 t i stop)
  show ?case
  proof (cases "i < stop")
    case True
    then have le: "i + 3 \<le> stop" using "1.prems"(2) dvd_imp_le [of 3 "stop - i"] by simp
    then obtain k where k: "stop - i = Suc (Suc (Suc k))" "k = stop - (i + 3)"
      by (metis Suc_diff_Suc Suc_eq_plus1 add.commute add_Suc_right diff_Suc_Suc le_Suc_ex less_add_Suc1 numeral_3_eq_3 plus_1_eq_Suc diff_add_inverse add_2_eq_Suc' numeral_2_eq_2)
    have at: "at t i = uint (t ! i)" "at t (i + 1) = uint (t ! (i + 1))" "at t (i + 2) = uint (t ! (i + 2))"
      using le "1.prems"(1) by (simp_all add: at_def)
    have "3 dvd stop - (i + 3)" using "1.prems"(2) k by (simp add: dvd_def) presburger
    with "1.IH" True le "1.prems" have
      "encodeChunk t (i + 3) stop = b64_encode (take k (drop (i + 3) t))" by (simp add: k)
    moreover have "take (stop - i) (drop i t) = [t ! i, t ! (i + 1), t ! (i + 2)] @ take k (drop (i + 3) t)"
      unfolding k(1) using le "1.prems"(1) by (intro take3) simp
    ultimately show ?thesis
      using True by (simp only: encodeChunk.simps [of t i stop] if_True at triplet_encode) (simp add: b64_encode_append)
  qed (simp add: encodeChunk.simps)
qed

lemma encode_chunks_encode:
  assumes "len2 \<le> length t" and "3 dvd len2 - i"
  shows "encode_chunks t i len2 = b64_encode (take (len2 - i) (drop i t))"
  using assms
proof (induction t i len2 rule: encode_chunks.induct)
  case (1 t i len2)
  show ?case
  proof (cases "i < len2")
    case True
    let ?m = "min len2 (i + maxChunkLength)"
    have m: "(if i + maxChunkLength > len2 then len2 else i + maxChunkLength) = ?m" by simp
    have d: "3 dvd ?m - i" "3 dvd len2 - (i + maxChunkLength)"
      using "1.prems"(2) True by (auto simp: maxChunkLength_def min_def dvd_def) presburger+
    have "encodeChunk t i ?m = b64_encode (take (?m - i) (drop i t))"
      using True "1.prems"(1) d by (intro encodeChunk_encode) auto
    moreover have "encode_chunks t (i + maxChunkLength) len2 = b64_encode (take (len2 - (i + maxChunkLength)) (drop (i + maxChunkLength) t))"
      using "1.IH" [OF True "1.prems"(1) d(2)] .
    moreover have "take (len2 - i) (drop i t) =
        take (?m - i) (drop i t) @ take (len2 - (i + maxChunkLength)) (drop (i + maxChunkLength) t)"
      using take_add [of maxChunkLength "len2 - (i + maxChunkLength)" "drop i t"]
      by (cases "i + maxChunkLength \<le> len2") (auto simp: min_def add.commute)
    moreover have "3 dvd length (take (?m - i) (drop i t))" proof -
      have "length (take (?m - i) (drop i t)) = ?m - i" using True "1.prems"(1) by auto
      then show ?thesis using d(1) by simp
    qed
    ultimately show ?thesis using True by (simp add: encode_chunks.simps [of t i len2] m b64_encode_append)
  qed (simp add: encode_chunks.simps)
qed

lemma at_nat: "i < length t \<Longrightarrow> at t i = int (unat (t ! i))"
  by (simp add: at_def uint_nat [symmetric])

text \<open>The two short last groups.\<close>

lemma encode_one:
  "[b64_lookup (drop_bit 2 (int (unat a))), b64_lookup (push_bit 4 (int (unat a)) AND 63), CHR ''='', CHR ''='']
     = b64_encode [a]"
proof -
  obtain x where x: "unat a = x" "x < 256" by (metis unat_byte_less)
  have "x * 16 mod 64 = x mod 4 * 16" by (simp add: mult_mod_left)
  then have "drop_bit 2 (int x) = int (x div 4)" "push_bit 4 (int x) AND 63 = int (x mod 4 * 16)"
    by (simp_all add: drop_bit_eq_div push_bit_eq_mult and_masks zdiv_int zmod_int mult_mod_left)
  then show ?thesis using sextet_bounds [OF x(2) x(2) x(2)] by (simp only: x b64_lookup_nat b64_encode.simps)
qed

lemma encode_two:
  "[b64_lookup (drop_bit 10 (push_bit 8 (int (unat a)) + int (unat b))),
    b64_lookup (drop_bit 4 (push_bit 8 (int (unat a)) + int (unat b)) AND 63),
    b64_lookup (push_bit 2 (push_bit 8 (int (unat a)) + int (unat b)) AND 63), CHR ''=''] = b64_encode [a, b]"
proof -
  obtain x where x: "unat a = x" "x < 256" by (metis unat_byte_less)
  obtain y where y: "unat b = y" "y < 256" by (metis unat_byte_less)
  have n: "push_bit 8 (int x) + int y = int (x * 256 + y)" by (simp add: push_bit_eq_mult)
  obtain xq xr where xx: "x = xq * 4 + xr" "xr < 4" "xq = x div 4" "xr = x mod 4"
      by (rule div_mod_parts [of 4 x]) simp
  obtain yq yr where yy: "y = yq * 16 + yr" "yr < 16" "yq = y div 16" "yr = y mod 16"
      by (rule div_mod_parts [of 16 y]) simp
  have b: "yq < 16" using y(2) yy(1) by simp
  have d1: "(x * 256 + y) div 1024 = xq" by (rule div_mod_split(1) [of _ _ _ "xr * 256 + y"]) (use xx(1,2) y(2) in simp_all)
  have d2: "(x * 256 + y) div 16 = x * 16 + yq" by (rule div_mod_split(1) [of _ _ _ yr]) (use yy(1,2) in simp_all)
  have d3: "(x * 16 + yq) mod 64 = xr * 16 + yq" by (rule div_mod_split(2) [of _ xq]) (use xx(1,2) b in simp_all)
  have d4: "(x * 256 + y) * 4 mod 64 = yr * 4" by (rule div_mod_split(2) [of _ "x * 16 + yq"]) (use yy(1,2) in simp_all)
  have "drop_bit 10 (int (x * 256 + y)) = int (x div 4)"
    "drop_bit 4 (int (x * 256 + y)) AND 63 = int (x mod 4 * 16 + y div 16)"
    "push_bit 2 (int (x * 256 + y)) AND 63 = int (y mod 16 * 4)"
    unfolding and_masks drop_bit_eq_div push_bit_eq_mult
      xx(3) [symmetric] xx(4) [symmetric] yy(3) [symmetric] yy(4) [symmetric]
      d1 [symmetric] d3 [symmetric] d4 [symmetric] d2 [symmetric]
    by (simp_all add: zdiv_int zmod_int)
  then show ?thesis
    using sextet_bounds [OF x(2) y(2) y(2)] by (simp only: x(1) y(1) n b64_lookup_nat b64_encode.simps)
qed

text \<open>
  The page's encoder is the standard one: whatever the bytes, working in chunks of 16383 it returns
  the same text as the encoder the daemons use (\<open>encoding/base64\<close>, the reference definition).
\<close>

lemma fromByteArray_encode: "fromByteArray bs = b64_encode bs"
proof -
  let ?n = "length bs - length bs mod 3"
  have d: "3 dvd ?n" by (metis dvd_minus_mod)
  have c: "encode_chunks bs 0 ?n = b64_encode (take ?n bs)" using encode_chunks_encode [of ?n bs 0] d by simp
  have app: "b64_encode bs = b64_encode (take ?n bs) @ b64_encode (drop ?n bs)"
    using b64_encode_append [of "take ?n bs" "drop ?n bs"] d by simp
  have m: "length bs mod 3 < 3" by simp
  then consider "length bs mod 3 = 0" | "length bs mod 3 = 1" | "length bs mod 3 = 2" by linarith
  then show ?thesis
  proof cases
    case 1
    then show ?thesis using c by (simp add: fromByteArray_def Let_def)
  next
    case 2
    then have l: "length bs - 1 < length bs" by (cases bs) auto
    then have "drop ?n bs = [bs ! (length bs - 1)]" using 2 by (metis Cons_nth_drop_Suc drop_all Suc_pred' length_greater_0_conv
      list.size(3) not_less_zero order_refl)
    with app c 2 l show ?thesis
      by (simp only: fromByteArray_def Let_def at_nat encode_one [symmetric]) simp
  next
    case 3
    then have l: "length bs - 2 < length bs" "length bs - 1 < length bs" "Suc (length bs - 2) = length bs - 1"
      by (cases bs; simp; cases "tl bs"; simp)+
    then have "drop ?n bs = [bs ! (length bs - 2), bs ! (length bs - 1)]"
      using 3 by (metis Cons_nth_drop_Suc drop_all Suc_pred' length_greater_0_conv list.size(3) not_less_zero order_refl)
    with app c 3 l show ?thesis
      by (simp only: fromByteArray_def Let_def at_nat encode_two [symmetric]) simp
  qed
qed

section \<open>Decoding\<close>

lemma or_add:
  fixes a b :: int
  assumes "0 \<le> b" and "b < 2 ^ n"
  shows "push_bit n a OR b = a * 2 ^ n + b"
proof -
  have "take_bit n b = b" using assms by (simp add: take_bit_int_eq_self)
  then show ?thesis
    using concat_bit_eq [of n b a] concat_bit_def [of n b a] by (simp add: push_bit_eq_mult ac_simps or.commute)
qed

text \<open>Four sextets make three bytes.\<close>

lemma group_bytes:
  fixes i j k l :: nat
  assumes "i < 64" "j < 64" "k < 64" "l < 64"
  defines "tmp \<equiv> push_bit 18 (int i) OR push_bit 12 (int j) OR push_bit 6 (int k) OR int l"
  shows "drop_bit 16 tmp AND 255 = int (i * 4 + j div 16)" "drop_bit 8 tmp AND 255 = int (j mod 16 * 16 + k div 4)"
    "tmp AND 255 = int (k mod 4 * 64 + l)"
proof -
  have o: "push_bit 6 (int k) OR int l = int (k * 64 + l)" using or_add [of "int l" 6 "int k"] assms by simp
  have "push_bit 12 (int j) OR int (k * 64 + l) = int (j * 4096 + k * 64 + l)"
    using or_add [of "int (k * 64 + l)" 12 "int j"] assms by simp
  moreover have "push_bit 18 (int i) OR int (j * 4096 + k * 64 + l) = int (i * 262144 + j * 4096 + k * 64 + l)"
    using or_add [of "int (j * 4096 + k * 64 + l)" 18 "int i"] assms by simp
  ultimately have tmp: "tmp = int (i * 262144 + j * 4096 + k * 64 + l)" unfolding tmp_def o by simp
  obtain jq jr where j: "j = jq * 16 + jr" "jr < 16" "jq = j div 16" "jr = j mod 16" by (rule div_mod_parts [of 16 j]) simp
  obtain kq kr where k: "k = kq * 4 + kr" "kr < 4" "kq = k div 4" "kr = k mod 4" by (rule div_mod_parts [of 4 k]) simp
  have b: "jq < 4" "kq < 16" using assms j(1) k(1) by simp_all
  let ?n = "i * 262144 + j * 4096 + k * 64 + l"
  have "?n div 65536 = i * 4 + jq"
    by (rule div_mod_split(1) [of _ _ _ "jr * 4096 + k * 64 + l"]) (use j(1,2) assms in simp_all)
  then have d1: "?n div 65536 mod 256 = i * 4 + jq" using assms b by simp
  have "?n div 256 = i * 1024 + j * 16 + kq"
    by (rule div_mod_split(1) [of _ _ _ "kr * 64 + l"]) (use k(1,2) assms in simp_all)
  moreover have "(i * 1024 + j * 16 + kq) mod 256 = jr * 16 + kq"
    by (rule div_mod_split(2) [of _ "i * 4 + jq"]) (use j(1,2) b in simp_all)
  ultimately have d2: "?n div 256 mod 256 = jr * 16 + kq" by simp
  have d3: "?n mod 256 = kr * 64 + l"
    by (rule div_mod_split(2) [of _ "i * 1024 + j * 16 + kq"]) (use k(1,2) assms in simp_all)
  show "drop_bit 16 tmp AND 255 = int (i * 4 + j div 16)" "drop_bit 8 tmp AND 255 = int (j mod 16 * 16 + k div 4)"
    "tmp AND 255 = int (k mod 4 * 64 + l)"
    unfolding tmp and_masks drop_bit_eq_div j(3) [symmetric] j(4) [symmetric] k(3) [symmetric] k(4) [symmetric]
      d1 [symmetric] d2 [symmetric] d3 [symmetric]
    by (simp_all add: zdiv_int zmod_int)
qed

lemma rest_one:
  fixes i j :: nat
  assumes "i < 64" "j < 64"
  shows "(push_bit 2 (int i) OR drop_bit 4 (int j)) AND 255 = int (i * 4 + j div 16)"
proof -
  have "drop_bit 4 (int j) = int (j div 16)" by (simp add: drop_bit_eq_div zdiv_int)
  then have "push_bit 2 (int i) OR drop_bit 4 (int j) = int (i * 4 + j div 16)"
    using or_add [of "int (j div 16)" 2 "int i"] assms by simp
  moreover have "i * 4 + j div 16 < 256" using assms by linarith
  ultimately show ?thesis by (simp add: and_masks)
qed

lemma rest_two:
  fixes i j k :: nat
  assumes "i < 64" "j < 64" "k < 64"
  defines "tmp \<equiv> push_bit 10 (int i) OR push_bit 4 (int j) OR drop_bit 2 (int k)"
  shows "drop_bit 8 tmp AND 255 = int (i * 4 + j div 16)" "tmp AND 255 = int (j mod 16 * 16 + k div 4)"
proof -
  have c: "k div 4 < 16" using assms by linarith
  have "drop_bit 2 (int k) = int (k div 4)" by (simp add: drop_bit_eq_div zdiv_int)
  then have o: "push_bit 4 (int j) OR drop_bit 2 (int k) = int (j * 16 + k div 4)"
    using or_add [of "int (k div 4)" 4 "int j"] c by simp
  have "push_bit 10 (int i) OR int (j * 16 + k div 4) = int (i * 1024 + j * 16 + k div 4)"
    using or_add [of "int (j * 16 + k div 4)" 10 "int i"] assms c by simp
  then have tmp: "tmp = int (i * 1024 + j * 16 + k div 4)" unfolding tmp_def o by simp
  obtain jq jr where j: "j = jq * 16 + jr" "jr < 16" "jq = j div 16" "jr = j mod 16" by (rule div_mod_parts [of 16 j]) simp
  let ?n = "i * 1024 + j * 16 + k div 4"
  have "?n div 256 = i * 4 + jq"
    by (rule div_mod_split(1) [of _ _ _ "jr * 16 + k div 4"]) (use j(1,2) c in simp_all)
  moreover have "i * 4 + jq < 256" using assms j(1) by simp
  ultimately have d1: "?n div 256 mod 256 = i * 4 + jq" by simp
  have d2: "?n mod 256 = jr * 16 + k div 4"
    by (rule div_mod_split(2) [of _ "i * 4 + jq"]) (use j(1,2) c in simp_all)
  show "drop_bit 8 tmp AND 255 = int (i * 4 + j div 16)" "tmp AND 255 = int (j mod 16 * 16 + k div 4)"
    unfolding tmp and_masks drop_bit_eq_div j(3) [symmetric] j(4) [symmetric] d1 [symmetric] d2 [symmetric]
    by (simp_all add: zdiv_int zmod_int)
qed

lemma index_of_bound: "index_of x xs = Some i \<Longrightarrow> i < length xs"
  by (induction xs arbitrary: i) (auto split: if_splits)

lemma index_of_in: "index_of x xs = Some i \<Longrightarrow> x \<in> set xs"
  by (induction xs arbitrary: i) (auto split: if_splits)

lemma revLookup_val:
  assumes "b64_val c = Some i"
  shows "revLookup c = int i" "i < 64" "c \<noteq> CHR ''=''"
proof -
  have "c \<in> set b64_alphabet" using assms by (auto simp: b64_val_def dest: index_of_in)
  moreover have "CHR ''-'' \<notin> set b64_alphabet" "CHR ''_'' \<notin> set b64_alphabet" "CHR ''='' \<notin> set b64_alphabet"
    by (simp_all add: b64_alphabet_def)
  ultimately have "c \<noteq> CHR ''-''" "c \<noteq> CHR ''_''" "c \<noteq> CHR ''=''" by blast+
  then show "revLookup c = int i" "c \<noteq> CHR ''=''"
    using assms by (simp_all add: revLookup_def b64_val_def code_def b64_alphabet_def)
  show "i < 64" using assms index_of_bound [of c b64_alphabet i] b64_alphabet_facts(2) by (simp add: b64_val_def)
qed

lemma charAt_pre:
  "charAt (pre @ s) (length pre + i) = charAt s i" "charAt (pre @ s) (length pre) = charAt s 0"
  by (simp_all add: charAt_def nth_append)

text \<open>The two lengths that \<open>getLens\<close> computes.\<close>

definition validLen_of :: "string \<Rightarrow> nat" where
  "validLen_of s = (case index_of (CHR ''='') s of None \<Rightarrow> length s | Some i \<Rightarrow> i)"

definition holders_of :: "string \<Rightarrow> nat" where
  "holders_of s = (if validLen_of s = length s then 0 else 4 - validLen_of s mod 4)"

lemma getLens_lengths: "length s mod 4 = 0 \<Longrightarrow> getLens s = Inr (validLen_of s, holders_of s)"
  by (simp add: getLens_def validLen_of_def holders_of_def Let_def)

lemma lengths_group:
  assumes "CHR ''='' \<notin> {p, q, r, t}"
  shows "validLen_of (p # q # r # t # rest) = validLen_of rest + 4" "holders_of (p # q # r # t # rest) = holders_of rest"
proof -
  show v: "validLen_of (p # q # r # t # rest) = validLen_of rest + 4"
    using assms by (auto simp: validLen_of_def split: option.splits)
  then show "holders_of (p # q # r # t # rest) = holders_of rest" by (simp add: holders_of_def)
qed

text \<open>What the loop and the rest after it write, for the string from position \<open>n\<close> on.\<close>

definition decoded :: "string \<Rightarrow> nat \<Rightarrow> nat \<Rightarrow> nat \<Rightarrow> int list" where
  "decoded b64 n validLen holders =
     (case decode_groups b64 n (if holders > 0 then int (n + validLen) - 4 else int (n + validLen)) of
        (out, stop) \<Rightarrow> out @ decode_rest b64 stop holders)"

lemma decoded_group:
  assumes v: "b64_val p = Some i" "b64_val q = Some j" "b64_val r = Some k" "b64_val t = Some l"
    and b: "b64 = pre @ p # q # r # t # rest" and h: "holders > 0 \<longrightarrow> validLen > 0"
  shows "decoded b64 (length pre) (validLen + 4) holders =
    [int (i * 4 + j div 16), int (j mod 16 * 16 + k div 4), int (k mod 4 * 64 + l)] @
      decoded b64 (length pre + 4) validLen holders"
proof -
  have c: "charAt b64 (length pre) = int i" "charAt b64 (length pre + 1) = int j"
      "charAt b64 (length pre + 2) = int k" "charAt b64 (length pre + 3) = int l"
    unfolding b charAt_pre using v by (simp_all add: charAt_def revLookup_val numeral_2_eq_2 numeral_3_eq_3)
  note g = group_bytes [OF revLookup_val(2) [OF v(1)] revLookup_val(2) [OF v(2)] revLookup_val(2) [OF v(3)]
      revLookup_val(2) [OF v(4)]]
  have step: "decode_groups b64 (length pre) len =
      ([int (i * 4 + j div 16), int (j mod 16 * 16 + k div 4), int (k mod 4 * 64 + l)] @
         fst (decode_groups b64 (length pre + 4) len), snd (decode_groups b64 (length pre + 4) len))"
    if "int (length pre) < len" for len
    using that by (simp only: decode_groups.simps [of b64 "length pre" len] if_True c g Let_def case_prod_beta)
  let ?len = "if holders > 0 then int (length pre + (validLen + 4)) - 4 else int (length pre + (validLen + 4))"
  have len: "(if holders > 0 then int (length pre + 4 + validLen) - 4 else int (length pre + 4 + validLen)) = ?len"
    "int (length pre) < ?len"
    using h by auto
  show ?thesis unfolding decoded_def len(1) step [OF len(2)] by (simp add: case_prod_beta)
qed

lemma quanta_decode:
  assumes "b64_quanta s = Some bs"
  shows "length s mod 4 = 0 \<and> (holders_of s > 0 \<longrightarrow> validLen_of s > 0) \<and>
    (validLen_of s + holders_of s) * 3 div 4 = length bs + holders_of s \<and>
    map word_of_int (decoded (pre @ s) (length pre) (validLen_of s) (holders_of s)) = bs"
  using assms
proof (induction s arbitrary: pre bs rule: b64_quanta.induct)
  case 1
  then show ?case by (simp add: validLen_of_def holders_of_def decoded_def decode_groups.simps decode_rest_def)
next
  case (2 p q r t rest)
  obtain i j where v: "b64_val p = Some i" "b64_val q = Some j"
    using "2.prems" by (auto split: option.splits)
  note pq = revLookup_val [OF v(1)] revLookup_val [OF v(2)]
  have c: "charAt (pre @ p # q # r # t # rest) (length pre) = int i"
      "charAt (pre @ p # q # r # t # rest) (length pre + 1) = int j"
    unfolding charAt_pre using pq by (simp_all add: charAt_def)
  show ?case
  proof (cases "r = CHR ''=''")
    case True
    then have s: "t = CHR ''=''" "rest = []" "bs = [byte_of (i * 4 + j div 16)]"
      using "2.prems" v by (auto split: if_splits)
    have "validLen_of [p, q, r, t] = 2" "holders_of [p, q, r, t] = 2"
      using True pq by (simp_all add: validLen_of_def holders_of_def)
    then show ?thesis
      using c rest_one [OF pq(2) pq(5)] unfolding s(2)
      by (simp add: s decoded_def decode_groups.simps decode_rest_def byte_of_def)
  next
    case rn: False
    then obtain k where k: "b64_val r = Some k" using "2.prems" v by (auto split: option.splits)
    note rk = revLookup_val [OF k]
    have ck: "charAt (pre @ p # q # r # t # rest) (length pre + 2) = int k"
      unfolding charAt_pre using rk by (simp add: charAt_def numeral_2_eq_2)
    show ?thesis
    proof (cases "t = CHR ''=''")
      case True
      then have s: "rest = []" "bs = [byte_of (i * 4 + j div 16), byte_of (j mod 16 * 16 + k div 4)]"
        using "2.prems" v k rn by (auto split: if_splits)
      have "validLen_of [p, q, r, t] = 3" "holders_of [p, q, r, t] = 1"
        using True pq rk by (simp_all add: validLen_of_def holders_of_def)
      then show ?thesis
        using c ck rest_two [OF pq(2) pq(5) rk(2)] unfolding s(1)
        by (simp add: s decoded_def decode_groups.simps decode_rest_def byte_of_def Let_def)
    next
      case False
      then obtain l bs' where l: "b64_val t = Some l" "b64_quanta rest = Some bs'"
          "bs = byte_of (i * 4 + j div 16) # byte_of (j mod 16 * 16 + k div 4) # byte_of (k mod 4 * 64 + l) # bs'"
        using "2.prems" v k rn by (auto split: option.splits)
      note tl = revLookup_val [OF l(1)]
      have n: "CHR ''='' \<notin> {p, q, r, t}" using pq rk tl by auto
      have ih: "length rest mod 4 = 0 \<and> (holders_of rest > 0 \<longrightarrow> validLen_of rest > 0) \<and>
          (validLen_of rest + holders_of rest) * 3 div 4 = length bs' + holders_of rest \<and>
          map word_of_int (decoded ((pre @ [p, q, r, t]) @ rest) (length (pre @ [p, q, r, t])) (validLen_of rest) (holders_of rest)) = bs'"
        by (rule "2.IH") (use v k rn False l in auto)
      have len: "length (pre @ [p, q, r, t]) = length pre + 4" "(pre @ [p, q, r, t]) @ rest = pre @ p # q # r # t # rest"
        by simp_all
      have "(validLen_of rest + 4 + holders_of rest) * 3 = (validLen_of rest + holders_of rest) * 3 + 3 * 4" by simp
      then have d: "(validLen_of rest + 4 + holders_of rest) * 3 div 4 = (validLen_of rest + holders_of rest) * 3 div 4 + 3"
        by (simp only: div_mult_self3 add.commute)
      have h: "holders_of rest > 0 \<longrightarrow> validLen_of rest > 0" using ih by blast
      show ?thesis
        using ih decoded_group [OF v k l(1) refl h, of pre] unfolding len lengths_group [OF n] d l(3)
        by (simp add: byte_of_def)
    qed
  qed
qed simp_all

lemma toByteArray_decoded:
  assumes "length s mod 4 = 0"
  shows "toByteArray s =
    (if (int (validLen_of s) + int (holders_of s)) * 3 div 4 - int (holders_of s) < 0
     then Inl (RangeError ''Invalid typed array length'')
     else Inr (fill_array (nat ((int (validLen_of s) + int (holders_of s)) * 3 div 4 - int (holders_of s)))
            (decoded s 0 (validLen_of s) (holders_of s))))"
  unfolding toByteArray_def getLens_lengths [OF assms] decoded_def Let_def by (simp add: case_prod_beta)

lemma fill_exact: "length ws = n \<Longrightarrow> fill_array n ws = map word_of_int ws"
  by (simp add: fill_array_def)

lemma quanta_bytes:
  assumes "b64_quanta s = Some bs"
  shows "toByteArray s = Inr bs"
proof -
  let ?v = "validLen_of s" and ?h = "holders_of s"
  have q: "length s mod 4 = 0" "(?v + ?h) * 3 div 4 = length bs + ?h" "map word_of_int (decoded s 0 ?v ?h) = bs"
    using quanta_decode [OF assms, of "[]"] by simp_all
  have "(int ?v + int ?h) * 3 div 4 = int ((?v + ?h) * 3 div 4)" by (simp add: zdiv_int)
  then have l: "(int ?v + int ?h) * 3 div 4 - int ?h = int (length bs)" using q(2) by simp
  have f: "length (decoded s 0 ?v ?h) = length bs" using q(3) by (metis length_map)
  show ?thesis
    unfolding toByteArray_decoded [OF q(1)] l using q(3) fill_exact [OF f] by simp
qed

text \<open>The daemons drop line ends wherever they are, the page counts them as characters.\<close>

definition no_line_ends :: "string \<Rightarrow> string" where
  "no_line_ends s = filter (\<lambda>c. c \<noteq> CHR 0x0A \<and> c \<noteq> CHR 0x0D) s"

lemma line_ends_differ:
  "b64_decode (''TWFu'' @ replicate 4 (CHR 0x0A)) = Some [77, 97, 110]"
  "toByteArray (''TWFu'' @ replicate 4 (CHR 0x0A)) \<noteq> Inr [77, 97, 110]"
  by code_simp+

text \<open>
  C37. The page's decoder against the daemons' one: a text without line ends that the daemons accept is
  decoded to the same bytes, and one with line ends is once they are taken out, which the page does not do
  itself (\<open>line_ends_differ\<close>). What the page encodes, both decode to the bytes it was made of.
\<close>

theorem toByteArray_decodes:
  "(b64_decode s = Some bs \<longrightarrow> toByteArray (no_line_ends s) = Inr bs
      \<and> (CHR 0x0A \<notin> set s \<longrightarrow> CHR 0x0D \<notin> set s \<longrightarrow> toByteArray s = Inr bs))
   \<and> toByteArray (fromByteArray xs) = Inr xs \<and> b64_decode (fromByteArray xs) = Some xs"
proof -
  have "no_line_ends s = s" if "CHR 0x0A \<notin> set s" "CHR 0x0D \<notin> set s"
    unfolding no_line_ends_def using that by (intro filter_True) auto
  then show ?thesis
    by (auto simp: b64_decode_def no_line_ends_def [symmetric] fromByteArray_encode b64_quanta_encode
        b64_decode_encode [unfolded b64_decode_def no_line_ends_def [symmetric]] intro: quanta_bytes)
qed

section \<open>Lengths\<close>

lemma validLen_le: "validLen_of s \<le> length s"
  by (auto simp: validLen_of_def dest: index_of_bound split: option.splits)

lemma group_count:
  assumes "length s mod 4 = 0" and "\<not> (\<exists>rest. s = CHR ''='' # rest)"
  shows "\<exists>m. validLen_of s + holders_of s = m * 4 \<and> m \<le> length s div 4 \<and> holders_of s \<le> 3 * m"
proof (cases "validLen_of s = length s")
  case True
  then show ?thesis using assms(1) by (intro exI [of _ "length s div 4"]) (auto simp: holders_of_def)
next
  case False
  let ?v = "validLen_of s"
  have v: "?v < length s" "0 < ?v"
    using False validLen_le [of s] assms(2) by (cases s; auto simp: validLen_of_def split: option.splits if_splits)+
  have h: "holders_of s = 4 - ?v mod 4" using False by (simp add: holders_of_def)
  have "?v div 4 < length s div 4" using v(1) assms(1) by presburger
  moreover have "?v + (4 - ?v mod 4) = (?v div 4 + 1) * 4" by simp presburger
  moreover have "4 - ?v mod 4 \<le> 3 * (?v div 4 + 1)"
  proof (cases "?v mod 4 = 0")
    case True
    with v(2) have "0 < ?v div 4" by auto
    then have "6 \<le> 3 * (?v div 4 + 1)" by simp
    moreover have "4 - ?v mod 4 \<le> 6" by simp
    ultimately show ?thesis by (rule order_trans [rotated])
  next
    case False
    then have "4 - ?v mod 4 \<le> 3" by simp
    then show ?thesis by (simp add: trans_le_add1)
  qed
  ultimately show ?thesis unfolding h by (intro exI [of _ "?v div 4 + 1"]) simp
qed

text \<open>
  C38. The bounds of the decoder: a string whose length is no multiple of four is refused; one that
  starts with a padding character makes the array length negative, so it is refused with a range
  error although \<open>byteLength\<close> answers -1; every other string is decoded, to exactly as many bytes as
  \<open>byteLength\<close> says, which is at most three for every four characters.
\<close>

theorem byteLength_bounds:
  "if length s mod 4 \<noteq> 0
   then \<exists>e. byteLength s = Inl e \<and> toByteArray s = Inl e
   else if \<exists>rest. s = CHR ''='' # rest
   then byteLength s = Inr (- 1) \<and> toByteArray s = Inl (RangeError ''Invalid typed array length'')
   else \<exists>n bs. byteLength s = Inr (int n) \<and> toByteArray s = Inr bs \<and> length bs = n \<and> n \<le> length s div 4 * 3"
proof (cases "length s mod 4 = 0")
  case True
  let ?v = "validLen_of s" and ?h = "holders_of s"
  let ?len = "(int ?v + int ?h) * 3 div 4 - int ?h"
  have b: "byteLength s = Inr ?len" by (simp add: byteLength_def getLens_lengths [OF True])
  show ?thesis
  proof (cases "\<exists>rest. s = CHR ''='' # rest")
    case eq: True
    then have "?v = 0" "?h = 4" by (auto simp: validLen_of_def holders_of_def)
    then have "?len = - 1" by simp
    then show ?thesis using True eq b toByteArray_decoded [OF True] by simp
  next
    case False
    obtain m where m: "?v + ?h = m * 4" "m \<le> length s div 4" "?h \<le> 3 * m"
      using group_count [OF True False] by blast
    then have "(int ?v + int ?h) * 3 div 4 = int (3 * m)" proof -
      have "int ?v + int ?h = int m * 4" using m(1) by (simp flip: of_nat_add)
      then show ?thesis by simp
    qed
    then have "?len = int (3 * m - ?h)" using m(3) by (simp add: of_nat_diff)
    moreover have "length (fill_array n ws) = n" for n ws by (simp add: fill_array_def)
    moreover have "3 * m - ?h \<le> length s div 4 * 3" using m(2) by simp
    ultimately show ?thesis
      using True False by (simp add: b toByteArray_decoded [OF True] del: of_nat_diff)
  qed
qed (simp add: byteLength_def toByteArray_def getLens_def Let_def)

end
