(* ===== verification/Js_Curl.thy ===== *)
theory Js_Curl
  imports Js_Values
begin

text \<open>
  The request snippets of the page that the provision daemon serves
  (\<open>cmds/modules/provisiond/swagger/swagger-ui-es-bundle-core.js\<close>, exports
  \<open>requestSnippetGenerator_curl_bash\<close>, \<open>requestSnippetGenerator_curl_cmd\<close> and
  \<open>requestSnippetGenerator_curl_powershell\<close>): the text of a \<open>curl\<close> command for a request, with the
  quoting rules of three shells. Against it stands a lexer for the words of a POSIX shell command, and
  the theorems say when the shell reads back the words that the generator was given.
\<close>

section \<open>Requests\<close>

text \<open>
  A field of a form is a file (its name and its media type, empty when it has none) or a value. The
  body is absent, an Immutable \<open>Map\<close> of fields, or a plain JavaScript value.
\<close>

datatype form_field = FFile string string | FValue jsv

datatype body = NoBody | MapBody "(string \<times> form_field) list" | ValueBody jsv

record request =
  req_curlOptions :: "string list option"
  req_method :: string
  req_url :: string
  req_headers :: "(string \<times> string) list"
  req_body :: body

fun body_truthy :: "body \<Rightarrow> bool" where
  "body_truthy NoBody = False"
| "body_truthy (MapBody kvs) = True"
| "body_truthy (ValueBody v) = truthy v"

section \<open>Quoting\<close>

definition extractKey :: "string \<Rightarrow> string" where
  "extractKey k = (if sublist ''_**[]'' k then js_trim (before_first ''_**[]'' k) else k)"

text \<open>The test \<open>/^[_\/-]/\<close>.\<close>

definition flag_like :: "string \<Rightarrow> bool" where
  "flag_like s = (case s of [] \<Rightarrow> False | c # _ \<Rightarrow> c \<in> {CHR ''_'', CHR ''/'', CHR ''-''})"

definition escapeShell :: "string \<Rightarrow> string" where
  "escapeShell s =
     (if s = ''-d '' \<or> flag_like s then s
      else [CHR 0x27] @ replace_all [CHR 0x27] [CHR 0x27, CHR 0x5C, CHR 0x27, CHR 0x27] s @ [CHR 0x27])"

definition escapeCMD :: "string \<Rightarrow> string" where
  "escapeCMD s =
     (let e = replace_all [CHR 0x0A] [CHR ''^'', CHR 0x0A]
                (replace_all [CHR 0x22] [CHR 0x22, CHR 0x22]
                  (replace_all [CHR 0x5C, CHR 0x22] [CHR 0x5C, CHR 0x5C, CHR 0x22]
                    (replace_all ''^'' ''^^'' s)))
      in if e = ''-d '' then replace_all ''-d '' (''-d ^'' @ [CHR 0x0A]) e
         else if flag_like e then e
         else [CHR 0x22] @ e @ [CHR 0x22])"

definition escapePowershell :: "string \<Rightarrow> string" where
  "escapePowershell s =
     (if s = ''-d '' then s
      else if CHR 0x0A \<in> set s
      then [CHR ''@'', CHR 0x22, CHR 0x0A]
             @ replace_first ''$'' [CHR 0x60, CHR ''$'']
                 (replace_all [CHR 0x60] [CHR 0x60, CHR 0x60] (replace_all [CHR 0x22] [CHR 0x5C, CHR 0x22] s))
             @ [CHR 0x0A, CHR 0x22, CHR ''@'']
      else if flag_like s then s
      else [CHR 0x27] @ replace_all [CHR 0x27] [CHR 0x27, CHR 0x27] (replace_all [CHR 0x22] [CHR 0x22, CHR 0x22] s)
             @ [CHR 0x27])"

section \<open>The body of a form\<close>

text \<open>\<open>s.replace(/(\r\n|\r|\n)/g, "\n  ")\<close>.\<close>

fun indent_lines :: "string \<Rightarrow> string" where
  "indent_lines [] = []"
| "indent_lines (c # cs) =
     (if c = CHR 0x0D
      then (case cs of
              [] \<Rightarrow> newline_at 2
            | d # ds \<Rightarrow> if d = CHR 0x0A then newline_at 2 @ indent_lines ds else newline_at 2 @ indent_lines cs)
      else if c = CHR 0x0A then newline_at 2 @ indent_lines cs
      else c # indent_lines cs)"

definition field_text :: "string \<times> form_field \<Rightarrow> string" where
  "field_text kv =
     (let k = extractKey (fst kv)
      in case snd kv of
           FFile name type \<Rightarrow>
             ''  '' @ [CHR 0x22] @ k @ [CHR 0x22] @ '': {'' @ newline_at 4 @ [CHR 0x22] @ ''name'' @ [CHR 0x22] @ '': ''
               @ [CHR 0x22] @ name @ [CHR 0x22]
               @ (if type \<noteq> []
                  then '','' @ newline_at 4 @ [CHR 0x22] @ ''type'' @ [CHR 0x22] @ '': '' @ [CHR 0x22] @ type @ [CHR 0x22]
                  else [])
               @ newline_at 2 @ ''}''
         | FValue v \<Rightarrow> ''  '' @ [CHR 0x22] @ k @ [CHR 0x22] @ '': '' @ indent_lines (stringify2 0 v))"

definition getStringBodyOfMap :: "(string \<times> form_field) list \<Rightarrow> string" where
  "getStringBodyOfMap kvs =
     ''{'' @ [CHR 0x0A] @ js_join ('','' @ [CHR 0x0A]) (map field_text kvs) @ [CHR 0x0A] @ ''}''"

section \<open>The command\<close>

text \<open>The local closures over the text \<open>u\<close> so far: \<open>l\<close>, \<open>p\<close>, \<open>f\<close> and \<open>d\<close>.\<close>

definition addWords :: "(string \<Rightarrow> string) \<Rightarrow> string list \<Rightarrow> string \<Rightarrow> string" where
  "addWords escape args u = u @ '' '' @ js_join '' '' (map escape args)"

definition addWordsWithoutLeadingSpace :: "(string \<Rightarrow> string) \<Rightarrow> string list \<Rightarrow> string \<Rightarrow> string" where
  "addWordsWithoutLeadingSpace escape args u = u @ js_join '' '' (map escape args)"

definition addNewLine :: "string \<Rightarrow> string \<Rightarrow> string" where
  "addNewLine newLine u = u @ '' '' @ newLine"

definition addIndent :: "string \<Rightarrow> string" where
  "addIndent u = u @ ''  ''"

definition multipart_header :: "string \<times> string \<Rightarrow> bool" where
  "multipart_header h \<longleftrightarrow> lower (fst h) = ''content-type'' \<and> lower (snd h) = ''multipart/form-data''"

definition addHeader :: "(string \<Rightarrow> string) \<Rightarrow> string \<Rightarrow> string \<times> string \<Rightarrow> string \<Rightarrow> string" where
  "addHeader escape newLine h u =
     addWordsWithoutLeadingSpace escape [''-H'', fst h @ '': '' @ snd h] (addIndent (addNewLine newLine u))"

text \<open>The argument that follows \<open>-F\<close>.\<close>

definition form_word :: "string \<times> form_field \<Rightarrow> string" where
  "form_word kv =
     (case snd kv of
        FFile name type \<Rightarrow> extractKey (fst kv) @ ''=@'' @ name @ (if type \<noteq> [] then '';type='' @ type else [])
      | FValue v \<Rightarrow> extractKey (fst kv) @ ''='' @ to_string v)"

definition addField :: "(string \<Rightarrow> string) \<Rightarrow> string \<Rightarrow> string \<times> form_field \<Rightarrow> string \<Rightarrow> string" where
  "addField escape newLine kv u =
     addWords escape [form_word kv]
       (addWordsWithoutLeadingSpace escape [''-F''] (addIndent (addNewLine newLine u)))"

definition addBody :: "(string \<Rightarrow> string) \<Rightarrow> string \<Rightarrow> bool \<Rightarrow> request \<Rightarrow> string \<Rightarrow> js_error + string" where
  "addBody escape newLine multipart req u =
     (if body_truthy (req_body req)
      then if multipart \<and> req_method req \<in> {''POST'', ''PUT'', ''PATCH''}
           then case req_body req of
                  MapBody kvs \<Rightarrow> Inr (fold (addField escape newLine) kvs u)
                | _ \<Rightarrow> Inl (TypeError ''entrySeq is not a function'')
           else let u' = addWordsWithoutLeadingSpace escape [''-d ''] (addIndent (addNewLine newLine u))
                in case req_body req of
                     MapBody kvs \<Rightarrow> Inr (addWordsWithoutLeadingSpace escape [getStringBodyOfMap kvs] u')
                   | ValueBody (JStr s) \<Rightarrow> Inr (addWordsWithoutLeadingSpace escape [s] u')
                   | ValueBody v \<Rightarrow> Inr (addWordsWithoutLeadingSpace escape [stringify v] u')
                   | NoBody \<Rightarrow> Inr u'
      else if req_method req = ''POST''
      then Inr (addWordsWithoutLeadingSpace escape [''-d '' @ [CHR 0x27, CHR 0x27]] (addIndent (addNewLine newLine u)))
      else Inr u)"

definition curlify :: "request \<Rightarrow> (string \<Rightarrow> string) \<Rightarrow> string \<Rightarrow> string \<Rightarrow> js_error + string" where
  "curlify req escape newLine ext =
     (let u0 = ''curl'' @ ext;
          u1 = (case req_curlOptions req of None \<Rightarrow> u0 | Some opts \<Rightarrow> addWords escape opts u0);
          u2 = addWords escape [''-X'', req_method req] u1;
          u3 = addWordsWithoutLeadingSpace escape [req_url req] (addIndent (addNewLine newLine u2));
          u4 = fold (addHeader escape newLine) (req_headers req) u3
      in addBody escape newLine (list_ex multipart_header (req_headers req)) req u4)"

definition requestSnippetGenerator_curl_powershell :: "request \<Rightarrow> js_error + string" where
  "requestSnippetGenerator_curl_powershell req = curlify req escapePowershell [CHR 0x60, CHR 0x0A] ''.exe''"

definition requestSnippetGenerator_curl_bash :: "request \<Rightarrow> js_error + string" where
  "requestSnippetGenerator_curl_bash req = curlify req escapeShell [CHR 0x5C, CHR 0x0A] []"

definition requestSnippetGenerator_curl_cmd :: "request \<Rightarrow> js_error + string" where
  "requestSnippetGenerator_curl_cmd req = curlify req escapeCMD [CHR ''^'', CHR 0x0A] []"

section \<open>The words of a shell command\<close>

text \<open>
  A specification of how a POSIX shell splits a simple command into words: blanks separate words,
  a single quote opens a literal run, a backslash takes the next character literally and joins lines.
  A character that may mean something else to the shell gives \<open>None\<close>, so that \<open>Some ws\<close> says that the
  text is one command made of exactly the words \<open>ws\<close>. The first argument says whether a quote is open,
  the second is the word being read.
\<close>

definition sh_plain :: "char \<Rightarrow> bool" where
  "sh_plain c \<longleftrightarrow> c \<in> set ''ABCDEFGHIJKLMNOPQRSTUVWXYZabcdefghijklmnopqrstuvwxyz0123456789_/-.:=,@%+''"

fun word_of :: "string option \<Rightarrow> string" where
  "word_of None = []"
| "word_of (Some w) = w"

fun words_of :: "string option \<Rightarrow> string list" where
  "words_of None = []"
| "words_of (Some w) = [w]"

fun sh_lex :: "bool \<Rightarrow> string option \<Rightarrow> string \<Rightarrow> string list option" where
  "sh_lex True w [] = None"
| "sh_lex True w (c # cs) =
     (if c = CHR 0x27 then sh_lex False w cs else sh_lex True (Some (word_of w @ [c])) cs)"
| "sh_lex False w [] = Some (words_of w)"
| "sh_lex False w (c # cs) =
     (if c = CHR '' '' then map_option (\<lambda>ws. words_of w @ ws) (sh_lex False None cs)
      else if c = CHR 0x27 then sh_lex True (Some (word_of w)) cs
      else if c = CHR 0x5C
      then (case cs of
              [] \<Rightarrow> None
            | d # ds \<Rightarrow> if d = CHR 0x0A then sh_lex False w ds else sh_lex False (Some (word_of w @ [d])) ds)
      else if sh_plain c then sh_lex False (Some (word_of w @ [c])) cs
      else None)"

definition sh_words :: "string \<Rightarrow> string list option" where
  "sh_words s = sh_lex False None s"

text \<open>The values that reach the shell as they are: quoted ones, and unquoted ones of plain characters.\<close>

definition literal :: "string \<Rightarrow> bool" where
  "literal s \<longleftrightarrow> (flag_like s \<longrightarrow> list_all sh_plain s)"

text \<open>The words that a request stands for.\<close>

definition body_words :: "request \<Rightarrow> string list" where
  "body_words req =
     (case req_body req of
        MapBody kvs \<Rightarrow>
          if list_ex multipart_header (req_headers req) \<and> req_method req \<in> {''POST'', ''PUT'', ''PATCH''}
          then concat (map (\<lambda>kv. [''-F'', form_word kv]) kvs)
          else [''-d'', getStringBodyOfMap kvs]
      | ValueBody v \<Rightarrow>
          if truthy v then [''-d'', case v of JStr s \<Rightarrow> s | _ \<Rightarrow> stringify v]
          else if req_method req = ''POST'' then [''-d'', []] else []
      | NoBody \<Rightarrow> if req_method req = ''POST'' then [''-d'', []] else [])"

definition curl_words :: "request \<Rightarrow> string list" where
  "curl_words req =
     ''curl'' # (case req_curlOptions req of None \<Rightarrow> [] | Some opts \<Rightarrow> opts)
       @ [''-X'', req_method req, req_url req]
       @ concat (map (\<lambda>h. [''-H'', fst h @ '': '' @ snd h]) (req_headers req)) @ body_words req"

section \<open>Reading the words back\<close>

lemma sh_lex_quoted:
  "sh_lex True (Some w) (replace_all [CHR 0x27] [CHR 0x27, CHR 0x5C, CHR 0x27, CHR 0x27] s @ CHR 0x27 # rest)
     = sh_lex False (Some (w @ s)) rest"
  by (induction s arbitrary: w) (simp_all add: replace_all_char)

lemma sh_plain_not_special:
  assumes "sh_plain c"
  shows "c \<noteq> CHR '' ''" "c \<noteq> CHR 0x27" "c \<noteq> CHR 0x5C"
  using assms by (auto simp: sh_plain_def)

lemma sh_lex_plain:
  assumes "list_all sh_plain s"
  shows "sh_lex False (Some w) (s @ rest) = sh_lex False (Some (w @ s)) rest"
  using assms by (induction s arbitrary: w) (auto dest: sh_plain_not_special)

lemma sh_lex_escaped:
  assumes "literal s"
  shows "sh_lex False None (escapeShell s @ rest) = sh_lex False (Some s) rest"
proof (cases "flag_like s")
  case True
  then have "list_all sh_plain s" "s \<noteq> []" using assms by (auto simp: literal_def flag_like_def)
  then obtain c cs where s: "s = c # cs" and p: "sh_plain c" "list_all sh_plain cs" by (cases s) auto
  show ?thesis using True p sh_lex_plain [OF p(2), of "[c]"] sh_plain_not_special [OF p(1)]
    by (simp add: escapeShell_def s)
next
  case False
  then have "s \<noteq> ''-d ''" by (auto simp: flag_like_def)
  then show ?thesis using False sh_lex_quoted [of "[]" s rest] by (simp add: escapeShell_def)
qed

text \<open>
  What the shell has read after the text \<open>u\<close>: the complete words \<open>ws\<close>, and the word \<open>w\<close> it is in.
\<close>

definition reads :: "string \<Rightarrow> string list \<Rightarrow> string option \<Rightarrow> bool" where
  "reads u ws w \<longleftrightarrow>
     (\<forall>rest. sh_lex False None (u @ rest) = map_option (\<lambda>r. ws @ r) (sh_lex False w rest))"

lemma reads_end: "reads u ws w \<Longrightarrow> sh_words u = Some (ws @ words_of w)"
  by (simp add: reads_def sh_words_def) (metis append_Nil2 option.simps(9) sh_lex.simps(3))

lemma reads_space: "reads u ws w \<Longrightarrow> reads (u @ '' '') (ws @ words_of w) None"
  by (auto simp: reads_def option.map_comp comp_def)

lemma reads_blanks: "reads u ws None \<Longrightarrow> reads (u @ '' '') ws None"
  by (drule reads_space) simp

lemma reads_line: "reads u ws w \<Longrightarrow> reads (u @ [CHR 0x5C, CHR 0x0A]) ws w"
  by (simp add: reads_def)

lemma reads_escaped:
  assumes "reads u ws None" "literal s"
  shows "reads (u @ escapeShell s) ws (Some s)"
  using assms by (simp add: reads_def sh_lex_escaped)

definition final_word :: "string list \<Rightarrow> string option" where
  "final_word args = (if args = [] then None else Some (last args))"

lemma butlast_final_word [simp]: "butlast args @ words_of (final_word args) = args"
  by (simp add: final_word_def)

lemma reads_words:
  assumes "reads u ws None" "list_all literal args"
  shows "reads (u @ js_join '' '' (map escapeShell args)) (ws @ butlast args) (final_word args)"
  using assms
proof (induction args arbitrary: u ws)
  case (Cons a as)
  have a: "reads (u @ escapeShell a) ws (Some a)" using Cons.prems by (simp add: reads_escaped)
  show ?case
  proof (cases as)
    case Nil
    then show ?thesis using a by (simp add: final_word_def)
  next
    case (Cons b bs)
    have "reads ((u @ escapeShell a @ '' '') @ js_join '' '' (map escapeShell as)) ((ws @ [a]) @ butlast as) (final_word as)"
      using reads_space [OF a] Cons.prems by (intro Cons.IH) simp_all
    then show ?thesis by (simp add: Cons final_word_def)
  qed
qed (simp add: final_word_def)

text \<open>The closures of the generator, with the escaping rule of the POSIX shell.\<close>

lemmas curl_adders = addWords_def addWordsWithoutLeadingSpace_def addNewLine_def addIndent_def

lemma reads_addWords:
  assumes "reads u ws w" "list_all literal args"
  shows "reads (addWords escapeShell args u) (ws @ words_of w @ butlast args) (final_word args)"
  using reads_words [OF reads_space [OF assms(1)] assms(2)] by (simp add: curl_adders)

lemma reads_indent:
  assumes "reads u ws w"
  shows "reads (addIndent (addNewLine [CHR 0x5C, CHR 0x0A] u)) (ws @ words_of w) None"
  using reads_blanks [OF reads_blanks [OF reads_line [OF reads_space [OF assms]]]]
  by (simp add: curl_adders)

lemma reads_addWordsWithoutLeadingSpace:
  assumes "reads u ws None" "list_all literal args"
  shows "reads (addWordsWithoutLeadingSpace escapeShell args u) (ws @ butlast args) (final_word args)"
  using reads_words [OF assms] by (simp add: curl_adders)

text \<open>The words read so far, counting the one that is being read.\<close>

definition has_read :: "string \<Rightarrow> string list \<Rightarrow> bool" where
  "has_read u ws \<longleftrightarrow> (\<exists>vs w. reads u vs w \<and> ws = vs @ words_of w)"

lemma has_readI: "reads u vs w \<Longrightarrow> ws = vs @ words_of w \<Longrightarrow> has_read u ws"
  by (auto simp: has_read_def)

lemma has_read_end: "has_read u ws \<Longrightarrow> sh_words u = Some ws"
  by (auto simp: has_read_def dest: reads_end)

lemma has_read_addWords:
  assumes "has_read u ws" "list_all literal args"
  shows "has_read (addWords escapeShell args u) (ws @ args)"
proof -
  obtain vs w where "reads u vs w" "ws = vs @ words_of w" using assms(1) by (auto simp: has_read_def)
  then show ?thesis using reads_addWords [OF _ assms(2)]
    by (metis append.assoc butlast_final_word has_read_def)
qed

lemma has_read_line:
  assumes "has_read u ws" "list_all literal args"
  shows "has_read (addWordsWithoutLeadingSpace escapeShell args (addIndent (addNewLine [CHR 0x5C, CHR 0x0A] u))) (ws @ args)"
proof -
  obtain vs w where "reads u vs w" "ws = vs @ words_of w" using assms(1) by (auto simp: has_read_def)
  then show ?thesis using reads_addWordsWithoutLeadingSpace [OF reads_indent assms(2)]
    by (metis append.assoc butlast_final_word has_read_def)
qed

lemma literal_flags [simp]: "literal ''-X''" "literal ''-H''" "literal ''-F''"
  by (simp_all add: literal_def flag_like_def sh_plain_def)

lemma has_read_headers:
  assumes "has_read u ws" "list_all (\<lambda>h. literal (fst h @ '': '' @ snd h)) hs"
  shows "has_read (fold (addHeader escapeShell [CHR 0x5C, CHR 0x0A]) hs u)
           (ws @ concat (map (\<lambda>h. [''-H'', fst h @ '': '' @ snd h]) hs))"
  using assms
proof (induction hs arbitrary: u ws)
  case (Cons h hs)
  have "has_read (addHeader escapeShell [CHR 0x5C, CHR 0x0A] h u) (ws @ [''-H'', fst h @ '': '' @ snd h])"
    unfolding addHeader_def using Cons.prems by (intro has_read_line) simp_all
  from Cons.IH [OF this] show ?case using Cons.prems by simp
qed simp

lemma has_read_fields:
  assumes "has_read u ws" "list_all (\<lambda>kv. literal (form_word kv)) kvs"
  shows "has_read (fold (addField escapeShell [CHR 0x5C, CHR 0x0A]) kvs u)
           (ws @ concat (map (\<lambda>kv. [''-F'', form_word kv]) kvs))"
  using assms
proof (induction kvs arbitrary: u ws)
  case (Cons kv kvs)
  have "has_read (addField escapeShell [CHR 0x5C, CHR 0x0A] kv u) ((ws @ [''-F'']) @ [form_word kv])"
    unfolding addField_def using Cons.prems by (intro has_read_addWords has_read_line) simp_all
  from Cons.IH [OF this] show ?case using Cons.prems by simp
qed simp

lemma escapeShell_data [simp]: "escapeShell ''-d '' = ''-d ''"
  by (simp add: escapeShell_def)

text \<open>The flag \<open>-d\<close> carries its own blank, so the body follows it directly.\<close>

lemma has_read_data:
  assumes "has_read u ws" "literal s"
  shows "has_read (addWordsWithoutLeadingSpace escapeShell [s]
                    (addWordsWithoutLeadingSpace escapeShell [''-d ''] (addIndent (addNewLine [CHR 0x5C, CHR 0x0A] u))))
           (ws @ [''-d'', s])"
proof -
  obtain vs w where r: "reads u vs w" "ws = vs @ words_of w" using assms(1) by (auto simp: has_read_def)
  have "reads (addIndent (addNewLine [CHR 0x5C, CHR 0x0A] u) @ ''-d '') (ws @ [''-d'']) None"
    using reads_indent [OF r(1)] by (simp add: reads_def r(2) sh_plain_def option.map_comp comp_def)
  from has_readI [OF reads_escaped [OF this assms(2)] refl] show ?thesis
    by (simp add: curl_adders)
qed

lemma has_read_empty_data:
  assumes "has_read u ws"
  shows "has_read (addWordsWithoutLeadingSpace escapeShell [''-d '' @ [CHR 0x27, CHR 0x27]]
                    (addIndent (addNewLine [CHR 0x5C, CHR 0x0A] u))) (ws @ [''-d'', []])"
proof -
  obtain vs w where r: "reads u vs w" "ws = vs @ words_of w" using assms by (auto simp: has_read_def)
  have "reads (addIndent (addNewLine [CHR 0x5C, CHR 0x0A] u) @ ''-d '' @ [CHR 0x27, CHR 0x27]) (ws @ [''-d'']) (Some [])"
    using reads_indent [OF r(1)] by (simp add: reads_def r(2) sh_plain_def option.map_comp comp_def)
  from has_readI [OF this refl] show ?thesis by (simp add: curl_adders escapeShell_def flag_like_def)
qed

lemma list_all_pairs: "list_all P (concat (map (\<lambda>x. [c, f x]) xs)) \<Longrightarrow> list_all (\<lambda>x. P (f x)) xs"
  by (induction xs) auto

text \<open>A form that is not sent as a \<open>Map\<close>: its fields cannot be enumerated.\<close>

definition form_without_map :: "request \<Rightarrow> bool" where
  "form_without_map req \<longleftrightarrow>
     list_ex multipart_header (req_headers req) \<and> req_method req \<in> {''POST'', ''PUT'', ''PATCH''}
       \<and> (case req_body req of ValueBody v \<Rightarrow> truthy v | _ \<Rightarrow> False)"

lemma has_read_body:
  assumes "has_read u ws" "list_all literal (body_words req)" "\<not> form_without_map req"
  shows "\<exists>u'. addBody escapeShell [CHR 0x5C, CHR 0x0A] (list_ex multipart_header (req_headers req)) req u = Inr u'
           \<and> has_read u' (ws @ body_words req)"
proof (cases "req_body req")
  case NoBody
  then show ?thesis using assms has_read_empty_data [OF assms(1)]
    by (simp add: addBody_def body_words_def)
next
  case (MapBody kvs)
  show ?thesis
  proof (cases "list_ex multipart_header (req_headers req) \<and> req_method req \<in> {''POST'', ''PUT'', ''PATCH''}")
    case True
    then have "list_all (\<lambda>kv. literal (form_word kv)) kvs"
      using assms(2) MapBody by (auto simp: body_words_def dest: list_all_pairs)
    then show ?thesis using True MapBody has_read_fields [OF assms(1)]
      by (auto simp: addBody_def body_words_def)
  next
    case False
    then show ?thesis using assms MapBody has_read_data [OF assms(1)]
      by (auto simp: addBody_def body_words_def Let_def)
  qed
next
  case (ValueBody v)
  show ?thesis
  proof (cases "truthy v")
    case True
    then show ?thesis using assms ValueBody has_read_data [OF assms(1)]
      by (cases v) (auto simp: addBody_def body_words_def form_without_map_def Let_def)
  next
    case False
    then show ?thesis using ValueBody has_read_empty_data [OF assms(1)] assms
      by (simp add: addBody_def body_words_def)
  qed
qed

lemma has_read_curl: "has_read ''curl'' [''curl'']"
  by (rule has_readI [of _ "[]" "Some ''curl''"]) (simp_all add: reads_def sh_plain_def option.map_ident)

lemma addBody_form_without_map:
  assumes "form_without_map req"
  shows "addBody escape newLine (list_ex multipart_header (req_headers req)) req u
           = Inl (TypeError ''entrySeq is not a function'')"
  using assms by (cases "req_body req") (simp_all add: form_without_map_def addBody_def)

text \<open>
  C29. The \<open>curl\<close> command that the page generates for a POSIX shell is read back by the shell as exactly
  the words of the request: the options, the method, the URL, one \<open>-H\<close> pair per header and the body or
  the fields of the form, whatever quotes, blanks, line ends or metacharacters they contain, provided that
  a value that begins with \<open>_\<close>, \<open>/\<close> or \<open>-\<close> has plain characters only. A form whose body is not a \<open>Map\<close>
  raises a \<open>TypeError\<close> instead.
\<close>

theorem bash_curl_words:
  assumes "list_all literal (curl_words req)"
  shows "if form_without_map req
         then requestSnippetGenerator_curl_bash req = Inl (TypeError ''entrySeq is not a function'')
         else \<exists>u. requestSnippetGenerator_curl_bash req = Inr u \<and> sh_words u = Some (curl_words req)"
proof (cases "form_without_map req")
  case True
  then show ?thesis
    by (simp add: requestSnippetGenerator_curl_bash_def curlify_def Let_def addBody_form_without_map)
next
  case False
  let ?nl = "[CHR 0x5C, CHR 0x0A]" and ?opts = "case req_curlOptions req of None \<Rightarrow> [] | Some opts \<Rightarrow> opts"
  let ?u1 = "case req_curlOptions req of None \<Rightarrow> ''curl'' | Some opts \<Rightarrow> addWords escapeShell opts ''curl''"
  have lit: "list_all literal ?opts" "literal (req_method req)" "literal (req_url req)"
      "list_all (\<lambda>h. literal (fst h @ '': '' @ snd h)) (req_headers req)" "list_all literal (body_words req)"
    using assms by (auto simp: curl_words_def dest: list_all_pairs split: option.splits)
  have "has_read ?u1 (''curl'' # ?opts)"
    using has_read_curl has_read_addWords [OF has_read_curl] lit(1) by (auto split: option.splits)
  then have "has_read (addWords escapeShell [''-X'', req_method req] ?u1) ((''curl'' # ?opts) @ [''-X'', req_method req])"
    using lit by (intro has_read_addWords) simp_all
  then have "has_read (addWordsWithoutLeadingSpace escapeShell [req_url req]
                 (addIndent (addNewLine ?nl (addWords escapeShell [''-X'', req_method req] ?u1))))
               (((''curl'' # ?opts) @ [''-X'', req_method req]) @ [req_url req])"
    using lit by (intro has_read_line) simp_all
  from has_read_body [OF has_read_headers [OF this lit(4)] lit(5) False]
  show ?thesis using False
    by (auto simp: requestSnippetGenerator_curl_bash_def curlify_def curl_words_def Let_def dest!: has_read_end)
qed

section \<open>What is not quoted\<close>

lemma sh_lex_length:
  "sh_lex q w s = Some ws \<Longrightarrow> length (concat ws) \<le> length (word_of w) + length s
     \<and> (\<not> q \<and> \<not> list_all sh_plain s \<longrightarrow> length (concat ws) < length (word_of w) + length s)"
proof (induction q w s arbitrary: ws rule: sh_lex.induct)
  case (2 w c cs)
  then show ?case by (auto split: if_splits)
next
  case (3 w)
  then show ?case by (cases w) auto
next
  case (4 w c cs)
  then show ?case by (cases w) (fastforce split: if_splits list.splits)+
qed simp

text \<open>
  A value reaches the shell as one word with its own text exactly when it is literal: each value that
  does not begin with \<open>_\<close>, \<open>/\<close> or \<open>-\<close> does, and one that does begin so is passed on without quotes,
  and then a blank, quote, backslash or metacharacter in it is read by the shell as its own.
\<close>

lemma escapeShell_exact: "sh_words (escapeShell s) = Some [s] \<longleftrightarrow> literal s"
proof
  assume "literal s"
  then show "sh_words (escapeShell s) = Some [s]"
    using sh_lex_escaped [of s "[]"] by (simp add: sh_words_def)
next
  assume "sh_words (escapeShell s) = Some [s]"
  then show "literal s"
    using sh_lex_length [of False None s "[s]"]
    by (auto simp: literal_def escapeShell_def sh_words_def)
qed

end
