(* ===== verification/Js_Sha256.thy ===== *)
theory Js_Sha256
  imports Js_Base64
begin

text \<open>
  The SHA-256 of the page that the provision daemon serves
  (\<open>cmds/modules/provisiond/swagger/swagger-ui-bundle.js\<close>: the class \<open>Hash\<close>, which collects the input
  into blocks, its subclass \<open>Sha256\<close>, and \<open>createCodeChallenge\<close> with \<open>b64toB64UrlEncoded\<close>, which derive
  the challenge of an OAuth 2 login from its verifier). Against it stands the definition of FIPS 180-4 on
  the whole message.

  A JavaScript number is a double: a length is exact below \<open>2 ^ 53\<close> and is a natural number here. Sums
  of a few 32-bit integers are exact as well and the operator \<open>|0\<close> takes them modulo \<open>2 ^ 32\<close>, which is
  addition on 32-bit words; \<open>>>>\<close> and \<open><<\<close> shift such a word.
\<close>

unbundle bit_operations_syntax

section \<open>The class Hash\<close>

text \<open>
  The methods \<open>_update\<close> and \<open>_hash\<close> of the subclass are arguments, its registers are \<open>'h\<close>.
\<close>

record 'h hash =
  h_block :: "byte list"
  h_finalSize :: nat
  h_blockSize :: nat
  h_len :: nat
  h_regs :: 'h

definition new_hash :: "nat \<Rightarrow> nat \<Rightarrow> 'h \<Rightarrow> 'h hash" where
  "new_hash blockSize finalSize regs =
     \<lparr>h_block = replicate blockSize 0, h_finalSize = finalSize, h_blockSize = blockSize, h_len = 0, h_regs = regs\<rparr>"

text \<open>
  The loop of \<open>update\<close>. With a block size of 0 the remainders, and with them the position, are \<open>NaN\<close> in
  the first turn: no byte is copied, \<open>NaN == 0\<close> and the condition of the loop are false, and it ends.
\<close>

partial_function (option) hash_loop ::
  "('h \<Rightarrow> byte list \<Rightarrow> 'h) \<Rightarrow> nat \<Rightarrow> byte list \<Rightarrow> nat \<Rightarrow> nat \<Rightarrow> byte list \<Rightarrow> 'h \<Rightarrow> (byte list \<times> 'h) option" where
  "hash_loop upd bs dat offset accum block regs =
     (if offset < length dat \<and> bs \<noteq> 0
      then let assigned = accum mod bs;
               remainder = min (length dat - offset) (bs - assigned);
               block' = take assigned block @ take remainder (drop offset dat) @ drop (assigned + remainder) block;
               accum' = accum + remainder
           in hash_loop upd bs dat (offset + remainder) accum' block'
                (if accum' mod bs = 0 then upd regs block' else regs)
      else Some (block, regs))"

definition hash_update :: "('h \<Rightarrow> byte list \<Rightarrow> 'h) \<Rightarrow> byte list \<Rightarrow> 'h hash \<Rightarrow> 'h hash option" where
  "hash_update upd dat st =
     (case hash_loop upd (h_blockSize st) dat 0 (h_len st) (h_block st) (h_regs st) of
        None \<Rightarrow> None
      | Some (block, regs) \<Rightarrow> Some (st\<lparr>h_block := block, h_len := h_len st + length dat, h_regs := regs\<rparr>))"

definition be32 :: "nat \<Rightarrow> byte list" where
  "be32 v = map (\<lambda>s. of_nat (v div 2 ^ s)) [24, 16, 8, 0]"

definition writeUInt32BE :: "nat \<Rightarrow> nat \<Rightarrow> byte list \<Rightarrow> js_error + byte list" where
  "writeUInt32BE v pos block =
     (if v > 4294967295 then Inl (RangeError ''value out of bounds'')
      else Inr (take pos block @ be32 v @ drop (pos + 4) block))"

text \<open>The bit length at the end of the last block.\<close>

definition write_length :: "nat \<Rightarrow> nat \<Rightarrow> byte list \<Rightarrow> js_error + byte list" where
  "write_length bits bs block =
     (if bits \<le> 4294967295 then writeUInt32BE bits (bs - 4) block
      else let lowBits = bits mod 2 ^ 32; highBits = (bits - lowBits) div 4294967296
           in case writeUInt32BE highBits (bs - 8) block of
                Inl e \<Rightarrow> Inl e
              | Inr block' \<Rightarrow> writeUInt32BE lowBits (bs - 4) block')"

definition hash_digest :: "('h \<Rightarrow> byte list \<Rightarrow> 'h) \<Rightarrow> ('h \<Rightarrow> byte list) \<Rightarrow> 'h hash \<Rightarrow> js_error + byte list" where
  "hash_digest upd out st =
     (let bs = h_blockSize st;
          remm = h_len st mod bs;
          marked = (h_block st)[remm := 128];
          filled = take (remm + 1) marked @ replicate (bs - (remm + 1)) 0;
          (block, regs) = (if remm \<ge> h_finalSize st then (replicate bs 0, upd (h_regs st) filled)
                           else (filled, h_regs st))
      in case write_length (8 * h_len st) bs block of
           Inl e \<Rightarrow> Inl e
         | Inr block' \<Rightarrow> Inr (out (upd regs block')))"

section \<open>The subclass Sha256\<close>

definition sha_K :: "u32 list" where
  "sha_K =
     [1116352408, 1899447441, 3049323471, 3921009573, 961987163, 1508970993, 2453635748, 2870763221,
      3624381080, 310598401, 607225278, 1426881987, 1925078388, 2162078206, 2614888103, 3248222580,
      3835390401, 4022224774, 264347078, 604807628, 770255983, 1249150122, 1555081692, 1996064986,
      2554220882, 2821834349, 2952996808, 3210313671, 3336571891, 3584528711, 113926993, 338241895,
      666307205, 773529912, 1294757372, 1396182291, 1695183700, 1986661051, 2177026350, 2456956037,
      2730485921, 2820302411, 3259730800, 3345764771, 3516065817, 3600352804, 4094571909, 275423344,
      430227734, 506948616, 659060556, 883997877, 958139571, 1322822218, 1537002063, 1747873779,
      1955562222, 2024104815, 2227730452, 2361852424, 2428436474, 2756734187, 3204031479, 3329325298]"

record sha_regs =
  reg_a :: u32
  reg_b :: u32
  reg_c :: u32
  reg_d :: u32
  reg_e :: u32
  reg_f :: u32
  reg_g :: u32
  reg_h :: u32

definition sha_init :: sha_regs where
  "sha_init =
     \<lparr>reg_a = 1779033703, reg_b = 3144134277, reg_c = 1013904242, reg_d = 2773480762,
      reg_e = 1359893119, reg_f = 2600822924, reg_g = 528734635, reg_h = 1541459225\<rparr>"

definition sha_ch :: "u32 \<Rightarrow> u32 \<Rightarrow> u32 \<Rightarrow> u32" where
  "sha_ch x y z = z XOR (x AND (y XOR z))"

definition sha_maj :: "u32 \<Rightarrow> u32 \<Rightarrow> u32 \<Rightarrow> u32" where
  "sha_maj x y z = (x AND y) OR (z AND (x OR y))"

definition sha_sigma0 :: "u32 \<Rightarrow> u32" where
  "sha_sigma0 x =
     (drop_bit 2 x OR push_bit 30 x) XOR (drop_bit 13 x OR push_bit 19 x) XOR (drop_bit 22 x OR push_bit 10 x)"

definition sha_sigma1 :: "u32 \<Rightarrow> u32" where
  "sha_sigma1 x =
     (drop_bit 6 x OR push_bit 26 x) XOR (drop_bit 11 x OR push_bit 21 x) XOR (drop_bit 25 x OR push_bit 7 x)"

definition sha_gamma0 :: "u32 \<Rightarrow> u32" where
  "sha_gamma0 x = (drop_bit 7 x OR push_bit 25 x) XOR (drop_bit 18 x OR push_bit 14 x) XOR drop_bit 3 x"

definition readInt32BE :: "byte list \<Rightarrow> nat \<Rightarrow> u32" where
  "readInt32BE block i =
     push_bit 24 (ucast (block ! i)) OR push_bit 16 (ucast (block ! (i + 1)))
       OR push_bit 8 (ucast (block ! (i + 2))) OR ucast (block ! (i + 3))"

text \<open>The array of 64 words: sixteen from the block, the others from the ones before.\<close>

definition sha_extend :: "nat \<Rightarrow> u32 list \<Rightarrow> u32 list" where
  "sha_extend g w =
     (let t = w ! (g - 2)
      in w @ [((drop_bit 17 t OR push_bit 15 t) XOR (drop_bit 19 t OR push_bit 13 t) XOR drop_bit 10 t)
                + w ! (g - 7) + sha_gamma0 (w ! (g - 15)) + w ! (g - 16)])"

definition sha_words :: "byte list \<Rightarrow> u32 list" where
  "sha_words block = fold sha_extend [16..<64] (map (\<lambda>g. readInt32BE block (4 * g)) [0..<16])"

definition sha_round :: "u32 list \<Rightarrow> nat \<Rightarrow> sha_regs \<Rightarrow> sha_regs" where
  "sha_round w j s =
     (let t1 = reg_h s + sha_sigma1 (reg_e s) + sha_ch (reg_e s) (reg_f s) (reg_g s) + sha_K ! j + w ! j;
          t2 = sha_sigma0 (reg_a s) + sha_maj (reg_a s) (reg_b s) (reg_c s)
      in \<lparr>reg_a = t1 + t2, reg_b = reg_a s, reg_c = reg_b s, reg_d = reg_c s,
          reg_e = reg_d s + t1, reg_f = reg_e s, reg_g = reg_f s, reg_h = reg_g s\<rparr>)"

definition sha_update_block :: "sha_regs \<Rightarrow> byte list \<Rightarrow> sha_regs" where
  "sha_update_block s block =
     (let r = fold (sha_round (sha_words block)) [0..<64] s
      in \<lparr>reg_a = reg_a r + reg_a s, reg_b = reg_b r + reg_b s, reg_c = reg_c r + reg_c s,
          reg_d = reg_d r + reg_d s, reg_e = reg_e r + reg_e s, reg_f = reg_f r + reg_f s,
          reg_g = reg_g r + reg_g s, reg_h = reg_h r + reg_h s\<rparr>)"

definition sha_hash :: "sha_regs \<Rightarrow> byte list" where
  "sha_hash s =
     concat (map (\<lambda>r. be32 (unat r)) [reg_a s, reg_b s, reg_c s, reg_d s, reg_e s, reg_f s, reg_g s, reg_h s])"

definition newSha256 :: "sha_regs hash" where
  "newSha256 = new_hash 64 56 sha_init"

section \<open>The code challenge\<close>

definition b64toB64UrlEncoded :: "string \<Rightarrow> string" where
  "b64toB64UrlEncoded s = replace_all ''='' [] (replace_all ''/'' ''_'' (replace_all ''+'' ''-'' s))"

text \<open>
  The bytes of the verifier are its characters: it is an ASCII string, whose UTF-8 form has one byte per
  character. The random bytes of \<open>generateCodeVerifier\<close> are an argument.
\<close>

definition generateCodeVerifier :: "byte list \<Rightarrow> string" where
  "generateCodeVerifier random = b64toB64UrlEncoded (fromByteArray random)"

definition createCodeChallenge :: "string \<Rightarrow> (js_error + string) option" where
  "createCodeChallenge verifier =
     (case hash_update sha_update_block (map (\<lambda>c. of_nat (of_char c)) verifier) newSha256 of
        None \<Rightarrow> None
      | Some st \<Rightarrow>
          Some (case hash_digest sha_update_block sha_hash st of
                  Inl e \<Rightarrow> Inl e
                | Inr bytes \<Rightarrow> Inr (b64toB64UrlEncoded (fromByteArray bytes))))"

section \<open>The definition of FIPS 180-4\<close>

definition Ch :: "u32 \<Rightarrow> u32 \<Rightarrow> u32 \<Rightarrow> u32" where
  "Ch x y z = (x AND y) XOR (NOT x AND z)"

definition Maj :: "u32 \<Rightarrow> u32 \<Rightarrow> u32 \<Rightarrow> u32" where
  "Maj x y z = (x AND y) XOR (x AND z) XOR (y AND z)"

definition Sigma0 :: "u32 \<Rightarrow> u32" where
  "Sigma0 x = word_rotr 2 x XOR word_rotr 13 x XOR word_rotr 22 x"

definition Sigma1 :: "u32 \<Rightarrow> u32" where
  "Sigma1 x = word_rotr 6 x XOR word_rotr 11 x XOR word_rotr 25 x"

definition sigma0 :: "u32 \<Rightarrow> u32" where
  "sigma0 x = word_rotr 7 x XOR word_rotr 18 x XOR drop_bit 3 x"

definition sigma1 :: "u32 \<Rightarrow> u32" where
  "sigma1 x = word_rotr 17 x XOR word_rotr 19 x XOR drop_bit 10 x"

text \<open>The message schedule of a block.\<close>

fun schedule :: "byte list \<Rightarrow> nat \<Rightarrow> u32" where
  "schedule block t =
     (if t < 16 then readInt32BE block (4 * t)
      else sigma1 (schedule block (t - 2)) + schedule block (t - 7) + sigma0 (schedule block (t - 15))
             + schedule block (t - 16))"

declare schedule.simps [simp del]

text \<open>The working variables \<open>a\<close> to \<open>h\<close> after the first \<open>n\<close> steps.\<close>

fun working :: "byte list \<Rightarrow> sha_regs \<Rightarrow> nat \<Rightarrow> sha_regs" where
  "working block s 0 = s"
| "working block s (Suc n) =
     (let v = working block s n;
          t1 = reg_h v + Sigma1 (reg_e v) + Ch (reg_e v) (reg_f v) (reg_g v) + sha_K ! n + schedule block n;
          t2 = Sigma0 (reg_a v) + Maj (reg_a v) (reg_b v) (reg_c v)
      in \<lparr>reg_a = t1 + t2, reg_b = reg_a v, reg_c = reg_b v, reg_d = reg_c v,
          reg_e = reg_d v + t1, reg_f = reg_e v, reg_g = reg_f v, reg_h = reg_g v\<rparr>)"

definition compress :: "sha_regs \<Rightarrow> byte list \<Rightarrow> sha_regs" where
  "compress s block =
     (let v = working block s 64
      in \<lparr>reg_a = reg_a s + reg_a v, reg_b = reg_b s + reg_b v, reg_c = reg_c s + reg_c v,
          reg_d = reg_d s + reg_d v, reg_e = reg_e s + reg_e v, reg_f = reg_f s + reg_f v,
          reg_g = reg_g s + reg_g v, reg_h = reg_h s + reg_h v\<rparr>)"

text \<open>The full blocks of a message folded into the registers, and the padded message.\<close>

function fold_blocks :: "('h \<Rightarrow> byte list \<Rightarrow> 'h) \<Rightarrow> nat \<Rightarrow> 'h \<Rightarrow> byte list \<Rightarrow> 'h" where
  "fold_blocks upd bs h m =
     (if 0 < bs \<and> bs \<le> length m then fold_blocks upd bs (upd h (take bs m)) (drop bs m) else h)"
  by pat_completeness auto
termination by (relation "measure (\<lambda>(_, _, _, m). length m)") auto

declare fold_blocks.simps [simp del]

definition padded :: "byte list \<Rightarrow> byte list" where
  "padded m =
     m @ 128 # replicate ((119 - length m mod 64) mod 64) 0
       @ be32 (8 * length m div 2 ^ 32) @ be32 (8 * length m mod 2 ^ 32)"

definition fips_sha256 :: "byte list \<Rightarrow> byte list" where
  "fips_sha256 m = sha_hash (fold_blocks compress 64 sha_init (padded m))"

section \<open>Blocks\<close>

lemma fold_blocks_short: "length m < bs \<Longrightarrow> fold_blocks upd bs h m = h"
  by (simp add: fold_blocks.simps)

lemma fold_blocks_long:
  "0 < bs \<Longrightarrow> bs \<le> length m \<Longrightarrow> fold_blocks upd bs h m = fold_blocks upd bs (upd h (take bs m)) (drop bs m)"
  by (simp add: fold_blocks.simps [of _ _ _ m])

lemma fold_blocks_append:
  assumes "0 < bs" "length m = q * bs"
  shows "fold_blocks upd bs h (m @ x) = fold_blocks upd bs (fold_blocks upd bs h m) x"
  using assms(2)
proof (induction q arbitrary: h m)
  case (Suc q)
  then have len: "bs \<le> length m" "length (drop bs m) = q * bs" by simp_all
  then show ?case using assms(1) Suc.IH [OF len(2)] by (simp add: fold_blocks_long)
qed (simp add: fold_blocks_short assms(1))

lemma fold_blocks_one: "0 < bs \<Longrightarrow> length m = bs \<Longrightarrow> fold_blocks upd bs h m = upd h m"
  by (simp add: fold_blocks_long fold_blocks_short)

text \<open>The full blocks of a message, and what is left.\<close>

definition full_blocks :: "nat \<Rightarrow> byte list \<Rightarrow> byte list" where
  "full_blocks bs m = take (length m div bs * bs) m"

definition rest_of :: "nat \<Rightarrow> byte list \<Rightarrow> byte list" where
  "rest_of bs m = drop (length m div bs * bs) m"

lemma full_rest: "full_blocks bs m @ rest_of bs m = m"
  by (simp add: full_blocks_def rest_of_def)

lemma length_full_blocks: "length (full_blocks bs m) = length m div bs * bs"
  by (simp add: full_blocks_def)

lemma length_rest_of: "length (rest_of bs m) = length m mod bs"
  by (simp add: rest_of_def minus_div_mult_eq_mod)

lemma fold_blocks_full:
  assumes "0 < bs"
  shows "fold_blocks upd bs h (m @ x) = fold_blocks upd bs (fold_blocks upd bs h (full_blocks bs m)) (rest_of bs m @ x)"
  using fold_blocks_append [OF assms length_full_blocks, of upd h m "rest_of bs m @ x"]
  by (simp add: full_rest flip: append_assoc)

text \<open>
  What the object holds when it has taken the message \<open>m\<close>: the registers after the full blocks, and the
  rest at the start of its block.
\<close>

definition collected :: "('h \<Rightarrow> byte list \<Rightarrow> 'h) \<Rightarrow> nat \<Rightarrow> 'h \<Rightarrow> byte list \<Rightarrow> byte list \<Rightarrow> 'h \<Rightarrow> bool" where
  "collected upd bs h0 m block regs \<longleftrightarrow>
     length block = bs \<and> regs = fold_blocks upd bs h0 (full_blocks bs m)
       \<and> take (length m mod bs) block = rest_of bs m"

lemma collected_piece:
  assumes "0 < bs" "collected upd bs h0 m block regs" "x \<noteq> []" "length m mod bs + length x \<le> bs"
    and block': "block' = take (length m mod bs) block @ x @ drop (length m mod bs + length x) block"
  shows "collected upd bs h0 (m @ x) block' (if (length m + length x) mod bs = 0 then upd regs block' else regs)"
proof -
  let ?q = "length m div bs" and ?u = "length m mod bs"
  have parts: "length m + length x = ?q * bs + (?u + length x)" by simp
  have blk: "length block = bs" "take ?u block = rest_of bs m" and regs: "regs = fold_blocks upd bs h0 (full_blocks bs m)"
    using assms(2) by (auto simp: collected_def)
  show ?thesis
  proof (cases "?u + length x = bs")
    case True
    then have len: "length (m @ x) = Suc ?q * bs" using parts by simp
    have bs: "bs \<noteq> 0" using assms(1) by simp
    have b: "block' = rest_of bs m @ x" using True blk by (simp add: block')
    have "fold_blocks upd bs h0 (m @ x) = fold_blocks upd bs regs block'"
      unfolding b regs by (rule fold_blocks_full [OF assms(1)])
    also have "\<dots> = upd regs block'"
      using True by (intro fold_blocks_one [OF assms(1)]) (simp add: b length_rest_of)
    finally have "fold_blocks upd bs h0 (m @ x) = upd regs block'" .
    moreover have "full_blocks bs (m @ x) = m @ x" "rest_of bs (m @ x) = []"
      unfolding full_blocks_def rest_of_def len nonzero_mult_div_cancel_right [OF bs] using len by simp_all
    moreover have "length block' = bs" using True by (simp add: b length_rest_of)
    moreover have "(length m + length x) mod bs = 0" using len by (metis length_append mod_mult_self2_is_0)
    ultimately show ?thesis by (simp add: collected_def)
  next
    case False
    then have "?u + length x < bs" using assms(4) by simp
    then have len: "(length m + length x) div bs = ?q" "(length m + length x) mod bs = ?u + length x"
      using div_mod_split [OF parts] by simp_all
    have "?q * bs \<le> length m" by simp
    then have "full_blocks bs (m @ x) = full_blocks bs m" "rest_of bs (m @ x) = rest_of bs m @ x"
      by (simp_all add: full_blocks_def rest_of_def len)
    moreover have "length block' = bs" using blk(1) assms(4) by (simp add: block')
    moreover have "take (?u + length x) block' = rest_of bs m @ x"
      using blk length_rest_of [of bs m] by (simp add: block')
    ultimately show ?thesis using assms(3) regs by (simp add: collected_def len)
  qed
qed

lemma hash_loop_collects:
  assumes "0 < bs" "collected upd bs h0 m block regs" "offset \<le> length dat"
  shows "\<exists>block' regs'. hash_loop upd bs dat offset (length m) block regs = Some (block', regs')
           \<and> collected upd bs h0 (m @ drop offset dat) block' regs'"
  using assms(2,3)
proof (induction "length dat - offset" arbitrary: offset m block regs rule: less_induct)
  case less
  show ?case
  proof (cases "offset < length dat")
    case False
    then show ?thesis using less.prems by (subst hash_loop.simps) simp
  next
    case True
    let ?u = "length m mod bs"
    define r where "r = min (length dat - offset) (bs - ?u)"
    define x where "x = take r (drop offset dat)"
    define block' where "block' = take ?u block @ x @ drop (?u + r) block"
    have u: "?u < bs" using assms(1) by simp
    then have r: "0 < r" "r \<le> length dat - offset" "?u + r \<le> bs" using True by (auto simp: r_def)
    then have x: "length x = r" "x \<noteq> []" by (auto simp: x_def)
    have "collected upd bs h0 (m @ x) block' (if (length m + r) mod bs = 0 then upd regs block' else regs)"
      using collected_piece [OF assms(1) less.prems(1) x(2), unfolded x(1), OF r(3) block'_def] .
    from less.hyps [OF _ this, of "offset + r"] r True
    have "\<exists>b' r'. hash_loop upd bs dat (offset + r) (length (m @ x)) block'
              (if (length m + r) mod bs = 0 then upd regs block' else regs) = Some (b', r')
            \<and> collected upd bs h0 ((m @ x) @ drop (offset + r) dat) b' r'"
      by simp
    moreover have "(m @ x) @ drop (offset + r) dat = m @ drop offset dat"
      by (simp add: x_def add.commute [of offset] drop_drop [symmetric] del: drop_drop)
    ultimately show ?thesis using True assms(1)
      by (subst hash_loop.simps) (simp add: Let_def x(1) cong: if_cong split del: if_split flip: r_def x_def block'_def)
  qed
qed

section \<open>Digest\<close>

lemma be32_zero: "be32 0 = [0, 0, 0, 0]"
  by (simp add: be32_def)

lemma length_be32 [simp]: "length (be32 v) = 4"
  by (simp add: be32_def)

text \<open>The length goes over the zeros at the end of the block.\<close>

lemma write_length_zeros:
  assumes "bits < 2 ^ 64"
  shows "write_length bits (length b + 8) (b @ replicate 8 0) = Inr (b @ be32 (bits div 2 ^ 32) @ be32 (bits mod 2 ^ 32))"
proof -
  have eight: "replicate 8 (0 :: byte) = be32 0 @ be32 0" by (simp add: eval_nat_numeral be32_zero)
  have store: "writeUInt32BE v (length c) (c @ w @ d) = Inr (c @ be32 v @ d)"
    if "v \<le> 4294967295" "length w = 4" for v c w d
    using that by (simp add: writeUInt32BE_def)
  show ?thesis
  proof (cases "bits \<le> 4294967295")
    case True
    then have "bits div 2 ^ 32 = 0" "bits mod 2 ^ 32 = bits" by simp_all
    then show ?thesis
      using True store [of bits "be32 0" "b @ be32 0" "[]"] by (simp add: write_length_def eight add.commute)
  next
    case False
    have high: "(bits - bits mod 2 ^ 32) div 4294967296 = bits div 2 ^ 32"
      by (simp add: minus_mod_eq_mult_div)
    have "bits div 2 ^ 32 < 2 ^ 32" using assms by (simp add: div_less_iff_less_mult)
    then have le: "bits div 2 ^ 32 \<le> 4294967295" "bits mod 2 ^ 32 \<le> 4294967295"
      using mod_less_divisor [of "2 ^ 32" bits] by simp_all
    have "writeUInt32BE (bits div 2 ^ 32) (length b) (b @ replicate 8 0) = Inr (b @ be32 (bits div 2 ^ 32) @ be32 0)"
      unfolding eight by (rule store [OF le(1)]) simp
    moreover have "writeUInt32BE (bits mod 2 ^ 32) (length b + 4) (b @ be32 (bits div 2 ^ 32) @ be32 0)
                     = Inr (b @ be32 (bits div 2 ^ 32) @ be32 (bits mod 2 ^ 32))"
      using store [OF le(2), of "be32 0" "b @ be32 (bits div 2 ^ 32)" "[]"] by simp
    ultimately show ?thesis using False unfolding write_length_def Let_def high by (simp add: add.commute)
  qed
qed

lemma list_update_at: "length a = n \<Longrightarrow> n < length block \<Longrightarrow> take n block = a \<Longrightarrow>
    take (n + 1) (block[n := x]) = a @ [x]"
  by (simp add: take_Suc_conv_app_nth)

text \<open>
  The padding of a message, and an object that has taken the message \<open>m\<close>.
\<close>

definition pad :: "nat \<Rightarrow> nat \<Rightarrow> byte list \<Rightarrow> byte list" where
  "pad bs fs m =
     m @ 128 # replicate (if length m mod bs < fs then fs - (length m mod bs + 1) else bs + fs - (length m mod bs + 1)) 0
       @ be32 (8 * length m div 2 ^ 32) @ be32 (8 * length m mod 2 ^ 32)"

definition holds :: "('h \<Rightarrow> byte list \<Rightarrow> 'h) \<Rightarrow> nat \<Rightarrow> nat \<Rightarrow> 'h \<Rightarrow> byte list \<Rightarrow> 'h hash \<Rightarrow> bool" where
  "holds upd bs fs h0 m st \<longleftrightarrow>
     h_blockSize st = bs \<and> h_finalSize st = fs \<and> h_len st = length m
       \<and> collected upd bs h0 m (h_block st) (h_regs st)"

text \<open>
  The contract of a subclass: its final size leaves eight bytes of the block for the length.
\<close>

locale block_hash =
  fixes upd :: "'h \<Rightarrow> byte list \<Rightarrow> 'h"
    and out :: "'h \<Rightarrow> byte list"
    and bs fs :: nat
  assumes sizes: "0 < fs" "fs + 8 = bs"
begin

lemma new_holds: "holds upd bs fs h0 [] (new_hash bs fs h0)"
  using sizes by (simp add: holds_def new_hash_def collected_def full_blocks_def rest_of_def fold_blocks_short)

lemma update_holds:
  assumes "holds upd bs fs h0 m st"
  shows "\<exists>st'. hash_update upd dat st = Some st' \<and> holds upd bs fs h0 (m @ dat) st'"
proof -
  have "0 < bs" using sizes by simp
  from hash_loop_collects [OF this, of upd h0 m "h_block st" "h_regs st" 0 dat] assms
  show ?thesis by (auto simp: hash_update_def holds_def)
qed

lemma digest_pads:
  assumes "holds upd bs fs h0 m st" "8 * length m < 2 ^ 64"
  shows "hash_digest upd out st = Inr (out (fold_blocks upd bs h0 (pad bs fs m)))"
proof -
  let ?r = "length m mod bs" and ?L = "be32 (8 * length m div 2 ^ 32) @ be32 (8 * length m mod 2 ^ 32)"
  let ?h = "fold_blocks upd bs h0 (full_blocks bs m)"
  have bs: "0 < bs" and r: "?r < bs" using sizes by simp_all
  have st: "h_blockSize st = bs" "h_finalSize st = fs" "h_len st = length m" "length (h_block st) = bs"
      "h_regs st = ?h" "take ?r (h_block st) = rest_of bs m"
    using assms(1) by (auto simp: holds_def collected_def)
  have filled: "take (?r + 1) ((h_block st)[?r := 128]) @ replicate (bs - (?r + 1)) 0
                  = rest_of bs m @ 128 # replicate (bs - (?r + 1)) 0"
    using list_update_at [of "rest_of bs m" ?r "h_block st" 128] r st by (simp add: length_rest_of)
  show ?thesis
  proof (cases "?r < fs")
    case True
    let ?b = "rest_of bs m @ 128 # replicate (fs - (?r + 1)) 0"
    have "replicate (bs - (?r + 1)) (0 :: byte) = replicate (fs - (?r + 1)) 0 @ replicate 8 0"
      using True sizes by (simp add: replicate_add [symmetric])
    moreover have len: "length ?b = fs" using True by (simp add: length_rest_of)
    ultimately have wl: "write_length (8 * length m) bs (rest_of bs m @ 128 # replicate (bs - (?r + 1)) 0) = Inr (?b @ ?L)"
      using write_length_zeros [OF assms(2), of ?b] sizes by simp
    have "pad bs fs m = m @ 128 # replicate (fs - (?r + 1)) 0 @ ?L" using True by (simp add: pad_def)
    then have "fold_blocks upd bs h0 (pad bs fs m) = fold_blocks upd bs ?h (?b @ ?L)"
      using fold_blocks_full [OF bs, of upd h0 m "128 # replicate (fs - (?r + 1)) 0 @ ?L"] by simp
    also have "\<dots> = upd ?h (?b @ ?L)"
      using len sizes by (intro fold_blocks_one [OF bs]) simp
    finally have "fold_blocks upd bs h0 (pad bs fs m) = upd ?h (?b @ ?L)" .
    then show ?thesis using True wl by (simp only: hash_digest_def st filled Let_def) simp
  next
    case False
    let ?b = "rest_of bs m @ 128 # replicate (bs - (?r + 1)) 0" and ?c = "replicate fs 0 @ ?L"
    have wl: "write_length (8 * length m) bs (replicate bs 0) = Inr ?c"
      using write_length_zeros [OF assms(2), of "replicate fs 0"] sizes by (simp add: replicate_add [symmetric])
    have k: "bs + fs - (?r + 1) = (bs - (?r + 1)) + fs" using r by simp
    have len: "length ?b = 1 * bs" "length ?c = bs"
      unfolding length_append list.size length_rest_of length_replicate length_be32 using r sizes by linarith+
    have "pad bs fs m = m @ 128 # replicate (bs - (?r + 1)) 0 @ ?c"
      unfolding pad_def using False by (simp only: k) (simp add: replicate_add)
    then have "fold_blocks upd bs h0 (pad bs fs m) = fold_blocks upd bs ?h (?b @ ?c)"
      using fold_blocks_full [OF bs, of upd h0 m "128 # replicate (bs - (?r + 1)) 0 @ ?c"] by simp
    also have "\<dots> = upd (upd ?h ?b) ?c"
      by (simp only: fold_blocks_append [OF bs len(1)] fold_blocks_one [OF bs len(1) [unfolded mult_1]]
            fold_blocks_one [OF bs len(2)])
    finally show ?thesis using False wl by (simp only: hash_digest_def st filled Let_def) simp
  qed
qed

end

section \<open>The compression function\<close>

lemma shifts_rotate:
  fixes x :: u32
  assumes "0 < n" "n < 32"
  shows "drop_bit n x OR push_bit (32 - n) x = word_rotr n x"
proof (rule bit_word_eqI)
  fix i
  assume "i < LENGTH(32)"
  then show "bit (drop_bit n x OR push_bit (32 - n) x) i = bit (word_rotr n x) i"
    using assms by (cases "i + n < 32") (auto simp: bit_simps le_mod_geq ac_simps dest: bit_imp_le_length)
qed

lemma sha_ch_fips: "sha_ch x y z = Ch x y z"
  by (rule bit_word_eqI) (auto simp: sha_ch_def Ch_def bit_simps)

lemma sha_maj_fips: "sha_maj x y z = Maj x y z"
  by (rule bit_word_eqI) (auto simp: sha_maj_def Maj_def bit_simps)

lemma sha_sigma_fips: "sha_sigma0 x = Sigma0 x" "sha_sigma1 x = Sigma1 x" "sha_gamma0 x = sigma0 x"
  using shifts_rotate [of 2 x] shifts_rotate [of 13 x] shifts_rotate [of 22 x]
    shifts_rotate [of 6 x] shifts_rotate [of 11 x] shifts_rotate [of 25 x]
    shifts_rotate [of 7 x] shifts_rotate [of 18 x]
  by (simp_all only: sha_sigma0_def Sigma0_def sha_sigma1_def Sigma1_def sha_gamma0_def sigma0_def) simp_all

lemma sha_extend_fips:
  "sha_extend g w = w @ [sigma1 (w ! (g - 2)) + w ! (g - 7) + sigma0 (w ! (g - 15)) + w ! (g - 16)]"
  using shifts_rotate [of 17 "w ! (g - 2)"] shifts_rotate [of 19 "w ! (g - 2)"]
  by (simp add: sha_extend_def sigma1_def sha_sigma_fips Let_def)

lemma sha_words_prefix:
  "n \<le> 48 \<Longrightarrow> fold sha_extend [16..<16 + n] (map (\<lambda>g. readInt32BE block (4 * g)) [0..<16])
     = map (schedule block) [0..<16 + n]"
proof (induction n)
  case 0
  then show ?case by (simp add: schedule.simps)
next
  case (Suc n)
  let ?w = "map (schedule block) [0..<16 + n]"
  have "sha_extend (16 + n) ?w = ?w @ [schedule block (16 + n)]"
    by (subst schedule.simps) (simp add: sha_extend_fips nth_append)
  moreover have "[16..<16 + Suc n] = [16..<16 + n] @ [16 + n]" "[0..<16 + Suc n] = [0..<16 + n] @ [16 + n]"
    by (simp_all only: add_Suc_right upt_Suc) simp_all
  ultimately show ?case using Suc by (simp only: fold_append comp_apply map_append) simp
qed

lemma sha_words_schedule: "sha_words block = map (schedule block) [0..<64]"
  using sha_words_prefix [of 48 block] by (simp add: sha_words_def)

lemma sha_rounds_working:
  "n \<le> 64 \<Longrightarrow> fold (sha_round (sha_words block)) [0..<n] s = working block s n"
  by (induction n) (simp_all add: sha_words_schedule sha_round_def sha_ch_fips sha_maj_fips sha_sigma_fips Let_def)

lemma sha_update_block_fips: "sha_update_block = compress"
  by (intro ext) (simp add: sha_update_block_def compress_def sha_rounds_working Let_def add.commute)

section \<open>Sha256\<close>

interpretation sha: block_hash sha_update_block sha_hash 64 56
  by unfold_locales simp_all

text \<open>Calls of \<open>update\<close> in a row.\<close>

fun sha_feed :: "byte list list \<Rightarrow> sha_regs hash \<Rightarrow> sha_regs hash option" where
  "sha_feed [] st = Some st"
| "sha_feed (dat # dats) st =
     (case hash_update sha_update_block dat st of None \<Rightarrow> None | Some st' \<Rightarrow> sha_feed dats st')"

lemma sha_feed_holds:
  assumes "holds sha_update_block 64 56 sha_init m st"
  shows "\<exists>st'. sha_feed dats st = Some st' \<and> holds sha_update_block 64 56 sha_init (m @ concat dats) st'"
  using assms
proof (induction dats arbitrary: m st)
  case (Cons dat dats)
  obtain st' where st': "hash_update sha_update_block dat st = Some st'"
      "holds sha_update_block 64 56 sha_init (m @ dat) st'"
    using sha.update_holds [OF Cons.prems] by blast
  then show ?case using Cons.IH [OF st'(2)] by simp
qed simp

lemma pad_padded: "pad 64 56 m = padded m"
proof -
  let ?r = "length m mod 64"
  have "?r < 64" by simp
  then have "(if ?r < 56 then 56 - (?r + 1) else 64 + 56 - (?r + 1)) = (119 - ?r) mod 64"
    using le_mod_geq [of 64 "119 - ?r"] by auto
  then show ?thesis by (simp only: pad_def padded_def)
qed

lemma sha_digest_fips:
  assumes "holds sha_update_block 64 56 sha_init m st" "8 * length m < 2 ^ 53"
  shows "hash_digest sha_update_block sha_hash st = Inr (fips_sha256 m)"
  using sha.digest_pads [OF assms(1)] assms(2)
  by (simp add: pad_padded fips_sha256_def sha_update_block_fips)

text \<open>
  C27. The hash of the page is SHA-256: however the input is cut into calls of \<open>update\<close>, every call
  returns, and \<open>digest\<close> gives what FIPS 180-4 defines for the whole input, with its own padding in
  one go, its own message schedule and its own round functions. The length in bits stays below
  \<open>2 ^ 53\<close>, where a double is exact.
\<close>

theorem sha256_reference:
  assumes "8 * length (concat dats) < 2 ^ 53"
  shows "\<exists>st. sha_feed dats newSha256 = Some st
           \<and> hash_digest sha_update_block sha_hash st = Inr (fips_sha256 (concat dats))"
  using sha_feed_holds [OF sha.new_holds, of dats] sha_digest_fips [OF _ assms]
  by (auto simp: newSha256_def)

text \<open>The step of the loop, which is positive when the block size is.\<close>

lemma hash_loop_step:
  assumes "offset < length dat" "0 < bs"
  shows "\<exists>accum' block' regs'. hash_loop upd bs dat offset accum block regs
           = hash_loop upd bs dat (offset + min (length dat - offset) (bs - accum mod bs)) accum' block' regs'"
proof -
  have "offset < length dat \<and> bs \<noteq> 0" using assms by simp
  then show ?thesis by (subst hash_loop.simps) (simp only: Let_def if_True simp_thms, blast)
qed

lemma hash_loop_returns: "\<exists>y. hash_loop upd bs dat offset accum block regs = Some y"
proof (induction "length dat - offset" arbitrary: offset accum block regs rule: less_induct)
  case less
  show ?case
  proof (cases "offset < length dat \<and> bs \<noteq> 0")
    case False
    then show ?thesis by (subst hash_loop.simps) (simp only: if_False, blast)
  next
    case True
    then have bs: "offset < length dat" "0 < bs" by simp_all
    from bs(2) have "accum mod bs < bs" by simp
    then have "length dat - (offset + min (length dat - offset) (bs - accum mod bs)) < length dat - offset"
      using bs(1) by linarith
    from less.hyps [OF this] hash_loop_step [OF bs, of upd accum block regs] show ?thesis by metis
  qed
qed

text \<open>
  C40. The loop of \<open>update\<close>, which advances by a computed step, returns for every subclass, every state of
  its block, every block size and every input. It counts the whole input, and with a block size of 0 it takes
  nothing in: block and registers stay.
\<close>

theorem hash_update_returns:
  "\<exists>st'. hash_update upd dat st = Some st' \<and> h_len st' = h_len st + length dat \<and>
     h_blockSize st' = h_blockSize st \<and> h_finalSize st' = h_finalSize st \<and>
     (h_blockSize st = 0 \<longrightarrow> h_block st' = h_block st \<and> h_regs st' = h_regs st)"
proof -
  obtain block regs where y: "hash_loop upd (h_blockSize st) dat 0 (h_len st) (h_block st) (h_regs st) = Some (block, regs)"
    using hash_loop_returns by (metis surj_pair)
  moreover have "h_blockSize st = 0 \<longrightarrow> (block, regs) = (h_block st, h_regs st)"
    using y by (cases "h_blockSize st = 0") (simp_all add: hash_loop.simps [of _ 0])
  ultimately show ?thesis by (simp add: hash_update_def)
qed

section \<open>Verifier and challenge\<close>

definition url_alphabet :: string where
  "url_alphabet = ''ABCDEFGHIJKLMNOPQRSTUVWXYZabcdefghijklmnopqrstuvwxyz0123456789-_''"

definition url_char :: "char \<Rightarrow> string" where
  "url_char c = (if c = CHR ''+'' then ''-'' else if c = CHR ''/'' then ''_'' else if c = CHR ''='' then [] else [c])"

lemma url_encoded_chars: "b64toB64UrlEncoded s = concat (map url_char s)"
  by (induction s) (simp_all add: b64toB64UrlEncoded_def replace_all_char url_char_def)

lemma url_char_alphabet: "list_all (\<lambda>c. \<exists>d \<in> set url_alphabet. url_char c = [d]) b64_alphabet"
  by (simp add: b64_alphabet_def url_char_def url_alphabet_def)

lemma url_b64_char: obtains d where "url_char (b64_char n) = [d]" "d \<in> set url_alphabet"
  using url_char_alphabet b64_char_in [of n] by (auto simp: list_all_iff)

text \<open>Without the padding, \<open>n\<close> bytes take the least number of characters that hold \<open>8 * n\<close> bits.\<close>

lemma url_encode_type:
  "length (b64toB64UrlEncoded (b64_encode bs)) = (8 * length bs + 5) div 6
     \<and> set (b64toB64UrlEncoded (b64_encode bs)) \<subseteq> set url_alphabet"
proof (induction bs rule: b64_encode.induct)
  case (2 a)
  show ?case
    by (rule url_b64_char [of "unat a div 4"]; rule url_b64_char [of "unat a mod 4 * 16"])
       (simp add: url_encoded_chars, simp add: url_char_def)
next
  case (3 a b)
  show ?case
    by (rule url_b64_char [of "unat a div 4"]; rule url_b64_char [of "unat a mod 4 * 16 + unat b div 16"];
        rule url_b64_char [of "unat b mod 16 * 4"]) (simp add: url_encoded_chars, simp add: url_char_def)
next
  case (4 a b c bs)
  have "length (b64toB64UrlEncoded (b64_encode (a # b # c # bs))) = 4 + length (b64toB64UrlEncoded (b64_encode bs))
      \<and> set (b64toB64UrlEncoded (b64_encode (a # b # c # bs))) \<subseteq> set url_alphabet \<union> set (b64toB64UrlEncoded (b64_encode bs))"
    by (rule url_b64_char [of "unat a div 4"]; rule url_b64_char [of "unat a mod 4 * 16 + unat b div 16"];
        rule url_b64_char [of "unat b mod 16 * 4 + unat c div 64"]; rule url_b64_char [of "unat c mod 64"])
       (auto simp: url_encoded_chars)
  moreover have "(8 * length (a # b # c # bs) + 5) div 6 = 4 + (8 * length bs + 5) div 6" by simp
  ultimately show ?case using "4.IH" by auto
qed (simp add: url_encoded_chars)

lemma length_fips_sha256: "length (fips_sha256 m) = 32"
  by (simp add: fips_sha256_def sha_hash_def)

lemma createCodeChallenge_fips:
  assumes "8 * length v < 2 ^ 53"
  shows "createCodeChallenge v
           = Some (Inr (b64toB64UrlEncoded (b64_encode (fips_sha256 (map (\<lambda>c. of_nat (of_char c)) v)))))"
proof -
  obtain st where st: "hash_update sha_update_block (map (\<lambda>c. of_nat (of_char c)) v) newSha256 = Some st"
      "holds sha_update_block 64 56 sha_init (map (\<lambda>c. of_nat (of_char c)) v) st"
    using sha.update_holds [OF sha.new_holds] by (auto simp: newSha256_def)
  have "hash_digest sha_update_block sha_hash st = Inr (fips_sha256 (map (\<lambda>c. of_nat (of_char c)) v))"
    using sha_digest_fips [OF st(2)] assms by simp
  then show ?thesis by (simp add: createCodeChallenge_def st(1) fromByteArray_encode)
qed

text \<open>
  C39. The verifier and the challenge of an OAuth 2 login have the form that RFC 7636 asks for: from 32
  random bytes comes a verifier of 43 letters, digits, \<open>-\<close> and \<open>_\<close>, and its challenge always exists, has
  43 such characters too, and is the base 64 text, without padding and with the URL alphabet, of the
  SHA-256 of the verifier.
\<close>

theorem code_challenge_form:
  assumes "length random = 32"
  shows "let v = generateCodeVerifier random;
             c = b64toB64UrlEncoded (b64_encode (fips_sha256 (map (\<lambda>c. of_nat (of_char c)) v)))
         in length v = 43 \<and> set v \<subseteq> set url_alphabet \<and> createCodeChallenge v = Some (Inr c)
              \<and> length c = 43 \<and> set c \<subseteq> set url_alphabet"
proof -
  let ?v = "generateCodeVerifier random"
  have v: "length ?v = 43" "set ?v \<subseteq> set url_alphabet"
    using url_encode_type [of random] assms by (simp_all add: generateCodeVerifier_def fromByteArray_encode)
  then have "createCodeChallenge ?v
       = Some (Inr (b64toB64UrlEncoded (b64_encode (fips_sha256 (map (\<lambda>c. of_nat (of_char c)) ?v)))))"
    by (intro createCodeChallenge_fips) simp
  then show ?thesis
    using v url_encode_type [of "fips_sha256 (map (\<lambda>c. of_nat (of_char c)) ?v)"] by (simp add: Let_def length_fips_sha256)
qed

section \<open>The constants\<close>

text \<open>
  FIPS 180-4 takes its constants from the first 32 bits of the fractional parts of the square and cube
  roots of the first primes.
\<close>

definition first_primes :: "int list" where
  "first_primes =
     [2, 3, 5, 7, 11, 13, 17, 19, 23, 29, 31, 37, 41, 43, 47, 53,
      59, 61, 67, 71, 73, 79, 83, 89, 97, 101, 103, 107, 109, 113, 127, 131,
      137, 139, 149, 151, 157, 163, 167, 173, 179, 181, 191, 193, 197, 199, 211, 223,
      227, 229, 233, 239, 241, 251, 257, 263, 269, 271, 277, 281, 283, 293, 307, 311]"

definition int_root :: "nat \<Rightarrow> int \<Rightarrow> int" where
  "int_root e p = last (takeWhile (\<lambda>i. i ^ e \<le> p) [1, 2, 3, 4, 5, 6, 7, 8])"

definition root_fraction :: "nat \<Rightarrow> int \<Rightarrow> int \<Rightarrow> bool" where
  "root_fraction e p k \<longleftrightarrow>
     (let x = int_root e p * 2 ^ 32 + k in x ^ e \<le> p * 2 ^ (32 * e) \<and> p * 2 ^ (32 * e) < (x + 1) ^ e)"

text \<open>
  The constants of the hash are those of FIPS 180-4: the 64 round constants are the fractions of the cube
  roots, and the 8 initial registers those of the square roots, of the first primes in order.
\<close>

lemma sha_constants:
  "list_all2 (\<lambda>p k. root_fraction 3 p (uint k)) first_primes sha_K
     \<and> list_all2 (\<lambda>p k. root_fraction 2 p (uint k)) (take 8 first_primes)
         [reg_a sha_init, reg_b sha_init, reg_c sha_init, reg_d sha_init,
          reg_e sha_init, reg_f sha_init, reg_g sha_init, reg_h sha_init]"
  by (simp add: first_primes_def sha_K_def sha_init_def root_fraction_def int_root_def)

end
