(* ===== verification/Js_Patch.thy ===== *)
theory Js_Patch
  imports Js_Values
begin

text \<open>
  JSON pointers and JSON patches in the page that the provision daemon serves
  (\<open>cmds/modules/provisiond/swagger/swagger-ui-es-bundle.js\<close>: \<open>escapePathComponent\<close>,
  \<open>unescapePathComponent\<close>, \<open>getValueByPointer\<close>, \<open>applyOperation\<close>, \<open>applyPatch\<close>, \<open>normalizeJSONPath\<close> and
  \<open>pointerIsAParent\<close>), which the client uses to resolve the references of an API description.

  A document is a JSON value; the members of an object are an association list, and the order in which
  JavaScript enumerates them plays no part below. The patch is applied as the client calls it, without
  validation, in place and with the ban on \<open>__proto__\<close>. Assigning into the document is a rebuilt
  document here: a value that a patch adds is not shared with the patch.

  What a document of plain JSON cannot express is the result \<open>Outside\<close>: properties of strings, numbers
  and booleans, members that every object inherits, members of an array that are not elements, holes of
  arrays, members with the value \<open>undefined\<close>, cyclic documents, and array indices of \<open>2 ^ 53\<close> or more.
\<close>

datatype patch_error = PatchTypeError | TestFailed | Outside

section \<open>Pointers\<close>

definition escapePathComponent :: "string \<Rightarrow> string" where
  "escapePathComponent s =
     (if CHR ''/'' \<notin> set s \<and> CHR ''~'' \<notin> set s then s
      else replace_all ''/'' ''~1'' (replace_all ''~'' ''~0'' s))"

definition unescapePathComponent :: "string \<Rightarrow> string" where
  "unescapePathComponent s = replace_all ''~0'' ''~'' (replace_all ''~1'' ''/'' s)"

definition normalizeJSONPath :: "string list \<Rightarrow> string" where
  "normalizeJSONPath ks =
     (if length ks < 1 then []
      else ''/'' @ js_join ''/'' (map (\<lambda>k. replace_all ''/'' ''~1'' (replace_all ''~'' ''~0'' k)) ks))"

definition pointerIsAParent :: "string \<Rightarrow> string \<Rightarrow> bool" where
  "pointerIsAParent pointer parentPointer =
     (if parentPointer = [] \<or> parentPointer = ''/'' \<or> parentPointer = ''#'' then True
      else let nextChar = take 1 (drop (length parentPointer) pointer)
           in prefix parentPointer pointer \<and> (nextChar = [] \<or> nextChar = ''/'' \<or> nextChar = ''#'')
                \<and> last parentPointer \<noteq> CHR ''#'')"

section \<open>Operations\<close>

datatype patch_op =
    PAdd jsv
  | PRemove
  | PReplace jsv
  | PMove string
  | PCopy string
  | PTest jsv
  | PGet

record operation =
  op_kind :: patch_op
  op_path :: string

record op_result =
  newDocument :: jsv
  removed :: "jsv option"
  got :: "jsv option"

definition isInteger :: "string \<Rightarrow> bool" where
  "isInteger s = list_all (\<lambda>c. 48 \<le> (of_char c :: nat) \<and> (of_char c :: nat) \<le> 57) s"

definition digits_value :: "string \<Rightarrow> nat" where
  "digits_value s = foldl (\<lambda>n c. n * 10 + (of_char c - 48)) 0 s"

text \<open>\<open>~~n\<close>: the conversion to a signed 32-bit integer.\<close>

definition to_int32 :: "nat \<Rightarrow> int" where
  "to_int32 n = sint (of_nat n :: 32 word)"

text \<open>The members that every object inherits.\<close>

definition inherited :: "string \<Rightarrow> bool" where
  "inherited k \<longleftrightarrow>
     k \<in> {''constructor'', ''hasOwnProperty'', ''isPrototypeOf'', ''propertyIsEnumerable'', ''toLocaleString'',
          ''toString'', ''valueOf'', ''__defineGetter__'', ''__defineSetter__'', ''__lookupGetter__'',
          ''__lookupSetter__'', ''__proto__''}"

datatype key = Idx int | Prop string

text \<open>
  The components of a path after its first \<open>/\<close>; \<open>None\<close> is the \<open>undefined\<close> that a path without \<open>/\<close>
  gives.
\<close>

definition path_tokens :: "string \<Rightarrow> string option list" where
  "path_tokens p = (case js_split (CHR ''/'') p of [_] \<Rightarrow> [None] | ts \<Rightarrow> map Some (tl ts))"

definition token_key :: "jsv \<Rightarrow> string option \<Rightarrow> patch_error + key" where
  "token_key u t =
     (if t = Some ''__proto__'' then Inl PatchTypeError
      else case u of
        JArr vs \<Rightarrow>
          (case t of
             None \<Rightarrow> Inl PatchTypeError
           | Some f \<Rightarrow>
               if f = ''-'' then Inr (Idx (int (length vs)))
               else if isInteger f
               then if digits_value f \<ge> 2 ^ 53 then Inl Outside else Inr (Idx (to_int32 (digits_value f)))
               else Inr (Prop f))
      | _ \<Rightarrow>
          Inr (Prop (case t of
                       None \<Rightarrow> ''undefined''
                     | Some f \<Rightarrow> if CHR ''~'' \<in> set f then unescapePathComponent f else f)))"

text \<open>\<open>u[f]\<close>: \<open>Inr None\<close> is \<open>undefined\<close>.\<close>

fun child :: "jsv \<Rightarrow> key \<Rightarrow> patch_error + jsv option" where
  "child (JArr vs) (Idx i) = Inr (if 0 \<le> i \<and> i < int (length vs) then Some (vs ! nat i) else None)"
| "child (JObj kvs) (Prop k) =
     (if map_of kvs k = None \<and> inherited k then Inl Outside else Inr (map_of kvs k))"
| "child JNull k = Inl PatchTypeError"
| "child u k = Inl Outside"

fun set_member :: "string \<Rightarrow> jsv \<Rightarrow> (string \<times> jsv) list \<Rightarrow> (string \<times> jsv) list" where
  "set_member k v [] = [(k, v)]"
| "set_member k v ((k', w) # kvs) = (if k' = k then (k', v) # kvs else (k', w) # set_member k v kvs)"

definition delete_member :: "string \<Rightarrow> (string \<times> jsv) list \<Rightarrow> (string \<times> jsv) list" where
  "delete_member k = filter (\<lambda>kv. fst kv \<noteq> k)"

text \<open>\<open>u[f] = v\<close> for a member or an element that is there.\<close>

fun put :: "jsv \<Rightarrow> key \<Rightarrow> jsv \<Rightarrow> jsv" where
  "put (JArr vs) (Idx i) v = JArr (vs[nat i := v])"
| "put (JObj kvs) (Prop k) v = JObj (set_member k v kvs)"
| "put u k v = u"

text \<open>The first argument of \<open>splice\<close>: a negative one counts from the end, a large one is the end.\<close>

definition splice_start :: "int \<Rightarrow> nat \<Rightarrow> nat" where
  "splice_start i n = nat (if i < 0 then max 0 (int n + i) else min i (int n))"

fun do_add :: "jsv \<Rightarrow> jsv \<Rightarrow> key \<Rightarrow> patch_error + (jsv \<times> jsv option)" where
  "do_add v (JArr vs) (Idx i) =
     (let s = splice_start i (length vs) in Inr (JArr (take s vs @ v # drop s vs), None))"
| "do_add v (JObj kvs) (Prop k) = Inr (JObj (set_member k v kvs), None)"
| "do_add v JNull k = Inl PatchTypeError"
| "do_add v u k = Inl Outside"

fun do_remove :: "jsv \<Rightarrow> key \<Rightarrow> patch_error + (jsv \<times> jsv option)" where
  "do_remove (JArr vs) (Idx i) =
     (let s = splice_start i (length vs)
      in Inr (JArr (take s vs @ drop (s + 1) vs), if s < length vs then Some (vs ! s) else None))"
| "do_remove (JObj kvs) (Prop k) =
     (if map_of kvs k = None \<and> inherited k then Inl Outside
      else Inr (JObj (delete_member k kvs), map_of kvs k))"
| "do_remove JNull k = Inl PatchTypeError"
| "do_remove u k = Inl Outside"

fun do_replace :: "jsv \<Rightarrow> jsv \<Rightarrow> key \<Rightarrow> patch_error + (jsv \<times> jsv option)" where
  "do_replace v (JArr vs) (Idx i) =
     (if 0 \<le> i \<and> i < int (length vs) then Inr (JArr (vs[nat i := v]), Some (vs ! nat i))
      else if i = int (length vs) then Inr (JArr (vs @ [v]), None)
      else Inl Outside)"
| "do_replace v (JObj kvs) (Prop k) =
     (if map_of kvs k = None \<and> inherited k then Inl Outside
      else Inr (JObj (set_member k v kvs), map_of kvs k))"
| "do_replace v JNull k = Inl PatchTypeError"
| "do_replace v u k = Inl Outside"

text \<open>
  The comparison \<open>_areEquals\<close>, from the last element to the first. A member named \<open>hasOwnProperty\<close>
  hides the method that the comparison calls on its second argument.
\<close>

fun areEquals :: "jsv \<Rightarrow> jsv \<Rightarrow> patch_error + bool"
  and eq_elements :: "jsv list \<Rightarrow> jsv list \<Rightarrow> patch_error + bool"
  and eq_members :: "(string \<times> jsv) list \<Rightarrow> (string \<times> jsv) list \<Rightarrow> patch_error + bool" where
  "areEquals (JArr vs) (JArr ws) = (if length vs \<noteq> length ws then Inr False else eq_elements vs ws)"
| "areEquals (JObj kvs) (JObj kws) =
     (if length kvs \<noteq> length kws then Inr False
      else if map_of kws ''hasOwnProperty'' \<noteq> None then Inl PatchTypeError
      else if \<not> list_all (\<lambda>kv. map_of kws (fst kv) \<noteq> None) kvs then Inr False
      else eq_members kvs kws)"
| "areEquals (JArr vs) (JObj kws) = Inr False"
| "areEquals (JObj kvs) (JArr ws) = Inr False"
| "areEquals v w = Inr (v = w)"
| "eq_elements [] ws = Inr True"
| "eq_elements (v # vs) ws =
     (case eq_elements vs (tl ws) of Inr True \<Rightarrow> areEquals v (hd ws) | r \<Rightarrow> r)"
| "eq_members [] kws = Inr True"
| "eq_members ((k, v) # kvs) kws =
     (case eq_members kvs kws of
        Inr True \<Rightarrow> (case map_of kws k of None \<Rightarrow> Inr False | Some w \<Rightarrow> areEquals v w)
      | r \<Rightarrow> r)"

definition do_test :: "jsv \<Rightarrow> jsv \<Rightarrow> key \<Rightarrow> patch_error + (jsv \<times> jsv option)" where
  "do_test v u k =
     (case child u k of
        Inl e \<Rightarrow> Inl e
      | Inr None \<Rightarrow> Inl TestFailed
      | Inr (Some w) \<Rightarrow>
          (case areEquals w v of Inl e \<Rightarrow> Inl e | Inr b \<Rightarrow> if b then Inr (u, None) else Inl TestFailed))"

definition do_get :: "jsv \<Rightarrow> key \<Rightarrow> patch_error + (jsv \<times> jsv option)" where
  "do_get u k = (case child u k of Inl e \<Rightarrow> Inl e | Inr w \<Rightarrow> Inr (u, w))"

text \<open>
  The loop of \<open>applyOperation\<close>: down to the container that holds the last component, where the
  operation acts.
\<close>

fun walk :: "(jsv \<Rightarrow> key \<Rightarrow> patch_error + (jsv \<times> jsv option)) \<Rightarrow> jsv \<Rightarrow> string option list
    \<Rightarrow> patch_error + (jsv \<times> jsv option)" where
  "walk act u [] = Inl PatchTypeError"
| "walk act u (t # ts) =
     (case token_key u t of
        Inl e \<Rightarrow> Inl e
      | Inr k \<Rightarrow>
          if ts = [] then act u k
          else case child u k of
                 Inl e \<Rightarrow> Inl e
               | Inr None \<Rightarrow> Inl PatchTypeError
               | Inr (Some c) \<Rightarrow>
                   (case walk act c ts of Inl e \<Rightarrow> Inl e | Inr (c', r) \<Rightarrow> Inr (put u k c', r)))"

definition getValueByPointer :: "jsv \<Rightarrow> string \<Rightarrow> patch_error + jsv option" where
  "getValueByPointer doc p =
     (if p = [] then Inr (Some doc)
      else case walk do_get doc (path_tokens p) of Inl e \<Rightarrow> Inl e | Inr (_, w) \<Rightarrow> Inr w)"

definition patch_result :: "patch_error + (jsv \<times> jsv option) \<Rightarrow> patch_error + op_result" where
  "patch_result r = (case r of Inl e \<Rightarrow> Inl e | Inr (d, w) \<Rightarrow> Inr \<lparr>newDocument = d, removed = w, got = None\<rparr>)"

definition apply_root :: "jsv \<Rightarrow> patch_op \<Rightarrow> patch_error + op_result" where
  "apply_root doc opn =
     (case opn of
        PAdd v \<Rightarrow> Inr \<lparr>newDocument = v, removed = None, got = None\<rparr>
      | PReplace v \<Rightarrow> Inr \<lparr>newDocument = v, removed = Some doc, got = None\<rparr>
      | PMove src \<Rightarrow>
          (case getValueByPointer doc src of
             Inl e \<Rightarrow> Inl e
           | Inr None \<Rightarrow> Inl Outside
           | Inr (Some v) \<Rightarrow> Inr \<lparr>newDocument = v, removed = Some doc, got = None\<rparr>)
      | PCopy src \<Rightarrow>
          (case getValueByPointer doc src of
             Inl e \<Rightarrow> Inl e
           | Inr None \<Rightarrow> Inl Outside
           | Inr (Some v) \<Rightarrow> Inr \<lparr>newDocument = v, removed = None, got = None\<rparr>)
      | PTest v \<Rightarrow>
          (case areEquals doc v of
             Inl e \<Rightarrow> Inl e
           | Inr b \<Rightarrow> if b then Inr \<lparr>newDocument = doc, removed = None, got = None\<rparr> else Inl TestFailed)
      | PRemove \<Rightarrow> Inr \<lparr>newDocument = JNull, removed = Some doc, got = None\<rparr>
      | PGet \<Rightarrow> Inr \<lparr>newDocument = doc, removed = None, got = Some doc\<rparr>)"

definition do_nothing :: "jsv \<Rightarrow> key \<Rightarrow> patch_error + (jsv \<times> jsv option)" where
  "do_nothing u k = Inr (u, None)"

text \<open>
  \<open>move\<close> and \<open>copy\<close> start again from the whole document. Moving the whole document into itself would
  make it cyclic; moving or copying what is not there would store \<open>undefined\<close>, except that a missing
  source of \<open>copy\<close> is cloned to \<open>null\<close>.
\<close>

definition do_move :: "jsv \<Rightarrow> string \<Rightarrow> string \<Rightarrow> patch_error + op_result" where
  "do_move doc src path =
     (case getValueByPointer doc path of
        Inl e \<Rightarrow> Inl e
      | Inr overwritten \<Rightarrow>
          if src = [] then Inl Outside
          else case walk do_remove doc (path_tokens src) of
                 Inl e \<Rightarrow> Inl e
               | Inr (_, None) \<Rightarrow> Inl Outside
               | Inr (doc', Some v) \<Rightarrow>
                   (case walk (do_add v) doc' (path_tokens path) of
                      Inl e \<Rightarrow> Inl e
                    | Inr (doc'', _) \<Rightarrow> Inr \<lparr>newDocument = doc'', removed = overwritten, got = None\<rparr>))"

definition do_copy :: "jsv \<Rightarrow> string \<Rightarrow> string \<Rightarrow> patch_error + op_result" where
  "do_copy doc src path =
     (case walk do_nothing doc (path_tokens path) of
        Inl e \<Rightarrow> Inl e
      | Inr _ \<Rightarrow>
          (case getValueByPointer doc src of
             Inl e \<Rightarrow> Inl e
           | Inr w \<Rightarrow>
               patch_result (walk (do_add (case w of None \<Rightarrow> JNull | Some v \<Rightarrow> v)) doc (path_tokens path))))"

definition applyOperation :: "jsv \<Rightarrow> operation \<Rightarrow> patch_error + op_result" where
  "applyOperation doc opn =
     (let path = op_path opn; ts = path_tokens path
      in if path = [] then apply_root doc (op_kind opn)
         else case op_kind opn of
           PAdd v \<Rightarrow> patch_result (walk (do_add v) doc ts)
         | PRemove \<Rightarrow> patch_result (walk do_remove doc ts)
         | PReplace v \<Rightarrow> patch_result (walk (do_replace v) doc ts)
         | PTest v \<Rightarrow> patch_result (walk (do_test v) doc ts)
         | PGet \<Rightarrow>
             (case walk do_get doc ts of
                Inl e \<Rightarrow> Inl e
              | Inr (d, w) \<Rightarrow> Inr \<lparr>newDocument = d, removed = None, got = w\<rparr>)
         | PMove src \<Rightarrow> do_move doc src path
         | PCopy src \<Rightarrow> do_copy doc src path)"

fun applyPatch :: "jsv \<Rightarrow> operation list \<Rightarrow> patch_error + jsv" where
  "applyPatch doc [] = Inr doc"
| "applyPatch doc (opn # opns) =
     (case applyOperation doc opn of Inl e \<Rightarrow> Inl e | Inr r \<Rightarrow> applyPatch (newDocument r) opns)"

section \<open>Escaped components\<close>

definition pointer_char :: "char \<Rightarrow> string" where
  "pointer_char c = (if c = CHR ''~'' then ''~0'' else if c = CHR ''/'' then ''~1'' else [c])"

lemma escape_chars: "replace_all ''/'' ''~1'' (replace_all ''~'' ''~0'' s) = concat (map pointer_char s)"
  by (induction s) (simp_all add: replace_all_char pointer_char_def)

lemma escapePathComponent_chars: "escapePathComponent s = concat (map pointer_char s)"
proof (cases "CHR ''/'' \<notin> set s \<and> CHR ''~'' \<notin> set s")
  case True
  then have "concat (map pointer_char s) = s" by (induction s) (auto simp: pointer_char_def)
  then show ?thesis using True by (simp add: escapePathComponent_def)
next
  case False
  then show ?thesis by (auto simp: escapePathComponent_def escape_chars)
qed

lemma unescape_slashes:
  "replace_all ''~1'' ''/'' (concat (map pointer_char s)) = concat (map (\<lambda>c. if c = CHR ''~'' then ''~0'' else [c]) s)"
  by (induction s) (auto simp: pointer_char_def replace_all.simps [of "''~1''" "''/''" "_ # _"])

lemma unescape_tildes:
  "replace_all ''~0'' ''~'' (concat (map (\<lambda>c. if c = CHR ''~'' then ''~0'' else [c]) s)) = s"
  by (induction s) (auto simp: replace_all.simps [of "''~0''" "''~''" "_ # _"])

lemma unescape_escape: "unescapePathComponent (escapePathComponent s) = s"
  by (simp add: unescapePathComponent_def escapePathComponent_chars unescape_slashes unescape_tildes)

lemma escaped_no_slash: "CHR ''/'' \<notin> set (escapePathComponent s)"
  by (auto simp: escapePathComponent_chars pointer_char_def split: if_splits)

lemma escaped_no_tilde: "CHR ''~'' \<notin> set (escapePathComponent s) \<Longrightarrow> escapePathComponent s = s"
  by (induction s) (auto simp: escapePathComponent_chars pointer_char_def split: if_splits)

lemma escape_inj: "escapePathComponent s = escapePathComponent t \<longleftrightarrow> s = t"
  by (metis unescape_escape)

lemma normalizeJSONPath_tokens:
  "normalizeJSONPath ks = (if ks = [] then [] else CHR ''/'' # js_join ''/'' (map escapePathComponent ks))"
  by (cases ks) (simp_all add: normalizeJSONPath_def escape_chars escapePathComponent_chars [abs_def])

lemma split_normalizeJSONPath:
  "ks \<noteq> [] \<Longrightarrow> js_split (CHR ''/'') (normalizeJSONPath ks) = [] # map escapePathComponent ks"
  by (simp add: normalizeJSONPath_tokens js_split_join list_all_iff escaped_no_slash)

lemma path_tokens_normalizeJSONPath:
  "ks \<noteq> [] \<Longrightarrow> path_tokens (normalizeJSONPath ks) = map (\<lambda>k. Some (escapePathComponent k)) ks"
  by (cases ks) (simp_all add: path_tokens_def split_normalizeJSONPath)

section \<open>Parents\<close>

lemma normalizeJSONPath_concat: "normalizeJSONPath ks = concat (map (\<lambda>k. CHR ''/'' # escapePathComponent k) ks)"
proof (cases ks)
  case (Cons k ks')
  have "CHR ''/'' # js_join ''/'' (map escapePathComponent (k # ks'))
          = concat (map (\<lambda>k. CHR ''/'' # escapePathComponent k) (k # ks'))" for k ks'
    by (induction ks' arbitrary: k) simp_all
  then show ?thesis by (simp add: normalizeJSONPath_tokens Cons)
qed (simp add: normalizeJSONPath_tokens)

definition at_boundary :: "string \<Rightarrow> bool" where
  "at_boundary r \<longleftrightarrow> r = [] \<or> hd r = CHR ''/''"

lemma takeWhile_boundary: "CHR ''/'' \<notin> set w \<Longrightarrow> at_boundary r \<Longrightarrow> takeWhile (\<lambda>c. c \<noteq> CHR ''/'') (w @ r) = w"
  by (induction w) (auto simp: at_boundary_def neq_Nil_conv takeWhile_eq_Nil_iff)

lemma normalizeJSONPath_boundary: "at_boundary (normalizeJSONPath ks)"
  by (cases ks) (simp_all add: normalizeJSONPath_concat at_boundary_def)

lemma normalizeJSONPath_append:
  "at_boundary r \<Longrightarrow> normalizeJSONPath ts = normalizeJSONPath ps @ r \<Longrightarrow> prefix ps ts"
proof (induction ps arbitrary: ts)
  case (Cons p ps)
  then obtain t ts' where ts: "ts = t # ts'" by (cases ts) (simp_all add: normalizeJSONPath_concat)
  have eq: "escapePathComponent t @ normalizeJSONPath ts' = escapePathComponent p @ normalizeJSONPath ps @ r"
    using Cons.prems(2) by (simp add: normalizeJSONPath_concat ts)
  have "at_boundary (normalizeJSONPath ps @ r)"
    using Cons.prems(1) by (cases ps) (simp_all add: normalizeJSONPath_concat at_boundary_def)
  then have "escapePathComponent t = escapePathComponent p"
    using arg_cong [OF eq, of "takeWhile (\<lambda>c. c \<noteq> CHR ''/'')"]
    by (simp add: takeWhile_boundary escaped_no_slash normalizeJSONPath_boundary)
  then have "t = p" "normalizeJSONPath ts' = normalizeJSONPath ps @ r" using eq by (simp_all add: escape_inj)
  then show ?case using Cons.IH [OF Cons.prems(1)] by (simp add: ts)
qed simp

lemma normalizeJSONPath_hash:
  "CHR ''#'' \<in> set (normalizeJSONPath ks) \<longleftrightarrow> (\<exists>k \<in> set ks. CHR ''#'' \<in> set k)"
  by (auto simp: normalizeJSONPath_concat escapePathComponent_chars pointer_char_def split: if_splits)

lemma escape_Nil [simp]: "escapePathComponent k = [] \<longleftrightarrow> k = []"
  by (cases k) (simp_all add: escapePathComponent_chars pointer_char_def)

lemma normalizeJSONPath_root: "normalizeJSONPath ks = ''/'' \<longleftrightarrow> ks = [[]]"
proof (cases ks)
  case (Cons k ks')
  then show ?thesis by (cases ks') (simp_all add: normalizeJSONPath_concat)
qed (simp add: normalizeJSONPath_concat)

text \<open>
  On pointers made from lists of member names, \<open>pointerIsAParent\<close> decides whether the parent's list is
  a prefix of the other, so that a member whose name merely begins with another's, or contains \<open>/\<close> or
  \<open>~\<close>, is never taken for a child. The names have no \<open>#\<close>, and the parent is not the member with the empty
  name, whose pointer \<open>/\<close> counts as the root.
\<close>

lemma pointerIsAParent_prefix:
  assumes "\<forall>k \<in> set ts \<union> set ps. CHR ''#'' \<notin> set k" "ps \<noteq> [[]]"
  shows "pointerIsAParent (normalizeJSONPath ts) (normalizeJSONPath ps) \<longleftrightarrow> prefix ps ts"
proof (cases ps)
  case (Cons p ps')
  let ?t = "normalizeJSONPath ts" and ?p = "normalizeJSONPath ps"
  have hash: "CHR ''#'' \<notin> set ?t" "CHR ''#'' \<notin> set ?p"
    using assms(1) by (auto simp: normalizeJSONPath_hash)
  have "?p \<noteq> []" "hd ?p = CHR ''/''" by (simp_all add: Cons normalizeJSONPath_concat)
  then have special: "\<not> (?p = [] \<or> ?p = ''/'' \<or> ?p = ''#'')" "last ?p \<noteq> CHR ''#''"
    using assms(2) hash(2) by (auto simp: normalizeJSONPath_root) (metis last_in_set)
  show ?thesis
  proof
    assume a: "pointerIsAParent ?t ?p"
    then obtain r where r: "?t = ?p @ r" using special by (auto simp: pointerIsAParent_def Let_def prefix_def)
    then have "at_boundary r" using a special hash(1)
      by (cases r) (auto simp: pointerIsAParent_def Let_def at_boundary_def)
    then show "prefix ps ts" using r by (rule normalizeJSONPath_append)
  next
    assume "prefix ps ts"
    then obtain zs where zs: "ts = ps @ zs" by (auto simp: prefix_def)
    then have "?t = ?p @ normalizeJSONPath zs" by (simp add: normalizeJSONPath_concat)
    then show "pointerIsAParent ?t ?p" using special normalizeJSONPath_boundary [of zs]
      by (cases "normalizeJSONPath zs") (auto simp: pointerIsAParent_def Let_def at_boundary_def)
  qed
qed (simp add: pointerIsAParent_def normalizeJSONPath_def)

section \<open>A path as a lens\<close>

text \<open>
  A part of a whole that can be looked up, and replaced where it is there: replacing it is seen by the
  lookup, replacing it by itself changes nothing, and of two replacements the second one counts.
\<close>

locale partial_lens =
  fixes look :: "'s \<Rightarrow> 'v option"
    and update :: "'s \<Rightarrow> 'v \<Rightarrow> 's"
  assumes look_update: "look s = Some v \<Longrightarrow> look (update s w) = Some w"
    and update_look: "look s = Some v \<Longrightarrow> update s v = s"
    and update_update: "look s = Some v \<Longrightarrow> update (update s v') w = update s w"
begin

text \<open>A change of the part that another change of the part undoes is undone in the whole.\<close>

lemma undo: "look s = Some v \<Longrightarrow> look (update s w) = Some w \<and> update (update s w) v = s"
  by (simp add: look_update update_update update_look)

end

definition child_of :: "key \<Rightarrow> jsv \<Rightarrow> jsv option" where
  "child_of k u = (case child u k of Inr (Some c) \<Rightarrow> Some c | _ \<Rightarrow> None)"

lemma map_of_set_member: "map_of (set_member k v kvs) = (map_of kvs)(k \<mapsto> v)"
  by (induction k v kvs rule: set_member.induct) (auto simp: fun_upd_twist)

lemma set_member_same: "map_of kvs k = Some v \<Longrightarrow> set_member k v kvs = kvs"
  by (induction k v kvs rule: set_member.induct) (auto split: if_splits)

lemma set_member_twice: "set_member k w (set_member k v kvs) = set_member k w kvs"
  by (induction k v kvs rule: set_member.induct) auto

lemma child_of_cases:
  assumes "child_of k u = Some c"
  obtains vs i where "u = JArr vs" "k = Idx i" "0 \<le> i" "i < int (length vs)" "c = vs ! nat i"
  | kvs p where "u = JObj kvs" "k = Prop p" "map_of kvs p = Some c"
  using assms by (cases "(u, k)" rule: child.cases) (auto simp: child_of_def split: if_splits option.splits)

interpretation member: partial_lens "child_of k" "\<lambda>u. put u k" for k
proof
  fix u c d e
  assume *: "child_of k u = Some c"
  show "child_of k (put u k d) = Some d"
    using * by (rule child_of_cases) (simp_all add: child_of_def map_of_set_member)
  show "put u k c = u"
    using * by (rule child_of_cases) (simp_all add: set_member_same)
  show "put (put u k d) k e = put u k e"
    using * by (rule child_of_cases) (simp_all add: set_member_twice)
qed

text \<open>The container that holds the last component of a path, and the document with another one there.\<close>

fun container :: "string option list \<Rightarrow> jsv \<Rightarrow> jsv option" where
  "container [] u = None"
| "container (t # ts) u =
     (if ts = [] then Some u
      else case token_key u t of
             Inl _ \<Rightarrow> None
           | Inr k \<Rightarrow> (case child_of k u of None \<Rightarrow> None | Some c \<Rightarrow> container ts c))"

fun rebuild :: "string option list \<Rightarrow> jsv \<Rightarrow> jsv \<Rightarrow> jsv" where
  "rebuild [] u w = u"
| "rebuild (t # ts) u w =
     (if ts = [] then w
      else case token_key u t of
             Inl _ \<Rightarrow> u
           | Inr k \<Rightarrow> (case child_of k u of None \<Rightarrow> u | Some c \<Rightarrow> put u k (rebuild ts c w)))"

lemma token_key_put: "child_of k u = Some c \<Longrightarrow> token_key (put u k d) t = token_key u t"
  by (erule child_of_cases; cases t) (simp_all add: token_key_def)

interpretation path: partial_lens "container ts" "rebuild ts" for ts
proof
  fix u c d e
  show "container ts u = Some c \<Longrightarrow> container ts (rebuild ts u d) = Some d"
    by (induction ts arbitrary: u)
       (auto simp: token_key_put member.look_update split: if_splits sum.splits option.splits)
  show "container ts u = Some c \<Longrightarrow> rebuild ts u c = u"
    by (induction ts arbitrary: u)
       (auto simp: member.update_look split: if_splits sum.splits option.splits)
  show "container ts u = Some c \<Longrightarrow> rebuild ts (rebuild ts u d) e = rebuild ts u e"
    by (induction ts arbitrary: u)
       (auto simp: token_key_put member.look_update member.update_update split: if_splits sum.splits option.splits)
qed

lemma walk_container:
  assumes "container ts u = Some c" "token_key c (last ts) = Inr k"
  shows "walk act u ts =
           (case act c k of Inl e \<Rightarrow> Inl e | Inr (c', r) \<Rightarrow> Inr (rebuild ts u c', r))"
  using assms
  by (induction ts arbitrary: u)
     (auto simp: child_of_def split: if_splits sum.splits option.splits)

section \<open>Adding and removing\<close>

text \<open>
  A place where something can be added: a member that the object does not have, its own or inherited,
  or an index of an array or its end, given as a number.
\<close>

definition free_place :: "jsv \<Rightarrow> string \<Rightarrow> bool" where
  "free_place doc p \<longleftrightarrow>
     p \<noteq> [] \<and> last (path_tokens p) \<noteq> Some ''-'' \<and>
     (case container (path_tokens p) doc of
        None \<Rightarrow> False
      | Some c \<Rightarrow>
          (case token_key c (last (path_tokens p)) of
             Inl _ \<Rightarrow> False
           | Inr k \<Rightarrow>
               (case (c, k) of
                  (JArr vs, Idx i) \<Rightarrow> 0 \<le> i \<and> i \<le> int (length vs)
                | (JObj kvs, Prop m) \<Rightarrow> m \<notin> fst ` set kvs \<and> \<not> inherited m
                | _ \<Rightarrow> False)))"

lemma set_member_new: "k \<notin> fst ` set kvs \<Longrightarrow> set_member k v kvs = kvs @ [(k, v)]"
  by (induction k v kvs rule: set_member.induct) auto

lemma delete_member_new: "k \<notin> fst ` set kvs \<Longrightarrow> delete_member k (kvs @ [(k, v)]) = kvs"
  by (auto simp: delete_member_def filter_id_conv)

lemma token_key_object: "token_key (JObj kvs) t = token_key (JObj kvs') t"
  by (simp add: token_key_def)

lemma token_key_array: "t \<noteq> Some ''-'' \<Longrightarrow> token_key (JArr vs) t = token_key (JArr vs') t"
  by (cases t) (simp_all add: token_key_def)

text \<open>At the container, an addition to a free place is seen by the lookup and undone by the removal.\<close>

lemma free_place_container:
  assumes "free_place doc p"
  obtains c k c' where "container (path_tokens p) doc = Some c" "token_key c (last (path_tokens p)) = Inr k"
    "do_add v c k = Inr (c', None)" "token_key c' (last (path_tokens p)) = Inr k"
    "child c' k = Inr (Some v)" "do_remove c' k = Inr (c, Some v)"
proof -
  let ?t = "last (path_tokens p)"
  obtain c k where c: "container (path_tokens p) doc = Some c" "token_key c ?t = Inr k"
      and place: "(\<exists>vs i. c = JArr vs \<and> k = Idx i \<and> 0 \<le> i \<and> i \<le> int (length vs))
                \<or> (\<exists>kvs m. c = JObj kvs \<and> k = Prop m \<and> m \<notin> fst ` set kvs \<and> \<not> inherited m)"
    using assms by (auto simp: free_place_def split: option.splits sum.splits jsv.splits key.splits)
  have t: "?t \<noteq> Some ''-''" using assms by (simp add: free_place_def)
  from place show thesis
  proof (elim disjE exE conjE)
    fix vs i
    assume a: "c = JArr vs" "k = Idx i" "0 \<le> i" "i \<le> int (length vs)"
    then have i: "splice_start i (length vs) = nat i" "splice_start i (Suc (length vs)) = nat i" "nat i \<le> length vs"
      by (simp_all add: splice_start_def)
    let ?ws = "take (nat i) vs @ v # drop (nat i) vs"
    have len: "length ?ws = Suc (length vs)" using i(3) by simp
    have rem: "do_remove (JArr ?ws) (Idx i) = Inr (JArr vs, Some v)"
      unfolding do_remove.simps len using i(2,3) by (simp add: Let_def nth_append)
    have get: "child (JArr ?ws) (Idx i) = Inr (Some v)"
      unfolding child.simps len using i(3) a by (simp add: nth_append)
    have added: "do_add v (JArr vs) (Idx i) = Inr (JArr ?ws, None)" by (simp add: i(1) Let_def)
    have "token_key (JArr ?ws) ?t = Inr (Idx i)" using c(2) token_key_array [OF t, of vs ?ws] a by simp
    from that [OF c [unfolded a(1,2)] added this get] rem show thesis by (simp only: a(1))
  next
    fix kvs m
    assume a: "c = JObj kvs" "k = Prop m" "m \<notin> fst ` set kvs" "\<not> inherited m"
    then have "map_of kvs m = None" by (simp add: map_of_eq_None_iff)
    then show thesis
      using c a token_key_object [of kvs ?t "kvs @ [(m, v)]"]
      by (intro that [of c k]) (auto simp: set_member_new delete_member_new map_add_def)
  qed
qed

text \<open>
  Adding a value at a free place of a document succeeds, the pointer of that place then reads the
  value back, and removing it gives the value and exactly the document before the addition, however deep
  the place is and whatever the other members hold.
\<close>

lemma add_get_remove:
  assumes "free_place doc p"
  shows "\<exists>doc'. applyOperation doc \<lparr>op_kind = PAdd v, op_path = p\<rparr>
                  = Inr \<lparr>newDocument = doc', removed = None, got = None\<rparr>
           \<and> getValueByPointer doc' p = Inr (Some v)
           \<and> applyOperation doc' \<lparr>op_kind = PRemove, op_path = p\<rparr>
                  = Inr \<lparr>newDocument = doc, removed = Some v, got = None\<rparr>"
proof -
  let ?ts = "path_tokens p"
  have p: "p \<noteq> []" using assms by (simp add: free_place_def)
  obtain c k c' where c: "container ?ts doc = Some c" "token_key c (last ?ts) = Inr k"
      and added: "do_add v c k = Inr (c', None)" and k': "token_key c' (last ?ts) = Inr k"
      and get: "child c' k = Inr (Some v)" and rem: "do_remove c' k = Inr (c, Some v)"
    using free_place_container [OF assms] .
  note undone = path.undo [OF c(1), of c']
  have "walk (do_add v) doc ?ts = Inr (rebuild ?ts doc c', None)"
    by (simp add: walk_container [OF c] added)
  moreover have "walk do_get (rebuild ?ts doc c') ?ts = Inr (rebuild ?ts (rebuild ?ts doc c') c', Some v)"
    by (simp add: walk_container [OF _ k'] undone get do_get_def)
  moreover have "walk do_remove (rebuild ?ts doc c') ?ts = Inr (doc, Some v)"
    by (simp add: walk_container [OF _ k'] undone rem)
  ultimately show ?thesis using p
    by (simp add: applyOperation_def getValueByPointer_def patch_result_def Let_def)
qed

section \<open>Indices\<close>

lemma digits_value_snoc: "digits_value (s @ [c]) = digits_value s * 10 + (of_char c - 48)"
  by (simp add: digits_value_def)

lemma dec_digit_value: "of_char (dec_digit n) - 48 = n mod 10"
proof -
  have "\<forall>m \<in> set [0..<10]. of_char (''0123456789'' ! m) - 48 = m" by code_simp
  then show ?thesis by (auto simp: dec_digit_def)
qed

lemma digits_value_show: "digits_value (show_nat n) = n"
proof (induction n rule: show_nat.induct)
  case (1 n)
  show ?case
  proof (cases "n < 10")
    case True
    then show ?thesis using dec_digit_value [of n] by (simp add: show_nat.simps digits_value_def)
  next
    case False
    then show ?thesis using 1 by (simp add: show_nat.simps [of n] digits_value_snoc dec_digit_value)
  qed
qed

lemma isInteger_append: "isInteger (s @ t) \<longleftrightarrow> isInteger s \<and> isInteger t"
  by (simp add: isInteger_def)

lemma isInteger_dec_digit: "isInteger [dec_digit n]"
proof -
  have "\<forall>m \<in> set [0..<10]. 48 \<le> (of_char (''0123456789'' ! m) :: nat) \<and> (of_char (''0123456789'' ! m) :: nat) \<le> 57"
    by code_simp
  then show ?thesis by (auto simp: dec_digit_def isInteger_def)
qed

lemma isInteger_show: "isInteger (show_nat n)"
  by (induction n rule: show_nat.induct)
     (simp add: show_nat.simps isInteger_append isInteger_dec_digit del: append.simps)

lemma show_nat_inj [simp]: "show_nat m = show_nat n \<longleftrightarrow> m = n"
  by (metis digits_value_show)

section \<open>Reading\<close>

text \<open>What a list of member names and indices selects in a document.\<close>

fun select :: "jsv \<Rightarrow> string list \<Rightarrow> jsv option" where
  "select v [] = Some v"
| "select (JObj kvs) (k # ks) = (case map_of kvs k of None \<Rightarrow> None | Some v \<Rightarrow> select v ks)"
| "select (JArr vs) (k # ks) =
     (if isInteger k \<and> digits_value k < length vs \<and> digits_value k < 2 ^ 31 then select (vs ! digits_value k) ks else None)"
| "select v (k # ks) = None"

lemma to_int32_small: "n < 2 ^ 31 \<Longrightarrow> to_int32 n = int n"
  unfolding to_int32_def by (simp add: sint_uint uint_nat unat_of_nat signed_take_bit_int_eq_self take_bit_nat_eq_self)

lemma isInteger_escape: "isInteger k \<Longrightarrow> escapePathComponent k = k"
  by (auto simp: isInteger_def list_all_iff escapePathComponent_def)

lemma isInteger_minus: "isInteger k \<Longrightarrow> k \<noteq> ''-''"
  by (auto simp: isInteger_def)

lemma token_key_member:
  assumes "k \<noteq> ''__proto__''" "\<And>vs. u \<noteq> JArr vs"
  shows "token_key u (Some (escapePathComponent k)) = Inr (Prop k)"
proof -
  have "escapePathComponent k \<noteq> ''__proto__''"
    using assms(1) escape_inj [of k "''__proto__''"] by (simp add: escapePathComponent_def)
  then show ?thesis using assms(2) escaped_no_tilde [of k]
    by (auto simp: token_key_def unescape_escape split: jsv.splits)
qed

lemma token_key_index:
  assumes "isInteger k" "digits_value k < 2 ^ 31"
  shows "token_key (JArr vs) (Some (escapePathComponent k)) = Inr (Idx (int (digits_value k)))"
proof -
  have "k \<noteq> ''__proto__''" using assms(1) by (auto simp: isInteger_def)
  then show ?thesis using assms isInteger_minus [OF assms(1)]
    by (simp add: token_key_def isInteger_escape to_int32_small)
qed

lemma select_step:
  assumes "select doc (k # ks) = Some v" "k \<noteq> ''__proto__''"
  obtains c m where "token_key doc (Some (escapePathComponent k)) = Inr m" "child doc m = Inr (Some c)"
    "select c ks = Some v"
proof (cases doc)
  case (JArr vs)
  then show ?thesis using assms that [OF token_key_index [of k vs, folded JArr]]
    by (simp split: if_splits)
next
  case (JObj kvs)
  then show ?thesis using assms that [OF token_key_member [of k doc]]
    by (simp split: option.splits)
qed (use assms in simp_all)

lemma walk_select:
  assumes "select doc ks = Some v" "''__proto__'' \<notin> set ks" "ks \<noteq> []"
  shows "\<exists>doc'. walk do_get doc (map (\<lambda>k. Some (escapePathComponent k)) ks) = Inr (doc', Some v)"
  using assms
proof (induction ks arbitrary: doc)
  case (Cons k ks)
  obtain c m where "token_key doc (Some (escapePathComponent k)) = Inr m" "child doc m = Inr (Some c)"
      and sel: "select c ks = Some v"
    using select_step [OF Cons.prems(1)] Cons.prems(2) by (metis list.set_intros(1))
  then show ?case using Cons.IH [OF sel] Cons.prems(2)
    by (cases "ks = []") (auto simp: do_get_def)
qed simp

text \<open>
  The pointer that \<open>normalizeJSONPath\<close> makes of a list of member names and array indices reads, with
  \<open>getValueByPointer\<close>, exactly the value that the list selects in the document, whatever \<open>/\<close> and \<open>~\<close> the
  names contain. Only the name \<open>__proto__\<close> is banned.
\<close>

lemma pointer_reads_selected:
  assumes "select doc ks = Some v" "''__proto__'' \<notin> set ks"
  shows "getValueByPointer doc (normalizeJSONPath ks) = Inr (Some v)"
proof (cases "ks = []")
  case False
  then have "normalizeJSONPath ks \<noteq> []" by (simp add: normalizeJSONPath_tokens)
  then show ?thesis using walk_select [OF assms False]
    by (auto simp: getValueByPointer_def path_tokens_normalizeJSONPath [OF False])
qed (use assms in \<open>simp add: getValueByPointer_def normalizeJSONPath_def\<close>)

text \<open>
  An array index is read as a signed 32-bit integer, so that \<open>2 ^ 32\<close> names the first element, and the
  empty component names it too.
\<close>

lemma wrapped_index:
  "getValueByPointer (JArr [JNum ''7'']) ''/4294967296'' = Inr (Some (JNum ''7''))"
  "getValueByPointer (JArr [JNum ''7'']) ''/'' = Inr (Some (JNum ''7''))"
  by (simp_all add: getValueByPointer_def path_tokens_def token_key_def isInteger_def digits_value_def
        to_int32_def do_get_def)

end
