(* ===== verification/Js_Compare.thy ===== *)
theory Js_Compare
  imports Js_Patch
begin

text \<open>
  The comparison of documents in the page that the provision daemon serves
  (\<open>cmds/modules/provisiond/swagger/swagger-ui-es-bundle.js\<close>: \<open>_generate\<close>, \<open>compare\<close>, and \<open>generate\<close> for
  an observed document), which derives from two documents the patch that turns the one into the other.

  Both arguments are plain JSON. A shared part of them is one that is equal, for which the comparison
  gives no operation, as it does for one and the same object in JavaScript. The order of the members of
  an object is the one of its association list. Documents that are not arrays or objects are \<open>Outside\<close>.
\<close>

section \<open>The comparison\<close>

fun is_array :: "jsv \<Rightarrow> bool" where
  "is_array (JArr vs) = True"
| "is_array v = False"

fun is_container :: "jsv \<Rightarrow> bool" where
  "is_container (JArr vs) = True"
| "is_container (JObj kvs) = True"
| "is_container v = False"

text \<open>\<open>_objectKeys\<close>.\<close>

fun objectKeys :: "jsv \<Rightarrow> string list" where
  "objectKeys (JArr vs) = map show_nat [0..<length vs]"
| "objectKeys (JObj kvs) = map fst kvs"
| "objectKeys v = []"

text \<open>An own property: \<open>hasOwnProperty\<close> and the value; an array has a length of its own.\<close>

fun own :: "jsv \<Rightarrow> string \<Rightarrow> jsv option" where
  "own (JArr vs) k =
     (if k = ''length'' then Some (JNum (show_nat (length vs)))
      else let i = digits_value k in if show_nat i = k \<and> i < length vs then Some (vs ! i) else None)"
| "own (JObj kvs) k = map_of kvs k"
| "own v k = None"

definition sub_path :: "string \<Rightarrow> string \<Rightarrow> string" where
  "sub_path path k = path @ ''/'' @ escapePathComponent k"

definition invert_test :: "bool \<Rightarrow> string \<Rightarrow> jsv \<Rightarrow> operation list" where
  "invert_test invertible path v = (if invertible then [\<lparr>op_kind = PTest v, op_path = path\<rparr>] else [])"

lemma own_size: "own v k = Some w \<Longrightarrow> is_container w \<Longrightarrow> size w < size v"
proof (cases v)
  case (JArr vs)
  assume o: "own v k = Some w" "is_container w"
  then have "w \<in> set vs" using JArr by (auto simp: Let_def split: if_splits)
  then show ?thesis using JArr by (auto simp: size_list_estimation' less_Suc_eq_le)
next
  case (JObj kvs)
  assume o: "own v k = Some w"
  then have "(k, w) \<in> set kvs" using JObj by (auto dest: map_of_SomeD)
  then have "size w < Suc (size_list (size_prod (\<lambda>x. 0) size) kvs)"
    by (induction kvs) auto
  then show ?thesis using JObj by simp
qed auto

text \<open>
  \<open>_generate\<close>: the members of the old document from the last to the first, then the new members.
\<close>

function generate_patch :: "bool \<Rightarrow> jsv \<Rightarrow> jsv \<Rightarrow> string \<Rightarrow> operation list" where
  "generate_patch invertible mirror obj path =
     (let newKeys = objectKeys obj; oldKeys = objectKeys mirror;
          same_kind = (is_array mirror = is_array obj);
          deleted = (same_kind \<and> list_ex (\<lambda>k. own obj k = None) oldKeys)
      in concat (map (\<lambda>k.
           case own mirror k of
             None \<Rightarrow> []
           | Some oldVal \<Rightarrow>
               (case own obj k of
                  None \<Rightarrow>
                    if same_kind
                    then invert_test invertible (sub_path path k) oldVal
                           @ [\<lparr>op_kind = PRemove, op_path = sub_path path k\<rparr>]
                    else invert_test invertible path mirror @ [\<lparr>op_kind = PReplace obj, op_path = path\<rparr>]
                | Some newVal \<Rightarrow>
                    if is_container oldVal \<and> is_container newVal
                    then generate_patch invertible oldVal newVal (sub_path path k)
                    else if oldVal \<noteq> newVal
                    then invert_test invertible (sub_path path k) oldVal
                           @ [\<lparr>op_kind = PReplace newVal, op_path = sub_path path k\<rparr>]
                    else [])) (rev oldKeys))
         @ (if deleted \<or> length newKeys \<noteq> length oldKeys
            then concat (map (\<lambda>k.
                   case own mirror k of
                     Some _ \<Rightarrow> []
                   | None \<Rightarrow>
                       (case own obj k of
                          None \<Rightarrow> []
                        | Some newVal \<Rightarrow> [\<lparr>op_kind = PAdd newVal, op_path = sub_path path k\<rparr>])) newKeys)
            else []))"
  by pat_completeness auto
termination
  by (relation "measure (\<lambda>(_, mirror, _, _). size mirror)") (auto dest: own_size)

declare generate_patch.simps [simp del]

definition compare_docs :: "jsv \<Rightarrow> jsv \<Rightarrow> bool \<Rightarrow> patch_error + operation list" where
  "compare_docs tree1 tree2 invertible =
     (if is_container tree1 \<and> is_container tree2 then Inr (generate_patch invertible tree1 tree2 []) else Inl Outside)"

text \<open>
  An observed document: the mirror of what was last seen. \<open>generate\<close> returns the patches since then and
  brings the mirror up to date in place. A replacement of the whole document, which happens when an array
  takes the place of an object or the other way round, does not reach the mirror and makes the patch
  change the observed object itself; that case is \<open>Outside\<close>.
\<close>

record observer =
  ob_value :: jsv
  ob_patches :: "operation list"

definition observe :: "jsv \<Rightarrow> observer" where
  "observe obj = \<lparr>ob_value = obj, ob_patches = []\<rparr>"

definition observer_generate :: "observer \<Rightarrow> jsv \<Rightarrow> bool \<Rightarrow> patch_error + (operation list \<times> observer)" where
  "observer_generate ob obj invertible =
     (case compare_docs (ob_value ob) obj invertible of
        Inl e \<Rightarrow> Inl e
      | Inr new \<Rightarrow>
          let patches = ob_patches ob @ new
          in if patches = [] then Inr ([], ob)
             else if list_ex (\<lambda>opn. op_path opn = []) patches then Inl Outside
             else case applyPatch (ob_value ob) patches of
                    Inl e \<Rightarrow> Inl e
                  | Inr v \<Rightarrow> Inr (patches, \<lparr>ob_value = v, ob_patches = []\<rparr>))"

section \<open>Edits addressed by member names\<close>

text \<open>
  The same comparison with lists of names in place of pointers, without the tests of an invertible patch.
\<close>

type_synonym edit = "string list \<times> patch_op"

definition at_keys :: "edit \<Rightarrow> operation" where
  "at_keys e = \<lparr>op_kind = snd e, op_path = normalizeJSONPath (fst e)\<rparr>"

definition below :: "string \<Rightarrow> edit \<Rightarrow> edit" where
  "below k e = (k # fst e, snd e)"

definition edit_old :: "(jsv \<Rightarrow> jsv \<Rightarrow> edit list) \<Rightarrow> jsv \<Rightarrow> jsv \<Rightarrow> string \<Rightarrow> edit list" where
  "edit_old rec m n k =
     (case own m k of
        None \<Rightarrow> []
      | Some a \<Rightarrow>
          (case own n k of
             None \<Rightarrow> if is_array m = is_array n then [([k], PRemove)] else [([], PReplace n)]
           | Some b \<Rightarrow>
               if is_container a \<and> is_container b then map (below k) (rec a b)
               else if a \<noteq> b then [([k], PReplace b)] else []))"

definition edit_new :: "jsv \<Rightarrow> jsv \<Rightarrow> string \<Rightarrow> edit list" where
  "edit_new m n k =
     (case own m k of
        Some _ \<Rightarrow> []
      | None \<Rightarrow> (case own n k of None \<Rightarrow> [] | Some b \<Rightarrow> [([k], PAdd b)]))"

definition needs_new :: "jsv \<Rightarrow> jsv \<Rightarrow> bool" where
  "needs_new m n \<longleftrightarrow>
     (is_array m = is_array n \<and> list_ex (\<lambda>k. own n k = None) (objectKeys m))
       \<or> length (objectKeys n) \<noteq> length (objectKeys m)"

lemma edit_old_cong [fundef_cong]:
  assumes "m = m'" "n = n'" "k = k'"
    and "\<And>a b. own m' k' = Some a \<Longrightarrow> own n' k' = Some b \<Longrightarrow> is_container a \<Longrightarrow> is_container b \<Longrightarrow> rec a b = rec' a b"
  shows "edit_old rec m n k = edit_old rec' m' n' k'"
  using assms by (auto simp: edit_old_def split: option.splits)

function edits :: "jsv \<Rightarrow> jsv \<Rightarrow> edit list" where
  "edits m n =
     concat (map (edit_old edits m n) (rev (objectKeys m)))
       @ (if needs_new m n then concat (map (edit_new m n) (objectKeys n)) else [])"
  by pat_completeness auto
termination by (relation "measure (\<lambda>(m, _). size m)") (auto dest: own_size)

declare edits.simps [simp del]

lemma sub_path_normalized: "sub_path (normalizeJSONPath ks) k = normalizeJSONPath (ks @ [k])"
  by (simp add: sub_path_def normalizeJSONPath_concat)

definition after :: "string list \<Rightarrow> edit \<Rightarrow> operation" where
  "after ks e = at_keys (ks @ fst e, snd e)"

lemma after_below: "after ks (below k e) = after (ks @ [k]) e"
  by (simp add: after_def below_def at_keys_def)

lemma generate_patch_edits:
  "generate_patch False m n (normalizeJSONPath ks) = map (after ks) (edits m n)"
proof (induction m n arbitrary: ks rule: edits.induct)
  case (1 m n)
  have old: "(case own m k of
             None \<Rightarrow> []
           | Some oldVal \<Rightarrow>
               (case own n k of
                  None \<Rightarrow>
                    if is_array m = is_array n
                    then invert_test False (sub_path (normalizeJSONPath ks) k) oldVal
                           @ [\<lparr>op_kind = PRemove, op_path = sub_path (normalizeJSONPath ks) k\<rparr>]
                    else invert_test False (normalizeJSONPath ks) m @ [\<lparr>op_kind = PReplace n, op_path = normalizeJSONPath ks\<rparr>]
                | Some newVal \<Rightarrow>
                    if is_container oldVal \<and> is_container newVal
                    then generate_patch False oldVal newVal (sub_path (normalizeJSONPath ks) k)
                    else if oldVal \<noteq> newVal
                    then invert_test False (sub_path (normalizeJSONPath ks) k) oldVal
                           @ [\<lparr>op_kind = PReplace newVal, op_path = sub_path (normalizeJSONPath ks) k\<rparr>]
                    else []))
        = map (after ks) (edit_old edits m n k)" if "k \<in> set (rev (objectKeys m))" for k
    using 1 [OF that]
    by (auto simp: edit_old_def invert_test_def sub_path_normalized after_def at_keys_def below_def comp_def
        split: option.splits)
  have new: "(case own m k of
                     Some _ \<Rightarrow> []
                   | None \<Rightarrow>
                       (case own n k of
                          None \<Rightarrow> []
                        | Some newVal \<Rightarrow> [\<lparr>op_kind = PAdd newVal, op_path = sub_path (normalizeJSONPath ks) k\<rparr>]))
        = map (after ks) (edit_new m n k)" for k
    by (auto simp: edit_new_def sub_path_normalized after_def at_keys_def split: option.splits)
  show ?case
    unfolding generate_patch.simps [of False m n] edits.simps [of m n] Let_def new map_append map_concat map_map
    by (rule arg_cong2 [where f = append], rule arg_cong [where f = concat], rule map_cong [OF refl], simp only: comp_def, erule old)
      (simp add: needs_new_def map_concat comp_def)
qed

definition run_edits :: "jsv \<Rightarrow> edit list \<Rightarrow> patch_error + jsv" where
  "run_edits d es = applyPatch d (map at_keys es)"

lemma compare_docs_edits:
  "compare_docs m n False = (if is_container m \<and> is_container n then Inr (map at_keys (edits m n)) else Inl Outside)"
  using generate_patch_edits [of m n "[]"]
  by (simp add: compare_docs_def normalizeJSONPath_def after_def [abs_def] cong: map_cong)

lemma run_edits_Nil [simp]: "run_edits d [] = Inr d"
  by (simp add: run_edits_def)

lemma applyPatch_append:
  "applyPatch d xs = Inr d' \<Longrightarrow> applyPatch d (xs @ ys) = applyPatch d' ys"
  by (induction xs arbitrary: d) (auto split: sum.splits)

lemma run_edits_append:
  "run_edits d xs = Inr d' \<Longrightarrow> run_edits d (xs @ ys) = run_edits d' ys"
  by (simp add: run_edits_def applyPatch_append)

section \<open>Edits in a part of a document\<close>

definition edit_kind :: "patch_op \<Rightarrow> bool" where
  "edit_kind x \<longleftrightarrow> (case x of PAdd _ \<Rightarrow> True | PRemove \<Rightarrow> True | PReplace _ \<Rightarrow> True | _ \<Rightarrow> False)"

definition is_edit :: "edit \<Rightarrow> bool" where
  "is_edit e \<longleftrightarrow> fst e \<noteq> [] \<and> edit_kind (snd e)"

definition part :: "jsv \<Rightarrow> string \<Rightarrow> key \<Rightarrow> jsv \<Rightarrow> bool" where
  "part u k m c \<longleftrightarrow> token_key u (Some (escapePathComponent k)) = Inr m \<and> child_of m u = Some c"

lemma part_put: "part u k m c \<Longrightarrow> part (put u m d) k m d"
  by (simp add: part_def token_key_put member.look_update)

definition edit_act :: "patch_op \<Rightarrow> jsv \<Rightarrow> key \<Rightarrow> patch_error + (jsv \<times> jsv option)" where
  "edit_act x = (case x of PAdd v \<Rightarrow> do_add v | PReplace v \<Rightarrow> do_replace v | _ \<Rightarrow> do_remove)"

lemma apply_edit:
  assumes "is_edit e"
  shows "applyOperation d (at_keys e)
           = patch_result (walk (edit_act (snd e)) d (map (\<lambda>k. Some (escapePathComponent k)) (fst e)))"
proof -
  have "normalizeJSONPath (fst e) \<noteq> []" using assms by (simp add: is_edit_def normalizeJSONPath_tokens)
  then show ?thesis using assms path_tokens_normalizeJSONPath [of "fst e"]
    by (cases "snd e") (auto simp: is_edit_def edit_kind_def applyOperation_def at_keys_def edit_act_def Let_def)
qed

lemma walk_below:
  assumes "part u k m c" "ts \<noteq> []"
  shows "walk act u (Some (escapePathComponent k) # ts)
           = (case walk act c ts of Inl e \<Rightarrow> Inl e | Inr (c', r) \<Rightarrow> Inr (put u m c', r))"
  using assms by (auto simp: part_def child_of_def split: sum.splits option.splits)

lemma apply_below:
  assumes "part u k m c" "is_edit e" "applyOperation c (at_keys e) = Inr r"
  shows "\<exists>r'. applyOperation u (at_keys (below k e)) = Inr r' \<and> newDocument r' = put u m (newDocument r)"
proof -
  have b: "is_edit (below k e)" using assms(2) by (simp add: is_edit_def below_def)
  have "map (\<lambda>k. Some (escapePathComponent k)) (fst e) \<noteq> []" using assms(2) by (simp add: is_edit_def)
  then show ?thesis using assms(3) walk_below [OF assms(1)]
    unfolding apply_edit [OF assms(2)] apply_edit [OF b]
    by (auto simp: below_def patch_result_def split: sum.splits prod.splits)
qed

text \<open>Edits of a part of the document change that part and nothing else.\<close>

lemma run_edits_below:
  assumes "part u k m c" "list_all is_edit es" "run_edits c es = Inr c'"
  shows "run_edits u (map (below k) es) = Inr (put u m c')"
  using assms
proof (induction es arbitrary: u c)
  case Nil
  then show ?case using member.update_look [of m u c] by (simp add: part_def)
next
  case (Cons e es)
  obtain r where r: "applyOperation c (at_keys e) = Inr r" "run_edits (newDocument r) es = Inr c'"
    using Cons.prems(3) by (auto simp: run_edits_def split: sum.splits)
  obtain r' where r': "applyOperation u (at_keys (below k e)) = Inr r'" "newDocument r' = put u m (newDocument r)"
    using apply_below [OF Cons.prems(1) _ r(1)] Cons.prems(2) by auto
  have "run_edits (put u m (newDocument r)) (map (below k) es) = Inr (put (put u m (newDocument r)) m c')"
    using Cons.IH [OF part_put [OF Cons.prems(1)] _ r(2)] Cons.prems(2) by simp
  then show ?case using r' Cons.prems(1) member.update_update [of m u c] by (simp add: run_edits_def part_def)
qed

section \<open>Documents\<close>

text \<open>
  The documents of the result: arrays whose indices are signed 32-bit integers, objects that have a member
  once and none with the banned name.
\<close>

fun doc_ok :: "jsv \<Rightarrow> bool" where
  "doc_ok (JArr vs) \<longleftrightarrow> length vs < 2 ^ 31 \<and> list_all doc_ok vs"
| "doc_ok (JObj kvs) \<longleftrightarrow>
     distinct (map fst kvs) \<and> ''__proto__'' \<notin> set (map fst kvs) \<and> list_all (\<lambda>kv. doc_ok (snd kv)) kvs"
| "doc_ok v \<longleftrightarrow> True"

text \<open>Equality up to the order of the members of objects.\<close>

lemma own_index [simp]:
  "own (JArr vs) (show_nat i) = (if i < length vs then Some (vs ! i) else None)"
proof -
  have "show_nat i \<noteq> ''length''" using isInteger_show [of i] by (auto simp: isInteger_def)
  then show ?thesis by (simp add: digits_value_show)
qed

declare own.simps(1) [simp del]

lemma own_key_size:
  assumes "k \<in> set (objectKeys v)" "own v k = Some a"
  shows "size a < size v"
proof (cases v)
  case (JArr vs)
  then obtain i where "k = show_nat i" "i < length vs" using assms(1) by auto
  then have "a \<in> set vs" using assms(2) JArr by (auto)
  then show ?thesis using JArr by (auto simp: size_list_estimation' less_Suc_eq_le)
next
  case (JObj kvs)
  then have "(k, a) \<in> set kvs" using assms(2) by (auto dest: map_of_SomeD)
  then have "size a < Suc (size_list (size_prod (\<lambda>x. 0) size) kvs)"
    by (induction kvs) auto
  then show ?thesis using JObj by simp
qed (use assms in auto)

function json_eq :: "jsv \<Rightarrow> jsv \<Rightarrow> bool" where
  "json_eq v w \<longleftrightarrow>
     (if is_container v \<and> is_container w
      then is_array v = is_array w \<and> set (objectKeys v) = set (objectKeys w) \<and>
           (\<forall>k \<in> set (objectKeys v).
              case own v k of
                None \<Rightarrow> False
              | Some a \<Rightarrow> (case own w k of None \<Rightarrow> False | Some b \<Rightarrow> json_eq a b))
      else v = w)"
  by pat_completeness auto
termination by (relation "measure (\<lambda>(v, _). size v)") (auto dest: own_key_size)

declare json_eq.simps [simp del]

text \<open>No array where the other document has an object.\<close>

function kinds_agree :: "jsv \<Rightarrow> jsv \<Rightarrow> bool" where
  "kinds_agree v w \<longleftrightarrow>
     is_array v = is_array w \<and>
     (\<forall>k \<in> set (objectKeys v).
        case own v k of
          None \<Rightarrow> True
        | Some a \<Rightarrow>
            (case own w k of
               None \<Rightarrow> True
             | Some b \<Rightarrow> if is_container a \<and> is_container b then kinds_agree a b else True))"
  by pat_completeness auto
termination by (relation "measure (\<lambda>(v, _). size v)") (auto dest: own_key_size)

declare kinds_agree.simps [simp del]

lemma json_eq_array:
  "json_eq (JArr vs) (JArr ws) \<longleftrightarrow> list_all2 json_eq vs ws"
proof -
  have "(set (map show_nat [0..<length vs]) = set (map show_nat [0..<length ws])) \<longleftrightarrow> length vs = length ws"
    by (metis atLeastLessThan_upt card_atLeastLessThan card_image diff_zero inj_onI list.set_map show_nat_inj)
  then show ?thesis
    unfolding json_eq.simps [of "JArr vs"]
    by (auto simp: list_all2_conv_all_nth)
qed

lemma json_eq_object:
  "json_eq (JObj kvs) (JObj kws) \<longleftrightarrow>
     (\<forall>k. rel_option json_eq (map_of kvs k) (map_of kws k))"
proof -
  have *: "fst ` set ps = dom (map_of ps)" for ps :: "(string \<times> jsv) list"
    by (simp add: dom_map_of_conv_image_fst)
  show ?thesis
  proof
    assume eq: "json_eq (JObj kvs) (JObj kws)"
    show "\<forall>k. rel_option json_eq (map_of kvs k) (map_of kws k)"
    proof
      fix k
      show "rel_option json_eq (map_of kvs k) (map_of kws k)"
        using eq unfolding json_eq.simps [of "JObj kvs"]
        by (cases "k \<in> dom (map_of kvs)") (auto simp: * rel_option_iff domIff split: option.splits)
    qed
  next
    assume rel: "\<forall>k. rel_option json_eq (map_of kvs k) (map_of kws k)"
    then have "dom (map_of kvs) = dom (map_of kws)"
      by (auto simp: dom_def) (metis option.rel_distinct not_None_eq)+
    then show "json_eq (JObj kvs) (JObj kws)"
      using rel unfolding json_eq.simps [of "JObj kvs"]
      by (auto simp: * split: option.splits) (metis option.rel_distinct option.rel_inject(2))+
  qed
qed

lemma json_eq_refl: "json_eq v v"
proof (induction v rule: measure_induct_rule [of size])
  case (less v)
  have "own v k \<noteq> None" if "k \<in> set (objectKeys v)" for k
    using that by (cases v) (auto simp: map_of_eq_None_iff)
  then show ?case using less own_key_size [of _ v] unfolding json_eq.simps [of v]
    by (auto split: option.splits)
qed

section \<open>Running the edits\<close>

definition matches :: "jsv \<Rightarrow> jsv \<Rightarrow> bool" where
  "matches c b \<longleftrightarrow> json_eq c b \<and> doc_ok c"

lemma matches_refl: "doc_ok b \<Longrightarrow> matches b b"
  by (simp add: matches_def json_eq_refl)

text \<open>What the comparison has to do for one part, given that it does it below.\<close>

definition edits_match :: "jsv \<Rightarrow> jsv \<Rightarrow> bool" where
  "edits_match a b \<longleftrightarrow> (\<exists>d. run_edits a (edits a b) = Inr d \<and> matches d b)"

definition parts_match :: "jsv \<Rightarrow> jsv \<Rightarrow> string set \<Rightarrow> bool" where
  "parts_match m n K \<longleftrightarrow>
     (\<forall>k \<in> K. \<forall>a b. own m k = Some a \<longrightarrow> own n k = Some b \<longrightarrow> doc_ok b \<and>
        (is_container a \<longrightarrow> is_container b \<longrightarrow> is_array a = is_array b \<and> edits_match a b))"

lemma parts_match_mono: "parts_match m n K \<Longrightarrow> J \<subseteq> K \<Longrightarrow> parts_match m n J"
  unfolding parts_match_def by (meson subsetD)

lemma edit_old_member:
  assumes "e \<in> set (edit_old rec m n k)"
  obtains (removed) "e = ([k], PRemove)"
  | (replaced) b where "e = ([k], PReplace b)"
  | (whole) "e = ([], PReplace n)" "is_array m \<noteq> is_array n"
  | (inside) a b e' where "own m k = Some a" "own n k = Some b" "is_container a" "is_container b"
      "e' \<in> set (rec a b)" "e = below k e'"
  using assms by (cases "own m k"; cases "own n k") (auto simp: edit_old_def split: if_splits)

lemma edits_member:
  assumes "e \<in> set (edits m n)"
  obtains (old) k where "k \<in> set (objectKeys m)" "e \<in> set (edit_old edits m n k)"
  | (new) k b where "e = ([k], PAdd b)"
  using assms by (subst (asm) edits.simps) (auto simp: edit_new_def split: if_splits option.splits)

lemma edits_kind: "e \<in> set (edits m n) \<Longrightarrow> edit_kind (snd e)"
proof (induction m n arbitrary: e rule: edits.induct)
  case (1 m n)
  from "1.prems" show ?case
  proof (cases rule: edits_member)
    case (old k)
    from old(2) show ?thesis
      by (cases rule: edit_old_member) (use "1.IH" old(1) in \<open>auto simp: edit_kind_def below_def\<close>)
  qed (simp add: edit_kind_def)
qed

lemma edits_are_edits:
  assumes "is_array m = is_array n"
  shows "list_all is_edit (edits m n)"
proof -
  have "fst e \<noteq> []" if "e \<in> set (edits m n)" for e
    using that by (cases rule: edits_member) (auto elim: edit_old_member simp: assms below_def)
  then show ?thesis using edits_kind [of _ m n] by (simp add: list_all_iff is_edit_def)
qed

lemma run_one:
  assumes "is_edit ([k], x)" "token_key u (Some (escapePathComponent k)) = Inr mk" "edit_act x u mk = Inr (v, r)"
  shows "run_edits u [([k], x)] = Inr v"
  using apply_edit [OF assms(1), of u] assms(2,3) by (simp add: run_edits_def patch_result_def)

lemma replace_part: "part u k mk a \<Longrightarrow> \<exists>r. do_replace b u mk = Inr (put u mk b, r)"
  unfolding part_def by (elim conjE child_of_cases) simp_all

lemma change_part:
  assumes "part u k mk a" "own m k = Some a" "own n k = Some b" "parts_match m n {k}"
  shows "\<exists>c. run_edits u (edit_old edits m n k) = Inr (put u mk c) \<and> matches c b"
proof -
  have b: "doc_ok b" using assms by (simp add: parts_match_def)
  consider "is_container a" "is_container b" | "\<not> (is_container a \<and> is_container b)" "a = b"
    | "\<not> (is_container a \<and> is_container b)" "a \<noteq> b" by blast
  then show ?thesis
  proof cases
    case 1
    then obtain d where d: "run_edits a (edits a b) = Inr d" "matches d b" "is_array a = is_array b"
      using assms by (auto simp: parts_match_def edits_match_def)
    then show ?thesis using run_edits_below [OF assms(1) edits_are_edits [OF d(3)] d(1)] assms 1
      by (auto simp: edit_old_def)
  next
    case 2
    then have "edit_old edits m n k = []" using assms by (auto simp: edit_old_def)
    moreover have "put u mk b = u" using 2 assms(1) member.update_look [of mk u a] by (simp add: part_def)
    ultimately show ?thesis using matches_refl [OF b] by (intro exI [of _ b]) simp
  next
    case 3
    then have e: "edit_old edits m n k = [([k], PReplace b)]" using assms by (auto simp: edit_old_def)
    obtain r where r: "do_replace b u mk = Inr (put u mk b, r)" using replace_part [OF assms(1)] by blast
    then have "edit_act (PReplace b) u mk = Inr (put u mk b, r)" by (simp add: edit_act_def)
    then have "run_edits u [([k], PReplace b)] = Inr (put u mk b)"
      using assms(1) by (intro run_one) (simp_all add: is_edit_def edit_kind_def part_def)
    then show ?thesis unfolding e using matches_refl [OF b] by blast
  qed
qed

subsection \<open>Objects\<close>

lemma part_member:
  "k \<noteq> ''__proto__'' \<Longrightarrow> map_of kvs k = Some a \<Longrightarrow> part (JObj kvs) k (Prop k) a"
  by (simp add: part_def token_key_member child_of_def)

lemma set_member_keys: "set (map fst (set_member k v kvs)) = insert k (set (map fst kvs))"
  by (induction k v kvs rule: set_member.induct) auto

lemma set_member_distinct: "distinct (map fst kvs) \<Longrightarrow> distinct (map fst (set_member k v kvs))"
proof (induction k v kvs rule: set_member.induct)
  case (2 k v k' w kvs)
  then show ?case using set_member_keys [of k v kvs] by auto
qed simp

lemma set_member_mem: "kv \<in> set (set_member k v kvs) \<Longrightarrow> kv = (k, v) \<or> kv \<in> set kvs"
  by (induction k v kvs rule: set_member.induct) (auto split: if_splits)

lemma doc_ok_set_member:
  assumes "doc_ok (JObj kvs)" "doc_ok v" "k \<noteq> ''__proto__''"
  shows "doc_ok (JObj (set_member k v kvs))"
  using assms set_member_keys [of k v kvs] set_member_distinct [of kvs k v]
  by (auto simp: list_all_iff simp del: set_map dest!: set_member_mem)

lemma doc_ok_delete_member: "doc_ok (JObj kvs) \<Longrightarrow> doc_ok (JObj (delete_member k kvs))"
  by (auto simp: delete_member_def list_all_iff distinct_map_filter)

lemma map_of_delete_member: "map_of (delete_member k kvs) = (map_of kvs)(k := None)"
  by (induction kvs) (auto simp: delete_member_def)

text \<open>One member of the old object.\<close>

lemma object_old_step:
  assumes "doc_ok (JObj cur)" "k \<noteq> ''__proto__''" "map_of ms k = Some a" "map_of cur k = Some a"
    and "parts_match (JObj ms) (JObj ns) {k}"
  shows "\<exists>cur'. run_edits (JObj cur) (edit_old edits (JObj ms) (JObj ns) k) = Inr (JObj cur') \<and> doc_ok (JObj cur')
           \<and> (\<forall>j. j \<noteq> k \<longrightarrow> map_of cur' j = map_of cur j) \<and> rel_option json_eq (map_of cur' k) (map_of ns k)"
proof (cases "map_of ns k")
  case None
  have "edit_act PRemove (JObj cur) (Prop k) = Inr (JObj (delete_member k cur), Some a)"
    by (simp add: edit_act_def assms(4) del: map_of_eq_Some_iff)
  then have "run_edits (JObj cur) [([k], PRemove)] = Inr (JObj (delete_member k cur))"
    using assms(2) by (intro run_one) (simp_all add: is_edit_def edit_kind_def token_key_member)
  then show ?thesis using None assms doc_ok_delete_member [OF assms(1), of k]
    by (auto simp: edit_old_def map_of_delete_member simp del: doc_ok.simps)
next
  case (Some b)
  obtain c where c: "run_edits (JObj cur) (edit_old edits (JObj ms) (JObj ns) k) = Inr (put (JObj cur) (Prop k) c)"
      "matches c b"
    using change_part [OF part_member [OF assms(2,4)] _ _ assms(5)] assms(3) Some by auto
  then show ?thesis using Some doc_ok_set_member [OF assms(1) _ assms(2), of c]
    by (auto simp: map_of_set_member matches_def simp del: doc_ok.simps)
qed

lemma object_old:
  assumes "doc_ok (JObj cur)" "distinct ks" "''__proto__'' \<notin> set ks"
    and "\<forall>k \<in> set ks. map_of ms k \<noteq> None \<and> map_of cur k = map_of ms k" "parts_match (JObj ms) (JObj ns) (set ks)"
  shows "\<exists>cur'. run_edits (JObj cur) (concat (map (edit_old edits (JObj ms) (JObj ns)) ks)) = Inr (JObj cur')
           \<and> doc_ok (JObj cur')
           \<and> (\<forall>j. if j \<in> set ks then rel_option json_eq (map_of cur' j) (map_of ns j) else map_of cur' j = map_of cur j)"
  using assms
proof (induction ks arbitrary: cur)
  case (Cons k ks)
  obtain a where a: "map_of ms k = Some a" using Cons.prems(4) by auto
  obtain cur1 where 1: "run_edits (JObj cur) (edit_old edits (JObj ms) (JObj ns) k) = Inr (JObj cur1)"
      "doc_ok (JObj cur1)" "\<forall>j. j \<noteq> k \<longrightarrow> map_of cur1 j = map_of cur j" "rel_option json_eq (map_of cur1 k) (map_of ns k)"
    using object_old_step [OF Cons.prems(1) _ a _ parts_match_mono [OF Cons.prems(5)]] Cons.prems(3,4) a
    by (auto simp del: doc_ok.simps map_of_eq_Some_iff)
  have rest: "\<forall>j \<in> set ks. map_of ms j \<noteq> None \<and> map_of cur1 j = map_of ms j"
    using Cons.prems(2,4) 1(3) by (metis distinct.simps(2) list.set_intros(2))
  obtain cur' where "run_edits (JObj cur1) (concat (map (edit_old edits (JObj ms) (JObj ns)) ks)) = Inr (JObj cur')"
      "doc_ok (JObj cur')"
      "\<forall>j. if j \<in> set ks then rel_option json_eq (map_of cur' j) (map_of ns j) else map_of cur' j = map_of cur1 j"
    using Cons.IH [OF 1(2) _ _ rest parts_match_mono [OF Cons.prems(5)]] Cons.prems(2,3) by auto
  then show ?case using run_edits_append [OF 1(1)] 1(3,4) Cons.prems(2)
    by (auto simp del: doc_ok.simps)
qed auto

lemma object_new:
  assumes "doc_ok (JObj cur)" "''__proto__'' \<notin> set ks" "\<forall>k b. map_of ns k = Some b \<longrightarrow> doc_ok b"
  shows "\<exists>cur'. run_edits (JObj cur) (concat (map (edit_new (JObj ms) (JObj ns)) ks)) = Inr (JObj cur')
           \<and> doc_ok (JObj cur')
           \<and> (\<forall>j. map_of cur' j = (if j \<in> set ks \<and> map_of ms j = None \<and> map_of ns j \<noteq> None then map_of ns j else map_of cur j))"
  using assms
proof (induction ks arbitrary: cur)
  case (Cons k ks)
  let ?c = "case map_of ms k of Some _ \<Rightarrow> cur | None \<Rightarrow> (case map_of ns k of None \<Rightarrow> cur | Some b \<Rightarrow> set_member k b cur)"
  have 1: "run_edits (JObj cur) (edit_new (JObj ms) (JObj ns) k) = Inr (JObj ?c)"
    using run_one [of k "PAdd b" "JObj cur" "Prop k" for b] Cons.prems(2)
    by (auto simp: edit_new_def is_edit_def edit_kind_def token_key_member edit_act_def split: option.splits)
  have "doc_ok (JObj ?c)" using Cons.prems doc_ok_set_member [OF Cons.prems(1)]
    by (auto split: option.splits simp del: doc_ok.simps)
  from Cons.IH [OF this] Cons.prems(2,3) obtain cur' where
      "run_edits (JObj ?c) (concat (map (edit_new (JObj ms) (JObj ns)) ks)) = Inr (JObj cur')" "doc_ok (JObj cur')"
      "\<forall>j. map_of cur' j = (if j \<in> set ks \<and> map_of ms j = None \<and> map_of ns j \<noteq> None then map_of ns j else map_of ?c j)"
    by auto
  then show ?case using run_edits_append [OF 1]
    by (auto simp: map_of_set_member split: option.splits simp del: doc_ok.simps)
qed auto

text \<open>The whole object.\<close>

lemma new_keys_needed:
  assumes "doc_ok m" "doc_ok n" "is_array m = is_array n" "\<not> needs_new m n"
  shows "set (objectKeys m) = set (objectKeys n)"
proof (cases m)
  case (JArr vs)
  then show ?thesis using assms by (cases n) (auto simp: needs_new_def)
next
  case (JObj ms)
  show ?thesis
  proof (cases n)
    case n: (JObj ns)
    have "set (map fst ms) \<subseteq> set (map fst ns)" "length ms = length ns"
      using assms JObj n by (auto simp: needs_new_def list_ex_iff map_of_eq_None_iff)
    then show ?thesis using assms(1,2) JObj n
      by (metis List.finite_set card_subset_eq distinct_card doc_ok.simps(2) length_map objectKeys.simps(2))
  qed (use assms JObj in \<open>auto simp: needs_new_def\<close>)
qed (use assms in \<open>cases n; auto simp: needs_new_def\<close>)+

lemma object_edits:
  assumes ok: "doc_ok (JObj ms)" "doc_ok (JObj ns)" and parts: "parts_match (JObj ms) (JObj ns) (set (map fst ms))"
  shows "edits_match (JObj ms) (JObj ns)"
proof -
  let ?m = "JObj ms" and ?n = "JObj ns"
  have key: "j \<in> set (map fst kvs) \<longleftrightarrow> map_of kvs j \<noteq> None" for j and kvs :: "(string \<times> jsv) list"
    by (simp add: map_of_eq_None_iff)
  have vals: "\<forall>k b. map_of ns k = Some b \<longrightarrow> doc_ok b"
    using ok(2) by (auto simp: list_all_iff dest!: map_of_SomeD)
  obtain c1 where 1: "run_edits ?m (concat (map (edit_old edits ?m ?n) (rev (map fst ms)))) = Inr (JObj c1)"
      "doc_ok (JObj c1)"
      "\<forall>j. if j \<in> set (map fst ms) then rel_option json_eq (map_of c1 j) (map_of ns j) else map_of c1 j = map_of ms j"
    using object_old [OF ok(1), of "rev (map fst ms)" ms ns] ok(1) parts
    by (auto simp: map_of_eq_None_iff simp del: not_None_eq)
  show ?thesis
  proof (cases "needs_new ?m ?n")
    case True
    obtain c2 where 2: "run_edits (JObj c1) (concat (map (edit_new ?m ?n) (map fst ns))) = Inr (JObj c2)" "doc_ok (JObj c2)"
        "\<forall>j. map_of c2 j = (if j \<in> set (map fst ns) \<and> map_of ms j = None \<and> map_of ns j \<noteq> None then map_of ns j else map_of c1 j)"
      using object_new [OF 1(2) _ vals, of "map fst ns" ms] ok(2) by auto
    have "rel_option json_eq (map_of c2 j) (map_of ns j)" for j
    proof (cases "map_of ms j = None")
      case True
      then have "map_of c1 j = None" using 1(3) key by metis
      then show ?thesis using 2(3) True key by (cases "map_of ns j") (auto simp: json_eq_refl)
    next
      case False
      then show ?thesis using 1(3) 2(3) key by (metis (no_types, lifting))
    qed
    then have "matches (JObj c2) ?n" using 2(2) by (simp add: matches_def json_eq_object)
    then show ?thesis using run_edits_append [OF 1(1)] 2(1) True
      unfolding edits_match_def edits.simps [of ?m] by (auto simp del: rev_map map_map)
  next
    case False
    have "set (map fst ms) = set (map fst ns)" using new_keys_needed [OF ok _ False] by simp
    then have "rel_option json_eq (map_of c1 j) (map_of ns j)" for j
      using 1(3) key [of j] by (cases "map_of ms j = None"; cases "map_of ns j = None") (metis option.rel_inject(1))+
    then have "matches (JObj c1) ?n" using 1(2) by (simp add: matches_def json_eq_object)
    then show ?thesis using 1(1) False unfolding edits_match_def edits.simps [of ?m] by auto
  qed
qed

subsection \<open>Arrays\<close>

lemma part_element:
  "i < length vs \<Longrightarrow> i < 2 ^ 31 \<Longrightarrow> part (JArr vs) (show_nat i) (Idx (int i)) (vs ! i)"
  by (simp add: part_def token_key_index isInteger_show digits_value_show child_of_def)

lemma run_element:
  assumes "i < 2 ^ 31" "edit_kind x" "edit_act x (JArr vs) (Idx (int i)) = Inr (v, r)"
  shows "run_edits (JArr vs) [([show_nat i], x)] = Inr v"
  using assms by (intro run_one) (simp_all add: is_edit_def token_key_index isInteger_show digits_value_show)

text \<open>
  The indices of the old array, from the last to the first: the elements from \<open>j\<close> on are done.
\<close>

lemma array_old:
  assumes "j \<le> length vs" "length vs < 2 ^ 31" "list_all2 matches ds (drop j (take (length vs) ws))"
    and "parts_match (JArr vs) (JArr ws) (show_nat ` {..<length vs})"
  shows "\<exists>ds'. run_edits (JArr (take j vs @ ds)) (concat (map (edit_old edits (JArr vs) (JArr ws)) (rev (map show_nat [0..<j]))))
                 = Inr (JArr ds')
           \<and> list_all2 matches ds' (take (length vs) ws)"
  using assms(1,3)
proof (induction j arbitrary: ds)
  case 0
  then show ?case by simp
next
  case (Suc j)
  have j: "j < length vs" "j < 2 ^ 31" using Suc.prems(1) assms(2) by auto
  let ?u = "JArr (take (Suc j) vs @ ds)"
  have "\<exists>ds1. run_edits ?u (edit_old edits (JArr vs) (JArr ws) (show_nat j)) = Inr (JArr (take j vs @ ds1))
          \<and> list_all2 matches ds1 (drop j (take (length vs) ws))"
  proof (cases "j < length ws")
    case True
    have at: "(take (Suc j) vs @ ds) ! j = vs ! j" using j by (simp add: nth_append)
    have "part ?u (show_nat j) (Idx (int j)) (vs ! j)"
      using part_element [of j "take (Suc j) vs @ ds"] j at by simp
    from change_part [OF this _ _ parts_match_mono [OF assms(4)]] j True
    obtain c where c: "run_edits ?u (edit_old edits (JArr vs) (JArr ws) (show_nat j)) = Inr (put ?u (Idx (int j)) c)"
        "matches c (ws ! j)" by auto
    have "put ?u (Idx (int j)) c = JArr (take j vs @ c # ds)"
      using j by (simp add: list_update_append take_Suc_conv_app_nth)
    moreover have "drop j (take (length vs) ws) = ws ! j # drop (Suc j) (take (length vs) ws)"
      using j True by (simp add: Cons_nth_drop_Suc [symmetric])
    ultimately show ?thesis using c Suc.prems(2) by (intro exI [of _ "c # ds"]) simp
  next
    case False
    then have "ds = []" using Suc.prems(2) by simp
    have "edit_act PRemove (JArr (take (Suc j) vs)) (Idx (int j)) = Inr (JArr (take j vs), Some (vs ! j))"
      using j by (simp add: edit_act_def splice_start_def Let_def min_def)
    from run_element [OF j(2) _ this]
    have "run_edits ?u [([show_nat j], PRemove)] = Inr (JArr (take j vs))"
      using \<open>ds = []\<close> by (simp add: edit_kind_def)
    then show ?thesis using False j by (intro exI [of _ "[]"]) (simp add: edit_old_def)
  qed
  then obtain ds1 where 1: "run_edits ?u (edit_old edits (JArr vs) (JArr ws) (show_nat j)) = Inr (JArr (take j vs @ ds1))"
      "list_all2 matches ds1 (drop j (take (length vs) ws))" by blast
  then show ?case using Suc.IH [of ds1] Suc.prems(1) run_edits_append [OF 1(1)] by simp
qed

lemma array_new:
  assumes "length cur = j" "length ws < 2 ^ 31" "j < length ws \<Longrightarrow> length vs \<le> j"
  shows "run_edits (JArr cur) (concat (map (edit_new (JArr vs) (JArr ws)) (map show_nat [j..<length ws])))
           = Inr (JArr (cur @ drop j ws))"
  using assms
proof (induction "length ws - j" arbitrary: j cur)
  case 0
  then show ?case by simp
next
  case (Suc n)
  then have j: "j < length ws" "j < 2 ^ 31" by auto
  have "edit_act (PAdd (ws ! j)) (JArr cur) (Idx (int j)) = Inr (JArr (cur @ [ws ! j]), None)"
    using Suc.prems by (simp add: edit_act_def splice_start_def Let_def)
  from run_element [OF j(2) _ this]
  have 1: "run_edits (JArr cur) (edit_new (JArr vs) (JArr ws) (show_nat j)) = Inr (JArr (cur @ [ws ! j]))"
    using j Suc.prems by (simp add: edit_new_def edit_kind_def)
  have "[j..<length ws] = j # [Suc j..<length ws]" using j(1) by (rule upt_conv_Cons)
  then show ?case using Suc.hyps(1) [of "Suc j" "cur @ [ws ! j]"] Suc.hyps(2) Suc.prems run_edits_append [OF 1] j(1)
    by (simp add: Cons_nth_drop_Suc)
qed

lemma needs_new_array: "needs_new (JArr vs) (JArr ws) \<longleftrightarrow> length vs \<noteq> length ws"
  by (auto simp: needs_new_def list_ex_iff)

lemma array_edits:
  assumes ok: "doc_ok (JArr vs)" "doc_ok (JArr ws)"
    and parts: "parts_match (JArr vs) (JArr ws) (show_nat ` {..<length vs})"
  shows "edits_match (JArr vs) (JArr ws)"
proof -
  let ?m = "JArr vs" and ?n = "JArr ws" and ?j = "min (length vs) (length ws)"
  obtain ds where 1: "run_edits ?m (concat (map (edit_old edits ?m ?n) (rev (objectKeys ?m)))) = Inr (JArr ds)"
      "list_all2 matches ds (take (length vs) ws)"
    using array_old [of "length vs" vs "[]" ws] ok(1) parts by auto
  have len: "length ds = ?j" using list_all2_lengthD [OF 1(2)] by simp
  have "matches (JArr (ds @ drop ?j ws)) ?n"
  proof -
    have "list_all2 matches (drop ?j ws) (drop ?j ws)"
      using ok(2) by (auto simp: list_all2_conv_all_nth list_all_length intro: matches_refl)
    from list_all2_appendI [OF 1(2) this] have all: "list_all2 matches (ds @ drop ?j ws) ws"
      by (auto simp: min_def split: if_splits)
    then have "list_all2 json_eq (ds @ drop ?j ws) ws" by (rule list_all2_mono) (simp add: matches_def)
    moreover have "list_all doc_ok (ds @ drop ?j ws)"
      using all by (auto simp: list_all2_conv_all_nth list_all_length matches_def)
    ultimately show ?thesis using ok(2) list_all2_lengthD [OF all] by (simp add: matches_def json_eq_array)
  qed
  moreover have "run_edits ?m (edits ?m ?n) = Inr (JArr (ds @ drop ?j ws))"
  proof (cases "needs_new ?m ?n")
    case True
    have "[0..<length ws] = [0..<?j] @ [?j..<length ws]" using upt_add_eq_append [of 0 ?j "length ws - ?j"] by simp
    moreover have "concat (map (edit_new ?m ?n) (map show_nat [0..<?j])) = []" by (simp add: edit_new_def)
    ultimately have "concat (map (edit_new ?m ?n) (objectKeys ?n)) = concat (map (edit_new ?m ?n) (map show_nat [?j..<length ws]))"
      by (simp only: objectKeys.simps map_append concat_append append_Nil)
    then show ?thesis using array_new [of ds ?j ws vs] len ok(2) True run_edits_append [OF 1(1)]
      unfolding edits.simps [of ?m] by (auto simp: min_def)
  next
    case False
    then show ?thesis using 1(1) unfolding edits.simps [of ?m] by (simp add: needs_new_array)
  qed
  ultimately show ?thesis by (auto simp: edits_match_def)
qed

subsection \<open>Documents\<close>

lemma own_doc_ok: "doc_ok v \<Longrightarrow> own v k = Some a \<Longrightarrow> doc_ok a"
  by (cases v) (auto simp: own.simps(1) Let_def list_all_iff split: if_splits dest!: map_of_SomeD)

lemma kinds_agree_own:
  assumes "kinds_agree m n" "k \<in> set (objectKeys m)" "own m k = Some a" "own n k = Some b" "is_container a" "is_container b"
  shows "kinds_agree a b"
  using assms by (subst (asm) kinds_agree.simps) auto

lemma kinds_agree_array: "kinds_agree m n \<Longrightarrow> is_array m = is_array n"
  by (subst (asm) kinds_agree.simps) simp

lemma edits_turn_into:
  "doc_ok m \<Longrightarrow> doc_ok n \<Longrightarrow> is_container m \<Longrightarrow> is_container n \<Longrightarrow> kinds_agree m n \<Longrightarrow> edits_match m n"
proof (induction m n rule: edits.induct)
  case (1 m n)
  have parts: "parts_match m n (set (objectKeys m))"
    unfolding parts_match_def
  proof (intro ballI allI impI conjI)
    fix k a b
    assume k: "k \<in> set (objectKeys m)" and ab: "own m k = Some a" "own n k = Some b"
    show "doc_ok b" using own_doc_ok ab(2) "1.prems"(2) by blast
    assume c: "is_container a" "is_container b"
    have "kinds_agree a b" by (rule kinds_agree_own [OF "1.prems"(5) k ab c])
    then show "is_array a = is_array b" "edits_match a b"
      using "1.IH" [of k a b] k ab c own_doc_ok [OF "1.prems"(1) ab(1)] \<open>doc_ok b\<close> kinds_agree_array by auto
  qed
  show ?case
  proof (cases m)
    case (JArr vs)
    then obtain ws where "n = JArr ws" using "1.prems"(4) kinds_agree_array [OF "1.prems"(5)] by (cases n) auto
    then show ?thesis using array_edits [of vs ws] "1.prems" parts JArr by (simp add: lessThan_atLeast0)
  next
    case (JObj ms)
    then obtain ns where "n = JObj ns" using "1.prems"(4) kinds_agree_array [OF "1.prems"(5)] by (cases n) auto
    then show ?thesis using object_edits [of ms ns] "1.prems" parts JObj by simp
  qed (use "1.prems" in simp_all)
qed

lemma compare_docs_containers:
  "is_container m \<Longrightarrow> is_container n \<Longrightarrow> compare_docs m n False = Inr (map at_keys (edits m n))"
  by (simp add: compare_docs_edits)

lemma compare_docs_applied:
  assumes "doc_ok m" "doc_ok n" "is_container m" "is_container n" "kinds_agree m n"
  obtains d where "applyPatch m (map at_keys (edits m n)) = Inr d" "json_eq d n" "doc_ok d"
  using edits_turn_into [OF assms] unfolding edits_match_def run_edits_def matches_def by blast

text \<open>Equal documents give no operation.\<close>

lemma own_key: "k \<in> set (objectKeys v) \<Longrightarrow> own v k \<noteq> None"
  by (cases v) (auto simp: map_of_eq_None_iff)

lemma objectKeys_distinct: "doc_ok v \<Longrightarrow> distinct (objectKeys v)"
  by (cases v) (auto simp: distinct_map inj_on_def)

lemma json_eq_keys: "json_eq m n \<Longrightarrow> set (objectKeys m) = set (objectKeys n)"
  by (subst (asm) json_eq.simps) (auto split: if_splits)

lemma json_eq_own:
  assumes "json_eq m n" "k \<in> set (objectKeys m)" "own m k = Some a"
  shows "\<exists>b. own n k = Some b \<and> json_eq a b"
proof (cases "is_container m \<and> is_container n")
  case True
  then show ?thesis using assms by (subst (asm) json_eq.simps) (cases "own n k"; fastforce)
next
  case False
  then have "m = n" using assms(1) by (subst (asm) json_eq.simps) simp
  then show ?thesis using assms(3) json_eq_refl by simp
qed

lemma json_eq_container: "json_eq m n \<Longrightarrow> is_container m = is_container n \<and> is_array m = is_array n"
  by (subst (asm) json_eq.simps) (auto split: if_splits)

lemma json_eq_leaf: "json_eq m n \<Longrightarrow> \<not> (is_container m \<and> is_container n) \<Longrightarrow> m = n"
  by (subst (asm) json_eq.simps) (auto split: if_splits)

lemma edits_of_equal: "doc_ok m \<Longrightarrow> doc_ok n \<Longrightarrow> json_eq m n \<Longrightarrow> edits m n = []"
proof (induction m n rule: edits.induct)
  case (1 m n)
  note eq = "1.prems"(3)
  have "edit_old edits m n k = []" if k: "k \<in> set (objectKeys m)" for k
  proof -
    obtain a where a: "own m k = Some a" using own_key [OF k] by auto
    obtain b where b: "own n k = Some b" "json_eq a b" using json_eq_own [OF eq k a] by auto
    have "edits a b = []" if "is_container a" "is_container b"
      using "1.IH" [of k a b] k a b that own_doc_ok "1.prems"(1,2) by auto
    then show ?thesis using a b json_eq_leaf [OF b(2)] by (auto simp: edit_old_def)
  qed
  moreover have "\<not> needs_new m n"
    using json_eq_keys [OF eq] own_key [of _ n] distinct_card [OF objectKeys_distinct [OF "1.prems"(1)]]
      distinct_card [OF objectKeys_distinct [OF "1.prems"(2)]]
    by (auto simp: needs_new_def list_ex_iff)
  ultimately show ?case by (subst edits.simps) simp
qed

lemma kinds_agree_json_eq: "kinds_agree m n \<Longrightarrow> json_eq m' m \<Longrightarrow> kinds_agree m' n"
proof (induction m' n arbitrary: m rule: kinds_agree.induct)
  case (1 m' n)
  have "kinds_agree a' b" if k: "k \<in> set (objectKeys m')" and own: "own m' k = Some a'" "own n k = Some b"
      and c: "is_container a'" "is_container b" for k a' b
  proof -
    obtain a where a: "own m k = Some a" "json_eq a' a" using json_eq_own [OF "1.prems"(2) k own(1)] by auto
    have "k \<in> set (objectKeys m)" using json_eq_keys [OF "1.prems"(2)] k by simp
    then have "kinds_agree a b" using kinds_agree_own [OF "1.prems"(1) _ a(1) own(2)] json_eq_container [OF a(2)] c by simp
    then show ?thesis using "1.IH" [of k a' b a] k own c a(2) by simp
  qed
  then show ?case using kinds_agree_array [OF "1.prems"(1)] json_eq_container [OF "1.prems"(2)]
    by (subst kinds_agree.simps) (auto split: option.splits)
qed

section \<open>Properties\<close>

text \<open>
  C35. The patch that \<open>compare\<close> derives from two documents turns the first into the second: every operation
  of it applies without an error, and the result is the second document up to the order of the members of
  its objects, with no more members or elements than it has. The patch is empty exactly when the documents
  are equal in that sense. This holds on three conditions: both documents are objects or arrays, at no path that
  both have does an array of the one stand for an object of the other (otherwise the comparison can miss the
  difference altogether, see \<open>compare_misses_kind\<close>), and no object has a member \<open>__proto__\<close>, which the
  patch could not set, nor an array \<open>2 ^ 31\<close> elements. Apart from that the documents may be nested in any way
  and differ anywhere.
\<close>

theorem compare_then_apply:
  assumes "doc_ok m" "doc_ok n" "is_container m" "is_container n" "kinds_agree m n"
  shows "\<exists>ops d. compare_docs m n False = Inr ops \<and> applyPatch m ops = Inr d \<and> json_eq d n \<and> doc_ok d
           \<and> (ops = [] \<longleftrightarrow> json_eq m n)"
proof -
  obtain d where d: "applyPatch m (map at_keys (edits m n)) = Inr d" "json_eq d n" "doc_ok d"
    using compare_docs_applied [OF assms] .
  have "edits m n = [] \<longleftrightarrow> json_eq m n"
  proof
    show "edits m n = [] \<Longrightarrow> json_eq m n" using d(1,2) by simp
  qed (rule edits_of_equal [OF assms(1,2)])
  then have "map at_keys (edits m n) = [] \<longleftrightarrow> json_eq m n" by simp
  then show ?thesis using compare_docs_containers [OF assms(3,4)] d by blast
qed

text \<open>
  What the observer's listeners see: the document after each change, one \<open>generate\<close> per change.
\<close>

fun observer_run :: "observer \<Rightarrow> jsv list \<Rightarrow> patch_error + (operation list \<times> observer)" where
  "observer_run ob [] = Inr ([], ob)"
| "observer_run ob (d # ds) =
     (case observer_generate ob d False of
        Inl e \<Rightarrow> Inl e
      | Inr (ps, ob') \<Rightarrow>
          (case observer_run ob' ds of Inl e \<Rightarrow> Inl e | Inr (pss, ob'') \<Rightarrow> Inr (ps @ pss, ob'')))"

fun kinds_kept :: "jsv \<Rightarrow> jsv list \<Rightarrow> bool" where
  "kinds_kept d [] = True"
| "kinds_kept d (e # ds) \<longleftrightarrow> kinds_agree d e \<and> kinds_kept e ds"

lemma kinds_kept_json_eq: "kinds_kept m ds \<Longrightarrow> json_eq m' m \<Longrightarrow> kinds_kept m' ds"
  by (cases ds) (auto intro: kinds_agree_json_eq)

lemma observer_generate_step:
  assumes "doc_ok (ob_value ob)" "doc_ok d" "is_container (ob_value ob)" "is_container d" "kinds_agree (ob_value ob) d"
    and "ob_patches ob = []"
  shows "\<exists>ps ob'. observer_generate ob d False = Inr (ps, ob') \<and> applyPatch (ob_value ob) ps = Inr (ob_value ob')
           \<and> json_eq (ob_value ob') d \<and> doc_ok (ob_value ob') \<and> ob_patches ob' = []"
proof -
  let ?ps = "map at_keys (edits (ob_value ob) d)"
  obtain v where v: "applyPatch (ob_value ob) ?ps = Inr v" "json_eq v d" "doc_ok v"
    using compare_docs_applied [OF assms(1-5)] .
  have "\<not> list_ex (\<lambda>opn. op_path opn = []) ?ps"
    using edits_are_edits [OF kinds_agree_array [OF assms(5)]]
    by (auto simp: list_ex_iff list_all_iff at_keys_def is_edit_def normalizeJSONPath_tokens)
  then show ?thesis using v assms(6) compare_docs_containers [OF assms(3,4)]
    by (cases "?ps = []") (auto simp: observer_generate_def Let_def)
qed

text \<open>
  C36. An observed document that changes any number of times, with one \<open>generate\<close> after each change, is
  replicated by its patches, on the conditions of the comparison for every two successive documents: no array
  comes to stand where an object was, or the other way round (\<open>{}\<close> that becomes \<open>[]\<close> is not noticed, see
  \<open>compare_misses_kind\<close>), and no object has a member \<open>__proto__\<close>. Then each call succeeds, the patches it returns, applied one after another
  to the document that the observation started with, give exactly the observer's mirror, the mirror equals the
  document after its last change up to the order of members, and another call returns no patch.
\<close>

theorem observer_replicates:
  assumes "list_all doc_ok (d # ds)" "list_all is_container (d # ds)" "kinds_kept d ds"
  shows "\<exists>ps ob. observer_run (observe d) ds = Inr (ps, ob) \<and> applyPatch d ps = Inr (ob_value ob)
           \<and> json_eq (ob_value ob) (last (d # ds)) \<and> observer_generate ob (last (d # ds)) False = Inr ([], ob)"
proof -
  have "\<exists>ps ob'. observer_run ob ds = Inr (ps, ob') \<and> applyPatch (ob_value ob) ps = Inr (ob_value ob')
          \<and> json_eq (ob_value ob') (last (d # ds)) \<and> observer_generate ob' (last (d # ds)) False = Inr ([], ob')"
    if "list_all doc_ok (d # ds)" "list_all is_container (d # ds)" "kinds_kept d ds"
      and "json_eq (ob_value ob) d" "doc_ok (ob_value ob)" "ob_patches ob = []" for ob
    using that
  proof (induction ds arbitrary: d ob)
    case Nil
    then have "is_container (ob_value ob)" using json_eq_container by auto
    then show ?case using Nil compare_docs_containers [of "ob_value ob" d] edits_of_equal [of "ob_value ob" d]
      by (simp add: observer_generate_def)
  next
    case (Cons e ds)
    have k: "kinds_agree (ob_value ob) e" "is_container (ob_value ob)"
      using Cons.prems(2-4) kinds_agree_json_eq json_eq_container by auto
    obtain ps ob1 where 1: "observer_generate ob e False = Inr (ps, ob1)" "applyPatch (ob_value ob) ps = Inr (ob_value ob1)"
        "json_eq (ob_value ob1) e" "doc_ok (ob_value ob1)" "ob_patches ob1 = []"
      using observer_generate_step [OF Cons.prems(5) _ k(2) _ k(1) Cons.prems(6)] Cons.prems(1,2) by auto
    obtain pss ob' where 2: "observer_run ob1 ds = Inr (pss, ob')" "applyPatch (ob_value ob1) pss = Inr (ob_value ob')"
        "json_eq (ob_value ob') (last (e # ds))" "observer_generate ob' (last (e # ds)) False = Inr ([], ob')"
      using Cons.IH [OF _ _ _ 1(3-5)] Cons.prems(1-3) by auto
    then show ?case using 1(1) applyPatch_append [OF 1(2), of pss] by simp
  qed
  from this [of "observe d"] show ?thesis using assms by (simp add: observe_def json_eq_refl)
qed

text \<open>
  Where an array of the one document stands for an object of the other, the comparison can miss the
  difference: the properties that both have are compared, and an array has the member \<open>length\<close> of its own.
\<close>

lemma compare_misses_kind:
  "compare_docs (JArr [JNum ''1'']) (JObj [(''0'', JNum ''1'')]) False = Inr []"
  "compare_docs (JObj []) (JArr []) False = Inr []"
  "compare_docs (JObj [(''length'', JNum ''0'')]) (JArr [JNull]) False
     = Inr [\<lparr>op_kind = PReplace (JNum ''1''), op_path = ''/length''\<rparr>]"
  by (simp_all add: compare_docs_def generate_patch.simps own.simps show_nat.simps digits_value_def dec_digit_def
        sub_path_def escapePathComponent_def invert_test_def)

end
