(* ===== verification/Js_Utils.thy ===== *)
theory Js_Utils
  imports Js_Curl Js_Patch
begin

text \<open>
  Helpers of the page that the provision daemon serves
  (\<open>cmds/modules/provisiond/swagger/swagger-ui.js\<close>): \<open>sanitizeUrl\<close>, which every link of an API description
  passes, \<open>deeplyStripKey\<close>, and \<open>createObjWithHashedKeys\<close>, which turns the entries of a form into an object
  with one member per entry.
\<close>

section \<open>Links\<close>

text \<open>
  The class \<open>[^\x20-\x7E\xC0-\u017E]\<close>: of the code units below 256, those that are removed.
\<close>

definition non_printing :: "char \<Rightarrow> bool" where
  "non_printing c \<longleftrightarrow>
     (let n = of_char c :: nat in \<not> (32 \<le> n \<and> n \<le> 126 \<or> 192 \<le> n))"

text \<open>\<open>(%20|\s)*\<close> at the start of a text.\<close>

fun skip_blanks :: "string \<Rightarrow> string" where
  "skip_blanks [] = []"
| "skip_blanks (c # cs) =
     (if js_space c then skip_blanks cs
      else if prefix ''%20'' (c # cs) then skip_blanks (drop 2 cs)
      else c # cs)"

definition invalidPrototcol :: "string \<Rightarrow> bool" where
  "invalidPrototcol s \<longleftrightarrow>
     (let r = lower (skip_blanks s)
      in prefix ''javascript'' r \<or> prefix ''data'' r \<or> prefix ''vbscript'' r)"

text \<open>
  The match of \<open>/^([^:]+):/\<close>; no line end is left in the text by then, so that only its start counts.
\<close>

definition urlScheme :: "string \<Rightarrow> string option" where
  "urlScheme s =
     (let w = takeWhile (\<lambda>c. c \<noteq> CHR '':'') s
      in if w = [] \<or> length w = length s then None else Some (w @ '':''))"

definition isRelativeUrl :: "string \<Rightarrow> bool" where
  "isRelativeUrl s = (case s of [] \<Rightarrow> False | c # _ \<Rightarrow> c \<in> {CHR ''.'', CHR ''/''})"

definition sanitizeUrl_lib :: "string \<Rightarrow> string" where
  "sanitizeUrl_lib url =
     (if url = [] then ''about:blank''
      else let sanitized = js_trim (filter (\<lambda>c. \<not> non_printing c) url)
           in if isRelativeUrl sanitized then sanitized
              else case urlScheme sanitized of
                     None \<Rightarrow> sanitized
                   | Some s \<Rightarrow> if invalidPrototcol s then ''about:blank'' else sanitized)"

text \<open>The function of the page itself; a value that is no string gives the empty text.\<close>

definition sanitizeUrl :: "jsv \<Rightarrow> string" where
  "sanitizeUrl v = (case v of JStr s \<Rightarrow> if s = [] then [] else sanitizeUrl_lib s | _ \<Rightarrow> [])"

section \<open>Objects\<close>

fun deeplyStripKey :: "string \<Rightarrow> (jsv \<Rightarrow> string \<Rightarrow> bool) \<Rightarrow> jsv \<Rightarrow> jsv" where
  "deeplyStripKey keyToStrip pred (JObj kvs) =
     (if keyToStrip = [] then JObj kvs
      else JObj (map (\<lambda>(k, v). (k, deeplyStripKey keyToStrip pred v))
                   (filter (\<lambda>(k, v). \<not> (k = keyToStrip \<and> pred v k)) kvs)))"
| "deeplyStripKey keyToStrip pred v = v"

fun field_truthy :: "form_field \<Rightarrow> bool" where
  "field_truthy (FFile name type) = True"
| "field_truthy (FValue v) = truthy v"

fun set_field :: "string \<Rightarrow> form_field \<Rightarrow> (string \<times> form_field) list \<Rightarrow> (string \<times> form_field) list" where
  "set_field k v [] = [(k, v)]"
| "set_field k v ((k', w) # kvs) = (if k' = k then (k', v) # kvs else (k', w) # set_field k v kvs)"

definition delete_field :: "string \<Rightarrow> (string \<times> form_field) list \<Rightarrow> (string \<times> form_field) list" where
  "delete_field k = filter (\<lambda>kv. fst kv \<noteq> k)"

definition hashed_key :: "string \<Rightarrow> nat \<Rightarrow> string" where
  "hashed_key k n = k @ ''_**[]'' @ show_nat n"

text \<open>
  One entry. The object \<open>a\<close> counts the entries of a name that occurs more than once. Of the names that
  every object inherits, all but one are functions, whose length cannot be assigned; the other would
  change the prototype of every object.
\<close>

definition add_entry :: "string \<times> form_field \<Rightarrow> (string \<times> form_field) list \<Rightarrow> (string \<Rightarrow> nat option)
    \<Rightarrow> patch_error + ((string \<times> form_field) list \<times> (string \<Rightarrow> nat option))" where
  "add_entry e n a =
     (let k = fst e; v = snd e
      in if k = ''__proto__'' then Inl Outside
         else if inherited k \<and> map_of n k = None then Inl PatchTypeError
         else if (case map_of n k of None \<Rightarrow> False | Some w \<Rightarrow> field_truthy w) \<or> a k \<noteq> None
         then let (n', c) = (case a k of
                               Some c \<Rightarrow> (n, c)
                             | None \<Rightarrow> (delete_field k (set_field (hashed_key k 1) (the (map_of n k)) n), 1))
              in Inr (set_field (hashed_key k (c + 1)) v n', a(k \<mapsto> c + 1))
         else Inr (set_field k v n, a))"

fun add_entries :: "(string \<times> form_field) list \<Rightarrow> (string \<times> form_field) list \<Rightarrow> (string \<Rightarrow> nat option)
    \<Rightarrow> patch_error + (string \<times> form_field) list" where
  "add_entries [] n a = Inr n"
| "add_entries (e # es) n a =
     (case add_entry e n a of Inl err \<Rightarrow> Inl err | Inr (n', a') \<Rightarrow> add_entries es n' a')"

definition createObjWithHashedKeys :: "(string \<times> form_field) list \<Rightarrow> patch_error + (string \<times> form_field) list" where
  "createObjWithHashedKeys es = add_entries es [] Map.empty"

section \<open>What a browser takes for the scheme\<close>

text \<open>
  The scheme of a link as the URL standard reads it: controls and blanks at the start are dropped, tabs
  and line ends are dropped everywhere, then come a letter and letters, digits, \<open>+\<close>, \<open>-\<close> or \<open>.\<close> up to
  a colon, without regard to case.
\<close>

definition is_letter :: "char \<Rightarrow> bool" where
  "is_letter c \<longleftrightarrow> (let n = of_char c :: nat in 65 \<le> n \<and> n \<le> 90 \<or> 97 \<le> n \<and> n \<le> 122)"

definition scheme_char :: "char \<Rightarrow> bool" where
  "scheme_char c \<longleftrightarrow>
     is_letter c \<or> (let n = of_char c :: nat in 48 \<le> n \<and> n \<le> 57) \<or> c \<in> {CHR ''+'', CHR ''-'', CHR ''.''}"

definition browser_scheme :: "string \<Rightarrow> string option" where
  "browser_scheme s =
     (let s' = filter (\<lambda>c. c \<notin> {CHR 0x09, CHR 0x0A, CHR 0x0D}) (dropWhile (\<lambda>c. (of_char c :: nat) \<le> 32) s);
          w = takeWhile scheme_char s';
          rest = dropWhile scheme_char s'
      in if w \<noteq> [] \<and> is_letter (hd w) \<and> rest \<noteq> [] \<and> hd rest = CHR '':'' then Some (lower w) else None)"

section \<open>Sanitized links\<close>

lemma js_space_printing: "\<not> non_printing c \<Longrightarrow> js_space c \<longleftrightarrow> c = CHR '' ''"
  by (auto simp: js_space_def non_printing_def)

lemma js_trim_set: "set (js_trim s) \<subseteq> set s"
  by (auto simp: js_trim_def dest!: set_dropWhileD)

lemma js_trim_hd: "js_trim s = c # cs \<Longrightarrow> \<not> js_space c"
proof -
  assume "js_trim s = c # cs"
  then have r: "rev (dropWhile js_space (rev (dropWhile js_space s))) = c # cs" by (simp add: js_trim_def)
  then obtain zs where "dropWhile js_space s = (c # cs) @ zs"
    by (metis rev_append rev_rev_ident takeWhile_dropWhile_id)
  then show ?thesis by (metis append_Cons hd_dropWhile list.distinct(1) list.sel(1))
qed

lemma js_trim_idem: "js_trim (js_trim s) = js_trim s"
proof -
  define r where "r = dropWhile js_space (rev (dropWhile js_space s))"
  have t: "js_trim s = rev r" by (simp add: js_trim_def r_def)
  have "dropWhile js_space (rev r) = rev r"
    using js_trim_hd [of s] by (cases "rev r") (auto simp: t)
  moreover have "dropWhile js_space r = r"
    unfolding r_def by (metis dropWhile_eq_self_iff hd_dropWhile)
  ultimately show ?thesis unfolding t by (simp add: js_trim_def)
qed

text \<open>The text that is left after the removal of what does not print.\<close>

definition clean_text :: "string \<Rightarrow> bool" where
  "clean_text s \<longleftrightarrow> list_all (\<lambda>c. \<not> non_printing c) s \<and> js_trim s = s"

lemma clean_sanitized: "clean_text (js_trim (filter (\<lambda>c. \<not> non_printing c) s))"
  using js_trim_set [of "filter (\<lambda>c. \<not> non_printing c) s"] by (auto simp: clean_text_def js_trim_idem list_all_iff)

lemma clean_filter: "clean_text s \<Longrightarrow> js_trim (filter (\<lambda>c. \<not> non_printing c) s) = s"
  by (simp add: clean_text_def list_all_iff)

lemma clean_stripped:
  assumes "clean_text s"
  shows "filter (\<lambda>c. c \<notin> {CHR 0x09, CHR 0x0A, CHR 0x0D}) (dropWhile (\<lambda>c. (of_char c :: nat) \<le> 32) s) = s"
proof -
  have p: "\<forall>c \<in> set s. \<not> non_printing c" using assms by (simp add: clean_text_def list_all_iff)
  have "dropWhile (\<lambda>c. (of_char c :: nat) \<le> 32) s = s"
  proof (cases s)
    case (Cons c cs)
    then have c: "\<not> js_space c" "\<not> non_printing c" using assms p js_trim_hd [of s] by (auto simp: clean_text_def)
    have "(of_char c :: nat) \<noteq> 32"
    proof
      assume "(of_char c :: nat) = 32"
      then have "(of_char c :: nat) = of_char (CHR '' '')" by simp
      then have "c = CHR '' ''" by (simp only: of_char_eq_iff)
      then show False using c(1) by (simp add: js_space_def)
    qed
    then have "\<not> (of_char c :: nat) \<le> 32" using c(2) by (auto simp: non_printing_def Let_def)
    then show ?thesis by (simp add: Cons)
  qed simp
  moreover have "\<forall>c \<in> set s. c \<notin> {CHR 0x09, CHR 0x0A, CHR 0x0D}" using p by (auto simp: non_printing_def)
  ultimately show ?thesis by (simp add: filter_id_conv)
qed

lemma letter_start:
  assumes "is_letter c"
  shows "c \<noteq> CHR ''.''" "c \<noteq> CHR ''/''" "skip_blanks (c # cs) = c # cs"
proof -
  show "c \<noteq> CHR ''.''" "c \<noteq> CHR ''/''" using assms by (auto simp: is_letter_def)
  have "c \<noteq> CHR ''%''" "\<not> js_space c" using assms by (auto simp: is_letter_def js_space_def)
  then show "skip_blanks (c # cs) = c # cs" by simp
qed

lemma scheme_char_colon: "scheme_char c \<Longrightarrow> c \<noteq> CHR '':''"
  by (auto simp: scheme_char_def is_letter_def)

text \<open>Whatever a browser takes for the scheme of a clean text, the sanitizer looks at.\<close>

lemma browser_scheme_clean:
  assumes "clean_text s" "browser_scheme s = Some w"
  obtains v where "urlScheme s = Some (v @ '':'')" "lower v = w" "\<not> isRelativeUrl s" "skip_blanks (v @ '':'') = v @ '':''"
proof -
  let ?v = "takeWhile scheme_char s" and ?r = "dropWhile scheme_char s"
  have b: "?v \<noteq> []" "is_letter (hd ?v)" "?r \<noteq> []" "hd ?r = CHR '':''" "lower ?v = w"
    using assms(2) unfolding browser_scheme_def clean_stripped [OF assms(1)] Let_def by (simp_all split: if_splits)
  obtain c v where v: "?v = c # v" using b(1) by (cases ?v) auto
  obtain r where r: "?r = CHR '':'' # r" using b(3,4) by (cases ?r) auto
  have s: "s = ?v @ CHR '':'' # r" using takeWhile_dropWhile_id [of scheme_char s] r by simp
  have "\<forall>x \<in> set ?v. x \<noteq> CHR '':''" by (metis scheme_char_colon set_takeWhileD)
  then have t: "takeWhile (\<lambda>c. c \<noteq> CHR '':'') s = ?v" by (subst s) (simp add: takeWhile_append2)
  have "length ?v \<noteq> length s" by (subst s) simp
  then have "urlScheme s = Some (?v @ '':'')" using b(1) by (simp add: urlScheme_def t)
  moreover have "\<not> isRelativeUrl s"
    using letter_start [of c] b(2) v by (subst s) (simp add: isRelativeUrl_def)
  moreover have "skip_blanks (?v @ '':'') = ?v @ '':''" using letter_start(3) [of c "v @ '':''"] b(2) v by simp
  ultimately show thesis using that b(5) by blast
qed

lemma browser_scheme_blank: "browser_scheme ''about:blank'' = Some ''about''" "browser_scheme [] = None"
  by code_simp+

lemma sanitizeUrl_lib_clean:
  "sanitizeUrl_lib s = ''about:blank'' \<or>
     clean_text (sanitizeUrl_lib s) \<and>
     (isRelativeUrl (sanitizeUrl_lib s) \<or> (\<forall>w. urlScheme (sanitizeUrl_lib s) = Some w \<longrightarrow> \<not> invalidPrototcol w))"
  using clean_sanitized [of s] by (auto simp: sanitizeUrl_lib_def Let_def split: option.splits)

lemma sanitizeUrl_lib_idem:
  assumes "sanitizeUrl_lib s \<noteq> []"
  shows "sanitizeUrl_lib (sanitizeUrl_lib s) = sanitizeUrl_lib s"
proof (cases "sanitizeUrl_lib s = ''about:blank''")
  case True
  have "sanitizeUrl_lib ''about:blank'' = ''about:blank''" by code_simp
  then show ?thesis by (simp add: True)
next
  case False
  then show ?thesis using sanitizeUrl_lib_clean [of s] assms
    by (auto simp: sanitizeUrl_lib_def [of "sanitizeUrl_lib s"] clean_filter Let_def split: option.splits)
qed

lemma sanitizeUrl_lib_safe:
  "browser_scheme (sanitizeUrl_lib s) \<notin> {Some ''javascript'', Some ''data'', Some ''vbscript''}"
proof (cases "sanitizeUrl_lib s = ''about:blank''")
  case True
  then show ?thesis by (simp add: browser_scheme_blank)
next
  case False
  let ?t = "sanitizeUrl_lib s"
  have t: "clean_text ?t" "isRelativeUrl ?t \<or> (\<forall>w. urlScheme ?t = Some w \<longrightarrow> \<not> invalidPrototcol w)"
    using False sanitizeUrl_lib_clean [of s] by auto
  show ?thesis
  proof (cases "browser_scheme ?t")
    case (Some w)
    obtain v where "urlScheme ?t = Some (v @ '':'')" "lower v = w" "\<not> isRelativeUrl ?t" "skip_blanks (v @ '':'') = v @ '':''"
      using browser_scheme_clean [OF t(1) Some] .
    then have "\<not> prefix ''javascript'' w" "\<not> prefix ''data'' w" "\<not> prefix ''vbscript'' w"
      using t(2) by (auto simp: invalidPrototcol_def Let_def lower_def intro: prefix_prefix)
    then show ?thesis using Some by auto
  qed simp
qed

text \<open>
  C28. No link that \<open>sanitizeUrl\<close> lets through can run code: whatever text or other value an API description
  gives, with controls, blanks, line ends or capitals anywhere, a browser does not read the result as having
  the scheme \<open>javascript\<close>, \<open>data\<close> or \<open>vbscript\<close>; and sanitizing the result again changes nothing.
\<close>

theorem sanitizeUrl_safe:
  "browser_scheme (sanitizeUrl v) \<notin> {Some ''javascript'', Some ''data'', Some ''vbscript''}
     \<and> sanitizeUrl (JStr (sanitizeUrl v)) = sanitizeUrl v"
  using sanitizeUrl_lib_safe sanitizeUrl_lib_idem browser_scheme_blank(2)
  by (cases v) (auto simp: sanitizeUrl_def)

section \<open>Stripped members\<close>

text \<open>The value that a list of member names reaches through objects.\<close>

fun member_at :: "jsv \<Rightarrow> string list \<Rightarrow> jsv option" where
  "member_at v [] = Some v"
| "member_at (JObj kvs) (k # ks) = (case map_of kvs k of None \<Rightarrow> None | Some v \<Rightarrow> member_at v ks)"
| "member_at v (k # ks) = None"

lemma map_of_stripped:
  "map_of (map (\<lambda>(k, v). (k, f v)) (filter (\<lambda>(k, v). k \<noteq> t) kvs)) k = (if k = t then None else map_option f (map_of kvs k))"
  by (induction kvs) auto

text \<open>
  \<open>deeplyStripKey\<close> removes the member of the given name from every object it reaches through objects and
  changes nothing else: a list of member names with that name reaches nothing any more, and any other list
  reaches what it reached before, itself stripped.
\<close>

lemma deeplyStripKey_members:
  assumes "t \<noteq> []"
  shows "member_at (deeplyStripKey t (\<lambda>_ _. True) v) ks
           = (if t \<in> set ks then None else map_option (deeplyStripKey t (\<lambda>_ _. True)) (member_at v ks))"
proof (induction v ks rule: member_at.induct)
  case (2 kvs k ks)
  then show ?case using assms
    by (cases "map_of kvs k") (simp_all add: map_of_stripped)
qed simp_all

section \<open>Forms\<close>

text \<open>A name that the page can tell from the names it makes up, and a value that counts as true.\<close>

definition plain_entry :: "string \<times> form_field \<Rightarrow> bool" where
  "plain_entry e \<longleftrightarrow>
     \<not> sublist ''_**[]'' (fst e) \<and> js_trim (fst e) = fst e \<and> \<not> inherited (fst e) \<and> field_truthy (snd e)"

text \<open>A mark whose first character does not occur again cannot begin inside the text before it.\<close>

lemma mark_inside:
  assumes "\<not> sublist (m # ms) k" "m \<notin> set ms" "k \<noteq> []"
  shows "\<not> prefix (m # ms) (k @ (m # ms) @ x)"
proof
  assume "prefix (m # ms) (k @ (m # ms) @ x)"
  then have "prefix (m # ms) k \<or> (\<exists>us. m # ms = k @ us \<and> prefix us ((m # ms) @ x))"
    by (rule prefix_append [THEN iffD1])
  then consider "prefix (m # ms) k" | us where "m # ms = k @ us" "prefix us ((m # ms) @ x)"
    by blast
  then show False
  proof cases
    case 1
    then show False using assms(1) prefix_imp_sublist by blast
  next
    case (2 us)
    obtain k' where k: "k = m # k'" "ms = k' @ us" using 2(1) assms(3) by (cases k) auto
    show False
    proof (cases us)
      case Nil
      then show False using assms(1) k by simp
    next
      case (Cons u us')
      then show False using 2(2) assms(2) k by auto
    qed
  qed
qed

lemma before_first_mark:
  "m \<notin> set ms \<Longrightarrow> \<not> sublist (m # ms) k \<Longrightarrow> before_first (m # ms) (k @ (m # ms) @ x) = k"
proof (induction k)
  case (Cons c k)
  have "\<not> prefix (m # ms) (c # (k @ (m # ms) @ x))" using mark_inside [OF Cons.prems(2,1), of x] by simp
  moreover have "\<not> sublist (m # ms) k" using Cons.prems(2) by (simp add: sublist_Cons_right)
  ultimately show ?case using Cons.IH Cons.prems(1) by (simp del: append.simps add: append_Cons [of c])
qed simp

lemma extractKey_hashed:
  assumes "\<not> sublist ''_**[]'' k" "js_trim k = k"
  shows "extractKey k = k" "extractKey (hashed_key k n) = k"
proof -
  show "extractKey k = k" using assms by (simp add: extractKey_def)
  have "before_first ''_**[]'' (hashed_key k n) = k"
    unfolding hashed_key_def by (rule before_first_mark [OF _ assms(1)]) simp
  moreover have "sublist ''_**[]'' (hashed_key k n)" unfolding hashed_key_def by (rule sublist_appendI)
  ultimately show "extractKey (hashed_key k n) = k" using assms(2) by (simp add: extractKey_def)
qed

lemma hashed_key_inj:
  assumes "hashed_key k i = hashed_key k' j"
    and "\<not> sublist ''_**[]'' k" "js_trim k = k" "\<not> sublist ''_**[]'' k'" "js_trim k' = k'"
  shows "k = k' \<and> i = j"
proof -
  have "k = k'" using assms extractKey_hashed(2) by metis
  moreover from this have "show_nat i = show_nat j" using assms(1) by (simp add: hashed_key_def)
  ultimately show ?thesis by (metis digits_value_show)
qed

lemma set_field_new: "k \<notin> fst ` set n \<Longrightarrow> set_field k v n = n @ [(k, v)]"
  by (induction k v n rule: set_field.induct) auto

lemma delete_field_mset:
  assumes "distinct (map fst n)" "map_of n k = Some w"
  shows "mset n = add_mset (k, w) (mset (delete_field k n))"
  using assms
proof (induction n)
  case (Cons kv n)
  show ?case
  proof (cases "fst kv = k")
    case True
    then have "\<forall>x \<in> set n. fst x \<noteq> k" using Cons.prems(1) by (auto simp: image_iff)
    then have "delete_field k n = n" by (simp add: delete_field_def)
    then show ?thesis using True Cons.prems(2) by (cases kv) (simp add: delete_field_def)
  next
    case False
    then show ?thesis using Cons by (cases kv) (simp add: delete_field_def)
  qed
qed simp

text \<open>
  The entries taken in so far are the members of the object, up to the marks of their names; a marked
  member belongs to a name that is counted, an unmarked one to a name that is not.
\<close>

definition plain_name :: "string \<Rightarrow> bool" where
  "plain_name k \<longleftrightarrow> \<not> sublist ''_**[]'' k \<and> js_trim k = k"

definition name_ok :: "(string \<Rightarrow> nat option) \<Rightarrow> string \<Rightarrow> bool" where
  "name_ok a key \<longleftrightarrow>
     plain_name key \<and> a key = None
       \<or> (\<exists>k j c. plain_name k \<and> key = hashed_key k j \<and> a k = Some c \<and> j \<le> c)"

definition taken_in :: "(string \<times> form_field) list \<Rightarrow> (string \<times> form_field) list \<Rightarrow> (string \<Rightarrow> nat option) \<Rightarrow> bool" where
  "taken_in es n a \<longleftrightarrow>
     mset (map (\<lambda>(k, v). (extractKey k, v)) n) = mset es \<and> distinct (map fst n)
       \<and> (\<forall>(k, v) \<in> set n. field_truthy v \<and> name_ok a k)"

lemma hashed_not_plain: "\<not> plain_name (hashed_key k j)"
  unfolding plain_name_def hashed_key_def using sublist_appendI by blast

lemma hashed_key_plain_inj:
  "plain_name k \<Longrightarrow> plain_name k' \<Longrightarrow> hashed_key k i = hashed_key k' j \<longleftrightarrow> k = k' \<and> i = j"
  using hashed_key_inj by (auto simp: plain_name_def)

lemma name_ok_plain: "plain_name k \<Longrightarrow> name_ok a k \<longleftrightarrow> a k = None"
  by (auto simp: name_ok_def hashed_not_plain)

lemma name_ok_hashed: "plain_name k \<Longrightarrow> name_ok a (hashed_key k j) \<longleftrightarrow> (\<exists>c. a k = Some c \<and> j \<le> c)"
  by (auto simp: name_ok_def hashed_not_plain hashed_key_plain_inj)

lemma name_ok_count:
  assumes "name_ok b x" "b k = None \<or> (\<exists>d. b k = Some d \<and> d \<le> c)" "x \<noteq> k"
  shows "name_ok (b(k \<mapsto> c)) x"
  using assms(1) unfolding name_ok_def
proof (elim disjE exE conjE)
  fix k' j d
  assume h: "plain_name k'" "x = hashed_key k' j" "b k' = Some d" "j \<le> d"
  show "plain_name x \<and> (b(k \<mapsto> c)) x = None
      \<or> (\<exists>k' j d. plain_name k' \<and> x = hashed_key k' j \<and> (b(k \<mapsto> c)) k' = Some d \<and> j \<le> d)"
  proof (cases "k' = k")
    case True
    then have "j \<le> c" using h assms(2) by auto
    then show ?thesis using h True by auto
  next
    case False
    then show ?thesis using h by auto
  qed
qed (use assms(3) in simp)

lemma taken_in_append:
  assumes "taken_in es n a" "key \<notin> fst ` set n" "extractKey key = k" "field_truthy v" "name_ok a' key"
    and "\<And>x w. (x, w) \<in> set n \<Longrightarrow> name_ok a' x"
  shows "taken_in ((k, v) # es) (set_field key v n) a'"
  using assms by (auto simp: taken_in_def set_field_new)

text \<open>The first entry of a repeated name gets its mark.\<close>

lemma taken_in_mark:
  assumes "taken_in es n a" "plain_name k" "map_of n k = Some w"
  shows "taken_in es (delete_field k (set_field (hashed_key k 1) w n)) (a(k \<mapsto> 1))"
proof -
  have inv: "mset (map (\<lambda>(k, v). (extractKey k, v)) n) = mset es" "distinct (map fst n)"
      "\<And>x v. (x, v) \<in> set n \<Longrightarrow> field_truthy v \<and> name_ok a x"
    using assms(1) by (auto simp: taken_in_def)
  have kw: "(k, w) \<in> set n" using assms(3) by (rule map_of_SomeD)
  have ak: "a k = None" using inv(3) [OF kw] assms(2) by (simp add: name_ok_plain)
  have "\<not> name_ok a (hashed_key k 1)" using ak assms(2) by (simp add: name_ok_hashed)
  then have new: "hashed_key k 1 \<notin> fst ` set n" using inv(3) by (metis image_iff prod.collapse)
  have ne: "hashed_key k 1 \<noteq> k" using assms(2) hashed_not_plain by metis
  let ?n = "delete_field k n @ [(hashed_key k 1, w)]"
  have n': "delete_field k (set_field (hashed_key k 1) w n) = ?n"
    unfolding set_field_new [OF new] using ne by (simp add: delete_field_def)
  have ex: "extractKey k = k" "extractKey (hashed_key k 1) = k"
    using assms(2) extractKey_hashed by (auto simp: plain_name_def)
  have "mset (map (\<lambda>(k, v). (extractKey k, v)) ?n) = mset (map (\<lambda>(k, v). (extractKey k, v)) n)"
    using delete_field_mset [OF inv(2) assms(3)] ex by simp
  moreover have "distinct (map fst ?n)"
    using inv(2) new by (auto simp: delete_field_def distinct_map_filter)
  moreover have "field_truthy v \<and> name_ok (a(k \<mapsto> 1)) x" if "(x, v) \<in> set ?n" for x v
  proof (cases "x = hashed_key k 1")
    case True
    then show ?thesis using that new inv(3) [OF kw] assms(2) by (force simp: delete_field_def name_ok_hashed)
  next
    case False
    then have xv: "(x, v) \<in> set n" "x \<noteq> k" using that by (auto simp: delete_field_def)
    then show ?thesis using inv(3) [OF xv(1)] ak by (simp add: name_ok_count)
  qed
  ultimately show ?thesis unfolding n' taken_in_def using inv(1) by auto
qed

lemma add_entry_taken_in:
  assumes "taken_in es n a" "plain_entry e"
  shows "\<exists>n' a'. add_entry e n a = Inr (n', a') \<and> taken_in (e # es) n' a'"
proof -
  obtain k v where e: "e = (k, v)" by (cases e)
  have k: "plain_name k" "\<not> inherited k" "field_truthy v" using assms(2) by (auto simp: plain_entry_def plain_name_def e)
  have ex: "extractKey k = k" "extractKey (hashed_key k c) = k" for c
    using k(1) extractKey_hashed by (auto simp: plain_name_def)
  have inv: "\<And>x w. (x, w) \<in> set n \<Longrightarrow> field_truthy w \<and> name_ok a x" using assms(1) by (auto simp: taken_in_def)
  have np: "k \<noteq> ''__proto__''" using k(2) by (auto simp: inherited_def)
  have next_entry: "taken_in ((k, v) # es) (set_field (hashed_key k (c + 1)) v m) (b(k \<mapsto> c + 1))"
    if m: "taken_in es m b" "b k = Some c" for m b c
  proof (rule taken_in_append [OF m(1) _ ex(2) k(3)])
    have ok: "name_ok b x" if "(x, w) \<in> set m" for x w using m(1) that by (auto simp: taken_in_def)
    have "\<not> name_ok b (hashed_key k (c + 1))" using m(2) k(1) by (simp add: name_ok_hashed)
    then show "hashed_key k (c + 1) \<notin> fst ` set m" using ok by (metis image_iff prod.collapse)
    show "name_ok (b(k \<mapsto> c + 1)) (hashed_key k (c + 1))" using k(1) by (simp add: name_ok_hashed)
    show "name_ok (b(k \<mapsto> c + 1)) x" if "(x, w) \<in> set m" for x w
      using ok [OF that] m(2) k(1) by (intro name_ok_count) (auto simp: name_ok_plain)
  qed
  show ?thesis
  proof (cases "a k")
    case (Some c)
    then show ?thesis using next_entry [OF assms(1) Some] np k(2) by (simp add: add_entry_def e Let_def)
  next
    case None
    show ?thesis
    proof (cases "map_of n k")
      case absent: None
      then have fresh: "k \<notin> fst ` set n" by (simp add: map_of_eq_None_iff)
      have "taken_in ((k, v) # es) (set_field k v n) a"
        using fresh inv k None by (intro taken_in_append [OF assms(1)]) (auto simp: ex name_ok_plain)
      moreover have "\<not> (case map_of n k of None \<Rightarrow> False | Some w \<Rightarrow> field_truthy w)" using absent by (metis option.simps(4))
      ultimately show ?thesis using np k(2) None by (simp add: add_entry_def e Let_def)
    next
      case (Some w)
      have "field_truthy w" using inv map_of_SomeD [OF Some] by blast
      then show ?thesis
        using next_entry [OF taken_in_mark [OF assms(1) k(1) Some], of 1] np k(2) None Some
        by (simp add: add_entry_def e Let_def)
    qed
  qed
qed

lemma add_entries_taken_in:
  assumes "taken_in es0 n a" "list_all plain_entry es"
  shows "\<exists>n' a'. add_entries es n a = Inr n' \<and> taken_in (rev es @ es0) n' a'"
  using assms
proof (induction es arbitrary: es0 n a)
  case (Cons e es)
  obtain n' a' where step: "add_entry e n a = Inr (n', a')" "taken_in (e # es0) n' a'"
    using add_entry_taken_in [OF Cons.prems(1), of e] Cons.prems(2) by auto
  then show ?case using Cons.IH [OF step(2)] Cons.prems(2) by simp
qed auto

text \<open>
  No entry of a form is lost: when the entries have plain names, repeated or not, and values that count
  as true, \<open>createObjWithHashedKeys\<close> succeeds, its members have distinct names, and what the generator of
  \<open>curl\<close> commands reads back with \<open>extractKey\<close> is, as a multiset, exactly the entries of the form.
\<close>

lemma hashed_keys_keep_entries:
  assumes "list_all plain_entry es"
  shows "\<exists>n. createObjWithHashedKeys es = Inr n \<and> distinct (map fst n)
           \<and> mset (map (\<lambda>(k, v). (extractKey k, v)) n) = mset es"
proof -
  have "taken_in [] [] Map.empty" by (simp add: taken_in_def)
  from add_entries_taken_in [OF this assms] show ?thesis
    by (auto simp: createObjWithHashedKeys_def taken_in_def)
qed

text \<open>A repeated name whose first value is empty loses that value.\<close>

lemma hashed_keys_lose_empty:
  "createObjWithHashedKeys [(''a'', FValue (JStr [])), (''a'', FValue (JStr ''x''))] = Inr [(''a'', FValue (JStr ''x''))]"
  by (simp add: createObjWithHashedKeys_def add_entry_def inherited_def)

end
