(* ===== verification/Js_Validate.thy ===== *)
theory Js_Validate
  imports Js_Utils
begin

text \<open>
  The validation of parameters on the page (\<open>cmds/modules/provisiond/swagger/swagger-ui.js\<close>: \<open>validateParam\<close>,
  the function for a value and a schema below it, and \<open>getParameterSchema\<close>), against a statement of what a
  schema asks of a value.
\<close>

section \<open>Values and schemas\<close>

text \<open>
  Values as JavaScript has them: \<open>VList\<close> is an Immutable list, \<open>VFile\<close> a file, \<open>VFun\<close> a function; a number is
  the text that JavaScript prints for it.
\<close>

datatype pval = VUndef | VNull | VBool bool | VNum string | is_VStr: VStr string | VArr "pval list" | VList "pval list"
  | VObj "(string \<times> pval) list" | VFun | VFile

text \<open>
  The attribute \<open>required\<close> is a flag for a parameter and a list of names for an object. The last five
  attributes are part of a schema and are kept with it, but no check reads them; \<open>VUndef\<close> is one that is unset.
\<close>

datatype required = ReqUnset | ReqFlag bool | ReqNames "string list"

record attributes =
  at_type :: string
  at_format :: string
  at_nullable :: bool
  at_required :: required
  at_pattern :: string
  at_maximum :: "string option"
  at_minimum :: "string option"
  at_maxLength :: "string option"
  at_minLength :: "string option"
  at_maxItems :: "string option"
  at_minItems :: "string option"
  at_unique :: bool
  at_enum :: "pval list option"
  at_exclusiveMaximum :: pval
  at_exclusiveMinimum :: pval
  at_multipleOf :: pval
  at_default :: pval

datatype schema = Schema attributes (sc_items: "schema option") (sc_properties: "(string \<times> schema) list option")

text \<open>
  The standard library: comparison with a number, \<open>new RegExp(p)\<close> with its \<open>test\<close> (\<open>None\<close> is a syntax error),
  \<open>String(v)\<close>, whether \<open>Date.parse\<close> gives a date, \<open>JSON.parse\<close>, and members of values that are no plain
  objects; of Immutable the equality \<open>is\<close> of its sets, the order of a set, and \<open>jl_equal\<close>, which is
  \<open>t.equals(e)\<close> for a collection \<open>t\<close> and \<open>t === e\<close> for any other.
\<close>

record js_lib =
  jl_gt :: "pval \<Rightarrow> string \<Rightarrow> bool"
  jl_lt :: "pval \<Rightarrow> string \<Rightarrow> bool"
  jl_regex :: "string \<Rightarrow> (string \<Rightarrow> bool) option"
  jl_text :: "pval \<Rightarrow> string"
  jl_date :: "pval \<Rightarrow> bool"
  jl_parse :: "string \<Rightarrow> pval option"
  jl_prop :: "pval \<Rightarrow> string \<Rightarrow> pval"
  jl_same :: "pval \<Rightarrow> pval \<Rightarrow> bool"
  jl_equal :: "pval \<Rightarrow> pval \<Rightarrow> bool"
  jl_visit :: "nat list \<Rightarrow> nat list"

datatype verr = EText string | EProp string verr | EIndex nat verr | ERemove string

fun pv_truthy :: "pval \<Rightarrow> bool" where
  "pv_truthy VUndef = False"
| "pv_truthy VNull = False"
| "pv_truthy (VBool b) = b"
| "pv_truthy (VNum n) = (n \<noteq> ''0'' \<and> n \<noteq> ''NaN'')"
| "pv_truthy (VStr s) = (s \<noteq> [])"
| "pv_truthy v = True"

definition nothing :: "pval \<Rightarrow> bool" where
  "nothing v \<longleftrightarrow> v = VUndef \<or> v = VNull"

text \<open>\<open>v.length\<close> and \<open>v[k]\<close>; every object inherits some members.\<close>

definition pv_length :: "js_lib \<Rightarrow> pval \<Rightarrow> js_error + pval" where
  "pv_length lib v =
     (case v of
        VUndef \<Rightarrow> Inl (TypeError ''length'')
      | VNull \<Rightarrow> Inl (TypeError ''length'')
      | VStr s \<Rightarrow> Inr (VNum (show_nat (length s)))
      | VArr xs \<Rightarrow> Inr (VNum (show_nat (length xs)))
      | VObj kvs \<Rightarrow> Inr (case map_of kvs ''length'' of None \<Rightarrow> VUndef | Some u \<Rightarrow> u)
      | VBool b \<Rightarrow> Inr VUndef
      | VNum t \<Rightarrow> Inr VUndef
      | VFile \<Rightarrow> Inr VUndef
      | _ \<Rightarrow> Inr (jl_prop lib v ''length''))"

definition pv_member :: "js_lib \<Rightarrow> pval \<Rightarrow> string \<Rightarrow> js_error + pval" where
  "pv_member lib v k =
     (if nothing v then Inl (TypeError k)
      else case v of
             VObj kvs \<Rightarrow>
               Inr (case map_of kvs k of
                      Some u \<Rightarrow> u
                    | None \<Rightarrow> if k = ''__proto__'' then VObj [] else if inherited k then VFun else VUndef)
           | _ \<Rightarrow> Inr (jl_prop lib v k))"

section \<open>Errors in order\<close>

text \<open>The first exception ends the function; without one the errors are appended.\<close>

definition app :: "js_error + verr list \<Rightarrow> js_error + verr list \<Rightarrow> js_error + verr list" where
  "app a b =
     (case a of
        Inl e \<Rightarrow> Inl e
      | Inr xs \<Rightarrow> (case b of Inl e \<Rightarrow> Inl e | Inr ys \<Rightarrow> Inr (xs @ ys)))"

definition app_all :: "(js_error + verr list) list \<Rightarrow> js_error + verr list" where
  "app_all rs = foldr app rs (Inr [])"

definition under :: "(verr \<Rightarrow> verr) \<Rightarrow> js_error + verr list \<Rightarrow> js_error + verr list" where
  "under f r = map_sum (\<lambda>e. e) (map f) r"

definition flag :: "bool \<Rightarrow> verr \<Rightarrow> js_error + verr list" where
  "flag bad e = Inr (if bad then [e] else [])"

section \<open>The checks of one value\<close>

definition is_digit :: "char \<Rightarrow> bool" where
  "is_digit c \<longleftrightarrow> c \<in> set ''0123456789''"

definition minus_off :: "string \<Rightarrow> string" where
  "minus_off s = (case s of c # cs \<Rightarrow> if c = CHR ''-'' then cs else s | [] \<Rightarrow> [])"

text \<open>\<open>/^-?\d+$/\<close> and \<open>/^-?\d+(\.?\d+)?$/\<close>.\<close>

definition integer_text :: "string \<Rightarrow> bool" where
  "integer_text s \<longleftrightarrow> minus_off s \<noteq> [] \<and> list_all is_digit (minus_off s)"

definition number_text :: "string \<Rightarrow> bool" where
  "number_text s \<longleftrightarrow>
     (let t = minus_off s; whole = takeWhile is_digit t; rest = dropWhile is_digit t
      in whole \<noteq> [] \<and>
         (rest = [] \<or> (hd rest = CHR ''.'' \<and> tl rest \<noteq> [] \<and> list_all is_digit (tl rest))))"

text \<open>The pattern of a uuid, whose braces need not match.\<close>

definition hex_part :: "nat \<Rightarrow> string \<Rightarrow> bool" where
  "hex_part n s \<longleftrightarrow> length s = n \<and> list_all (\<lambda>c. c \<in> set ''0123456789abcdef'') s"

definition open_off :: "string \<Rightarrow> string" where
  "open_off s = (case s of c # cs \<Rightarrow> if c \<in> set ''{('' then cs else s | [] \<Rightarrow> [])"

definition close_off :: "string \<Rightarrow> string" where
  "close_off s = (if s \<noteq> [] \<and> last s \<in> set '')}'' then butlast s else s)"

definition is_uuid :: "string \<Rightarrow> bool" where
  "is_uuid s \<longleftrightarrow>
     (case js_split (CHR ''-'') (close_off (open_off s)) of
        [a, b, c, d, e] \<Rightarrow> hex_part 8 a \<and> hex_part 4 b \<and> hex_part 4 c \<and> hex_part 4 d \<and> hex_part 12 e
      | _ \<Rightarrow> False)"

definition plural :: "string \<Rightarrow> string" where
  "plural t = (if t = ''1'' then [] else ''s'')"

text \<open>A limit that is a number, and one that counts only when it is not zero.\<close>

definition not_zero :: "string option \<Rightarrow> string option" where
  "not_zero m = (if m = Some ''0'' then None else m)"

definition check_pattern :: "js_lib \<Rightarrow> attributes \<Rightarrow> pval \<Rightarrow> js_error + verr list" where
  "check_pattern lib a v =
     (if at_pattern a = [] then Inr []
      else case jl_regex lib (at_pattern a) of
             None \<Rightarrow> Inl (JsError ''SyntaxError'')
           | Some test \<Rightarrow> flag (\<not> test (jl_text lib v)) (EText (''Value must follow pattern '' @ at_pattern a)))"

text \<open>\<open>bad\<close> compares the length with the limit.\<close>

definition check_length ::
  "js_lib \<Rightarrow> (pval \<Rightarrow> string \<Rightarrow> bool) \<Rightarrow> (string \<Rightarrow> verr) \<Rightarrow> string option \<Rightarrow> pval \<Rightarrow> js_error + verr list" where
  "check_length lib bad err limit v =
     (case limit of
        None \<Rightarrow> Inr []
      | Some t \<Rightarrow> (case pv_length lib v of Inl e \<Rightarrow> Inl e | Inr n \<Rightarrow> flag (bad n t) (err t)))"

definition too_few :: "string \<Rightarrow> verr" where
  "too_few t = EText (''Array must contain at least '' @ t @ '' item'' @ plural t)"

definition too_many :: "string \<Rightarrow> verr" where
  "too_many t = ERemove (''Array must not contain more then '' @ t @ '' item'' @ plural t)"

text \<open>\<open>validateMinItems\<close> and \<open>validateMaxItems\<close>: a value that is not truthy has no items.\<close>

definition check_items :: "js_lib \<Rightarrow> attributes \<Rightarrow> pval \<Rightarrow> js_error + verr list" where
  "check_items lib a v =
     (if at_type a \<noteq> ''array'' then Inr []
      else app
        (if pv_truthy v then check_length lib (jl_lt lib) too_few (not_zero (at_minItems a)) v
         else case not_zero (at_minItems a) of
                None \<Rightarrow> Inr []
              | Some t \<Rightarrow> flag (\<not> jl_lt lib (VNum t) ''1'') (too_few t))
        (if pv_truthy v then check_length lib (jl_gt lib) too_many (not_zero (at_maxItems a)) v else Inr []))"

text \<open>
  \<open>validateUniqueItems\<close>. A value that is no collection has no \<open>toSet\<close>, and an item that is null or undefined
  has no \<open>equals\<close>. An object with a member \<open>length\<close> of its own is not modelled and counts as an exception.
\<close>

fun js_set :: "js_lib \<Rightarrow> pval list \<Rightarrow> pval list \<Rightarrow> pval list" where
  "js_set lib acc [] = acc"
| "js_set lib acc (x # xs) = js_set lib (if list_ex (\<lambda>y. jl_same lib y x) acc then acc else acc @ [x]) xs"

definition repeated :: "js_lib \<Rightarrow> pval list \<Rightarrow> nat list" where
  "repeated lib xs = filter (\<lambda>t. 1 < length (filter (\<lambda>y. jl_equal lib y (xs ! t)) xs)) [0..<length xs]"

definition duplicates :: "js_lib \<Rightarrow> pval list \<Rightarrow> js_error + verr list" where
  "duplicates lib xs =
     (if list_ex nothing xs then Inl (TypeError ''equals'')
      else Inr (map (\<lambda>t. EIndex t (EText ''No duplicates allowed.'')) (jl_visit lib (repeated lib xs))))"

definition check_unique :: "js_lib \<Rightarrow> attributes \<Rightarrow> pval \<Rightarrow> js_error + verr list" where
  "check_unique lib a v =
     (if \<not> at_unique a \<or> at_type a \<noteq> ''array'' \<or> \<not> pv_truthy v then Inr []
      else case v of
             VArr xs \<Rightarrow> if length (js_set lib [] xs) < length xs then duplicates lib xs else Inr []
           | VList xs \<Rightarrow>
               if jl_gt lib (jl_prop lib v ''length'') (show_nat (length (js_set lib [] xs)))
               then duplicates lib xs else Inr []
           | VObj kvs \<Rightarrow> if map_of kvs ''length'' = None then Inr [] else Inl (JsError ''length'')
           | _ \<Rightarrow> Inl (TypeError ''toSet''))"

definition check_bounds :: "js_lib \<Rightarrow> attributes \<Rightarrow> pval \<Rightarrow> js_error + verr list" where
  "check_bounds lib a v =
     app (case at_maximum a of
            None \<Rightarrow> Inr []
          | Some t \<Rightarrow> flag (jl_gt lib v t) (EText (''Value must be less than '' @ t)))
         (case at_minimum a of
            None \<Rightarrow> Inr []
          | Some t \<Rightarrow> flag (jl_lt lib v t) (EText (''Value must be greater than '' @ t)))"

definition check_lengths :: "js_lib \<Rightarrow> attributes \<Rightarrow> pval \<Rightarrow> js_error + verr list" where
  "check_lengths lib a v =
     app (check_length lib (jl_gt lib)
            (\<lambda>t. EText (''Value must be no longer than '' @ t @ '' character'' @ plural t)) (at_maxLength a) v)
         (check_length lib (jl_lt lib)
            (\<lambda>t. EText (''Value must be at least '' @ t @ '' character'' @ plural t)) (not_zero (at_minLength a)) v)"

definition check_type :: "js_lib \<Rightarrow> attributes \<Rightarrow> pval \<Rightarrow> js_error + verr list" where
  "check_type lib a v =
     (if at_type a = ''string'' then
        (if at_format a = ''date-time'' then flag (\<not> jl_date lib v) (EText ''Value must be a DateTime'')
         else if at_format a = ''uuid'' then
           (if nothing v then Inl (TypeError ''toString'')
            else flag (\<not> is_uuid (lower (jl_text lib v))) (EText ''Value must be a Guid''))
         else flag (pv_truthy v \<and> \<not> is_VStr v) (EText ''Value must be a string''))
      else if at_type a = ''boolean'' then
        flag (v \<notin> {VStr ''true'', VStr ''false'', VBool True, VBool False}) (EText ''Value must be a boolean'')
      else if at_type a = ''number'' then
        flag (\<not> number_text (jl_text lib v)) (EText ''Value must be a number'')
      else if at_type a = ''integer'' then
        flag (\<not> integer_text (jl_text lib v)) (EText ''Value must be an integer'')
      else if at_type a = ''file'' then
        flag (pv_truthy v \<and> v \<noteq> VFile) (EText ''Value must be a file'')
      else Inr [])"

section \<open>A value against its schema\<close>

text \<open>Whether a value counts as provided, by the type that is asked for.\<close>

definition provided :: "attributes \<Rightarrow> pval \<Rightarrow> bool" where
  "provided a v \<longleftrightarrow>
     (let t = at_type a in
        t = ''string'' \<and> pv_truthy v \<or>
        t = ''array'' \<and> (case v of VArr xs \<Rightarrow> xs \<noteq> [] | VList xs \<Rightarrow> xs \<noteq> [] | VStr s \<Rightarrow> s \<noteq> [] | _ \<Rightarrow> False) \<or>
        t = ''file'' \<and> v = VFile \<or>
        t = ''boolean'' \<and> (pv_truthy v \<or> v = VBool False) \<or>
        (t = ''number'' \<or> t = ''integer'') \<and> (pv_truthy v \<or> v = VNum ''0'') \<or>
        t = ''object'' \<and> (case v of VArr xs \<Rightarrow> True | VList xs \<Rightarrow> True | VObj kvs \<Rightarrow> True | VFile \<Rightarrow> True
                             | VStr s \<Rightarrow> s \<noteq> [] | _ \<Rightarrow> False))"

definition req_truthy :: "required \<Rightarrow> bool" where
  "req_truthy r = (case r of ReqUnset \<Rightarrow> False | ReqFlag b \<Rightarrow> b | ReqNames ns \<Rightarrow> True)"

definition must_have :: "attributes \<Rightarrow> bool \<Rightarrow> bool" where
  "must_have a must \<longleftrightarrow> must \<or> req_truthy (at_required a)"

definition exempt :: "attributes \<Rightarrow> pval \<Rightarrow> bool \<Rightarrow> bool" where
  "exempt a v must \<longleftrightarrow>
     (let need = must_have a must; is = \<not> nothing v
      in at_nullable a \<and> v = VNull \<or> at_type a = [] \<or>
         \<not> (need \<or> is \<and> at_type a = ''array'' \<or> \<not> (\<not> need \<and> \<not> is)))"

text \<open>Objects are only looked into when the parameter has no content type (\<open>None\<close>) or that of JSON.\<close>

definition as_object :: "string option \<Rightarrow> attributes \<Rightarrow> bool" where
  "as_object ct a \<longleftrightarrow> at_type a = ''object'' \<and> (ct = None \<or> ct = Some ''application/json'')"

definition parsed :: "js_lib \<Rightarrow> pval \<Rightarrow> pval option" where
  "parsed lib v = (case v of VStr s \<Rightarrow> jl_parse lib s | _ \<Rightarrow> Some v)"

definition missing_names :: "js_lib \<Rightarrow> attributes \<Rightarrow> pval \<Rightarrow> js_error + verr list" where
  "missing_names lib a v =
     (case at_required a of
        ReqNames ns \<Rightarrow>
          app_all (map (\<lambda>k. case pv_member lib v k of
                              Inl e \<Rightarrow> Inl e
                            | Inr u \<Rightarrow> flag (u = VUndef) (EProp k (EText ''Required property not found''))) ns)
      | _ \<Rightarrow> Inr [])"

text \<open>The values that the items of a schema are checked on.\<close>

definition elements :: "attributes \<Rightarrow> pval \<Rightarrow> pval list" where
  "elements a v =
     (if at_type a \<noteq> ''array'' then [] else case v of VArr xs \<Rightarrow> xs | VList xs \<Rightarrow> xs | _ \<Rightarrow> [])"

text \<open>\<open>validateValueBySchema\<close>: the value, the schema, whether the parameter is required, and \<open>bypassRequiredCheck\<close>.\<close>

function validateValueBySchema ::
  "js_lib \<Rightarrow> string option \<Rightarrow> bool \<Rightarrow> schema \<Rightarrow> pval \<Rightarrow> bool \<Rightarrow> js_error + verr list" where
  "validateValueBySchema lib ct bypass (Schema a items props) v must =
     (if exempt a v must then Inr []
      else if must_have a must \<and> \<not> provided a v \<and> \<not> bypass then Inr [EText ''Required field is not provided'']
      else if as_object ct a \<and> parsed lib v = None then Inr [EText ''Parameter string value must be valid JSON'']
      else
        app (if as_object ct a
             then app (missing_names lib a (the (parsed lib v)))
                    (app_all (map (\<lambda>(k, sc). case pv_member lib (the (parsed lib v)) k of
                                               Inl e \<Rightarrow> Inl e
                                             | Inr u \<Rightarrow> under (EProp k) (validateValueBySchema lib ct bypass sc u False))
                       (case props of None \<Rightarrow> [] | Some ps \<Rightarrow> ps)))
             else Inr [])
        (app (check_pattern lib a v)
        (app (check_items lib a v)
        (app (check_unique lib a v)
        (app (check_lengths lib a v)
        (app (check_bounds lib a v)
        (app (check_type lib a v)
             (case items of
                None \<Rightarrow> Inr []
              | Some sc \<Rightarrow>
                  app_all (map (\<lambda>(i, u). under (EIndex i) (validateValueBySchema lib ct bypass sc u False))
                    (enumerate 0 (elements a v)))))))))))"
  by pat_completeness auto
termination
proof (relation "measure (\<lambda>(lib, ct, bypass, sc, v, must). size sc)", goal_cases)
  case (2 lib ct bypass a items props v must x k sc u)
  then show ?case by (cases props) (auto dest!: size_list_estimation' [where f = "size_prod (\<lambda>_. 0) size" and y = "size sc"])
qed auto

section \<open>Parameters\<close>

text \<open>
  A parameter of the description: where it is, its schema, its content types with theirs, and the attributes
  it has itself. \<open>None\<close> is a schema that is missing; the empty one has no type.
\<close>

definition no_attributes :: attributes where
  "no_attributes = \<lparr>at_type = [], at_format = [], at_nullable = False, at_required = ReqUnset, at_pattern = [],
     at_maximum = None, at_minimum = None, at_maxLength = None, at_minLength = None, at_maxItems = None,
     at_minItems = None, at_unique = False, at_enum = None, at_exclusiveMaximum = VUndef,
     at_exclusiveMinimum = VUndef, at_multipleOf = VUndef, at_default = VUndef\<rparr>"

definition empty_schema :: schema where
  "empty_schema = Schema no_attributes None None"

record parameter =
  pm_in :: string
  pm_required :: bool
  pm_schema :: "schema option"
  pm_content :: "(string \<times> schema option) list option"
  pm_self :: schema

text \<open>The attributes of a parameter that belong to its schema.\<close>

fun schema_part :: "schema \<Rightarrow> schema" where
  "schema_part (Schema a items props) = Schema (a\<lparr>at_nullable := False, at_required := ReqUnset\<rparr>) items None"

text \<open>
  \<open>getParameterSchema\<close>, with the content type; the one of an empty \<open>content\<close> is undefined, here a type that is
  empty.
\<close>

definition or_empty :: "schema option \<Rightarrow> schema" where
  "or_empty s = (case s of None \<Rightarrow> empty_schema | Some sc \<Rightarrow> sc)"

definition getParameterSchema :: "parameter \<Rightarrow> bool \<Rightarrow> schema \<times> string option" where
  "getParameterSchema p isOAS3 =
     (if \<not> isOAS3 then
        (if pm_in p = ''body'' then or_empty (pm_schema p) else schema_part (pm_self p), None)
      else case pm_content p of
             None \<Rightarrow> (or_empty (pm_schema p), None)
           | Some [] \<Rightarrow> (empty_schema, Some [])
           | Some ((ct, sc) # _) \<Rightarrow> (or_empty sc, Some ct))"

definition validateParam :: "js_lib \<Rightarrow> parameter \<Rightarrow> pval \<Rightarrow> bool \<Rightarrow> bool \<Rightarrow> js_error + verr list" where
  "validateParam lib p v isOAS3 bypass =
     (case getParameterSchema p isOAS3 of (sc, ct) \<Rightarrow> validateValueBySchema lib ct bypass sc v (pm_required p))"

section \<open>What a schema asks for\<close>

definition natural :: "string \<Rightarrow> bool" where
  "natural t \<longleftrightarrow> t \<noteq> [] \<and> list_all is_digit t"

text \<open>
  What is used of the library: the order of the natural numbers, the text of a number and a truth value, the
  members of a set, and that \<open>is\<close> is an equality, which \<open>===\<close> follows except for \<open>NaN\<close>.
\<close>

definition js_lib_laws :: "js_lib \<Rightarrow> bool" where
  "js_lib_laws lib \<longleftrightarrow>
     (\<forall>t. \<not> jl_gt lib VUndef t \<and> \<not> jl_lt lib VUndef t) \<and>
     (\<forall>n t. natural t \<longrightarrow> (jl_lt lib (VNum (show_nat n)) t \<longleftrightarrow> n < digits_value t) \<and>
        (jl_gt lib (VNum (show_nat n)) t \<longleftrightarrow> digits_value t < n)) \<and>
     (\<forall>x. jl_same lib x x) \<and> (\<forall>x y. jl_same lib x y \<longrightarrow> jl_same lib y x) \<and>
     (\<forall>x y. jl_same lib x y \<longrightarrow> y \<noteq> VNum ''NaN'' \<longrightarrow> jl_equal lib x y) \<and>
     (\<forall>ts. set (jl_visit lib ts) = set ts) \<and>
     (\<forall>t. jl_text lib (VNum t) = t) \<and> (\<forall>b. jl_text lib (VBool b) = (if b then ''true'' else ''false''))"

text \<open>
  A schema as it should be: one of the types, patterns that compile, limits that are natural numbers, a
  greatest number of items that is not zero (a zero is not enforced), none of the attributes that are not
  enforced at all, and lists of required members for objects only, of names that no object inherits.
\<close>

definition natural_limit :: "string option \<Rightarrow> bool" where
  "natural_limit m = (case m of None \<Rightarrow> True | Some t \<Rightarrow> natural t)"

definition regular_attributes :: "js_lib \<Rightarrow> attributes \<Rightarrow> bool" where
  "regular_attributes lib a \<longleftrightarrow>
     at_type a \<in> {[], ''string'', ''boolean'', ''number'', ''integer'', ''array'', ''object'', ''file''} \<and>
     (at_pattern a = [] \<or> jl_regex lib (at_pattern a) \<noteq> None) \<and>
     natural_limit (at_maxLength a) \<and> natural_limit (at_minLength a) \<and> natural_limit (at_maxItems a) \<and>
     natural_limit (at_minItems a) \<and> at_maxItems a \<noteq> Some ''0'' \<and>
     at_enum a = None \<and> at_exclusiveMaximum a = VUndef \<and> at_exclusiveMinimum a = VUndef \<and> at_multipleOf a = VUndef \<and>
     (case at_required a of ReqNames ns \<Rightarrow> at_type a = ''object'' \<and> (\<forall>k \<in> set ns. \<not> inherited k) | _ \<Rightarrow> True)"

text \<open>
  A value in the outer form of the schema: plain JavaScript without functions; an array, and one without
  \<open>null\<close> and \<open>NaN\<close> where its items are to be distinct, where an array is asked for; an object, a text or a
  file for an object; and no \<open>false\<close>, \<open>0\<close> or \<open>NaN\<close>, nor an empty text for a file, where a text or a file is
  asked for, since the page takes these for values that were not given.
\<close>

definition plain_node :: "attributes \<Rightarrow> pval \<Rightarrow> bool" where
  "plain_node a v \<longleftrightarrow>
     (case v of VList xs \<Rightarrow> False | VFun \<Rightarrow> False | VObj kvs \<Rightarrow> map_of kvs ''length'' = None | _ \<Rightarrow> True) \<and>
     (at_type a = ''array'' \<longrightarrow> nothing v \<or>
        (case v of VArr xs \<Rightarrow> at_unique a \<longrightarrow> list_all (\<lambda>x. \<not> nothing x \<and> x \<noteq> VNum ''NaN'') xs | _ \<Rightarrow> False)) \<and>
     (at_type a = ''object'' \<longrightarrow> nothing v \<or> (case v of VObj kvs \<Rightarrow> True | VStr t \<Rightarrow> True | VFile \<Rightarrow> True | _ \<Rightarrow> False)) \<and>
     (at_type a \<in> {''string'', ''file''} \<and> \<not> nothing v \<and> \<not> pv_truthy v \<longrightarrow> at_type a = ''string'' \<and> v = VStr [])"

definition own_member :: "(string \<times> pval) list \<Rightarrow> string \<Rightarrow> pval" where
  "own_member kvs k = (case map_of kvs k of None \<Rightarrow> VUndef | Some u \<Rightarrow> u)"

definition object_of :: "js_lib \<Rightarrow> pval \<Rightarrow> (string \<times> pval) list option" where
  "object_of lib v = (case parsed lib v of Some (VObj kvs) \<Rightarrow> Some kvs | _ \<Rightarrow> None)"

text \<open>
  A member whose schema lists required members of its own must be there: the page takes the list for the
  flag.
\<close>

definition object_given :: "attributes \<Rightarrow> pval \<Rightarrow> bool \<Rightarrow> bool" where
  "object_given a v must \<longleftrightarrow>
     (case at_required a of
        ReqNames ns \<Rightarrow> must \<or> at_nullable a \<and> v = VNull \<or> \<not> nothing v \<and> v \<noteq> VStr []
      | _ \<Rightarrow> True)"

function fits :: "js_lib \<Rightarrow> string option \<Rightarrow> schema \<Rightarrow> pval \<Rightarrow> bool \<Rightarrow> bool" where
  "fits lib ct (Schema a items props) v must \<longleftrightarrow>
     regular_attributes lib a \<and> plain_node a v \<and> object_given a v must \<and>
     (as_object ct a \<and> \<not> nothing v \<and> parsed lib v \<noteq> None \<longrightarrow>
        (case object_of lib v of
           None \<Rightarrow> False
         | Some kvs \<Rightarrow>
             list_all (\<lambda>(k, sc). \<not> inherited k \<and> fits lib ct sc (own_member kvs k) False)
               (case props of None \<Rightarrow> [] | Some ps \<Rightarrow> ps))) \<and>
     (case items of None \<Rightarrow> True | Some sc \<Rightarrow> list_all (\<lambda>u. fits lib ct sc u False) (elements a v))"
  by pat_completeness auto
termination
proof (relation "measure (\<lambda>(lib, ct, sc, v, must). size sc)", goal_cases)
  case (2 lib ct a items props v must kvs x k sc)
  then show ?case by (cases props) (auto dest!: size_list_estimation' [where f = "size_prod (\<lambda>_. 0) size" and y = "size sc"])
qed auto

text \<open>How long a text or an array is, and what the limits ask of it.\<close>

definition extent :: "pval \<Rightarrow> nat option" where
  "extent v = (case v of VStr s \<Rightarrow> Some (length s) | VArr xs \<Rightarrow> Some (length xs) | _ \<Rightarrow> None)"

definition at_most :: "nat option \<Rightarrow> string option \<Rightarrow> bool" where
  "at_most n m = (case (n, m) of (Some x, Some t) \<Rightarrow> x \<le> digits_value t | _ \<Rightarrow> True)"

definition at_least :: "nat option \<Rightarrow> string option \<Rightarrow> bool" where
  "at_least n m = (case (n, m) of (Some x, Some t) \<Rightarrow> digits_value t \<le> x | _ \<Rightarrow> True)"

text \<open>
  The grammars of a whole number, a decimal number and a uuid, which may stand between braces or parentheses.
\<close>

definition whole_text :: "string \<Rightarrow> bool" where
  "whole_text s \<longleftrightarrow> (\<exists>sign ds. s = sign @ ds \<and> sign \<in> {[], ''-''} \<and> natural ds)"

definition decimal_text :: "string \<Rightarrow> bool" where
  "decimal_text s \<longleftrightarrow>
     (\<exists>sign ds frac. s = sign @ ds @ frac \<and> sign \<in> {[], ''-''} \<and> natural ds \<and>
        (frac = [] \<or> (\<exists>fs. frac = CHR ''.'' # fs \<and> natural fs)))"

definition hex_text :: "nat \<Rightarrow> string \<Rightarrow> bool" where
  "hex_text n s \<longleftrightarrow> length s = n \<and> (\<forall>c \<in> set s. c \<in> set ''0123456789abcdef'')"

definition uuid_text :: "string \<Rightarrow> bool" where
  "uuid_text s \<longleftrightarrow>
     (\<exists>before a b c d e after.
        s = before @ a @ ''-'' @ b @ ''-'' @ c @ ''-'' @ d @ ''-'' @ e @ after \<and>
        before \<in> {[], ''{'', ''(''} \<and> after \<in> {[], ''}'', '')''} \<and>
        hex_text 8 a \<and> hex_text 4 b \<and> hex_text 4 c \<and> hex_text 4 d \<and> hex_text 12 e)"

text \<open>What a type asks for; upper and lower case are the same in a uuid.\<close>

definition well_typed :: "js_lib \<Rightarrow> attributes \<Rightarrow> pval \<Rightarrow> bool" where
  "well_typed lib a v \<longleftrightarrow>
     (if at_type a = ''string'' then
        (if at_format a = ''date-time'' then jl_date lib v
         else if at_format a = ''uuid'' then uuid_text (lower (jl_text lib v))
         else is_VStr v)
      else if at_type a = ''boolean'' then v \<in> {VStr ''true'', VStr ''false'', VBool True, VBool False}
      else if at_type a = ''number'' then decimal_text (jl_text lib v)
      else if at_type a = ''integer'' then whole_text (jl_text lib v)
      else if at_type a = ''array'' then (case v of VArr xs \<Rightarrow> True | _ \<Rightarrow> False)
      else at_type a = ''file'' \<longrightarrow> v = VFile)"

text \<open>
  A value is needed when the parameter is required or its schema says so by a flag; a list of required
  members asks for the members only. An empty text and an empty array are no values.
\<close>

definition needed :: "attributes \<Rightarrow> bool \<Rightarrow> bool" where
  "needed a must \<longleftrightarrow> must \<or> at_required a = ReqFlag True"

definition present :: "attributes \<Rightarrow> pval \<Rightarrow> bool" where
  "present a v \<longleftrightarrow> \<not> nothing v \<and> v \<noteq> VStr [] \<and> (at_type a = ''array'' \<longrightarrow> v \<noteq> VArr [])"

text \<open>What a schema asks of a value, one condition for each of its attributes.\<close>

definition node_satisfies :: "js_lib \<Rightarrow> attributes \<Rightarrow> pval \<Rightarrow> bool" where
  "node_satisfies lib a v \<longleftrightarrow>
     (at_pattern a = [] \<or> the (jl_regex lib (at_pattern a)) (jl_text lib v)) \<and>
     (case at_maximum a of None \<Rightarrow> True | Some t \<Rightarrow> \<not> jl_gt lib v t) \<and>
     (case at_minimum a of None \<Rightarrow> True | Some t \<Rightarrow> \<not> jl_lt lib v t) \<and>
     at_most (extent v) (at_maxLength a) \<and> at_least (extent v) (at_minLength a) \<and>
     well_typed lib a v \<and>
     (at_type a = ''array'' \<longrightarrow>
        at_most (extent v) (at_maxItems a) \<and> at_least (extent v) (at_minItems a) \<and>
        (at_unique a \<longrightarrow> sorted_wrt (\<lambda>x y. \<not> jl_same lib x y) (elements a v)))"

function satisfies :: "js_lib \<Rightarrow> string option \<Rightarrow> schema \<Rightarrow> pval \<Rightarrow> bool \<Rightarrow> bool" where
  "satisfies lib ct (Schema a items props) v must \<longleftrightarrow>
     at_type a = [] \<or> at_nullable a \<and> v = VNull \<or> nothing v \<and> \<not> needed a must \<or>
     \<not> nothing v \<and> (needed a must \<longrightarrow> present a v) \<and> node_satisfies lib a v \<and>
     (as_object ct a \<longrightarrow>
        (case object_of lib v of
           None \<Rightarrow> False
         | Some kvs \<Rightarrow>
             (case at_required a of ReqNames ns \<Rightarrow> list_all (\<lambda>k. own_member kvs k \<noteq> VUndef) ns | _ \<Rightarrow> True) \<and>
             list_all (\<lambda>(k, sc). satisfies lib ct sc (own_member kvs k) False)
               (case props of None \<Rightarrow> [] | Some ps \<Rightarrow> ps))) \<and>
     (case items of None \<Rightarrow> True | Some sc \<Rightarrow> list_all (\<lambda>u. satisfies lib ct sc u False) (elements a v))"
  by pat_completeness auto
termination
proof (relation "measure (\<lambda>(lib, ct, sc, v, must). size sc)", goal_cases)
  case (2 lib ct a items props v must kvs x k sc)
  then show ?case by (cases props) (auto dest!: size_list_estimation' [where f = "size_prod (\<lambda>_. 0) size" and y = "size sc"])
qed auto

section \<open>The expressions match the grammars\<close>

lemma natural_head: "natural (c # cs) \<Longrightarrow> is_digit c"
  by (simp add: natural_def)

lemma minus_off_natural: "natural ds \<Longrightarrow> minus_off (ds @ x) = ds @ x" "minus_off (CHR ''-'' # x) = x"
proof -
  show "natural ds \<Longrightarrow> minus_off (ds @ x) = ds @ x" by (cases ds) (auto simp: natural_def minus_off_def is_digit_def)
qed (simp add: minus_off_def)

lemma minus_off_sign: "\<exists>sign. s = sign @ minus_off s \<and> sign \<in> {[], ''-''}"
  by (cases s) (auto simp: minus_off_def)

lemma integer_text_iff: "integer_text s \<longleftrightarrow> whole_text s"
proof
  assume "integer_text s"
  then show "whole_text s" using minus_off_sign [of s] unfolding whole_text_def integer_text_def natural_def by blast
next
  assume "whole_text s"
  then show "integer_text s"
    using minus_off_natural(1) [where x = "[]"]
    by (auto simp: whole_text_def integer_text_def minus_off_natural(2)) (simp_all add: natural_def)
qed

lemma number_text_iff: "number_text s \<longleftrightarrow> decimal_text s"
proof
  assume n: "number_text s"
  define ds frac where "ds = takeWhile is_digit (minus_off s)" and "frac = dropWhile is_digit (minus_off s)"
  obtain sign where sign: "s = sign @ minus_off s" "sign \<in> {[], ''-''}" using minus_off_sign by blast
  have "minus_off s = ds @ frac" by (simp add: ds_def frac_def)
  then have whole: "s = sign @ ds @ frac" using sign(1) by simp
  have parts: "ds \<noteq> []" "frac = [] \<or> hd frac = CHR ''.'' \<and> tl frac \<noteq> [] \<and> list_all is_digit (tl frac)"
    using n unfolding number_text_def Let_def ds_def [symmetric] frac_def [symmetric] by blast+
  have "natural ds"
    using parts(1) by (auto simp: natural_def ds_def list_all_iff dest: set_takeWhileD)
  moreover have "frac = [] \<or> (\<exists>fs. frac = CHR ''.'' # fs \<and> natural fs)"
    using parts(2) by (cases frac) (auto simp: natural_def)
  ultimately show "decimal_text s" unfolding decimal_text_def
    by (intro exI [of _ sign] exI [of _ ds] exI [of _ frac] conjI whole sign(2))
next
  assume "decimal_text s"
  then obtain sign ds frac where s: "s = sign @ ds @ frac" "sign \<in> {[], ''-''}" "natural ds"
      "frac = [] \<or> (\<exists>fs. frac = CHR ''.'' # fs \<and> natural fs)"
    unfolding decimal_text_def by blast
  have m: "minus_off s = ds @ frac" using s(1-3) minus_off_natural by auto
  have "list_all is_digit ds" using s(3) by (simp add: natural_def)
  moreover have "frac = [] \<or> \<not> is_digit (hd frac)" using s(4) by (auto simp: is_digit_def)
  ultimately have "takeWhile is_digit (ds @ frac) = ds" "dropWhile is_digit (ds @ frac) = frac"
    by (cases frac; simp add: list_all_iff takeWhile_append dropWhile_append)+
  then show "number_text s" using s(3,4) by (auto simp: number_text_def m natural_def Let_def)
qed

lemma js_split_first:
  assumes "js_split sep s = w # ws" "ws \<noteq> []"
  shows "\<exists>x. s = w @ sep # x \<and> js_split sep x = ws"
  using assms
proof (induction s arbitrary: w)
  case (Cons c cs)
  show ?case
  proof (cases "c = sep")
    case False
    then obtain v where v: "js_split sep cs = v # ws" "w = c # v"
      using Cons.prems by (auto split: list.splits)
    then show ?thesis using Cons.IH Cons.prems(2) by fastforce
  qed (use Cons.prems in auto)
qed simp

lemma js_split_last: "js_split sep s = [w] \<Longrightarrow> s = w"
proof (induction s arbitrary: w)
  case (Cons c cs)
  then show ?case by (cases "js_split sep cs") (auto split: if_splits)
qed simp

lemma hex_text_part: "hex_text n s \<longleftrightarrow> hex_part n s"
  by (simp only: hex_text_def hex_part_def list_all_iff)

lemma hex_textD:
  assumes "hex_text n s"
  shows "length s = n" "CHR ''-'' \<notin> set s" "c \<in> set s \<Longrightarrow> c \<notin> set ''{(''" "c \<in> set s \<Longrightarrow> c \<notin> set '')}''"
proof -
  have in_hex: "c \<in> set s \<Longrightarrow> c \<in> set ''0123456789abcdef''" for c
    using assms unfolding hex_text_def by blast
  have "CHR ''-'' \<notin> set ''0123456789abcdef''" "set ''0123456789abcdef'' \<inter> set ''{('' = {}"
    "set ''0123456789abcdef'' \<inter> set '')}'' = {}"
    by simp_all
  then show "CHR ''-'' \<notin> set s" "c \<in> set s \<Longrightarrow> c \<notin> set ''{(''" "c \<in> set s \<Longrightarrow> c \<notin> set '')}''"
    using in_hex by blast+
  show "length s = n" using assms by (simp only: hex_text_def)
qed

lemma brace_facts:
  "\<exists>b. s = b @ open_off s \<and> b \<in> {[], ''{'', ''(''}"
  "\<exists>b. s = close_off s @ b \<and> b \<in> {[], ''}'', '')''}"
proof -
  show "\<exists>b. s = b @ open_off s \<and> b \<in> {[], ''{'', ''(''}" by (cases s) (auto simp: open_off_def)
  show "\<exists>b. s = close_off s @ b \<and> b \<in> {[], ''}'', '')''}"
    by (cases s rule: rev_cases) (auto simp: close_off_def)
qed

lemma braces_off:
  assumes "b \<in> {[], ''{'', ''(''}" "z \<in> {[], ''}'', '')''}" "x \<noteq> []" "hd x \<notin> set ''{(''" "last x \<notin> set '')}''"
  shows "close_off (open_off (b @ x @ z)) = x"
  using assms by (cases x) (auto simp: open_off_def close_off_def)

lemma is_uuid_iff: "is_uuid s \<longleftrightarrow> uuid_text s"
proof
  assume u: "is_uuid s"
  let ?t = "close_off (open_off s)"
  obtain a b c d e where p: "js_split (CHR ''-'') ?t = [a, b, c, d, e]"
      and h: "hex_part 8 a" "hex_part 4 b" "hex_part 4 c" "hex_part 4 d" "hex_part 12 e"
    using u by (auto simp: is_uuid_def split: list.splits)
  obtain x1 where 1: "?t = a @ CHR ''-'' # x1" "js_split (CHR ''-'') x1 = [b, c, d, e]" using js_split_first [OF p] by auto
  obtain x2 where 2: "x1 = b @ CHR ''-'' # x2" "js_split (CHR ''-'') x2 = [c, d, e]" using js_split_first [OF 1(2)] by auto
  obtain x3 where 3: "x2 = c @ CHR ''-'' # x3" "js_split (CHR ''-'') x3 = [d, e]" using js_split_first [OF 2(2)] by auto
  obtain x4 where 4: "x3 = d @ CHR ''-'' # x4" "js_split (CHR ''-'') x4 = [e]" using js_split_first [OF 3(2)] by auto
  obtain before after where "s = before @ open_off s" "before \<in> {[], ''{'', ''(''}" "open_off s = ?t @ after"
      "after \<in> {[], ''}'', '')''}"
    using brace_facts by metis
  moreover have "?t = a @ ''-'' @ b @ ''-'' @ c @ ''-'' @ d @ ''-'' @ e"
    using 1 2 3 4 js_split_last by simp
  ultimately have "s = before @ a @ ''-'' @ b @ ''-'' @ c @ ''-'' @ d @ ''-'' @ e @ after" by simp
  then show "uuid_text s"
    unfolding uuid_text_def hex_text_part using h \<open>before \<in> _\<close> \<open>after \<in> _\<close> by blast
next
  assume "uuid_text s"
  then obtain before a b c d e after where
    parts: "s = before @ a @ ''-'' @ b @ ''-'' @ c @ ''-'' @ d @ ''-'' @ e @ after"
    and s: "before \<in> {[], ''{'', ''(''}" "after \<in> {[], ''}'', '')''}"
    and h: "hex_text 8 a" "hex_text 4 b" "hex_text 4 c" "hex_text 4 d" "hex_text 12 e"
    unfolding uuid_text_def by blast
  let ?x = "a @ ''-'' @ b @ ''-'' @ c @ ''-'' @ d @ ''-'' @ e"
  have x: "s = before @ ?x @ after" by (simp add: parts)
  have ne: "a \<noteq> []" "e \<noteq> []" using hex_textD(1) [OF h(1)] hex_textD(1) [OF h(5)] by auto
  then have "hd ?x \<in> set a" "last ?x \<in> set e" by simp_all
  then have "hd ?x \<notin> set ''{(''" "last ?x \<notin> set '')}''" using hex_textD(3) [OF h(1)] hex_textD(4) [OF h(5)] by blast+
  moreover have "?x \<noteq> []" by simp
  ultimately have "close_off (open_off s) = ?x" unfolding x by (intro braces_off [OF s])
  moreover have "js_split (CHR ''-'') ?x = [a, b, c, d, e]"
    using js_split_word [where sep = "CHR ''-''"] hex_textD(2) [OF h(1)] hex_textD(2) [OF h(2)]
      hex_textD(2) [OF h(3)] hex_textD(2) [OF h(4)] hex_textD(2) [OF h(5)] by simp
  ultimately show "is_uuid s" using h by (simp add: is_uuid_def flip: hex_text_part)
qed

section \<open>The checks decide the conditions\<close>

text \<open>A check that raises nothing, and finds no error exactly when a condition holds.\<close>

definition decides :: "js_error + verr list \<Rightarrow> bool \<Rightarrow> bool" where
  "decides r P \<longleftrightarrow> (\<exists>es. r = Inr es \<and> (es = [] \<longleftrightarrow> P))"

lemma decides_flag: "decides (flag b e) (\<not> b)"
  by (simp add: decides_def flag_def)

lemma decides_none: "P \<Longrightarrow> decides (Inr []) P"
  by (simp add: decides_def)

lemma decides_one: "\<not> P \<Longrightarrow> decides (Inr [e]) P"
  by (simp add: decides_def)

lemma decides_app: "decides r P \<Longrightarrow> decides q Q \<Longrightarrow> decides (app r q) (P \<and> Q)"
  by (auto simp: decides_def app_def)

lemma decides_under: "decides r P \<Longrightarrow> decides (under f r) P"
  by (auto simp: decides_def under_def)

lemma decides_all: "(\<And>x. x \<in> set xs \<Longrightarrow> decides (f x) (P x)) \<Longrightarrow> decides (app_all (map f xs)) (list_all P xs)"
proof (induction xs)
  case (Cons x xs)
  then show ?case using decides_app [of "f x" "P x"] by (simp add: app_all_def)
qed (simp add: app_all_def decides_none)

lemma decides_cong: "decides r P \<Longrightarrow> P = Q \<Longrightarrow> decides r Q"
  by simp

lemma js_lib_lawsD:
  assumes "js_lib_laws lib"
  shows "\<not> jl_gt lib VUndef t" "\<not> jl_lt lib VUndef t"
    and "natural t \<Longrightarrow> jl_lt lib (VNum (show_nat n)) t \<longleftrightarrow> n < digits_value t"
    and "natural t \<Longrightarrow> jl_gt lib (VNum (show_nat n)) t \<longleftrightarrow> digits_value t < n"
    and "jl_same lib x x" "jl_same lib x y \<Longrightarrow> jl_same lib y x" "set (jl_visit lib ts) = set ts"
    and "jl_same lib x y \<Longrightarrow> y \<noteq> VNum ''NaN'' \<Longrightarrow> jl_equal lib x y"
    and "jl_text lib (VNum n') = n'" "jl_text lib (VBool b) = (if b then ''true'' else ''false'')"
  using assms unfolding js_lib_laws_def by blast+

lemma check_pattern_decides:
  assumes "regular_attributes lib a"
  shows "decides (check_pattern lib a v) (at_pattern a = [] \<or> the (jl_regex lib (at_pattern a)) (jl_text lib v))"
  using assms by (auto simp: check_pattern_def regular_attributes_def decides_def flag_def split: option.splits)

lemma pv_length_extent:
  assumes "plain_node a v" "\<not> nothing v"
  shows "pv_length lib v = Inr (case extent v of None \<Rightarrow> VUndef | Some n \<Rightarrow> VNum (show_nat n))"
  using assms by (cases v) (auto simp: plain_node_def nothing_def pv_length_def extent_def)

lemma check_most:
  assumes "js_lib_laws lib" "plain_node a v" "\<not> nothing v" "natural_limit m"
  shows "decides (check_length lib (jl_gt lib) err m v) (at_most (extent v) m)"
  using assms js_lib_lawsD(1,4) [OF assms(1)]
  by (auto simp: check_length_def pv_length_extent at_most_def natural_limit_def decides_def flag_def not_less
      split: option.splits)

lemma check_least:
  assumes "js_lib_laws lib" "plain_node a v" "\<not> nothing v" "natural_limit m"
  shows "decides (check_length lib (jl_lt lib) err m v) (at_least (extent v) m)"
  using assms js_lib_lawsD(2,3) [OF assms(1)]
  by (auto simp: check_length_def pv_length_extent at_least_def natural_limit_def decides_def flag_def not_less
      split: option.splits)

lemma at_least_zero: "at_least n (not_zero m) = at_least n m"
  by (auto simp: at_least_def not_zero_def digits_value_def split: option.splits)

lemma natural_not_zero: "natural_limit m \<Longrightarrow> natural_limit (not_zero m)"
  by (auto simp: natural_limit_def not_zero_def split: option.splits)

lemma check_lengths_decides:
  assumes "js_lib_laws lib" "regular_attributes lib a" "plain_node a v" "\<not> nothing v"
  shows "decides (check_lengths lib a v) (at_most (extent v) (at_maxLength a) \<and> at_least (extent v) (at_minLength a))"
  unfolding check_lengths_def
proof (rule decides_app)
  show "decides (check_length lib (jl_lt lib) err (not_zero (at_minLength a)) v) (at_least (extent v) (at_minLength a))" for err
    using check_least [OF assms(1,3,4) natural_not_zero, of "at_minLength a" err] assms(2)
    by (simp add: at_least_zero regular_attributes_def)
qed (use assms check_most in \<open>simp add: regular_attributes_def\<close>)

lemma check_items_decides:
  assumes "js_lib_laws lib" "regular_attributes lib a" "plain_node a v" "\<not> nothing v"
  shows "decides (check_items lib a v) (at_type a = ''array'' \<longrightarrow>
    at_least (extent v) (at_minItems a) \<and> at_most (extent v) (at_maxItems a))"
proof (cases "at_type a = ''array''")
  case True
  then have "pv_truthy v" using assms(3,4) by (auto simp: plain_node_def split: pval.splits)
  moreover have lim: "natural_limit (at_maxItems a)" "natural_limit (at_minItems a)" "not_zero (at_maxItems a) = at_maxItems a"
    using assms(2) by (auto simp: regular_attributes_def not_zero_def)
  moreover note decides_app [OF check_least [OF assms(1,3,4) natural_not_zero [OF lim(2)], of too_few]
      check_most [OF assms(1,3,4) lim(1), of too_many]]
  ultimately show ?thesis using True by (simp add: check_items_def at_least_zero)
qed (simp add: check_items_def decides_none)

lemma js_set_length: "length (js_set lib acc xs) \<le> length acc + length xs"
proof (induction xs arbitrary: acc)
  case (Cons x xs)
  then show ?case using Cons.IH [of "acc @ [x]"] Cons.IH [of acc] by (simp add: le_SucI)
qed simp

lemma js_set_full:
  "length (js_set lib acc xs) = length acc + length xs \<longleftrightarrow>
     sorted_wrt (\<lambda>x y. \<not> jl_same lib x y) xs \<and> (\<forall>x \<in> set xs. \<forall>y \<in> set acc. \<not> jl_same lib y x)"
proof (induction xs arbitrary: acc)
  case (Cons x xs)
  show ?case
  proof (cases "list_ex (\<lambda>y. jl_same lib y x) acc")
    case True
    then have "length (js_set lib acc (x # xs)) \<noteq> length acc + length (x # xs)"
      using js_set_length [of lib acc xs] by simp
    then show ?thesis using True by (auto simp: list_ex_iff)
  next
    case False
    then show ?thesis using Cons.IH [of "acc @ [x]"] by (auto simp: list_ex_iff)
  qed
qed simp

lemma repeated_none:
  assumes laws: "js_lib_laws lib" and nan: "list_all (\<lambda>x. x \<noteq> VNum ''NaN'') xs"
  shows "repeated lib xs = [] \<Longrightarrow> sorted_wrt (\<lambda>x y. \<not> jl_same lib x y) xs"
proof (rule ccontr)
  assume none: "repeated lib xs = []" and "\<not> sorted_wrt (\<lambda>x y. \<not> jl_same lib x y) xs"
  then obtain i j where ij: "i < j" "j < length xs" "jl_same lib (xs ! i) (xs ! j)"
    by (auto simp: sorted_wrt_iff_nth_less)
  let ?f = "filter (\<lambda>y. jl_equal lib y (xs ! i))"
  have number: "xs ! i \<noteq> VNum ''NaN''" using nan ij by (simp add: list_all_length)
  have same: "jl_equal lib (xs ! i) (xs ! i)" "jl_equal lib (xs ! j) (xs ! i)"
    using js_lib_lawsD(8) [OF laws _ number] js_lib_lawsD(5,6) [OF laws] ij(3) by blast+
  have "xs = take i xs @ xs ! i # drop (Suc i) xs" using ij by (simp add: id_take_nth_drop)
  then have "length (?f xs) = length (?f (take i xs)) + length (?f (xs ! i # drop (Suc i) xs))"
    by (metis filter_append length_append)
  moreover have "xs ! j \<in> set (drop (Suc i) xs)"
    using ij nth_drop [of "Suc i" xs "j - Suc i"] by (auto simp: in_set_conv_nth intro!: exI [of _ "j - Suc i"])
  then have "0 < length (?f (drop (Suc i) xs))" using same(2) by (auto simp: filter_empty_conv)
  ultimately have "1 < length (?f xs)" using same(1) by simp
  then have "i \<in> set (repeated lib xs)" using ij by (simp add: repeated_def)
  with none show False by simp
qed

lemma check_unique_decides:
  assumes laws: "js_lib_laws lib" and "plain_node a v" "\<not> nothing v"
  shows "decides (check_unique lib a v)
    (at_type a = ''array'' \<and> at_unique a \<longrightarrow> sorted_wrt (\<lambda>x y. \<not> jl_same lib x y) (elements a v))"
proof (cases "at_unique a \<and> at_type a = ''array''")
  case True
  then obtain xs where v: "v = VArr xs" and items: "list_all (\<lambda>x. \<not> nothing x \<and> x \<noteq> VNum ''NaN'') xs"
    using assms(2,3) by (auto simp: plain_node_def split: pval.splits)
  then have nan: "list_all (\<lambda>x. x \<noteq> VNum ''NaN'') xs" and there: "\<not> list_ex nothing xs"
    by (auto simp: list_all_iff list_ex_iff)
  have "length (js_set lib [] xs) < length xs \<longleftrightarrow> \<not> sorted_wrt (\<lambda>x y. \<not> jl_same lib x y) xs"
    using js_set_full [of lib "[]" xs] js_set_length [of lib "[]" xs] by auto
  moreover have "jl_visit lib (repeated lib xs) \<noteq> []" if "\<not> sorted_wrt (\<lambda>x y. \<not> jl_same lib x y) xs"
    using repeated_none [OF laws nan] js_lib_lawsD(7) [OF laws, of "repeated lib xs"] that by auto
  ultimately show ?thesis using True there by (auto simp: check_unique_def v elements_def decides_def duplicates_def)
qed (auto simp: check_unique_def intro: decides_none)

lemma check_bounds_decides:
  "decides (check_bounds lib a v)
     ((case at_maximum a of None \<Rightarrow> True | Some t \<Rightarrow> \<not> jl_gt lib v t) \<and>
      (case at_minimum a of None \<Rightarrow> True | Some t \<Rightarrow> \<not> jl_lt lib v t))"
  unfolding check_bounds_def
  by (rule decides_app) (auto intro: decides_none decides_flag split: option.splits)

lemma decides_if:
  "(b \<Longrightarrow> decides r P) \<Longrightarrow> (\<not> b \<Longrightarrow> decides q Q) \<Longrightarrow> decides (if b then r else q) (if b then P else Q)"
  by simp

lemma decides_flag_iff: "P \<longleftrightarrow> \<not> b \<Longrightarrow> decides (flag b e) P"
  using decides_flag [of b e] by simp

lemma check_type_decides:
  assumes "plain_node a v" "\<not> nothing v"
  shows "decides (check_type lib a v) (well_typed lib a v)"
proof -
  have arr: "at_type a = ''array'' \<Longrightarrow> (case v of VArr xs \<Rightarrow> True | _ \<Rightarrow> False)"
    and str: "at_type a = ''string'' \<Longrightarrow> (pv_truthy v \<and> \<not> is_VStr v) = (\<not> is_VStr v)"
    and upload: "at_type a = ''file'' \<Longrightarrow> pv_truthy v"
    using assms by (auto simp: plain_node_def split: pval.splits)
  show ?thesis
    unfolding check_type_def well_typed_def if_not_P [OF assms(2)] integer_text_iff number_text_iff is_uuid_iff
    using arr str upload
    by (intro decides_if decides_flag_iff; simp add: decides_none decides_flag_iff)
qed

section \<open>A value is accepted exactly when its schema holds\<close>

lemma exempt_iff:
  "exempt a v must \<longleftrightarrow> at_type a = [] \<or> at_nullable a \<and> v = VNull \<or> nothing v \<and> \<not> must_have a must"
  by (auto simp: exempt_def Let_def)

lemma nothing_provided: "nothing v \<Longrightarrow> \<not> provided a v"
  by (auto simp: nothing_def provided_def Let_def)

text \<open>When a value is there, needing it and having it provided is what its type and presence say.\<close>

lemma needed_must: "needed a must \<Longrightarrow> must_have a must"
  by (auto simp: needed_def must_have_def req_truthy_def)

lemma must_needed:
  "object_given a v must \<Longrightarrow> must_have a must \<Longrightarrow> \<not> needed a must \<Longrightarrow>
     at_nullable a \<and> v = VNull \<or> \<not> nothing v \<and> v \<noteq> VStr []"
  by (auto simp: object_given_def needed_def must_have_def req_truthy_def split: required.splits)

lemma provided_present: "provided a v \<Longrightarrow> present a v"
  by (cases v) (auto simp: provided_def present_def nothing_def Let_def)

lemma present_provided:
  assumes "js_lib_laws lib" "regular_attributes lib a" "plain_node a v" "at_type a \<noteq> []"
    and "present a v" "well_typed lib a v"
  shows "provided a v"
proof -
  have "\<not> decimal_text ''false''" "\<not> whole_text ''false''" "\<not> decimal_text ''NaN''" "\<not> whole_text ''NaN''"
    unfolding number_text_iff [symmetric] integer_text_iff [symmetric] by code_simp+
  then show ?thesis
    using assms js_lib_lawsD(9,10) [OF assms(1)]
    by (cases v) (auto simp: regular_attributes_def plain_node_def present_def provided_def well_typed_def nothing_def Let_def
        split: if_splits)
qed

lemma member_own: "\<not> inherited k \<Longrightarrow> pv_member lib (VObj kvs) k = Inr (own_member kvs k)"
  by (auto simp: pv_member_def own_member_def nothing_def inherited_def split: option.splits)

lemma missing_names_decides:
  assumes "regular_attributes lib a"
  shows "decides (missing_names lib a (VObj kvs))
    (case at_required a of ReqNames ns \<Rightarrow> list_all (\<lambda>k. own_member kvs k \<noteq> VUndef) ns | _ \<Rightarrow> True)"
proof (cases "at_required a")
  case (ReqNames ns)
  then have "\<not> inherited k" if "k \<in> set ns" for k using assms that by (simp add: regular_attributes_def)
  then show ?thesis
    unfolding missing_names_def ReqNames required.case
    by (intro decides_all) (simp add: member_own decides_flag_iff)
qed (simp_all add: missing_names_def decides_none)

lemma list_all_enumerate: "list_all (\<lambda>(i, u). P u) (enumerate n xs) = list_all P xs"
  by (induction xs arbitrary: n) auto

text \<open>The checks of one value without those of its members and items.\<close>

lemma node_decides:
  assumes "js_lib_laws lib" "regular_attributes lib a" "plain_node a v" "\<not> nothing v"
    and inner: "decides r P" "decides q Q"
  shows "decides
    (app r (app (check_pattern lib a v) (app (check_items lib a v) (app (check_unique lib a v)
      (app (check_lengths lib a v) (app (check_bounds lib a v) (app (check_type lib a v) q)))))))
    (node_satisfies lib a v \<and> P \<and> Q)"
  by (rule decides_cong [OF decides_app [OF inner(1) decides_app [OF check_pattern_decides [OF assms(2)]
        decides_app [OF check_items_decides [OF assms(1-4)] decides_app [OF check_unique_decides [OF assms(1,3,4)]
        decides_app [OF check_lengths_decides [OF assms(1-4)] decides_app [OF check_bounds_decides
        decides_app [OF check_type_decides [OF assms(3,4)] inner(2)]]]]]]]])
    (auto simp: node_satisfies_def)

lemma items_decide:
  assumes "\<And>sc u. items = Some sc \<Longrightarrow> u \<in> set us \<Longrightarrow> decides (check sc u) (ok sc u)"
  shows "decides
    (case items of None \<Rightarrow> Inr []
     | Some sc \<Rightarrow> app_all (map (\<lambda>(i, u). under (EIndex i) (check sc u)) (enumerate 0 us)))
    (case items of None \<Rightarrow> True | Some sc \<Rightarrow> list_all (ok sc) us)"
proof (cases items)
  case (Some sc)
  have "decides (app_all (map (\<lambda>(i, u). under (EIndex i) (check sc u)) (enumerate 0 us)))
      (list_all (\<lambda>(i, u). ok sc u) (enumerate 0 us))"
    using assms [OF Some] by (intro decides_all) (auto simp: in_set_enumerate_eq intro!: decides_under)
  then show ?thesis by (simp add: Some list_all_enumerate)
qed (simp add: decides_none)

lemma members_decide:
  assumes "regular_attributes lib a"
    and "\<And>k sc. (k, sc) \<in> set ps \<Longrightarrow> \<not> inherited k"
    and "\<And>k sc. (k, sc) \<in> set ps \<Longrightarrow> decides (check sc (own_member kvs k)) (ok sc (own_member kvs k))"
  shows "decides
    (app (missing_names lib a (VObj kvs))
      (app_all (map (\<lambda>(k, sc). case pv_member lib (VObj kvs) k of
                                 Inl e \<Rightarrow> Inl e | Inr u \<Rightarrow> under (EProp k) (check sc u)) ps)))
    ((case at_required a of ReqNames ns \<Rightarrow> list_all (\<lambda>k. own_member kvs k \<noteq> VUndef) ns | _ \<Rightarrow> True) \<and>
     list_all (\<lambda>(k, sc). ok sc (own_member kvs k)) ps)"
  by (intro decides_app missing_names_decides [OF assms(1)] decides_all)
    (auto simp: member_own assms(2) intro!: decides_under assms(3))

lemma validate_decides:
  "js_lib_laws lib \<Longrightarrow> fits lib ct sc v must \<Longrightarrow>
     decides (validateValueBySchema lib ct False sc v must) (satisfies lib ct sc v must)"
proof (induction "size sc" arbitrary: sc v must rule: less_induct)
  case less
  obtain a items props where sc: "sc = Schema a items props" by (cases sc)
  have fit: "regular_attributes lib a" "plain_node a v" and given: "object_given a v must"
    using less.prems(2) by (auto simp: sc)
  show ?case
  proof (cases "at_type a = [] \<or> at_nullable a \<and> v = VNull")
    case True
    then show ?thesis by (auto simp: sc exempt_iff intro: decides_none)
  next
    case typed: False
    show ?thesis
    proof (cases "nothing v")
      case True
      then have "needed a must = must_have a must" using must_needed [OF given] needed_must typed by auto
      then show ?thesis using True typed nothing_provided [of v a] by (auto simp: sc exempt_iff decides_def)
    next
      case there: False
      show ?thesis
      proof (cases "must_have a must \<and> \<not> provided a v")
        case True
        have "\<not> (present a v \<and> node_satisfies lib a v)"
          using present_provided [OF less.prems(1) fit] typed True by (auto simp: node_satisfies_def)
        moreover have "present a v" if "\<not> needed a must"
        proof -
          have "at_type a \<noteq> ''array''"
            using that True fit(1) by (auto simp: needed_def must_have_def req_truthy_def regular_attributes_def
                split: required.splits)
          then show ?thesis using must_needed [OF given _ that] True typed by (auto simp: present_def)
        qed
        ultimately have "\<not> satisfies lib ct sc v must" using typed there by (auto simp: sc)
        then show ?thesis using True there typed by (auto simp: sc exempt_iff decides_def)
      next
        case False
        then have present: "needed a must \<longrightarrow> present a v" using needed_must provided_present by blast
        have reached: "exempt a v must = False" "(at_type a = []) = False" "(at_nullable a \<and> v = VNull) = False"
          "nothing v = False" "(must_have a must \<and> \<not> provided a v) = False"
          using False there typed by (auto simp: exempt_iff)
        have items: "decides
            (case items of None \<Rightarrow> Inr []
             | Some sc \<Rightarrow> app_all (map (\<lambda>(i, u). under (EIndex i) (validateValueBySchema lib ct False sc u False))
                 (enumerate 0 (elements a v))))
            (case items of None \<Rightarrow> True | Some sc \<Rightarrow> list_all (\<lambda>u. satisfies lib ct sc u False) (elements a v))"
          using less.hyps [OF _ less.prems(1)] less.prems(2) by (intro items_decide) (auto simp: sc list_all_iff)
        show ?thesis
        proof (cases "as_object ct a")
          case False
          then show ?thesis
            using node_decides [OF less.prems(1) fit _ decides_none [of True] items] present by (simp add: sc reached)
        next
          case obj: True
          show ?thesis
          proof (cases "parsed lib v")
            case None
            then show ?thesis using obj by (simp add: sc reached object_of_def decides_def)
          next
            case (Some w)
            let ?ps = "case props of None \<Rightarrow> [] | Some ps \<Rightarrow> ps"
            obtain kvs where kvs: "w = VObj kvs" "object_of lib v = Some kvs"
              using less.prems(2) obj there Some by (auto simp: sc object_of_def split: pval.splits)
            have ps: "\<not> inherited k" "fits lib ct sc' (own_member kvs k) False" "size sc' < size sc"
              if "(k, sc') \<in> set ?ps" for k sc'
              using that less.prems(2) obj there Some kvs(2)
              by (auto simp: sc list_all_iff split: option.splits
                  dest!: size_list_estimation' [where f = "size_prod (\<lambda>_. 0) size" and y = "size sc'"])
            have "decides (validateValueBySchema lib ct False sc' (own_member kvs k) False) (satisfies lib ct sc' (own_member kvs k) False)"
              if "(k, sc') \<in> set ?ps" for k sc'
              using less.hyps [OF ps(3) less.prems(1) ps(2)] that by blast
            then have members: "decides
                (app (missing_names lib a (VObj kvs))
                  (app_all (map (\<lambda>(k, sc). case pv_member lib (VObj kvs) k of
                                             Inl e \<Rightarrow> Inl e
                                           | Inr u \<Rightarrow> under (EProp k) (validateValueBySchema lib ct False sc u False)) ?ps)))
                ((case at_required a of ReqNames ns \<Rightarrow> list_all (\<lambda>k. own_member kvs k \<noteq> VUndef) ns | _ \<Rightarrow> True) \<and>
                 list_all (\<lambda>(k, sc). satisfies lib ct sc (own_member kvs k) False) ?ps)"
              using members_decide [OF fit(1), where ps = ?ps and check = "\<lambda>sc u. validateValueBySchema lib ct False sc u False"
                  and ok = "\<lambda>sc u. satisfies lib ct sc u False"] ps(1) by blast
            show ?thesis
              using node_decides [OF less.prems(1) fit _ members items] obj Some kvs present by (simp add: sc reached)
          qed
        qed
      qed
    qed
  qed
qed


section \<open>Where the page differs from the description\<close>

definition typed :: "string \<Rightarrow> attributes" where
  "typed t = no_attributes\<lparr>at_type := t\<rparr>"

lemmas run_checks =
  typed_def no_attributes_def exempt_iff must_have_def req_truthy_def nothing_def provided_def Let_def as_object_def
  parsed_def app_def app_all_def under_def missing_names_def pv_member_def check_pattern_def check_items_def not_zero_def
  check_unique_def check_lengths_def check_length_def pv_length_def check_bounds_def check_type_def elements_def

text \<open>
  A member that is optional but whose own schema requires members is reported when it is missing: the list
  counts as the flag.
\<close>

lemma optional_object_reported:
  "validateValueBySchema lib None False
     (Schema (typed ''object'') None
       (Some [(''address'', Schema (typed ''object''\<lparr>at_required := ReqNames [''city'']\<rparr>) None None)])) (VObj []) must =
   Inr [EProp ''address'' (EText ''Required field is not provided'')]"
  by (simp add: run_checks inherited_def)

text \<open>
  The attributes that are kept with a schema but that no check reads: a value outside of the enumeration, at
  an exclusive bound or no multiple is accepted.
\<close>

lemma not_enforced:
  "validateValueBySchema lib ct bypass (Schema (a\<lparr>at_enum := en, at_exclusiveMaximum := x, at_exclusiveMinimum := n,
     at_multipleOf := m, at_default := d\<rparr>) items props) v must =
   validateValueBySchema lib ct bypass (Schema a items props) v must"
proof -
  let ?a = "a\<lparr>at_enum := en, at_exclusiveMaximum := x, at_exclusiveMinimum := n, at_multipleOf := m, at_default := d\<rparr>"
  have "exempt ?a v must = exempt a v must" "must_have ?a must = must_have a must" "provided ?a v = provided a v"
    "as_object ct ?a = as_object ct a" "missing_names lib ?a w = missing_names lib a w" "elements ?a v = elements a v"
    "check_pattern lib ?a v = check_pattern lib a v" "check_items lib ?a v = check_items lib a v"
    "check_unique lib ?a v = check_unique lib a v" "check_lengths lib ?a v = check_lengths lib a v"
    "check_bounds lib ?a v = check_bounds lib a v" "check_type lib ?a v = check_type lib a v" for w
    by (simp_all add: exempt_def must_have_def provided_def as_object_def missing_names_def elements_def check_pattern_def
        check_items_def check_unique_def check_lengths_def check_bounds_def check_type_def cong: option.case_cong)
  then show ?thesis by (simp only: validateValueBySchema.simps)
qed

text \<open>Items that are null: the search for the repeated one raises.\<close>

lemma null_items_raise:
  "js_lib_laws lib \<Longrightarrow>
   validateValueBySchema lib ct bypass (Schema (typed ''array''\<lparr>at_unique := True\<rparr>) None None) (VArr [VNull, VNull]) must =
     Inl (TypeError ''equals'')"
  using js_lib_lawsD(5) [of lib VNull] by (simp add: run_checks duplicates_def)

text \<open>A number or a truth value passes for an optional text when it is \<open>0\<close> or \<open>false\<close>.\<close>

lemma falsy_for_text:
  "validateValueBySchema lib ct bypass (Schema (typed ''string'') None None) (VBool False) False = Inr []"
  by (simp add: run_checks flag_def)

text \<open>With \<open>bypassRequiredCheck\<close> a required text that is not there has no length to compare.\<close>

lemma bypass_raises:
  "validateValueBySchema lib ct True (Schema (typed ''string''\<lparr>at_maxLength := Some ''5''\<rparr>) None None) VUndef True =
     Inl (TypeError ''length'')"
  by (simp add: run_checks)

text \<open>Distinct items are asked of a text, which has no \<open>toSet\<close>.\<close>

lemma text_for_items_raises:
  "c \<noteq> [] \<Longrightarrow> validateValueBySchema lib ct bypass (Schema (typed ''array''\<lparr>at_unique := True\<rparr>) None None) (VStr c) must =
     Inl (TypeError ''toSet'')"
  by (simp add: run_checks)

text \<open>No items at all cannot be asked for.\<close>

lemma no_items_not_enforced:
  "validateValueBySchema lib ct bypass (Schema (typed ''array''\<lparr>at_maxItems := Some ''0''\<rparr>) None None) (VArr xs) False = Inr []"
  by (simp add: run_checks)

end
