(* ===== verification/Js_Applications.thy ===== *)
theory Js_Applications
  imports Js_Base64 Js_Curl Js_Sha256 Js_Patch Js_Compare Js_Utils Js_Validate
begin

text \<open>
  The theorems about the page's functions applied to concrete inputs.
\<close>

theorem toByteArray_decodes_witness:
  "b64_decode ''TWE='' = Some [77, 97] \<and> toByteArray ''TWE='' = Inr [77, 97]
   \<and> b64_decode (''TW'' @ [CHR 0x0A] @ ''E='') = Some [77, 97] \<and> no_line_ends (''TW'' @ [CHR 0x0A] @ ''E='') = ''TWE=''"
proof -
  have enc: "b64_encode [77, 97] = ''TWE=''" by (simp add: b64_char_def b64_alphabet_def)
  then have d: "b64_decode ''TWE='' = Some [77, 97]" using b64_decode_encode [of "[77, 97]"] by metis
  have "CHR 0x0A \<notin> set ''TWE=''" "CHR 0x0D \<notin> set ''TWE=''" by simp_all
  then have "toByteArray ''TWE='' = Inr [77, 97]"
    using toByteArray_decodes [of "''TWE=''" "[77, 97]"] d by blast
  then show ?thesis using d by (simp add: b64_decode_def no_line_ends_def)
qed

definition snippet_request :: request where
  "snippet_request =
     \<lparr>req_curlOptions = Some [''-g''], req_method = ''POST'', req_url = ''https://node/?a=1&b=2'',
      req_headers = [(''X-Note'', ''it'' @ [CHR 0x27] @ ''s'')], req_body = ValueBody (JStr ''$(reboot)'')\<rparr>"

theorem bash_curl_words_witness:
  "\<exists>u. requestSnippetGenerator_curl_bash snippet_request = Inr u \<and>
       sh_words u = Some [''curl'', ''-g'', ''-X'', ''POST'', ''https://node/?a=1&b=2'', ''-H'',
                          ''X-Note: it'' @ [CHR 0x27] @ ''s'', ''-d'', ''$(reboot)'']"
proof -
  have w: "curl_words snippet_request =
      [''curl'', ''-g'', ''-X'', ''POST'', ''https://node/?a=1&b=2'', ''-H'',
       ''X-Note: it'' @ [CHR 0x27] @ ''s'', ''-d'', ''$(reboot)'']"
    by (simp add: curl_words_def body_words_def snippet_request_def)
  have "list_all literal (curl_words snippet_request)"
    unfolding w by (simp add: literal_def flag_like_def sh_plain_def)
  moreover have "\<not> form_without_map snippet_request"
    by (simp add: form_without_map_def multipart_header_def snippet_request_def lower_def to_lower_def)
  ultimately show ?thesis using bash_curl_words [of snippet_request] unfolding w by simp
qed

lemma pointerIsAParent_prefix_witness:
  "pointerIsAParent (normalizeJSONPath [''a/b'', ''c'']) (normalizeJSONPath [''a/b'']) \<and>
   \<not> pointerIsAParent (normalizeJSONPath [''ab'']) (normalizeJSONPath [''a''])"
  using pointerIsAParent_prefix [of "[''a/b'', ''c'']" "[''a/b'']"] pointerIsAParent_prefix [of "[''ab'']" "[''a'']"]
  by simp

lemma add_get_remove_witness:
  "\<exists>doc'. applyOperation (JObj [(''a'', JArr [JNum ''1''])]) \<lparr>op_kind = PAdd (JStr ''x''), op_path = ''/a/0''\<rparr>
            = Inr \<lparr>newDocument = doc', removed = None, got = None\<rparr>
     \<and> getValueByPointer doc' ''/a/0'' = Inr (Some (JStr ''x''))
     \<and> applyOperation doc' \<lparr>op_kind = PRemove, op_path = ''/a/0''\<rparr>
            = Inr \<lparr>newDocument = JObj [(''a'', JArr [JNum ''1''])], removed = Some (JStr ''x''), got = None\<rparr>"
  by (rule add_get_remove)
     (simp add: free_place_def path_tokens_def token_key_def child_of_def isInteger_def digits_value_def to_int32_def)

definition old_doc :: jsv where
  "old_doc = JObj [(''a/b'', JArr [JNum ''1'', JNum ''2'', JNum ''3'']), (''x'', JObj [(''y'', JBool True)])]"

definition new_doc :: jsv where
  "new_doc = JObj [(''x'', JObj [(''y'', JNull), (''z'', JArr [])]), (''a/b'', JArr [JNum ''1'', JStr ''two''])]"

lemma docs_fit:
  "doc_ok old_doc" "doc_ok new_doc" "is_container old_doc" "is_container new_doc" "kinds_agree old_doc new_doc"
  "kinds_agree new_doc old_doc"
  by (simp_all add: old_doc_def new_doc_def kinds_agree.simps)

theorem compare_then_apply_witness:
  "\<exists>ops d. compare_docs old_doc new_doc False = Inr ops \<and> applyPatch old_doc ops = Inr d \<and> json_eq d new_doc \<and> doc_ok d
     \<and> (ops = [] \<longleftrightarrow> json_eq old_doc new_doc)"
  by (rule compare_then_apply [OF docs_fit(1-5)])

theorem observer_replicates_witness:
  "\<exists>ps ob. observer_run (observe old_doc) [new_doc, old_doc] = Inr (ps, ob) \<and> applyPatch old_doc ps = Inr (ob_value ob)
     \<and> json_eq (ob_value ob) old_doc \<and> observer_generate ob old_doc False = Inr ([], ob)"
  using observer_replicates [of old_doc "[new_doc, old_doc]"] docs_fit by simp

theorem sha256_reference_witness:
  "\<exists>st. sha_feed [[97], [98, 99]] newSha256 = Some st
     \<and> hash_digest sha_update_block sha_hash st = Inr (fips_sha256 [97, 98, 99])"
  using sha256_reference [of "[[97], [98, 99]]"] by simp

theorem code_challenge_form_witness:
  "length (replicate 32 (7 :: byte)) = 32 \<and>
   (let v = generateCodeVerifier (replicate 32 7);
        c = b64toB64UrlEncoded (b64_encode (fips_sha256 (map (\<lambda>c. of_nat (of_char c)) v)))
    in length v = 43 \<and> set v \<subseteq> set url_alphabet \<and> createCodeChallenge v = Some (Inr c)
         \<and> length c = 43 \<and> set c \<subseteq> set url_alphabet)"
  using code_challenge_form [of "replicate 32 7"] by (simp only: length_replicate simp_thms)

lemma hashed_keys_keep_entries_witness:
  "\<exists>n. createObjWithHashedKeys [(''a'', FValue (JStr ''x'')), (''a'', FValue (JStr ''y''))] = Inr n
     \<and> distinct (map fst n)
     \<and> mset (map (\<lambda>(k, v). (extractKey k, v)) n) = mset [(''a'', FValue (JStr ''x'')), (''a'', FValue (JStr ''y''))]"
  by (rule hashed_keys_keep_entries)
     (simp add: plain_entry_def js_trim_def js_space_def inherited_def sublist_Cons_right)

text \<open>
  The standard library on what the parameter below uses: natural numbers, no regular expressions, one text that
  is JSON.
\<close>

definition page_value :: pval where
  "page_value = VObj [(''name'', VStr ''node''), (''tags'', VArr [VStr ''a'', VStr ''b''])]"

theorem hash_update_returns_witness:
  "\<exists>st'. hash_update sha_update_block [1, 2] (new_hash 0 0 sha_init) = Some st' \<and> h_len st' = 2 \<and> h_block st' = [] \<and>
     h_regs st' = sha_init"
  using hash_update_returns [of sha_update_block "[1, 2]" "new_hash 0 0 sha_init"] by (auto simp: new_hash_def)

definition page_lib :: js_lib where
  "page_lib =
     \<lparr>jl_gt = (\<lambda>v t. case v of VNum s \<Rightarrow> digits_value t < digits_value s | _ \<Rightarrow> False),
      jl_lt = (\<lambda>v t. case v of VNum s \<Rightarrow> digits_value s < digits_value t | _ \<Rightarrow> False),
      jl_regex = (\<lambda>p. None), jl_text = (\<lambda>v. case v of VStr s \<Rightarrow> s | VNum t \<Rightarrow> t | VBool b \<Rightarrow> if b then ''true'' else ''false'' | _ \<Rightarrow> []), jl_date = (\<lambda>v. False),
      jl_parse = (\<lambda>s. if s = ''{}'' then Some page_value else None), jl_prop = (\<lambda>v k. VUndef),
      jl_same = (=), jl_equal = (\<lambda>t e. t = e \<and> t \<noteq> VNum ''NaN''), jl_visit = (\<lambda>ts. ts)\<rparr>"

lemma page_lib_laws: "js_lib_laws page_lib"
  by (simp add: js_lib_laws_def page_lib_def digits_value_show)

definition page_schema :: schema where
  "page_schema =
     Schema (typed ''object''\<lparr>at_required := ReqNames [''name'']\<rparr>) None
       (Some [(''name'', Schema (typed ''string''\<lparr>at_maxLength := Some ''3''\<rparr>) None None),
              (''tags'', Schema (typed ''array''\<lparr>at_unique := True, at_minItems := Some ''1''\<rparr>)
                         (Some (Schema (typed ''string'') None None)) None)])"

definition page_parameter :: parameter where
  "page_parameter =
     \<lparr>pm_in = ''query'', pm_required = True, pm_schema = None,
      pm_content = Some [(''application/json'', Some page_schema)], pm_self = empty_schema\<rparr>"


end
