(* ===== verification/Spec2Isabelle.thy ===== *)
theory Spec2Isabelle
  imports Applications Daemon_Applications Boot_Applications Js_Applications
begin

text \<open>
  A verification library for zos4, the node software of the ThreeFold grid. A node runs a set of
  daemons that talk over a message bus, written in Go; a bootstrap program in Rust installs and starts
  them, and the provision daemon also serves a page that shows and calls the node's API, a Swagger user
  interface in JavaScript. The library models the part of the daemons that the repository implements
  itself, with the programs that start them, the bootstrap program, and functions of the page that handle
  its data. The packages of zosbase, the client of the registrar, the persisted queue, the flist database,
  the hub, the init system and the kernel are libraries that the code calls, and are parameters of
  the model.

  \<^bold>\<open>How the program works.\<close> A user sends a deployment, a list of workloads under a contract, to the
  provision engine (\<open>pkg/provision/engine.go\<close>). The engine checks it, stores it and queues a job;
  its run loop takes the jobs one at a time, validates them against the contract the registrar
  gateway (\<open>pkg/registrar_gateway\<close>) reports, and installs, removes, pauses, resumes or updates the
  workloads through the provisioner (\<open>pkg/provision/provisiner.go\<close>), recording each result in the
  storage. Around it the contract event handler (\<open>events.go\<close>) keeps the node in step with the chain,
  the capacity setter (\<open>cap.go\<close>) and the reporter (\<open>reporter.go\<close>) tell the chain what is used, the
  registrar (\<open>pkg/registrar_light\<close>) registers the node, the power server and the uptime reporter
  (\<open>pkg/power\<close>) follow its power target, and the upgrader (\<open>pkg/upgrade\<close>) installs new versions, which
  the update worker (\<open>tools/zos-update-worker\<close>) publishes. On a node that starts, \<open>cmds/internet\<close> attaches an
  interface to the bridge of the node, and the bootstrap program (\<open>bootstrap/bootstrap/src\<close>) first replaces
  itself, then installs every package of the tag that the kernel parameters select. The daemons are one
  binary (\<open>cmds/zos\<close>), which runs the one it is called by the name of: each of them (\<open>cmds/modules\<close>,
  \<open>cmds/identityd\<close>) makes its components, puts them on the bus and starts their goroutines, and the console
  (\<open>zui\<close>) shows what they answer. The page
  (\<open>cmds/modules/provisiond/swagger\<close>) resolves the references of the API description with JSON
  pointers and patches, sanitizes its links, logs a user in with a code challenge, and writes requests
  down as \<open>curl\<close> commands to copy.

  \<^bold>\<open>How the model is built.\<close> An operation with effects is a function \<open>'w \<Rightarrow> 'a \<times> 'w\<close> on a world \<open>'w\<close>
  that stays abstract; a library is a record of such functions, and what a theorem needs of it is a
  named predicate over the record (\<open>storage_laws\<close>, \<open>dque_laws\<close>, \<open>retry_laws\<close> and so on). Errors are
  values of the datatype \<open>goerr\<close>, with sentinels and wrapping; a Go panic is a value of its own.
  Unsigned integers are words of their width. The upgrader and the update worker work on an explicit
  file system. Log calls, metrics and sleeping have no effect.

  \<^bold>\<open>The theories.\<close>
  \<^item> \<open>Prelude\<close>: error values, effects, loops over a list that stop at or log the first error, retries,
    the persisted queue and views of the world that a call leaves alone (\<open>quiet\<close>). \<open>Go_Std\<close>: the
    functions of Go's library the code uses (hexadecimal, base 64, which is shown to be a round trip).
    \<open>Gridtypes\<close>: the data of zosbase that passes through the code, and its functions as a record.
  \<^item> \<open>Provisioner\<close> (\<open>provisiner.go\<close>): responses and results, the operations of the map provisioner, and
    the contract \<open>provisioner_contract\<close> the engine relies on, interpreted for it.
  \<^item> \<open>Gateway\<close> (\<open>registrar_gateway.go\<close>): every call of the gateway, and \<open>detached_gateway\<close>, what its
    chain calls amount to, from which the engine, the event handler and the power server derive how
    they behave with this gateway.
  \<^item> \<open>Auth\<close> (\<open>auth.go\<close>): the key databases, as three interpretations of one interface.
  \<^item> \<open>Engine_Base\<close>, \<open>Engine_Work\<close>, \<open>Engine_Run\<close>, \<open>Engine_Api\<close> (\<open>engine.go\<close>): the engine's record,
    options and context; the operations on workloads and deployments, refined to an abstract machine
    on workload records (\<open>wl_step\<close>); the calls that queue jobs, validation, boot and the run loop, with
    the reachable states of calls and passes (\<open>engine_reach\<close>); and the API of the node.
  \<^item> \<open>Events\<close>, \<open>Capacity\<close>, \<open>Reporter\<close> (\<open>events.go\<close>, \<open>cap.go\<close>, \<open>migration.go\<close>, \<open>reporter.go\<close>): the parts
    of the provision daemon around the engine. The event handler knows the engine by the interface
    \<open>job_api\<close>, which is interpreted for the engine's own calls.
  \<^item> \<open>Power_Server\<close> (\<open>power.go\<close>, \<open>uptime.go\<close>), \<open>Registrar\<close> (\<open>register.go\<close>, \<open>registrar.go\<close>, with the
    interleaving of a reader and the registration as a step relation).
  \<^item> \<open>Actions\<close>: outcomes with errors and panics, actions that may not return, their cleanup on leaving a
    scope, retries, and what holds of an action whatever it is called on (\<open>keeps\<close>, \<open>sound\<close>, \<open>returns\<close>).
    \<open>Daemon_Std\<close>: a daemon as a process with its world, its goroutines, the objects it offers and its output,
    and \<open>adds\<close>, which follows what a program adds to one of these wherever it breaks off.
  \<^item> \<open>Reporter_Run\<close> (\<open>reporter.go\<close>): the loop of the reporter with the end of its context, the goroutine that
    restarts it, and the pushers of several runs as a step relation. \<open>Provisiond\<close>, \<open>Daemons\<close> and \<open>Module_Daemons\<close>:
    the programs of the provision daemon; of the power, node and identity daemons and the update worker; and
    of the daemons around modules of zosbase, with \<open>zlf\<close>. \<open>Zos_Main\<close>: the dispatch of the one binary, and
    \<open>zbusdebug\<close>. \<open>Internet\<close>: the first connection. \<open>Console\<close>: the console.
  \<^item> \<open>Identityd\<close> (\<open>identityd.go\<close>, \<open>ssh.go\<close>): the identity manager and the file of authorized keys.
  \<^item> \<open>Files\<close>, \<open>Upgrade\<close>, \<open>Update_Worker\<close> (\<open>upgrade.go\<close>, \<open>update_worker.go\<close>): the file system, the
    upgrader on it with its two caches as interpretations of one interface, and the worker.
  \<^item> \<open>Rust_Std\<close>: paths, texts and file calls of Rust's library. \<open>Bootstrap\<close> (\<open>kparams.rs\<close>, \<open>config.rs\<close>, \<open>hub.rs\<close>, \<open>zfs.rs\<close>, \<open>workdir.rs\<close>, \<open>bootstrap.rs\<close>, \<open>main.rs\<close>): the
    bootstrap program, from its arguments to the exec of the next stage.
  \<^item> \<open>Js_Values\<close>: strings and JSON values of JavaScript. \<open>Js_Base64\<close> (\<open>swagger-ui-standalone-preset.js\<close>):
    the base 64 module. \<open>Js_Curl\<close> (\<open>swagger-ui-es-bundle-core.js\<close>): the \<open>curl\<close> commands, against a lexer
    for the words of a POSIX shell. \<open>Js_Sha256\<close> (\<open>swagger-ui-bundle.js\<close>): the class \<open>Hash\<close>, generic in its
    subclass and interpreted for \<open>Sha256\<close>, against FIPS 180-4, and the code challenge. \<open>Js_Patch\<close>
    (\<open>swagger-ui-es-bundle.js\<close>): JSON pointers and patches, a path being a lens on the document, and \<open>Js_Compare\<close> the comparison and the
    observation of documents, on edits addressed by names.
    \<open>Js_Utils\<close> (\<open>swagger-ui.js\<close>): links, stripped members, forms; \<open>Js_Validate\<close> (the same file): the validation
    of parameters, against what a schema asks of a value (\<open>satisfies\<close>).
  \<^item> \<open>Concrete\<close>, \<open>Applications\<close>, \<open>Daemon_Applications\<close>, \<open>Boot_Applications\<close> and \<open>Js_Applications\<close>: instances of every parameter on which all assumed laws are proved, and
    the theorems applied to concrete inputs.

  \<^bold>\<open>What is shown.\<close> For the engine: the loop processes every job in order, drains the queue and never panics, a job touches no
  other deployment, validation is sound, installing refines the abstract machine in startup order and keeps
  failed workloads, uninstalling cleans up in reverse order, updates are ordered, accepted and gated
  as intended, booting queues the active deployments. For its surroundings: synchronisation queues
  exactly the jobs the chain calls for; reports add up, are sent at least once and cover the time
  without gaps, to the second that is stored; migrations lose nothing; a registration leaves the node's data on
  the registrar, and the state is always that of an attempt to register; only an
  event for this node stops it; an update passes its gate, which a development network does not have, installs what is new with zos last, copies
  exactly, and never restarts the protected services; links follow the registrar; the node keeps its
  identity, and only configured users get into it on the main network. The bootstrap program replaces
  each file as a whole or not at all, downloads what the hub serves, exactly so where no longer file was, and
  does not panic on answers of the form it asserts. The
  provision daemon starts its parts in order and wired together wherever its start breaks off; the network
  bootstrap ends with an interface on the bridge; the daemons offer their objects only once they are ready;
  the table of services does not depend on the order of the answers. Some
  theorems record where the code does not do what it means to: a copy of the upgrader that breaks off
  loses the backup, an update of the bootstrap program that fails loses the program, the gateway's empty
  answers make the engine reject jobs and the synchronisation cancel deployments, the daily registration
  never runs, a node id can be read as 0, the goroutine of the reporter never ends, runs of it that overlap lose
  a report, and a failed migration loses the configuration of the machines.

  For the page: base 64 agrees with the daemons' one on texts without line ends and keeps to its lengths; the hash is SHA-256
  however its input is cut, its loop returns, and verifier and challenge have the form of RFC 7636; a
  generated command is read back by a shell as the words of the request, except where values that look
  like flags are not quoted; pointers read what they name and are parents of exactly what they prefix,
  an addition is undone by its removal, the patch between two documents turns the one into the other, and
  the patches of an observed document replicate it, unless an array stands for an object; no sanitized link has a scheme that runs code; no entry of a
  form is lost; validation reports an error exactly when a value of the right outer form breaks its schema, and
  seven lemmas after it say where it differs from the description.

  \<^bold>\<open>Bounds.\<close> The loops that run until the context ends take the number of passes as an argument
  (\<open>run_loop\<close>, \<open>pusher\<close>, \<open>uptime_loop\<close>, \<open>uptime_Start\<close>, \<open>run_updates\<close>); theorems hold for every number,
  and \<open>engine_drains\<close> says how many passes empty the queue. A retry is some number of attempts, the
  last of which alone may succeed (\<open>retry_run\<close>); the bootstrap program retries a fixed number of times (\<open>retry_take\<close>) or without end
  (\<open>retry_forever\<close>, a partial function whose result may be missing, the only reason for the program not to
  return). The loops \<open>wait_while\<close>, \<open>pass_loop\<close>, \<open>restart_loop\<close> and \<open>serve_again\<close> are such functions too; for the
  reporter's the theorem \<open>reporter_never_closed\<close> says that the result is missing. \<open>walk_tree\<close> is bounded by the number of entries,
  which \<open>walk_tree_for_err\<close> shows to be enough. The channel of the capacity setter holds 215 ids, as in
  the code. The loop \<open>hash_loop\<close> is a partial function whose result may be missing, and
  \<open>hash_update_returns\<close> says that it never is. Times of the reporter are 64-bit integers, and its theorem is for
  clocks within \<open>2 ^ 53\<close> seconds, which the float of the stored time holds exactly. Characters of the page are code units below 256;
  a length of its hash stays below the \<open>2 ^ 53\<close> bits a double counts exactly. No definition has fuel
  otherwise.

  \<^bold>\<open>What is not modelled.\<close> The generated bus clients and the calls that go through the bus on the other side;
  of the console, the layout of the widgets, floating point numbers as text and the table of resources;
  the file system of the embedded page. Of the bootstrap program, file modes, logging and the crates it uses. In the modelled files: logging, timeouts, tickers as such,
  signal handling and the recovery from panics. Goroutines are interleaved at the level of whole
  events, except in \<open>Registrar\<close> and \<open>Reporter_Run\<close>. Of the page, the named functions only: each of its five files is a
  bundle whose whole code is one minified line, with the user interface, React glue and
  third-party libraries in it, and those are not modelled. The lines of these files are therefore no
  measure of how much of them is modelled, which is a small part.
\<close>

end
